(* ===== verification/Latchway_Prelude.thy ===== *)
theory Latchway_Prelude
  imports
    Main
    "HOL-Library.Signed_Division"
    "HOL-Library.Word"
    "HOL-Library.Char_ord"
    "HOL-Library.List_Lexorder"
begin

text \<open>
  Shared vocabulary of the development: Go's 64-bit signed integers, Go error
  returns as values of a sum type, byte strings with their order, and the byte
  classes that the regular expressions of the program are built from.

  A Go \<open>int64\<close> is an \<open>int\<close>; every arithmetic operation of the source is one of
  \<open>add64\<close>, \<open>sub64\<close>, \<open>mul64\<close>, \<open>quot64\<close> and \<open>rem64\<close>, which reduce their result into
  the range of the type as the machine does.  That an operation does not overflow
  is therefore something to prove.  A Go \<open>string\<close> is a sequence of bytes, the type
  \<open>string\<close> of HOL, compared lexicographically by byte value.
\<close>

named_theorems go_arith
named_theorems go_result
named_theorems go_valid

section \<open>Signed 64-bit integers\<close>

abbreviation max_int64 :: int where
  "max_int64 \<equiv> 9223372036854775807"

abbreviation min_int64 :: int where
  "min_int64 \<equiv> - 9223372036854775808"

definition in64 :: "int \<Rightarrow> bool" where
  "in64 x \<longleftrightarrow> min_int64 \<le> x \<and> x \<le> max_int64"

definition wrap64 :: "int \<Rightarrow> int" where
  "wrap64 x = (x + 9223372036854775808) mod 18446744073709551616 - 9223372036854775808"

definition add64 :: "int \<Rightarrow> int \<Rightarrow> int" where
  "add64 a b = wrap64 (a + b)"

definition sub64 :: "int \<Rightarrow> int \<Rightarrow> int" where
  "sub64 a b = wrap64 (a - b)"

definition mul64 :: "int \<Rightarrow> int \<Rightarrow> int" where
  "mul64 a b = wrap64 (a * b)"

text \<open>
  Go's division truncates towards zero.  The two functions below are used where the
  divisor is a nonzero constant or has been checked to be nonzero; where the source
  divides by a variable, the model checks it and returns the run-time panic as an
  error value.
\<close>

definition quot64 :: "int \<Rightarrow> int \<Rightarrow> int" where
  "quot64 a b = wrap64 (a sdiv b)"

definition rem64 :: "int \<Rightarrow> int \<Rightarrow> int" where
  "rem64 a b = wrap64 (a smod b)"

section \<open>Error returns\<close>

text \<open>
  A Go function that returns a value and an error is a function into \<open>'e + 'a\<close>:
  \<open>Inl e\<close> is the early return of the error \<open>e\<close>.  \<open>andThen\<close> is the idiom
  \<open>x, err := f(); if err != nil { return err }\<close>.
\<close>

definition andThen :: "'e + 'a \<Rightarrow> ('a \<Rightarrow> 'e + 'b) \<Rightarrow> 'e + 'b" where
  "andThen r f = (case r of Inl e \<Rightarrow> Inl e | Inr x \<Rightarrow> f x)"

definition is_ok :: "'e + 'a \<Rightarrow> bool" where
  "is_ok r \<longleftrightarrow> (case r of Inl _ \<Rightarrow> False | Inr _ \<Rightarrow> True)"

section \<open>Byte strings and maps of byte strings\<close>

definition is_lower :: "char \<Rightarrow> bool" where
  "is_lower c \<longleftrightarrow> CHR ''a'' \<le> c \<and> c \<le> CHR ''z''"

definition is_upper :: "char \<Rightarrow> bool" where
  "is_upper c \<longleftrightarrow> CHR ''A'' \<le> c \<and> c \<le> CHR ''Z''"

definition is_digit :: "char \<Rightarrow> bool" where
  "is_digit c \<longleftrightarrow> CHR ''0'' \<le> c \<and> c \<le> CHR ''9''"

text \<open>
  The regular expressions \<open>^F R{lo,hi}$\<close> of the source: a first byte of class \<open>F\<close>
  followed by between \<open>lo\<close> and \<open>hi\<close> bytes of class \<open>R\<close>.
\<close>

fun head_tail_match :: "(char \<Rightarrow> bool) \<Rightarrow> (char \<Rightarrow> bool) \<Rightarrow> nat \<Rightarrow> nat \<Rightarrow> string \<Rightarrow> bool" where
  "head_tail_match F R lo hi [] = False"
| "head_tail_match F R lo hi (c # cs) =
     (F c \<and> lo \<le> length cs \<and> length cs \<le> hi \<and> list_all R cs)"

text \<open>Reading a Go map of strings: a missing key reads as the empty string.\<close>

definition go_get :: "(string \<rightharpoonup> string) \<Rightarrow> string \<Rightarrow> string" where
  "go_get m k = (case m k of None \<Rightarrow> [] | Some v \<Rightarrow> v)"

text \<open>
  The stable field patterns shared by several packages:
  \<open>^[a-z][a-z0-9_-]{0,62}$\<close> (identifiers of the configuration) and
  \<open>^[A-Za-z0-9_-]{43}$\<close> (an unpadded base64url SHA-256 digest).
\<close>

definition identifier_rest :: "char \<Rightarrow> bool" where
  "identifier_rest c \<longleftrightarrow> is_lower c \<or> is_digit c \<or> c = CHR ''_'' \<or> c = CHR ''-''"

definition identifierPattern :: "string \<Rightarrow> bool" where
  "identifierPattern s \<longleftrightarrow> head_tail_match is_lower identifier_rest 0 62 s"

definition base64url_char :: "char \<Rightarrow> bool" where
  "base64url_char c \<longleftrightarrow>
     is_upper c \<or> is_lower c \<or> is_digit c \<or> c = CHR ''_'' \<or> c = CHR ''-''"

definition digestPattern :: "string \<Rightarrow> bool" where
  "digestPattern s \<longleftrightarrow> length s = 43 \<and> list_all base64url_char s"

section \<open>Lemmas\<close>

lemma in64_wrap64 [simp, intro]: "in64 (wrap64 x)"
proof -
  have "0 \<le> (x + 9223372036854775808) mod 18446744073709551616"
    and "(x + 9223372036854775808) mod 18446744073709551616 < 18446744073709551616"
    by simp_all
  then show ?thesis unfolding wrap64_def in64_def by linarith
qed

lemma wrap64_range [simp]:
  "min_int64 \<le> x \<Longrightarrow> x \<le> max_int64 \<Longrightarrow> wrap64 x = x"
  by (simp add: wrap64_def)

lemma wrap64_nonneg [simp]: "0 \<le> x \<Longrightarrow> x \<le> max_int64 \<Longrightarrow> wrap64 x = x"
  by (simp add: wrap64_def)

lemma wrap64_in64 [simp]: "in64 x \<Longrightarrow> wrap64 x = x"
  by (simp add: in64_def)

lemma in64I [intro]: "min_int64 \<le> x \<Longrightarrow> x \<le> max_int64 \<Longrightarrow> in64 x"
  by (simp add: in64_def)

lemma wrap64_cong: "wrap64 x mod 18446744073709551616 = x mod 18446744073709551616"
  unfolding wrap64_def by (simp add: mod_diff_left_eq)

lemma add64_exact [go_arith]:
  "min_int64 \<le> a + b \<Longrightarrow> a + b \<le> max_int64 \<Longrightarrow> add64 a b = a + b"
  by (simp add: add64_def)

lemma sub64_exact [go_arith]:
  "min_int64 \<le> a - b \<Longrightarrow> a - b \<le> max_int64 \<Longrightarrow> sub64 a b = a - b"
  by (simp add: sub64_def)

lemma mul64_exact [go_arith]:
  "min_int64 \<le> a * b \<Longrightarrow> a * b \<le> max_int64 \<Longrightarrow> mul64 a b = a * b"
  by (simp add: mul64_def)

lemma sdiv_nonneg: "0 \<le> a \<Longrightarrow> 0 < b \<Longrightarrow> (a :: int) sdiv b = a div b"
  by (cases "a = 0") (simp_all add: signed_divide_int_def)

lemma smod_nonneg: "0 \<le> a \<Longrightarrow> 0 < b \<Longrightarrow> (a :: int) smod b = a mod b"
  by (cases "a = 0") (simp_all add: signed_modulo_int_def)

lemma div_le_self_int: "0 \<le> a \<Longrightarrow> 0 < b \<Longrightarrow> (a :: int) div b \<le> a"
  by (metis div_by_1 int_one_le_iff_zero_less zdiv_mono2 zero_less_one)

lemma le_div_iff_int: "0 < (f :: int) \<Longrightarrow> n \<le> m div f \<longleftrightarrow> n * f \<le> m"
proof
  assume f: "0 < f" and "n \<le> m div f"
  then have "n * f \<le> m div f * f" by (simp add: mult_right_mono)
  also have "\<dots> \<le> m" using f div_mult_mod_eq [of m f] pos_mod_sign [of f m] by linarith
  finally show "n * f \<le> m" .
next
  assume "0 < f" and "n * f \<le> m"
  then show "n \<le> m div f" using zdiv_mono1 [of "n * f" m f] by simp
qed

lemma quot64_exact [go_arith]:
  assumes "0 \<le> a" and "a \<le> max_int64" and "0 < b"
  shows "quot64 a b = a div b"
proof -
  have "0 \<le> a div b" using assms by (simp add: pos_imp_zdiv_nonneg_iff)
  moreover have "a div b \<le> max_int64"
    using div_le_self_int [OF assms(1,3)] assms(2) by linarith
  ultimately show ?thesis
    using assms by (simp add: quot64_def sdiv_nonneg)
qed

lemma rem64_exact [go_arith]:
  assumes "0 \<le> a" and "a \<le> max_int64" and "0 < b"
  shows "rem64 a b = a mod b"
proof -
  have "0 \<le> a mod b" using assms by simp
  moreover have "a mod b \<le> max_int64"
    using zmod_le_nonneg_dividend [OF assms(1), of b] assms(2) by linarith
  ultimately show ?thesis
    using assms by (simp add: rem64_def smod_nonneg)
qed

lemma andThen_Inr [simp]: "andThen (Inr x) f = f x"
  and andThen_Inl [simp]: "andThen (Inl e) f = Inl e"
  by (simp_all add: andThen_def)

lemma andThen_eq_Inr [go_result]:
  "andThen r f = Inr y \<longleftrightarrow> (\<exists>x. r = Inr x \<and> f x = Inr y)"
  by (cases r) auto

lemma andThen_eq_Inl [go_result]:
  "andThen r f = Inl e \<longleftrightarrow> r = Inl e \<or> (\<exists>x. r = Inr x \<and> f x = Inl e)"
  by (cases r) auto

lemma is_ok_simps [simp]: "is_ok (Inr x)" "\<not> is_ok (Inl e)"
  by (simp_all add: is_ok_def)

lemma is_ok_iff: "is_ok r \<longleftrightarrow> (\<exists>x. r = Inr x)"
  by (cases r) auto

lemma head_tail_match_nonempty [dest]: "head_tail_match F R lo hi s \<Longrightarrow> s \<noteq> []"
  by (cases s) auto

lemma identifierPattern_nonempty [simp]: "\<not> identifierPattern []"
  by (simp add: identifierPattern_def)

lemma go_get_update [simp]: "go_get (m(k \<mapsto> v)) k' = (if k' = k then v else go_get m k')"
  by (simp add: go_get_def)

lemma go_get_empty [simp]: "go_get Map.empty k = []"
  by (simp add: go_get_def)

end
