(* ===== verification/Pricing.thy ===== *)
theory Pricing
  imports Latchway_Prelude
begin

text \<open>
  Configured prices (\<open>src/internal/pricing/pricing.go\<close>): the charge of one upstream
  attempt in integer nano-USD, computed with a full 128-bit product and rounded up
  per component.  Unsigned 64-bit values are \<open>64 word\<close>s.
\<close>

section \<open>Model\<close>

datatype pricing_error = PricingInvalidInput | PricingOverflow | PricingPanic

record pricing_rates =
  InputNanoUSDPerMillion :: int
  OutputNanoUSDPerMillion :: int
  RequestNanoUSD :: int

record pricing_usage =
  usageInputTokens :: int
  usageOutputTokens :: int

record pricing_source =
  catalogID :: string
  priceRevision :: string

record pricing_result =
  resultSource :: pricing_source
  requestCostNanoUSD :: int
  inputCostNanoUSD :: int
  outputCostNanoUSD :: int
  totalCostNanoUSD :: int
  resultKnown :: bool

text \<open>\<open>^rev_[0-7][0-9A-HJKMNPQRSTVWXYZ]{25}$\<close>\<close>

definition crockford_char :: "char \<Rightarrow> bool" where
  "crockford_char c \<longleftrightarrow> is_digit c \<or> (is_upper c \<and> c \<notin> {CHR ''I'', CHR ''L'', CHR ''O'', CHR ''U''})"

definition octal_char :: "char \<Rightarrow> bool" where
  "octal_char c \<longleftrightarrow> CHR ''0'' \<le> c \<and> c \<le> CHR ''7''"

definition configRevisionPattern :: "string \<Rightarrow> bool" where
  "configRevisionPattern s \<longleftrightarrow>
     take 4 s = ''rev_'' \<and> head_tail_match octal_char crockford_char 25 25 (drop 4 s)"

definition catalogIDPattern :: "string \<Rightarrow> bool" where
  "catalogIDPattern s \<longleftrightarrow> head_tail_match is_lower identifier_rest 0 62 s"

definition source_valid :: "pricing_source \<Rightarrow> bool" where
  "source_valid source \<longleftrightarrow>
     catalogIDPattern (catalogID source) \<and> configRevisionPattern (priceRevision source)"

definition NewSource :: "string \<Rightarrow> string \<Rightarrow> pricing_error + pricing_source" where
  "NewSource catalog revision =
     (let source = \<lparr>catalogID = catalog, priceRevision = revision\<rparr> in
      if \<not> source_valid source then Inl PricingInvalidInput else Inr source)"

text \<open>\<open>bits.Mul64\<close> and \<open>bits.Div64\<close> of Go's \<open>math/bits\<close>; the division panics on a zero
  divisor and on a quotient wider than 64 bits.\<close>

definition bits_Mul64 :: "64 word \<Rightarrow> 64 word \<Rightarrow> 64 word \<times> 64 word" where
  "bits_Mul64 x y = (word_of_int (uint x * uint y div 18446744073709551616), x * y)"

definition bits_Div64 :: "64 word \<Rightarrow> 64 word \<Rightarrow> 64 word \<Rightarrow> pricing_error + 64 word \<times> 64 word" where
  "bits_Div64 hi lo y =
     (if y = 0 \<or> y \<le> hi then Inl PricingPanic
      else let n = uint hi * 18446744073709551616 + uint lo in
        Inr (word_of_int (n div uint y), word_of_int (n mod uint y)))"

abbreviation tokensPerMillion :: "64 word" where
  "tokensPerMillion \<equiv> 1000000"

definition roundedTokenCost :: "int \<Rightarrow> int \<Rightarrow> pricing_error + int" where
  "roundedTokenCost tokens nanoUSDPerMillion =
     (if tokens = 0 \<or> nanoUSDPerMillion = 0 then Inr 0
      else
        let (high, low) = bits_Mul64 (word_of_int tokens) (word_of_int nanoUSDPerMillion) in
        if high \<ge> tokensPerMillion then Inl PricingOverflow
        else andThen (bits_Div64 high low tokensPerMillion) (\<lambda>(quotient, remainder).
          if remainder \<noteq> 0 \<and> quotient \<ge> word_of_int max_int64 then Inl PricingOverflow
          else
            let quotient' = (if remainder \<noteq> 0 then quotient + 1 else quotient) in
            if quotient' > word_of_int max_int64 then Inl PricingOverflow
            else Inr (sint quotient')))"

definition checkedAdd :: "int \<Rightarrow> int \<Rightarrow> int option" where
  "checkedAdd left right =
     (if left > sub64 max_int64 right then None else Some (add64 left right))"

definition Calculate ::
  "pricing_rates \<Rightarrow> pricing_usage \<Rightarrow> pricing_source \<Rightarrow> pricing_error + pricing_result" where
  "Calculate rates usage source =
     (if \<not> source_valid source \<or> InputNanoUSDPerMillion rates < 0 \<or>
         OutputNanoUSDPerMillion rates < 0 \<or> RequestNanoUSD rates < 0 \<or>
         usageInputTokens usage < 0 \<or> usageOutputTokens usage < 0
      then Inl PricingInvalidInput
      else
        andThen (roundedTokenCost (usageInputTokens usage) (InputNanoUSDPerMillion rates))
          (\<lambda>inputCost.
        andThen (roundedTokenCost (usageOutputTokens usage) (OutputNanoUSDPerMillion rates))
          (\<lambda>outputCost.
        case checkedAdd (RequestNanoUSD rates) inputCost of
          None \<Rightarrow> Inl PricingOverflow
        | Some subtotal \<Rightarrow>
            (case checkedAdd subtotal outputCost of
              None \<Rightarrow> Inl PricingOverflow
            | Some grand \<Rightarrow>
                Inr \<lparr>resultSource = source, requestCostNanoUSD = RequestNanoUSD rates,
                  inputCostNanoUSD = inputCost, outputCostNanoUSD = outputCost,
                  totalCostNanoUSD = grand, resultKnown = True\<rparr>))))"

section \<open>Lemmas\<close>

text \<open>Division by a million rounded up, the number the price list means.\<close>

definition ceil_million :: "int \<Rightarrow> int" where
  "ceil_million n = - ((- n) div 1000000)"

lemma ceil_million_cases:
  "ceil_million n = (if n mod 1000000 = 0 then n div 1000000 else n div 1000000 + 1)"
  unfolding ceil_million_def by (simp add: zdiv_zminus1_eq_if)

lemma ceil_million_nonneg: "0 \<le> n \<Longrightarrow> 0 \<le> ceil_million n"
  by (simp add: ceil_million_cases pos_imp_zdiv_nonneg_iff)

lemma uint_nonneg_int64:
  assumes "0 \<le> x" "x \<le> max_int64"
  shows "uint (word_of_int x :: 64 word) = x"
  using assms by (simp add: uint_word_of_int)

lemma sint_small:
  assumes "uint (w :: 64 word) \<le> max_int64"
  shows "sint w = uint w"
proof -
  have "- (2 ^ 63) \<le> uint w" using uint_ge_0 [of w] by (rule order_trans [rotated]) simp
  then show ?thesis
    using assms signed_take_bit_int_eq_self [of 63 "uint w"] by (simp add: sint_uint)
qed

lemma roundedTokenCost_eq:
  assumes t: "0 \<le> tokens" "tokens \<le> max_int64" and r: "0 \<le> rate" "rate \<le> max_int64"
  shows "roundedTokenCost tokens rate =
    (if ceil_million (tokens * rate) \<le> max_int64 then Inr (ceil_million (tokens * rate))
     else Inl PricingOverflow)"
proof (cases "tokens = 0 \<or> rate = 0")
  case True
  then show ?thesis by (auto simp: roundedTokenCost_def ceil_million_def)
next
  case False
  define p where "p = tokens * rate"
  define hi where "hi = p div 18446744073709551616"
  define lo where "lo = p mod 18446744073709551616"
  have p: "0 \<le> p" "p < 18446744073709551616 * 18446744073709551616"
  proof -
    show "0 \<le> p" using t r by (simp add: p_def)
    have "p \<le> max_int64 * max_int64" unfolding p_def using t r by (intro mult_mono) auto
    then show "p < 18446744073709551616 * 18446744073709551616" by simp
  qed
  then have hib: "0 \<le> hi" "hi < 18446744073709551616" by (auto simp: hi_def)
  have lob: "0 \<le> lo" "lo < 18446744073709551616" by (auto simp: lo_def)
  have plh: "hi * 18446744073709551616 + lo = p" by (simp add: hi_def lo_def)
  have uhi: "uint (word_of_int hi :: 64 word) = hi" using hib by (simp add: uint_word_of_int)
  have ulo: "uint (word_of_int tokens * word_of_int rate :: 64 word) = lo"
    using t r by (simp add: uint_word_ariths uint_nonneg_int64 lo_def p_def)
  have mul: "bits_Mul64 (word_of_int tokens) (word_of_int rate) =
      (word_of_int hi, word_of_int tokens * word_of_int rate)"
    using t r by (simp add: bits_Mul64_def uint_nonneg_int64 hi_def p_def)
  have hige: "(word_of_int hi :: 64 word) \<ge> tokensPerMillion \<longleftrightarrow> hi \<ge> 1000000"
    by (simp add: word_le_def uhi)
  show ?thesis
  proof (cases "hi \<ge> 1000000")
    case True
    have "18446744073709551616000000 \<le> p" using True lob plh by linarith
    then have "18446744073709551616 \<le> p div 1000000" by simp
    then have "\<not> ceil_million p \<le> max_int64" by (simp add: ceil_million_cases)
    then show ?thesis using False True mul hige by (simp add: roundedTokenCost_def p_def)
  next
    case hi_small: False
    define q where "q = p div 1000000"
    define m where "m = p mod 1000000"
    have pb: "p < 1000000 * 18446744073709551616" using hi_small lob plh by linarith
    then have q: "0 \<le> q" "q < 18446744073709551616" using p by (auto simp: q_def)
    have m: "0 \<le> m" "m < 1000000" by (auto simp: m_def)
    have uq: "uint (word_of_int q :: 64 word) = q" and um: "uint (word_of_int m :: 64 word) = m"
      using q m by (simp_all add: uint_word_of_int)
    have dv: "bits_Div64 (word_of_int hi) (word_of_int tokens * word_of_int rate) tokensPerMillion =
        Inr (word_of_int q, word_of_int m)"
      using hi_small hib by (simp add: bits_Div64_def Let_def uhi ulo plh q_def m_def word_le_def)
    have mz: "(word_of_int m :: 64 word) = 0 \<longleftrightarrow> m = 0" using um by (metis uint_0_iff)
    have qge: "(word_of_int q :: 64 word) \<ge> word_of_int max_int64 \<longleftrightarrow> q \<ge> max_int64"
      and qgt: "(word_of_int q :: 64 word) > word_of_int max_int64 \<longleftrightarrow> q > max_int64"
      by (simp_all add: word_le_def word_less_def uq)
    have cm: "ceil_million p = (if m = 0 then q else q + 1)"
      by (simp add: ceil_million_cases q_def m_def)
    have head: "roundedTokenCost tokens rate =
        (if m \<noteq> 0 \<and> q \<ge> max_int64 then Inl PricingOverflow
         else let q' = (if m \<noteq> 0 then word_of_int q + 1 else word_of_int q :: 64 word) in
           if q' > word_of_int max_int64 then Inl PricingOverflow else Inr (sint q'))"
      using False hi_small mul hige dv mz qge by (simp add: roundedTokenCost_def Let_def)
    show ?thesis
    proof (cases "m = 0")
      case True
      then show ?thesis using head cm qgt uq by (auto simp: Let_def sint_small simp flip: p_def)
    next
      case m0: False
      show ?thesis
      proof (cases "q \<ge> max_int64")
        case True
        then show ?thesis using head cm m0 by (simp flip: p_def)
      next
        case False
        then have u1: "uint (word_of_int q + 1 :: 64 word) = q + 1"
          using q by (simp add: uint_word_of_int flip: wi_hom_succ word_succ_alt)
            (simp add: uint_word_ariths uq)
        then have "\<not> (word_of_int q + 1 :: 64 word) > word_of_int max_int64"
          using False by (simp add: word_less_def)
        moreover have "sint (word_of_int q + 1 :: 64 word) = q + 1"
          using sint_small [of "word_of_int q + 1"] u1 False by simp
        ultimately show ?thesis using head cm m0 False by (simp add: Let_def flip: p_def)
      qed
    qed
  qed
qed

lemma checkedAdd_eq:
  assumes "0 \<le> left" "left \<le> max_int64" "0 \<le> right" "right \<le> max_int64"
  shows "checkedAdd left right = (if left + right \<le> max_int64 then Some (left + right) else None)"
  using assms by (auto simp: checkedAdd_def go_arith)

definition configured_charge :: "pricing_rates \<Rightarrow> pricing_usage \<Rightarrow> int" where
  "configured_charge rates usage = RequestNanoUSD rates
     + ceil_million (usageInputTokens usage * InputNanoUSDPerMillion rates)
     + ceil_million (usageOutputTokens usage * OutputNanoUSDPerMillion rates)"

definition ex_rates :: pricing_rates where
  "ex_rates = \<lparr>InputNanoUSDPerMillion = 2500000000, OutputNanoUSDPerMillion = 10000000000,
     RequestNanoUSD = 7\<rparr>"

definition ex_source :: pricing_source where
  "ex_source = \<lparr>catalogID = ''openai'', priceRevision = ''rev_01ARZ3NDEKTSV4RRFFQ69G5FAV''\<rparr>"

section \<open>Properties\<close>

text \<open>
  C6.  The charge is exact.  For 64-bit inputs, \<open>Calculate\<close> rejects a negative number or
  a malformed source, reports overflow exactly when request fee plus the two
  rounded-up token costs exceed the largest \<open>int64\<close>, and otherwise returns these
  components and their sum.  The 128-bit product never makes a representable charge
  fail, and the division never panics.
\<close>

theorem calculate_exact:
  assumes b: "InputNanoUSDPerMillion rates \<le> max_int64" "OutputNanoUSDPerMillion rates \<le> max_int64"
    "RequestNanoUSD rates \<le> max_int64" "usageInputTokens usage \<le> max_int64"
    "usageOutputTokens usage \<le> max_int64"
  shows "Calculate rates usage source =
    (if \<not> source_valid source \<or> InputNanoUSDPerMillion rates < 0 \<or> OutputNanoUSDPerMillion rates < 0 \<or>
        RequestNanoUSD rates < 0 \<or> usageInputTokens usage < 0 \<or> usageOutputTokens usage < 0
     then Inl PricingInvalidInput
     else if configured_charge rates usage > max_int64 then Inl PricingOverflow
     else Inr \<lparr>resultSource = source, requestCostNanoUSD = RequestNanoUSD rates,
       inputCostNanoUSD = ceil_million (usageInputTokens usage * InputNanoUSDPerMillion rates),
       outputCostNanoUSD = ceil_million (usageOutputTokens usage * OutputNanoUSDPerMillion rates),
       totalCostNanoUSD = configured_charge rates usage, resultKnown = True\<rparr>)"
    (is "?calc = (if ?bad then _ else _)")
proof (cases ?bad)
  case True
  then show ?thesis by (simp add: Calculate_def)
next
  case ok: False
  define i where "i = ceil_million (usageInputTokens usage * InputNanoUSDPerMillion rates)"
  define out where "out = ceil_million (usageOutputTokens usage * OutputNanoUSDPerMillion rates)"
  have nn: "0 \<le> i" "0 \<le> out" using ok by (simp_all add: i_def out_def ceil_million_nonneg)
  have ri: "roundedTokenCost (usageInputTokens usage) (InputNanoUSDPerMillion rates) =
      (if i \<le> max_int64 then Inr i else Inl PricingOverflow)"
    and ro: "roundedTokenCost (usageOutputTokens usage) (OutputNanoUSDPerMillion rates) =
      (if out \<le> max_int64 then Inr out else Inl PricingOverflow)"
    using ok b by (auto simp: roundedTokenCost_eq i_def out_def)
  have charge: "configured_charge rates usage = RequestNanoUSD rates + i + out"
    by (simp add: configured_charge_def i_def out_def)
  have calc: "?calc =
      andThen (if i \<le> max_int64 then Inr i else Inl PricingOverflow) (\<lambda>inputCost.
      andThen (if out \<le> max_int64 then Inr out else Inl PricingOverflow) (\<lambda>outputCost.
      case checkedAdd (RequestNanoUSD rates) inputCost of
        None \<Rightarrow> Inl PricingOverflow
      | Some subtotal \<Rightarrow> (case checkedAdd subtotal outputCost of
          None \<Rightarrow> Inl PricingOverflow
        | Some grand \<Rightarrow> Inr \<lparr>resultSource = source, requestCostNanoUSD = RequestNanoUSD rates,
            inputCostNanoUSD = inputCost, outputCostNanoUSD = outputCost,
            totalCostNanoUSD = grand, resultKnown = True\<rparr>)))"
    unfolding Calculate_def ri ro using ok by simp
  show ?thesis
    unfolding calc charge using ok nn b
    by (auto simp: checkedAdd_eq simp flip: i_def out_def)
qed

theorem calculate_exact_witness:
  "Calculate ex_rates \<lparr>usageInputTokens = 1201, usageOutputTokens = 33\<rparr> ex_source =
    Inr \<lparr>resultSource = ex_source, requestCostNanoUSD = 7, inputCostNanoUSD = 3002500,
      outputCostNanoUSD = 330000, totalCostNanoUSD = 3332507, resultKnown = True\<rparr>"
proof -
  let ?u = "\<lparr>usageInputTokens = 1201, usageOutputTokens = 33\<rparr>"
  have b: "InputNanoUSDPerMillion ex_rates \<le> max_int64" "OutputNanoUSDPerMillion ex_rates \<le> max_int64"
    "RequestNanoUSD ex_rates \<le> max_int64" "usageInputTokens ?u \<le> max_int64"
    "usageOutputTokens ?u \<le> max_int64"
    by code_simp+
  have s: "source_valid ex_source" by code_simp
  show ?thesis
    unfolding calculate_exact [OF b]
    using s by (simp add: ex_rates_def configured_charge_def ceil_million_def)
qed

end
