(* ===== verification/Usd_Decimal.thy ===== *)
theory Usd_Decimal
  imports Go_Strconv
begin

text \<open>
  The exact conversion of a JSON-number-shaped USD amount to integer nano-USD
  (\<open>src/internal/pricing/decimal.go\<close>).  The single function of the source is modelled
  in its two halves: the scan of the text into integer digits, fraction digits and
  exponent, and the conversion of these to an \<open>int64\<close>.
\<close>

section \<open>Model\<close>

datatype usd_error = ErrInvalidUSDDecimal | ErrUSDDecimalOverflow

abbreviation maximumUSDDecimalBytes :: nat where
  "maximumUSDDecimalBytes \<equiv> 128"

text \<open>The loop over the exponent's digits, with its overflow flag.\<close>

fun scanExponentDigits :: "string \<Rightarrow> int \<Rightarrow> bool \<Rightarrow> int \<times> bool" where
  "scanExponentDigits [] exponent exponentOverflow = (exponent, exponentOverflow)"
| "scanExponentDigits (c # cs) exponent exponentOverflow =
     (let digit = digitValue c in
      if exponent > 1000 \<or> exponent > quot64 (sub64 max_int64 digit) 10
      then scanExponentDigits cs exponent True
      else scanExponentDigits cs (add64 (mul64 exponent 10) digit) exponentOverflow)"

record usd_scan =
  integerDigits :: string
  fractionDigits :: string
  scanExponent :: int
  scanExponentOverflow :: bool

definition scanUSDInteger :: "string \<Rightarrow> usd_error + string \<times> string" where
  "scanUSDInteger value =
     (case value of
        [] \<Rightarrow> Inl ErrInvalidUSDDecimal
      | c # cs \<Rightarrow>
          if c = CHR ''0'' then
            (case cs of
               d # _ \<Rightarrow> if isDecimalDigit d then Inl ErrInvalidUSDDecimal else Inr ([c], cs)
             | [] \<Rightarrow> Inr ([c], cs))
          else if CHR ''1'' \<le> c \<and> c \<le> CHR ''9'' then
            Inr (takeWhile isDecimalDigit value, dropWhile isDecimalDigit value)
          else Inl ErrInvalidUSDDecimal)"

definition scanUSDFraction :: "string \<Rightarrow> usd_error + string \<times> string" where
  "scanUSDFraction rest =
     (case rest of
        c # cs \<Rightarrow>
          if c = CHR ''.'' then
            (if takeWhile isDecimalDigit cs = [] then Inl ErrInvalidUSDDecimal
             else Inr (takeWhile isDecimalDigit cs, dropWhile isDecimalDigit cs))
          else Inr ([], rest)
      | [] \<Rightarrow> Inr ([], rest))"

definition scanUSDExponent :: "string \<Rightarrow> usd_error + (int \<times> bool) \<times> string" where
  "scanUSDExponent rest =
     (case rest of
        c # cs \<Rightarrow>
          if c = CHR ''e'' \<or> c = CHR ''E'' then
            let negative = (case cs of s # _ \<Rightarrow> s = CHR ''-'' | [] \<Rightarrow> False);
                signed = (case cs of s # _ \<Rightarrow> s = CHR ''+'' \<or> s = CHR ''-'' | [] \<Rightarrow> False);
                cs' = (if signed then drop 1 cs else cs);
                digits = takeWhile isDecimalDigit cs' in
            if digits = [] then Inl ErrInvalidUSDDecimal
            else
              let (exponent, overflow) = scanExponentDigits digits 0 False in
              Inr ((if negative then - exponent else exponent, overflow),
                dropWhile isDecimalDigit cs')
          else Inr ((0, False), rest)
      | [] \<Rightarrow> Inr ((0, False), rest))"

definition scanUSDDecimal :: "string \<Rightarrow> usd_error + usd_scan" where
  "scanUSDDecimal value =
     (if length value = 0 \<or> length value > maximumUSDDecimalBytes \<or>
         hd value = CHR ''-'' \<or> hd value = CHR ''+''
      then Inl ErrInvalidUSDDecimal
      else
        andThen (scanUSDInteger value) (\<lambda>(integer, rest1).
        andThen (scanUSDFraction rest1) (\<lambda>(fraction, rest2).
        andThen (scanUSDExponent rest2) (\<lambda>((exponent, overflow), rest3).
        if rest3 \<noteq> [] then Inl ErrInvalidUSDDecimal
        else Inr \<lparr>integerDigits = integer, fractionDigits = fraction,
          scanExponent = exponent, scanExponentOverflow = overflow\<rparr>))))"

text \<open>\<open>strings.TrimLeft(s, "0")\<close> and \<open>strconv.ParseUint(s, 10, 63)\<close> on decimal digits.\<close>

definition trimLeftZeros :: "string \<Rightarrow> string" where
  "trimLeftZeros s = dropWhile (\<lambda>c. c = CHR ''0'') s"

definition parseUint63 :: "string \<Rightarrow> int option" where
  "parseUint63 s =
     (if s \<noteq> [] \<and> list_all isDecimalDigit s \<and> digitsValue s 0 \<le> max_int64
      then Some (digitsValue s 0) else None)"

definition finishUSDDecimal :: "string \<Rightarrow> int \<Rightarrow> usd_error + int" where
  "finishUSDDecimal coefficient scale =
     (if scale > 19 \<or> add64 (int (length coefficient)) scale > 19 then Inl ErrUSDDecimalOverflow
      else case parseUint63 (coefficient @ replicate (nat scale) (CHR ''0'')) of
          None \<Rightarrow> Inl ErrUSDDecimalOverflow
        | Some nano \<Rightarrow> Inr nano)"

definition convertUSDDecimal :: "usd_scan \<Rightarrow> usd_error + int" where
  "convertUSDDecimal r =
     (let coefficient = trimLeftZeros (integerDigits r @ fractionDigits r);
          exponent = scanExponent r in
      if coefficient = [] then Inr 0
      else if scanExponentOverflow r \<or> exponent > int maximumUSDDecimalBytes \<or>
          exponent < - int maximumUSDDecimalBytes
      then Inl (if exponent > 0 then ErrUSDDecimalOverflow else ErrInvalidUSDDecimal)
      else
        let scale = add64 (sub64 exponent (int (length (fractionDigits r)))) 9 in
        if scale < 0 then
          let discard = - scale in
          if discard > int (length coefficient) then Inl ErrInvalidUSDDecimal
          else
            let cut = length coefficient - nat discard in
            if list_ex (\<lambda>c. c \<noteq> CHR ''0'') (drop cut coefficient) then Inl ErrInvalidUSDDecimal
            else
              let coefficient' = trimLeftZeros (take cut coefficient) in
              if coefficient' = [] then Inr 0 else finishUSDDecimal coefficient' 0
        else finishUSDDecimal coefficient scale)"

definition ParseUSDDecimalNanoUSD :: "string \<Rightarrow> usd_error + int" where
  "ParseUSDDecimalNanoUSD value = andThen (scanUSDDecimal value) convertUSDDecimal"

section \<open>Lemmas\<close>

lemma trimLeftZeros_digits: "list_all isDecimalDigit s \<Longrightarrow> list_all isDecimalDigit (trimLeftZeros s)"
  by (auto simp: trimLeftZeros_def list_all_iff dest: set_dropWhileD)

lemma trimLeftZeros_value [simp]: "digitsValue (trimLeftZeros s) 0 = digitsValue s 0"
  by (induction s) (simp_all add: trimLeftZeros_def digitsValue_Cons digitValue_def)

lemma trimLeftZeros_lower:
  assumes "list_all isDecimalDigit s" "trimLeftZeros s = c # cs"
  shows "10 ^ length cs \<le> digitsValue s 0"
proof -
  have dw: "dropWhile (\<lambda>c. c = CHR ''0'') s = c # cs" using assms(2) by (simp add: trimLeftZeros_def)
  then have "dropWhile (\<lambda>c. c = CHR ''0'') s \<noteq> []" by simp
  from hd_dropWhile [OF this] have c: "c \<noteq> CHR ''0''" unfolding dw by simp
  have d: "list_all isDecimalDigit (c # cs)" using trimLeftZeros_digits [OF assms(1)] assms(2) by simp
  then have "1 \<le> digitValue c" using c digitValue_zero_iff [of c] digitValue_range [of c] by force
  then have "10 ^ length cs \<le> digitValue c * 10 ^ length cs" by simp
  moreover have "0 \<le> digitsValue cs 0" using d digitsValue_bounds [of cs] by simp
  moreover have "digitsValue s 0 = digitsValue (c # cs) 0" using assms(2) trimLeftZeros_value [of s] by simp
  ultimately show ?thesis unfolding digitsValue_Cons [of c cs] by linarith
qed

lemma trimLeftZeros_Nil_iff:
  assumes "list_all isDecimalDigit s"
  shows "trimLeftZeros s = [] \<longleftrightarrow> digitsValue s 0 = 0"
proof (cases "trimLeftZeros s")
  case Nil
  then show ?thesis using trimLeftZeros_value [of s] by simp
next
  case (Cons c cs)
  have "0 < (10 :: int) ^ length cs" by simp
  then have "0 < digitsValue s 0" using trimLeftZeros_lower [OF assms Cons] by linarith
  then show ?thesis using Cons by simp
qed

text \<open>The number a coefficient \<open>C\<close> scaled by a power of ten stands for, if it is an \<open>int64\<close>.\<close>

definition usd_exact :: "int \<Rightarrow> int \<Rightarrow> usd_error + int" where
  "usd_exact C scale =
     (if 0 \<le> scale then
        (if C * 10 ^ nat scale \<le> max_int64 then Inr (C * 10 ^ nat scale) else Inl ErrUSDDecimalOverflow)
      else if 10 ^ nat (- scale) dvd C then
        (if C div 10 ^ nat (- scale) \<le> max_int64 then Inr (C div 10 ^ nat (- scale))
         else Inl ErrUSDDecimalOverflow)
      else Inl ErrInvalidUSDDecimal)"

lemma finishUSDDecimal_eq:
  assumes s: "list_all isDecimalDigit s" and c: "trimLeftZeros s = coefficient" "coefficient \<noteq> []"
    and l: "length coefficient \<le> 200" and sc: "0 \<le> scale" "scale \<le> 1000"
  shows "finishUSDDecimal coefficient scale = usd_exact (digitsValue s 0) scale"
proof -
  let ?C = "digitsValue s 0" and ?n = "nat scale"
  obtain d ds where dd: "coefficient = d # ds" using c(2) by (cases coefficient) auto
  have low: "10 ^ length ds \<le> ?C" using trimLeftZeros_lower [OF s] c(1) dd by simp
  have val: "digitsValue (coefficient @ replicate ?n (CHR ''0'')) 0 = ?C * 10 ^ ?n"
    using trimLeftZeros_value [of s] c(1) by (simp add: digitsValue_append)
  have dig: "list_all isDecimalDigit (coefficient @ replicate ?n (CHR ''0''))"
    using trimLeftZeros_digits [OF s] c(1) by (auto simp: list_all_iff isDecimalDigit_def)
  have ad: "add64 (int (length coefficient)) scale = int (length coefficient) + scale"
    using l sc by (simp add: go_arith)
  have big: "max_int64 < ?C * 10 ^ ?n" if "19 < scale \<or> 19 < int (length coefficient) + scale"
  proof -
    have "19 \<le> length ds + ?n" using that sc dd by auto
    then have "(10 :: int) ^ 19 \<le> 10 ^ (length ds + ?n)" by (intro power_increasing) auto
    also have "\<dots> = 10 ^ length ds * 10 ^ ?n" by (rule power_add)
    also have "\<dots> \<le> ?C * 10 ^ ?n" using low by (intro mult_right_mono) auto
    finally show ?thesis by simp
  qed
  show ?thesis
  proof (cases "19 < scale \<or> 19 < int (length coefficient) + scale")
    case True
    then show ?thesis using big sc by (auto simp: finishUSDDecimal_def usd_exact_def ad)
  next
    case False
    then show ?thesis using sc c(2) dig val
      by (auto simp: finishUSDDecimal_def usd_exact_def ad parseUint63_def)
  qed
qed

lemma convert_discard:
  assumes s: "list_all isDecimalDigit s" and c: "trimLeftZeros s = coefficient" "coefficient \<noteq> []"
    and l: "length coefficient \<le> 200" and k: "0 < k"
  shows "(if k > length coefficient then Inl ErrInvalidUSDDecimal
      else
        let cut = length coefficient - k in
        if list_ex (\<lambda>c. c \<noteq> CHR ''0'') (drop cut coefficient) then Inl ErrInvalidUSDDecimal
        else let coefficient' = trimLeftZeros (take cut coefficient) in
          if coefficient' = [] then Inr 0 else finishUSDDecimal coefficient' 0) =
    usd_exact (digitsValue s 0) (- int k)"
proof -
  let ?C = "digitsValue s 0"
  have dig: "list_all isDecimalDigit coefficient" using trimLeftZeros_digits [OF s] c(1) by simp
  have val: "?C = digitsValue coefficient 0" using trimLeftZeros_value [of s] c(1) by simp
  have pos: "0 < ?C"
    using trimLeftZeros_Nil_iff [OF s] digitsValue_bounds [OF s] c by auto
  show ?thesis
  proof (cases "k > length coefficient")
    case True
    have "?C < 10 ^ length coefficient" using digitsValue_bounds [OF dig] val by simp
    also have "(10 :: int) ^ length coefficient \<le> 10 ^ k" using True by (intro power_increasing) auto
    finally have "\<not> 10 ^ k dvd ?C" using pos by (auto dest: zdvd_imp_le)
    then show ?thesis using True k by (simp add: usd_exact_def)
  next
    case False
    define cut where "cut = length coefficient - k"
    define hi where "hi = take cut coefficient"
    define lo where "lo = drop cut coefficient"
    have hl: "coefficient = hi @ lo" "length lo = k" using False by (simp_all add: hi_def lo_def cut_def)
    have dh: "list_all isDecimalDigit hi" and dl: "list_all isDecimalDigit lo" using dig hl(1) by simp_all
    have cv: "?C = digitsValue hi 0 * 10 ^ k + digitsValue lo 0"
      unfolding val hl(1) digitsValue_append hl(2) ..
    have lob: "0 \<le> digitsValue lo 0" "digitsValue lo 0 < 10 ^ k"
      using digitsValue_bounds [OF dl] hl(2) by auto
    have dvd: "10 ^ k dvd ?C \<longleftrightarrow> digitsValue lo 0 = 0" and dv: "?C div 10 ^ k = digitsValue hi 0"
      using lob unfolding cv by (auto simp: dvd_eq_mod_eq_0)
    have ex: "list_ex (\<lambda>c. c \<noteq> CHR ''0'') lo \<longleftrightarrow> digitsValue lo 0 \<noteq> 0"
      using trimLeftZeros_Nil_iff [OF dl] by (auto simp: trimLeftZeros_def list_ex_iff)
    show ?thesis
    proof (cases "digitsValue lo 0 = 0")
      case False
      then show ?thesis using \<open>\<not> k > length coefficient\<close> dvd ex k
        by (simp add: usd_exact_def flip: cut_def lo_def)
    next
      case True
      then have h: "digitsValue hi 0 \<noteq> 0" using pos cv by auto
      then have ne: "trimLeftZeros hi \<noteq> []" using trimLeftZeros_Nil_iff [OF dh] by simp
      have "length (trimLeftZeros hi) \<le> 200"
        using l length_dropWhile_le [of _ hi] hl(1)
        by (simp add: trimLeftZeros_def) (meson le_trans le_add1 length_dropWhile_le)
      then have "finishUSDDecimal (trimLeftZeros hi) 0 = usd_exact (digitsValue hi 0) 0"
        by (intro finishUSDDecimal_eq [OF dh refl ne]) auto
      then show ?thesis using \<open>\<not> k > length coefficient\<close> True dvd dv ex ne k
        by (simp add: usd_exact_def Let_def flip: cut_def lo_def hi_def)
    qed
  qed
qed

lemma scanUSDInteger_digits:
  "scanUSDInteger v = Inr (i, rest) \<Longrightarrow> list_all isDecimalDigit i \<and> i \<noteq> [] \<and> v = i @ rest"
proof -
  assume a: "scanUSDInteger v = Inr (i, rest)"
  then obtain c cs where v: "v = c # cs" by (cases v) (auto simp: scanUSDInteger_def)
  consider "c = CHR ''0''" | "c \<noteq> CHR ''0''" "CHR ''1'' \<le> c" "c \<le> CHR ''9''"
    using a v by (auto simp: scanUSDInteger_def split: if_splits)
  then show ?thesis
  proof cases
    case 1
    then have "i = [c]" "rest = cs"
      using a v by (auto simp: scanUSDInteger_def split: list.splits if_splits)
    then show ?thesis using 1 v by (simp add: isDecimalDigit_def)
  next
    case 2
    then have "i = takeWhile isDecimalDigit v" "rest = dropWhile isDecimalDigit v"
      using a v by (auto simp: scanUSDInteger_def)
    moreover have "CHR ''0'' \<le> c" using 2(2) by (rule order_trans [rotated]) (simp add: less_eq_char_def)
    ultimately show ?thesis
      using 2 v by (auto simp: isDecimalDigit_def list_all_iff dest: set_takeWhileD)
  qed
qed

lemma scanUSDFraction_digits:
  "scanUSDFraction v = Inr (f, rest) \<Longrightarrow>
     list_all isDecimalDigit f \<and> v = (if f = [] then rest else CHR ''.'' # f @ rest)"
  by (auto simp: scanUSDFraction_def list_all_iff split: list.splits if_splits dest: set_takeWhileD)

lemma scanUSDDecimal_digits:
  assumes "scanUSDDecimal v = Inr r"
  shows "list_all isDecimalDigit (integerDigits r @ fractionDigits r)"
    "integerDigits r \<noteq> []" "length (integerDigits r @ fractionDigits r) \<le> 128"
proof -
  obtain i rest1 f rest2 e ov where
    i: "scanUSDInteger v = Inr (i, rest1)" and f: "scanUSDFraction rest1 = Inr (f, rest2)"
    and r: "integerDigits r = i" "fractionDigits r = f" and len: "length v \<le> 128"
    using assms by (auto simp: scanUSDDecimal_def go_result split: if_splits)
  show "list_all isDecimalDigit (integerDigits r @ fractionDigits r)" "integerDigits r \<noteq> []"
    using scanUSDInteger_digits [OF i] scanUSDFraction_digits [OF f] by (simp_all add: r)
  have "length (i @ f) \<le> length v"
    using scanUSDInteger_digits [OF i] scanUSDFraction_digits [OF f] by (auto split: if_splits)
  then show "length (integerDigits r @ fractionDigits r) \<le> 128" using len by (simp add: r)
qed

lemma convertUSDDecimal_eq:
  assumes d: "list_all isDecimalDigit (integerDigits r @ fractionDigits r)"
    and l: "length (integerDigits r @ fractionDigits r) \<le> 128"
  shows "convertUSDDecimal r =
    (let C = digitsValue (integerDigits r @ fractionDigits r) 0; e = scanExponent r in
     if C = 0 then Inr 0
     else if scanExponentOverflow r \<or> e > 128 \<or> e < - 128
       then Inl (if e > 0 then ErrUSDDecimalOverflow else ErrInvalidUSDDecimal)
     else usd_exact C (e - int (length (fractionDigits r)) + 9))"
proof -
  define s where "s = integerDigits r @ fractionDigits r"
  define coefficient where "coefficient = trimLeftZeros s"
  define e where "e = scanExponent r"
  define scale where "scale = e - int (length (fractionDigits r)) + 9"
  have fl: "length (fractionDigits r) \<le> 128" using l by simp
  have cl: "length coefficient \<le> 200"
    using l length_dropWhile_le [of "\<lambda>c. c = CHR ''0''" s] by (simp add: coefficient_def trimLeftZeros_def s_def)
  have cz: "coefficient = [] \<longleftrightarrow> digitsValue s 0 = 0"
    unfolding coefficient_def using d by (intro trimLeftZeros_Nil_iff) (simp add: s_def)
  show ?thesis
  proof (cases "digitsValue s 0 = 0 \<or> scanExponentOverflow r \<or> e > 128 \<or> e < - 128")
    case True
    then show ?thesis
      using cz by (auto simp: convertUSDDecimal_def Let_def simp flip: s_def coefficient_def e_def)
  next
    case False
    have sc: "add64 (sub64 e (int (length (fractionDigits r)))) 9 = scale"
      using False fl by (simp add: scale_def go_arith)
    have head: "convertUSDDecimal r =
        (if scale < 0 then
          let discard = - scale in
          if discard > int (length coefficient) then Inl ErrInvalidUSDDecimal
          else
            let cut = length coefficient - nat discard in
            if list_ex (\<lambda>c. c \<noteq> CHR ''0'') (drop cut coefficient) then Inl ErrInvalidUSDDecimal
            else
              let coefficient' = trimLeftZeros (take cut coefficient) in
              if coefficient' = [] then Inr 0 else finishUSDDecimal coefficient' 0
         else finishUSDDecimal coefficient scale)"
      unfolding convertUSDDecimal_def Let_def s_def [symmetric] coefficient_def [symmetric] e_def [symmetric] sc
      using False cz by simp
    have "convertUSDDecimal r = usd_exact (digitsValue s 0) scale"
    proof (cases "scale < 0")
      case True
      define k where "k = nat (- scale)"
      have k: "0 < k" "scale = - int k" using True by (simp_all add: k_def)
      have "list_all isDecimalDigit s" "coefficient \<noteq> []" using d False cz by (simp_all add: s_def)
      from convert_discard [OF this(1) coefficient_def [symmetric] this(2) cl k(1), symmetric] show ?thesis
        unfolding head k(2) using k(1) by (simp add: Let_def)
    next
      case False': False
      then show ?thesis
        unfolding head using finishUSDDecimal_eq [of s coefficient scale] d cl False cz fl
        by (simp add: coefficient_def s_def scale_def)
    qed
    then show ?thesis using False by (simp add: Let_def s_def e_def scale_def)
  qed
qed

section \<open>Properties\<close>



text \<open>
  C9.  Nothing but an exact non-negative amount of nano-USD is ever returned: if \<open>v\<close>
  parses to \<open>n\<close>, then \<open>n\<close> is a non-negative \<open>int64\<close> and equals the scanned decimal
  scaled by \<open>10^9\<close>, stated without fractions.
\<close>

theorem parse_usd_sound:
  assumes "ParseUSDDecimalNanoUSD v = Inr n"
  shows "\<exists>r. scanUSDDecimal v = Inr r \<and> 0 \<le> n \<and> n \<le> max_int64 \<and>
    (let C = digitsValue (integerDigits r @ fractionDigits r) 0; e = scanExponent r in
     C = 0 \<and> n = 0 \<or>
     n * 10 ^ (length (fractionDigits r) + nat (- e)) = C * 10 ^ (9 + nat e))"
proof -
  obtain r where r: "scanUSDDecimal v = Inr r" and c: "convertUSDDecimal r = Inr n"
    using assms by (auto simp: ParseUSDDecimalNanoUSD_def go_result)
  define C where "C = digitsValue (integerDigits r @ fractionDigits r) 0"
  define e where "e = scanExponent r"
  define f where "f = length (fractionDigits r)"
  define scale where "scale = e - int f + 9"
  have C0: "0 \<le> C" using digitsValue_bounds [OF scanUSDDecimal_digits(1) [OF r]] by (simp add: C_def)
  have "0 \<le> n \<and> n \<le> max_int64 \<and> (C = 0 \<and> n = 0 \<or> n * 10 ^ (f + nat (- e)) = C * 10 ^ (9 + nat e))"
  proof (cases "C = 0")
    case True
    then show ?thesis
      using c convertUSDDecimal_eq [OF scanUSDDecimal_digits(1,3) [OF r]] by (simp add: C_def)
  next
    case False
    then have u: "usd_exact C scale = Inr n"
      using c convertUSDDecimal_eq [OF scanUSDDecimal_digits(1,3) [OF r]]
      by (auto simp: C_def e_def f_def scale_def Let_def split: if_splits)
    show ?thesis
    proof (cases "0 \<le> scale")
      case True
      then have n: "n = C * 10 ^ nat scale" "n \<le> max_int64"
        using u by (auto simp: usd_exact_def split: if_splits)
      have "nat scale + (f + nat (- e)) = 9 + nat e" using True by (simp add: scale_def)
      then have "(10 :: int) ^ (9 + nat e) = 10 ^ nat scale * 10 ^ (f + nat (- e))"
        by (simp only: flip: power_add)
      then have "n * 10 ^ (f + nat (- e)) = C * 10 ^ (9 + nat e)"
        unfolding n(1) by (simp only: mult.assoc)
      then show ?thesis using n C0 by simp
    next
      case neg: False
      then have n: "10 ^ nat (- scale) dvd C" "n = C div 10 ^ nat (- scale)" "n \<le> max_int64"
        using u by (auto simp: usd_exact_def split: if_splits)
      then have "C = n * 10 ^ nat (- scale)" by simp
      moreover have "f + nat (- e) = nat (- scale) + (9 + nat e)" using neg by (simp add: scale_def)
      ultimately have "n * 10 ^ (f + nat (- e)) = C * 10 ^ (9 + nat e)"
        by (simp add: power_add)
      then show ?thesis using n C0 by (simp add: pos_imp_zdiv_nonneg_iff)
    qed
  qed
  then show ?thesis using r by (auto simp: C_def e_def f_def Let_def)
qed

theorem parse_usd_sound_witness:
  "\<exists>r. scanUSDDecimal ''1500e-10'' = Inr r \<and> (0 :: int) \<le> 150 \<and> 150 \<le> max_int64 \<and>
    (let C = digitsValue (integerDigits r @ fractionDigits r) 0; e = scanExponent r in
     C = 0 \<and> (150 :: int) = 0 \<or>
     150 * 10 ^ (length (fractionDigits r) + nat (- e)) = C * 10 ^ (9 + nat e))"
  by (rule parse_usd_sound) code_simp


end
