(* ===== verification/Go_Text.thy ===== *)
theory Go_Text
  imports Latchway_Prelude
begin

text \<open>
  Text as Go's packages \<open>utf8\<close>, \<open>unicode\<close> and \<open>strings\<close> see it, as far as the program uses
  them: the decoding of a byte string into code points, \<open>utf8.ValidString\<close>,
  \<open>strings.TrimSpace\<close> compared with its argument, \<open>unicode.IsControl\<close>, \<open>strings.Cut\<close> and
  \<open>strings.Split\<close> at one byte, and prefixes.
\<close>

definition byte_of :: "char \<Rightarrow> nat" where
  "byte_of c = of_char c"

definition cont_byte :: "char \<Rightarrow> bool" where
  "cont_byte c \<longleftrightarrow> 128 \<le> byte_of c \<and> byte_of c < 192"

text \<open>The code points of a byte string, or \<open>None\<close> if it is not valid UTF-8: overlong forms,
  surrogates and values above \<open>10FFFF\<close> are refused by the ranges of the second byte.\<close>

fun utf8_decode :: "string \<Rightarrow> nat list option" where
  "utf8_decode [] = Some []"
| "utf8_decode (c0 # cs) =
     (let b0 = byte_of c0 in
      if b0 < 128 then map_option (Cons b0) (utf8_decode cs)
      else if 194 \<le> b0 \<and> b0 < 224 then
        (case cs of
           c1 # rest \<Rightarrow>
             if cont_byte c1
             then map_option (Cons ((b0 - 192) * 64 + (byte_of c1 - 128))) (utf8_decode rest)
             else None
         | _ \<Rightarrow> None)
      else if 224 \<le> b0 \<and> b0 < 240 then
        (case cs of
           c1 # c2 # rest \<Rightarrow>
             if cont_byte c1 \<and> cont_byte c2 \<and> (b0 = 224 \<longrightarrow> 160 \<le> byte_of c1) \<and> (b0 = 237 \<longrightarrow> byte_of c1 < 160)
             then map_option (Cons ((b0 - 224) * 4096 + (byte_of c1 - 128) * 64 + (byte_of c2 - 128))) (utf8_decode rest)
             else None
         | _ \<Rightarrow> None)
      else if 240 \<le> b0 \<and> b0 < 245 then
        (case cs of
           c1 # c2 # c3 # rest \<Rightarrow>
             if cont_byte c1 \<and> cont_byte c2 \<and> cont_byte c3 \<and>
                (b0 = 240 \<longrightarrow> 144 \<le> byte_of c1) \<and> (b0 = 244 \<longrightarrow> byte_of c1 < 144)
             then map_option
               (Cons ((b0 - 240) * 262144 + (byte_of c1 - 128) * 4096 + (byte_of c2 - 128) * 64 + (byte_of c3 - 128)))
               (utf8_decode rest)
             else None
         | _ \<Rightarrow> None)
      else None)"

declare utf8_decode.simps(2) [simp del]

definition utf8_ValidString :: "string \<Rightarrow> bool" where
  "utf8_ValidString s \<longleftrightarrow> utf8_decode s \<noteq> None"

definition rune_IsSpace :: "nat \<Rightarrow> bool" where
  "rune_IsSpace r \<longleftrightarrow>
     9 \<le> r \<and> r \<le> 13 \<or> r = 32 \<or> r = 133 \<or> r = 160 \<or> r = 5760 \<or> 8192 \<le> r \<and> r \<le> 8202 \<or>
     r = 8232 \<or> r = 8233 \<or> r = 8239 \<or> r = 8287 \<or> r = 12288"

definition rune_IsControl :: "nat \<Rightarrow> bool" where
  "rune_IsControl r \<longleftrightarrow> r < 32 \<or> 127 \<le> r \<and> r < 160"

text \<open>\<open>strings.TrimSpace(s) == s\<close> for valid text: neither the first nor the last code point is a
  space.\<close>

definition trimmedRunes :: "nat list \<Rightarrow> bool" where
  "trimmedRunes rs \<longleftrightarrow> rs = [] \<or> \<not> rune_IsSpace (hd rs) \<and> \<not> rune_IsSpace (last rs)"

definition hasPrefix :: "string \<Rightarrow> string \<Rightarrow> bool" where
  "hasPrefix s p \<longleftrightarrow> take (length p) s = p"

fun cutAt :: "char \<Rightarrow> string \<Rightarrow> string \<times> string \<times> bool" where
  "cutAt sep [] = ([], [], False)"
| "cutAt sep (c # cs) =
     (if c = sep then ([], cs, True)
      else let (before, after, found) = cutAt sep cs in (c # before, after, found))"

fun splitAt :: "char \<Rightarrow> string \<Rightarrow> string list" where
  "splitAt sep [] = [[]]"
| "splitAt sep (c # cs) =
     (if c = sep then [] # splitAt sep cs
      else case splitAt sep cs of [] \<Rightarrow> [[c]] | s # ss \<Rightarrow> (c # s) # ss)"

lemma splitAt_ne [simp]: "splitAt sep s \<noteq> []"
  by (induction s) (auto split: list.splits)

lemma byte_of_inject: "byte_of c = byte_of d \<longleftrightarrow> c = d"
  by (simp add: byte_of_def)

lemma byte_of_bound: "byte_of c < 256"
  by (simp add: byte_of_def)

lemma utf8_ascii: "list_all (\<lambda>c. byte_of c < 128) s \<Longrightarrow> utf8_decode s = Some (map byte_of s)"
  by (induction s) (simp_all add: utf8_decode.simps Let_def)

end
