(* ===== verification/Go_Http.thy ===== *)
theory Go_Http
  imports Go_Text "HOL-Library.AList"
begin

text \<open>
  The parts of Go's \<open>net/http\<close>, \<open>net/textproto\<close>, \<open>mime\<close> and \<open>strings\<close> that the upstream package
  uses on headers: canonical header names, case folding, \<open>strings.TrimSpace\<close>, header maps and
  \<open>mime.ParseMediaType\<close>.

  A header map is the list of its entries in the order in which a \<open>range\<close> loop visits them; a Go
  map has no two entries with the same key.
\<close>

type_synonym header = "(string \<times> string list) list"

definition header_wf :: "header \<Rightarrow> bool" where
  "header_wf h \<longleftrightarrow> distinct (map fst h)"

section \<open>Names\<close>

definition tokenByte :: "char \<Rightarrow> bool" where
  "tokenByte c \<longleftrightarrow>
     is_lower c \<or> is_upper c \<or> is_digit c \<or>
     c \<in> set (CHR 0x27 # CHR 0x60 # ''!#$%&*+-.^_|~'')"

definition asciiLower :: "char \<Rightarrow> char" where
  "asciiLower c = (if is_upper c then char_of (byte_of c + 32) else c)"

definition asciiUpper :: "char \<Rightarrow> char" where
  "asciiUpper c = (if is_lower c then char_of (byte_of c - 32) else c)"

fun canonBytes :: "bool \<Rightarrow> string \<Rightarrow> string" where
  "canonBytes upper [] = []"
| "canonBytes upper (c # cs) =
     (let d = (if upper then asciiUpper c else asciiLower c) in d # canonBytes (d = CHR ''-'') cs)"

text \<open>\<open>http.CanonicalHeaderKey\<close>: a name with a byte that is not allowed in a header name is left alone.\<close>

definition CanonicalHeaderKey :: "string \<Rightarrow> string" where
  "CanonicalHeaderKey s = (if list_all tokenByte s then canonBytes True s else s)"

text \<open>\<open>strings.EqualFold\<close> against an ASCII string.  Simple case folding relates two code points outside
  ASCII to ASCII letters: \<open>U+017F\<close> folds to \<open>s\<close> and \<open>U+212A\<close> to \<open>k\<close>.\<close>

fun foldBytes :: "string \<Rightarrow> string" where
  "foldBytes [] = []"
| "foldBytes (c # cs) =
     (if c = CHR 0xC5 \<and> take 1 cs = [CHR 0xBF] then CHR ''s'' # foldBytes (drop 1 cs)
      else if c = CHR 0xE2 \<and> take 2 cs = [CHR 0x84, CHR 0xAA] then CHR ''k'' # foldBytes (drop 2 cs)
      else asciiLower c # foldBytes cs)"

definition EqualFold :: "string \<Rightarrow> string \<Rightarrow> bool" where
  "EqualFold s t \<longleftrightarrow> foldBytes s = foldBytes t"

text \<open>\<open>strings.ToLower\<close>, as far as its result can consist of ASCII letters: \<open>U+0130\<close> maps to \<open>i\<close> and
  \<open>U+212A\<close> to \<open>k\<close>; every other code point outside ASCII stays outside ASCII.\<close>

fun ToLower :: "string \<Rightarrow> string" where
  "ToLower [] = []"
| "ToLower (c # cs) =
     (if c = CHR 0xC4 \<and> take 1 cs = [CHR 0xB0] then CHR ''i'' # ToLower (drop 1 cs)
      else if c = CHR 0xE2 \<and> take 2 cs = [CHR 0x84, CHR 0xAA] then CHR ''k'' # ToLower (drop 2 cs)
      else asciiLower c # ToLower cs)"

section \<open>White space\<close>

text \<open>The UTF-8 encodings of the code points with the property \<open>unicode.IsSpace\<close>.\<close>

definition spaceSequences :: "string list" where
  "spaceSequences =
     [[CHR 0x09], [CHR 0x0A], [CHR 0x0B], [CHR 0x0C], [CHR 0x0D], [CHR 0x20],
      [CHR 0xC2, CHR 0x85], [CHR 0xC2, CHR 0xA0], [CHR 0xE1, CHR 0x9A, CHR 0x80],
      [CHR 0xE2, CHR 0x80, CHR 0x80], [CHR 0xE2, CHR 0x80, CHR 0x81], [CHR 0xE2, CHR 0x80, CHR 0x82],
      [CHR 0xE2, CHR 0x80, CHR 0x83], [CHR 0xE2, CHR 0x80, CHR 0x84], [CHR 0xE2, CHR 0x80, CHR 0x85],
      [CHR 0xE2, CHR 0x80, CHR 0x86], [CHR 0xE2, CHR 0x80, CHR 0x87], [CHR 0xE2, CHR 0x80, CHR 0x88],
      [CHR 0xE2, CHR 0x80, CHR 0x89], [CHR 0xE2, CHR 0x80, CHR 0x8A], [CHR 0xE2, CHR 0x80, CHR 0xA8],
      [CHR 0xE2, CHR 0x80, CHR 0xA9], [CHR 0xE2, CHR 0x80, CHR 0xAF], [CHR 0xE2, CHR 0x81, CHR 0x9F],
      [CHR 0xE3, CHR 0x80, CHR 0x80]]"

definition spaceWidth :: "string list \<Rightarrow> string \<Rightarrow> nat" where
  "spaceWidth seqs s = (case find (hasPrefix s) seqs of None \<Rightarrow> 0 | Some p \<Rightarrow> length p)"

fun trimWith :: "string list \<Rightarrow> string \<Rightarrow> string" where
  "trimWith seqs [] = []"
| "trimWith seqs (c # cs) =
     (case spaceWidth seqs (c # cs) of 0 \<Rightarrow> c # cs | Suc n \<Rightarrow> trimWith seqs (drop n cs))"

definition TrimLeftSpace :: "string \<Rightarrow> string" where
  "TrimLeftSpace s = trimWith spaceSequences s"

definition TrimSpace :: "string \<Rightarrow> string" where
  "TrimSpace s = rev (trimWith (map rev spaceSequences) (rev (TrimLeftSpace s)))"

section \<open>Header maps\<close>

definition headerEntry :: "header \<Rightarrow> string \<Rightarrow> string list" where
  "headerEntry h k = (case map_of h k of None \<Rightarrow> [] | Some vs \<Rightarrow> vs)"

definition headerGet :: "header \<Rightarrow> string \<Rightarrow> string" where
  "headerGet h k = (case headerEntry h (CanonicalHeaderKey k) of [] \<Rightarrow> [] | v # _ \<Rightarrow> v)"

definition headerSet :: "header \<Rightarrow> string \<Rightarrow> string \<Rightarrow> header" where
  "headerSet h k v = AList.update (CanonicalHeaderKey k) [v] h"

definition headerAdd :: "header \<Rightarrow> string \<Rightarrow> string \<Rightarrow> header" where
  "headerAdd h k v =
     AList.update (CanonicalHeaderKey k) (headerEntry h (CanonicalHeaderKey k) @ [v]) h"

definition headerDel :: "header \<Rightarrow> string \<Rightarrow> header" where
  "headerDel h k = AList.delete (CanonicalHeaderKey k) h"

section \<open>Media types\<close>

definition mimeTokenByte :: "char \<Rightarrow> bool" where
  "mimeTokenByte c \<longleftrightarrow> tokenByte c \<or> c = CHR 0x7B \<or> c = CHR 0x7D"

definition mimeSpecial :: "char \<Rightarrow> bool" where
  "mimeSpecial c \<longleftrightarrow> c \<in> set (CHR 0x22 # CHR 0x5C # ''()<>@,;:/[]?='')"

definition consumeToken :: "string \<Rightarrow> string \<times> string" where
  "consumeToken v = (takeWhile mimeTokenByte v, dropWhile mimeTokenByte v)"

text \<open>A quoted string behind its opening quote; \<open>None\<close> is the missing end quote or a line break.\<close>

fun quotedTail :: "string \<Rightarrow> string \<Rightarrow> (string \<times> string) option" where
  "quotedTail acc [] = None"
| "quotedTail acc (c # cs) =
     (if c = CHR 0x22 then Some (rev acc, cs)
      else if c = CHR 0x5C \<and> cs \<noteq> [] \<and> mimeSpecial (hd cs) then quotedTail (hd cs # acc) (tl cs)
      else if c = CHR 0x0D \<or> c = CHR 0x0A then None
      else quotedTail (c # acc) cs)"

definition consumeValue :: "string \<Rightarrow> string \<times> string" where
  "consumeValue v =
     (case v of
        [] \<Rightarrow> ([], [])
      | c # cs \<Rightarrow>
          if c \<noteq> CHR 0x22 then consumeToken v
          else case quotedTail [] cs of None \<Rightarrow> ([], v) | Some r \<Rightarrow> r)"

definition consumeMediaParam :: "string \<Rightarrow> string \<times> string \<times> string" where
  "consumeMediaParam v =
     (let rest = TrimLeftSpace v in
      if \<not> hasPrefix rest '';'' then ([], [], v)
      else let (param, rest) = consumeToken (TrimLeftSpace (drop 1 rest)) in
        if param = [] then ([], [], v)
        else let rest = TrimLeftSpace rest in
          if \<not> hasPrefix rest ''='' then ([], [], v)
          else let rest = TrimLeftSpace (drop 1 rest); (value, rest2) = consumeValue rest in
            if value = [] \<and> rest2 = rest then ([], [], v) else (ToLower param, value, rest2))"

definition validMediaType :: "string \<Rightarrow> bool" where
  "validMediaType s =
     (let (typ, rest) = consumeToken s in
      typ \<noteq> [] \<and>
      (rest = [] \<or> hasPrefix rest ''/'' \<and>
        (let (subtype, rest) = consumeToken (drop 1 rest) in subtype \<noteq> [] \<and> rest = [])))"

section \<open>Lemmas on the trimming and consuming functions\<close>

lemma length_trimWith: "length (trimWith seqs s) \<le> length s"
proof (induction seqs s rule: trimWith.induct)
  case (2 seqs c cs)
  then show ?case by (fastforce split: nat.splits)
qed simp

lemma length_TrimLeftSpace: "length (TrimLeftSpace s) \<le> length s"
  by (simp add: TrimLeftSpace_def length_trimWith)

lemma length_consumeToken: "consumeToken v = (t, r) \<Longrightarrow> length r \<le> length v"
  by (auto simp: consumeToken_def length_dropWhile_le)

lemma length_quotedTail: "quotedTail acc v = Some (s, r) \<Longrightarrow> length r \<le> length v"
proof (induction acc v rule: quotedTail.induct)
  case (2 acc c cs)
  then show ?case by (cases cs) (auto split: if_splits)
qed simp

lemma length_consumeValue: "consumeValue v = (s, r) \<Longrightarrow> length r \<le> length v"
  by (auto simp: consumeValue_def dest: length_consumeToken length_quotedTail split: list.splits if_splits option.splits)

lemma length_consumeMediaParam:
  assumes "consumeMediaParam v = (key, val, rest)" "key \<noteq> []"
  shows "length rest < length v"
proof -
  obtain t r where t: "consumeToken (TrimLeftSpace (drop 1 (TrimLeftSpace v))) = (t, r)" by fastforce
  obtain s r2 where s: "consumeValue (TrimLeftSpace (drop 1 (TrimLeftSpace r))) = (s, r2)" by fastforce
  have p: "hasPrefix (TrimLeftSpace v) '';''" and "rest = r2"
    using assms t s by (auto simp: consumeMediaParam_def Let_def split: if_splits)
  moreover have "length r2 \<le> length (TrimLeftSpace (drop 1 (TrimLeftSpace r)))" by (rule length_consumeValue [OF s])
  moreover have "\<dots> \<le> length (TrimLeftSpace r)"
    using length_TrimLeftSpace [of "drop 1 (TrimLeftSpace r)"] by simp
  moreover have "\<dots> \<le> length r" by (rule length_TrimLeftSpace)
  moreover have "\<dots> \<le> length (TrimLeftSpace (drop 1 (TrimLeftSpace v)))" by (rule length_consumeToken [OF t])
  moreover have "\<dots> \<le> length (TrimLeftSpace v) - 1"
    using length_TrimLeftSpace [of "drop 1 (TrimLeftSpace v)"] by simp
  moreover have "TrimLeftSpace v \<noteq> []" using p by (auto simp: hasPrefix_def)
  moreover have "length (TrimLeftSpace v) \<le> length v" by (rule length_TrimLeftSpace)
  ultimately show ?thesis by (cases "TrimLeftSpace v") auto
qed

text \<open>The loop over the parameters, with the parameters read so far; it ends because every parameter
  is longer than nothing.  The names with a star go to a map of their own, which no other name
  shares, so one list of pairs stands for both maps.\<close>

function mediaParams :: "(string \<times> string) list \<Rightarrow> string \<Rightarrow> bool" where
  "mediaParams params v =
     (if TrimLeftSpace v = [] then True
      else let (key, val, rest) = consumeMediaParam (TrimLeftSpace v) in
        if key = [] then TrimSpace rest = '';''
        else (case map_of params key of
                None \<Rightarrow> mediaParams ((key, val) # params) rest
              | Some w \<Rightarrow> w = val \<and> mediaParams params rest))"
  by auto
termination
proof (relation "measure (\<lambda>(params, v). length v)", simp, goal_cases)
  case (1 params v x key y val rest)
  then show ?case
    using length_consumeMediaParam [of "TrimLeftSpace v" key val rest] length_TrimLeftSpace [of v] by simp
next
  case (2 params v x key y val rest w)
  then show ?case
    using length_consumeMediaParam [of "TrimLeftSpace v" key val rest] length_TrimLeftSpace [of v] by simp
qed

declare mediaParams.simps [simp del]

text \<open>\<open>mime.ParseMediaType\<close>: the media type, or \<open>None\<close> if there is an error.\<close>

definition ParseMediaType :: "string \<Rightarrow> string option" where
  "ParseMediaType v =
     (let base = takeWhile (\<lambda>c. c \<noteq> CHR '';'') v; mediatype = TrimSpace (ToLower base) in
      if validMediaType mediatype \<and> mediaParams [] (drop (length base) v) then Some mediatype else None)"

section \<open>Lemmas on names\<close>

lemma byte_classes:
  "is_lower c \<longleftrightarrow> 97 \<le> byte_of c \<and> byte_of c \<le> 122"
  "is_upper c \<longleftrightarrow> 65 \<le> byte_of c \<and> byte_of c \<le> 90"
  "is_digit c \<longleftrightarrow> 48 \<le> byte_of c \<and> byte_of c \<le> 57"
  by (simp_all add: is_lower_def is_upper_def is_digit_def byte_of_def less_eq_char_def)

lemma byte_of_char_of: "n < 256 \<Longrightarrow> byte_of (char_of n) = n"
  by (simp add: byte_of_def)

lemma byte_asciiLower: "byte_of (asciiLower c) = (if 65 \<le> byte_of c \<and> byte_of c \<le> 90 then byte_of c + 32 else byte_of c)"
  by (simp add: asciiLower_def byte_classes byte_of_char_of)

lemma byte_asciiUpper: "byte_of (asciiUpper c) = (if 97 \<le> byte_of c \<and> byte_of c \<le> 122 then byte_of c - 32 else byte_of c)"
  using byte_of_char_of [of "byte_of c - 32"] by (auto simp: asciiUpper_def byte_classes)

lemma ascii_case [simp]:
  "asciiLower (asciiUpper c) = asciiLower c" "asciiUpper (asciiLower c) = asciiUpper c"
  "asciiLower (asciiLower c) = asciiLower c" "asciiUpper (asciiUpper c) = asciiUpper c"
  by (auto simp: byte_of_inject [symmetric] byte_asciiLower byte_asciiUpper)

lemma tokenByte_case [simp]: "tokenByte (asciiLower c) = tokenByte c" "tokenByte (asciiUpper c) = tokenByte c"
proof -
  have "is_lower (asciiLower c)" if "is_upper c" using that by (simp add: byte_classes byte_asciiLower)
  moreover have "is_upper (asciiUpper c)" if "is_lower c" using that by (auto simp: byte_classes byte_asciiUpper)
  ultimately show "tokenByte (asciiLower c) = tokenByte c" "tokenByte (asciiUpper c) = tokenByte c"
    unfolding tokenByte_def asciiLower_def asciiUpper_def by (simp_all split: if_splits)
qed

lemma tokenByte_range: "tokenByte c \<Longrightarrow> 32 < byte_of c \<and> byte_of c < 128"
  unfolding tokenByte_def byte_classes by (elim disjE) (auto simp: byte_of_def)

lemma canonBytes_token [simp]: "list_all tokenByte (canonBytes up s) = list_all tokenByte s"
  by (induction up s rule: canonBytes.induct) (simp_all add: Let_def)

lemma canonBytes_lower [simp]: "map asciiLower (canonBytes up s) = map asciiLower s"
  by (induction up s rule: canonBytes.induct) (simp_all add: Let_def)

lemma canonBytes_cong: "map asciiLower s = map asciiLower t \<Longrightarrow> canonBytes up s = canonBytes up t"
proof (induction up s arbitrary: t rule: canonBytes.induct)
  case (2 up c cs)
  then obtain d ds where t: "t = d # ds" "asciiLower c = asciiLower d" "map asciiLower cs = map asciiLower ds"
    by (cases t) auto
  then have "asciiUpper c = asciiUpper d" by (metis ascii_case(2))
  then show ?case using 2 t by (simp add: Let_def)
qed simp

lemma CanonicalHeaderKey_idem [simp]: "CanonicalHeaderKey (CanonicalHeaderKey s) = CanonicalHeaderKey s"
  by (simp add: CanonicalHeaderKey_def canonBytes_cong [OF canonBytes_lower])

lemma CanonicalHeaderKey_token [simp]: "list_all tokenByte (CanonicalHeaderKey s) = list_all tokenByte s"
  by (simp add: CanonicalHeaderKey_def)

lemma foldBytes_token: "list_all tokenByte s \<Longrightarrow> foldBytes s = map asciiLower s"
proof (induction s)
  case (Cons c cs)
  then have "byte_of c < 128" by (simp add: tokenByte_range)
  then have "c \<noteq> CHR 0xC5" "c \<noteq> CHR 0xE2" by (auto simp: byte_of_def)
  then show ?case using Cons by simp
qed simp

text \<open>On valid header names the two comparisons of the program, folding the case and comparing the
  canonical forms, agree.\<close>

lemma EqualFold_token:
  assumes "list_all tokenByte s" "list_all tokenByte t"
  shows "EqualFold s t \<longleftrightarrow> CanonicalHeaderKey s = CanonicalHeaderKey t"
proof
  assume "EqualFold s t"
  then have "map asciiLower s = map asciiLower t" using assms by (simp add: EqualFold_def foldBytes_token)
  then show "CanonicalHeaderKey s = CanonicalHeaderKey t"
    using assms canonBytes_cong [of s t True] by (simp add: CanonicalHeaderKey_def)
next
  assume "CanonicalHeaderKey s = CanonicalHeaderKey t"
  then have "map asciiLower (canonBytes True s) = map asciiLower (canonBytes True t)"
    using assms by (simp add: CanonicalHeaderKey_def)
  then show "EqualFold s t" using assms by (simp add: EqualFold_def foldBytes_token)
qed

definition tokenRange :: "char \<Rightarrow> bool" where
  "tokenRange c \<longleftrightarrow> 32 < byte_of c \<and> byte_of c < 128"

lemma space_bounds:
  "list_all (\<lambda>p. p \<noteq> [] \<and> \<not> tokenRange (hd p) \<and> \<not> tokenRange (last p)) spaceSequences"
  by code_simp

lemma spaceWidth_none:
  assumes "\<forall>p\<in>set seqs. p \<noteq> [] \<and> hd p \<noteq> c"
  shows "spaceWidth seqs (c # cs) = 0"
proof -
  have "\<not> hasPrefix (c # cs) p" if "p \<noteq> []" "hd p \<noteq> c" for p
    using that by (auto simp: hasPrefix_def neq_Nil_conv)
  then have "find (hasPrefix (c # cs)) seqs = None" using assms by (simp add: find_None_iff)
  then show ?thesis by (simp add: spaceWidth_def)
qed

lemma spaceWidth_token:
  assumes "tokenByte c"
  shows "spaceWidth spaceSequences (c # cs) = 0" "spaceWidth (map rev spaceSequences) (c # cs) = 0"
  using space_bounds tokenByte_range [OF assms] by (auto intro!: spaceWidth_none simp: hd_rev tokenRange_def list_all_iff)

lemma TrimSpace_token:
  assumes "list_all tokenByte s"
  shows "TrimSpace s = s"
proof -
  have "trimWith spaceSequences s = s" using assms by (cases s) (simp_all add: spaceWidth_token)
  moreover have "trimWith (map rev spaceSequences) (rev s) = rev s"
    using assms by (cases s rule: rev_cases) (simp_all add: spaceWidth_token)
  ultimately show ?thesis by (simp add: TrimSpace_def TrimLeftSpace_def)
qed

end
