(* ===== verification/Upstream_Headers.thy ===== *)
theory Upstream_Headers
  imports Go_Http
begin

text \<open>
  The header boundary of the upstream package: what of a client's request headers is forwarded and
  what an administrator may add (\<open>src/internal/upstream/headers.go\<close>), and what of a provider's
  response headers reaches the client (\<open>responseHeaders\<close> and \<open>startClientResponse\<close> of
  \<open>src/internal/upstream/response.go\<close>).  The loops over a header map visit the entries in the order
  of the list.
\<close>

datatype upstream_error =
    DuplicateSingletonHeader
  | AllowlistName
  | AllowlistForbidden
  | HeaderLineBreak
  | ForwardedSize
  | InvalidStaticHeaders
  | InvalidCredentialScope
  | ErrInvalidResponseRelay
  | ErrUpstreamNonSuccess
  | ErrResponseBodyTooLarge

abbreviation maximumForwardedHeaderBytes :: int where
  "maximumForwardedHeaderBytes \<equiv> 32768"

abbreviation maximumResponseHeaders :: int where
  "maximumResponseHeaders \<equiv> 128"

abbreviation maximumResponseHeadBytes :: int where
  "maximumResponseHeadBytes \<equiv> 65536"

section \<open>Names and values\<close>

definition singletonRequestHeaders :: "string list" where
  "singletonRequestHeaders =
     [''Accept'', ''Anthropic-Version'', ''Authorization'', ''Content-Encoding'', ''Content-Type'', ''Dpop'',
      ''Dpop-Nonce'', ''Expect'']"

definition forbiddenHeaders :: "string list" where
  "forbiddenHeaders =
     [''Accept-Encoding'', ''Authorization'', ''Proxy-Authorization'', ''Dpop'', ''Dpop-Nonce'', ''Connection'',
      ''Content-Encoding'', ''Content-Length'', ''Expect'', ''Host'', ''Proxy-Connection'', ''Keep-Alive'',
      ''Transfer-Encoding'', ''Te'', ''Trailer'', ''Upgrade'', ''X-Api-Key'', ''Api-Key'', ''Openai-Api-Key'',
      ''Openai-Organization'', ''Anthropic-Api-Key'', ''Baggage'', ''Cookie'', ''Forwarded'', ''Set-Cookie'',
      ''Traceparent'', ''Tracestate'', ''X-Forwarded-For'', ''X-Forwarded-Host'', ''X-Forwarded-Proto'',
      ''X-Goog-Api-Key'', ''X-Auth-Token'']"

definition headerValues :: "header \<Rightarrow> string \<Rightarrow> string list" where
  "headerValues headers name = concat (map snd (filter (\<lambda>(candidate, _). EqualFold candidate name) headers))"

definition validateSingletonRequestHeaders :: "header \<Rightarrow> upstream_error + unit" where
  "validateSingletonRequestHeaders headers =
     (if list_ex (\<lambda>name. 1 < length (headerValues headers name)) singletonRequestHeaders
      then Inl DuplicateSingletonHeader else Inr ())"

definition validHeaderByte :: "char \<Rightarrow> bool" where
  "validHeaderByte c \<longleftrightarrow> \<not> (byte_of c < 32 \<and> c \<noteq> CHR 0x09 \<or> c = CHR 0x7F)"

definition validHeaderValue :: "string \<Rightarrow> bool" where
  "validHeaderValue value = list_all validHeaderByte value"

definition validStaticHeaderValue :: "string \<Rightarrow> bool" where
  "validStaticHeaderValue value \<longleftrightarrow> int (length value) \<le> 2048 \<and> validHeaderValue value"

definition validHeaderName :: "string \<Rightarrow> bool" where
  "validHeaderName name \<longleftrightarrow> name \<noteq> [] \<and> list_all tokenByte name"

fun bearerBytes :: "bool \<Rightarrow> string \<Rightarrow> bool" where
  "bearerBytes padding [] = True"
| "bearerBytes padding (c # cs) =
     (if c = CHR ''='' then bearerBytes True cs
      else \<not> padding \<and> (is_lower c \<or> is_upper c \<or> is_digit c \<or> c \<in> set ''-._~+/'') \<and> bearerBytes padding cs)"

definition validBearerCredential :: "string \<Rightarrow> bool" where
  "validBearerCredential credential =
     (if length credential = 0 \<or> maximumForwardedHeaderBytes < int (length credential) then False
      else bearerBytes False credential)"

definition validHeaderCredential :: "string \<Rightarrow> bool" where
  "validHeaderCredential credential =
     (if length credential = 0 \<or> maximumForwardedHeaderBytes < int (length credential) then False
      else list_all validHeaderByte credential)"

definition validBasicUsername :: "string \<Rightarrow> bool" where
  "validBasicUsername username =
     (if length username = 0 \<or> 256 < length username then False
      else list_all (\<lambda>c. \<not> (byte_of c < 33 \<or> 126 < byte_of c \<or> c = CHR '':'')) username)"

definition isForbiddenHeader :: "string \<Rightarrow> bool" where
  "isForbiddenHeader name =
     (if hasPrefix (ToLower name) ''x-latchway-'' then True
      else CanonicalHeaderKey name \<in> set forbiddenHeaders)"

definition isForbiddenStaticHeader :: "string \<Rightarrow> bool" where
  "isForbiddenStaticHeader name =
     (if isForbiddenHeader name then True
      else CanonicalHeaderKey name \<in> set [''Accept'', ''Anthropic-Version'', ''Content-Type''])"

definition isForbiddenCredentialHeader :: "string \<Rightarrow> bool" where
  "isForbiddenCredentialHeader name =
     (if hasPrefix (ToLower name) ''x-latchway-'' then True
      else CanonicalHeaderKey name \<in> set
        [''Accept'', ''Accept-Encoding'', ''Anthropic-Version'', ''Connection'', ''Content-Encoding'', ''Content-Length'',
         ''Content-Type'', ''Cookie'', ''Dpop'', ''Dpop-Nonce'', ''Expect'', ''Forwarded'', ''Host'', ''Keep-Alive'',
         ''Proxy-Authorization'', ''Proxy-Connection'', ''Set-Cookie'', ''Te'', ''Trailer'', ''Transfer-Encoding'',
         ''Upgrade'', ''X-Forwarded-For'', ''X-Forwarded-Host'', ''X-Forwarded-Proto''])"

section \<open>Request headers\<close>

fun allowedNames :: "string list \<Rightarrow> upstream_error + string list" where
  "allowedNames [] = Inr []"
| "allowedNames (name # names) =
     (let canonical = CanonicalHeaderKey (TrimSpace name) in
      if TrimSpace name \<noteq> name \<or> \<not> validHeaderName name then Inl AllowlistName
      else if isForbiddenHeader canonical then Inl AllowlistForbidden
      else andThen (allowedNames names) (\<lambda>allowed. Inr (canonical # allowed)))"

definition requestConnectionTokens :: "header \<Rightarrow> string list" where
  "requestConnectionTokens incoming =
     concat (map (\<lambda>value. map (\<lambda>token. CanonicalHeaderKey (TrimSpace token)) (splitAt (CHR '','') value))
       (headerValues incoming ''Connection''))"

fun forwardValues :: "string \<Rightarrow> string list \<Rightarrow> int \<times> header \<Rightarrow> upstream_error + int \<times> header" where
  "forwardValues canonical [] (used, outbound) = Inr (used, outbound)"
| "forwardValues canonical (value # values) (used, outbound) =
     (if \<not> validHeaderValue value then Inl HeaderLineBreak
      else let used = used + (int (length canonical) + int (length value)) in
        if maximumForwardedHeaderBytes < used then Inl ForwardedSize
        else forwardValues canonical values (used, headerAdd outbound canonical value))"

fun forwardEntries :: "string list \<Rightarrow> string list \<Rightarrow> header \<Rightarrow> int \<times> header \<Rightarrow> upstream_error + int \<times> header" where
  "forwardEntries allowed connected [] st = Inr st"
| "forwardEntries allowed connected ((name, values) # rest) st =
     (let canonical = CanonicalHeaderKey name in
      if canonical \<notin> set allowed \<or> isForbiddenHeader canonical then forwardEntries allowed connected rest st
      else if canonical \<in> set connected then forwardEntries allowed connected rest st
      else andThen (forwardValues canonical values st) (forwardEntries allowed connected rest))"

definition ForwardHeaders :: "header \<Rightarrow> string list \<Rightarrow> upstream_error + header" where
  "ForwardHeaders incoming allowlist =
     andThen (validateSingletonRequestHeaders incoming) (\<lambda>_.
     andThen (allowedNames allowlist) (\<lambda>allowed.
     andThen (forwardEntries allowed (requestConnectionTokens incoming) incoming (0, [])) (\<lambda>(used, outbound).
     Inr outbound)))"

text \<open>The administrator's headers are a Go map from name to value.\<close>

fun checkStatic :: "int \<Rightarrow> string list \<Rightarrow> (string \<times> string) list \<Rightarrow> bool" where
  "checkStatic used seen [] = True"
| "checkStatic used seen ((name, value) # rest) =
     (let canonical = CanonicalHeaderKey name; used = used + (int (length canonical) + int (length value)) in
      if TrimSpace name \<noteq> name \<or> \<not> validHeaderName name \<or> isForbiddenStaticHeader canonical \<or>
         \<not> validStaticHeaderValue value \<or> maximumForwardedHeaderBytes < used
      then False
      else if canonical \<in> set seen then False
      else checkStatic used (canonical # seen) rest)"

definition setStatic :: "string \<times> string \<Rightarrow> header \<Rightarrow> header" where
  "setStatic entry headers =
     (let canonical = CanonicalHeaderKey (fst entry) in headerSet (headerDel headers canonical) canonical (snd entry))"

definition ApplyStaticHeaders :: "header option \<Rightarrow> (string \<times> string) list \<Rightarrow> upstream_error + header" where
  "ApplyStaticHeaders headers values =
     (case headers of
        None \<Rightarrow> Inl InvalidStaticHeaders
      | Some h \<Rightarrow>
          if 32 < length values then Inl InvalidStaticHeaders
          else if \<not> checkStatic 0 [] values then Inl InvalidStaticHeaders
          else Inr (fold setStatic values h))"

section \<open>Response headers\<close>

definition validResponseHeaderName :: "string \<Rightarrow> bool" where
  "validResponseHeaderName name \<longleftrightarrow> name \<noteq> [] \<and> list_all tokenByte name"

definition validResponseHeaderValue :: "string \<Rightarrow> bool" where
  "validResponseHeaderValue value = list_all validHeaderByte value"

fun responseValueBytes :: "string \<Rightarrow> int \<Rightarrow> string list \<Rightarrow> upstream_error + int" where
  "responseValueBytes canonical used [] = Inr used"
| "responseValueBytes canonical used (value # values) =
     (let used = used + (int (length canonical) + int (length value)) in
      if maximumResponseHeadBytes < used then Inl ErrInvalidResponseRelay
      else if \<not> validResponseHeaderValue value then Inl ErrInvalidResponseRelay
      else responseValueBytes canonical used values)"

fun connectionNames :: "string list \<Rightarrow> string list \<Rightarrow> upstream_error + string list" where
  "connectionNames names [] = Inr names"
| "connectionNames names (raw # tokens) =
     (let token = TrimSpace raw in
      if token = [] then connectionNames names tokens
      else if \<not> validResponseHeaderName token then Inl ErrInvalidResponseRelay
      else connectionNames (CanonicalHeaderKey token # names) tokens)"

fun scanResponseHeaders :: "int \<Rightarrow> int \<Rightarrow> string list \<Rightarrow> header \<Rightarrow> upstream_error + string list" where
  "scanResponseHeaders count used names [] = Inr names"
| "scanResponseHeaders count used names ((name, values) # rest) =
     (if \<not> validResponseHeaderName name then Inl ErrInvalidResponseRelay
      else if maximumResponseHeaders < count + 1 then Inl ErrInvalidResponseRelay
      else let canonical = CanonicalHeaderKey name in
        andThen (responseValueBytes canonical used values) (\<lambda>used.
        andThen (if canonical = ''Connection''
                 then connectionNames names (concat (map (splitAt (CHR '','')) values)) else Inr names) (\<lambda>names.
        scanResponseHeaders (count + 1) used names rest)))"

fun filterResponseHeaders :: "string list \<Rightarrow> string list \<Rightarrow> header \<Rightarrow> header \<Rightarrow> upstream_error + header" where
  "filterResponseHeaders connected singletons filtered [] = Inr filtered"
| "filterResponseHeaders connected singletons filtered ((name, values) # rest) =
     (let canonical = CanonicalHeaderKey name in
      if canonical \<in> set connected then filterResponseHeaders connected singletons filtered rest
      else if canonical \<notin> set [''Content-Type'', ''Content-Encoding'', ''Retry-After'']
      then filterResponseHeaders connected singletons filtered rest
      else if canonical \<in> set singletons \<or> length values \<noteq> 1 then Inl ErrInvalidResponseRelay
      else if canonical = ''Content-Encoding'' then
        (let encoding = TrimSpace (values ! 0) in
         if encoding = [] then filterResponseHeaders connected (canonical # singletons) filtered rest
         else if \<not> EqualFold encoding ''identity'' then Inl ErrInvalidResponseRelay
         else filterResponseHeaders connected (canonical # singletons) (headerAdd filtered canonical ''identity'') rest)
      else filterResponseHeaders connected (canonical # singletons)
             (fold (\<lambda>value h. headerAdd h canonical value) values filtered) rest)"

definition responseHeaders :: "header \<Rightarrow> upstream_error + header \<times> bool" where
  "responseHeaders source =
     andThen (scanResponseHeaders 0 0 [] source) (\<lambda>connected.
     andThen (filterResponseHeaders connected [] [] source) (\<lambda>filtered.
     let filtered = headerSet filtered ''Cache-Control'' ''no-store'';
         contentType = headerGet filtered ''Content-Type'' in
     if contentType \<noteq> [] then
       (case ParseMediaType contentType of
          None \<Rightarrow> Inl ErrInvalidResponseRelay
        | Some mediaType \<Rightarrow> Inr (filtered, EqualFold mediaType ''text/event-stream''))
     else Inr (filtered, False)))"

text \<open>The header map of the client's response, before the status line is written.\<close>

definition copyEntry :: "string \<times> string list \<Rightarrow> header \<Rightarrow> header" where
  "copyEntry entry target =
     fold (\<lambda>value h. headerAdd h (fst entry) value) (snd entry) (headerDel target (fst entry))"

definition startClientResponse :: "header \<Rightarrow> header \<Rightarrow> header" where
  "startClientResponse target headers =
     (let target = fold (\<lambda>name h. headerDel h name)
            [''Content-Length'', ''Trailer'', ''Location'', ''Refresh'', ''Content-Encoding'', ''Content-Type'',
             ''Retry-After''] target;
          target = fold copyEntry headers target;
          target = headerSet target ''Cache-Control'' ''no-store'';
          target = headerSet target ''X-Content-Type-Options'' ''nosniff'';
          target = headerSet target ''X-Frame-Options'' ''DENY'' in
      headerSet target ''Referrer-Policy'' ''no-referrer'')"

section \<open>Lemmas on header maps\<close>

definition canonicalValues :: "header \<Rightarrow> string \<Rightarrow> string list" where
  "canonicalValues h name = concat (map snd (filter (\<lambda>(k, _). CanonicalHeaderKey k = name) h))"

definition entryBytes :: "string \<Rightarrow> string list \<Rightarrow> int" where
  "entryBytes k vs = sum_list (map (\<lambda>v. int (length k) + int (length v)) vs)"

definition headerBytes :: "header \<Rightarrow> int" where
  "headerBytes h = sum_list (map (\<lambda>(k, vs). entryBytes k vs) h)"

lemma headerEntry_set [simp]:
  "headerEntry (headerSet h k v) n = (if n = CanonicalHeaderKey k then [v] else headerEntry h n)"
  by (simp add: headerEntry_def headerSet_def update_conv')

lemma headerEntry_add [simp]:
  "headerEntry (headerAdd h k v) n = headerEntry h n @ (if n = CanonicalHeaderKey k then [v] else [])"
  by (simp add: headerEntry_def headerAdd_def update_conv')

lemma headerEntry_del [simp]:
  "headerEntry (headerDel h k) n = (if n = CanonicalHeaderKey k then [] else headerEntry h n)"
  by (simp add: headerEntry_def headerDel_def delete_conv')

lemma headerEntry_Nil [simp]: "headerEntry [] n = []"
  by (simp add: headerEntry_def)

lemma headerEntry_Cons: "headerEntry ((k, vs) # h) n = (if n = k then vs else headerEntry h n)"
  by (simp add: headerEntry_def)

lemma headerEntry_absent: "n \<notin> fst ` set h \<Longrightarrow> headerEntry h n = []"
  by (induction h) (auto simp: headerEntry_Cons)

lemma header_keys [simp]:
  "fst ` set (headerSet h k v) = insert (CanonicalHeaderKey k) (fst ` set h)"
  "fst ` set (headerAdd h k v) = insert (CanonicalHeaderKey k) (fst ` set h)"
  by (simp_all add: headerSet_def headerAdd_def dom_update)

lemma header_wf_ops [simp]:
  "header_wf []" "header_wf h \<Longrightarrow> header_wf (headerSet h k v)" "header_wf h \<Longrightarrow> header_wf (headerAdd h k v)"
  "header_wf h \<Longrightarrow> header_wf (headerDel h k)"
  by (simp_all add: header_wf_def headerSet_def headerAdd_def headerDel_def distinct_update distinct_delete)

lemma entryBytes_simps [simp]:
  "entryBytes k [] = 0" "entryBytes k (vs @ [v]) = entryBytes k vs + (int (length k) + int (length v))"
  by (simp_all add: entryBytes_def)

lemma headerBytes_update:
  "distinct (map fst h) \<Longrightarrow>
     headerBytes (AList.update k vs h) + entryBytes k (headerEntry h k) = headerBytes h + entryBytes k vs"
proof (induction h)
  case (Cons e h)
  obtain k' vs' where e: "e = (k', vs')" by (cases e)
  show ?case
  proof (cases "k' = k")
    case True
    then show ?thesis by (simp add: e headerBytes_def headerEntry_def)
  next
    case False
    then show ?thesis using Cons by (simp add: e headerBytes_def headerEntry_def)
  qed
qed (simp add: headerBytes_def)

lemma headerBytes_add:
  assumes "header_wf h"
  shows "headerBytes (headerAdd h k v) = headerBytes h + (int (length (CanonicalHeaderKey k)) + int (length v))"
  using headerBytes_update [of h "CanonicalHeaderKey k" "headerEntry h (CanonicalHeaderKey k) @ [v]"] assms
  by (simp add: headerAdd_def header_wf_def)

lemma header_entry_iff: "header_wf h \<Longrightarrow> (k, vs) \<in> set h \<Longrightarrow> headerEntry h k = vs"
  by (simp add: header_wf_def headerEntry_def)

lemma canonicalValues_simps [simp]:
  "canonicalValues [] n = []"
  "canonicalValues ((k, vs) # h) n = (if CanonicalHeaderKey k = n then vs else []) @ canonicalValues h n"
  by (simp_all add: canonicalValues_def)

section \<open>Lemmas on the request headers\<close>

lemma allowedNames_Inr:
  "allowedNames names = Inr allowed \<Longrightarrow>
     set allowed = CanonicalHeaderKey ` set names \<and> (\<forall>n\<in>set allowed. \<not> isForbiddenHeader n)"
proof (induction names arbitrary: allowed)
  case (Cons name names)
  then obtain rest where "allowedNames names = Inr rest" "allowed = CanonicalHeaderKey name # rest"
    "\<not> isForbiddenHeader (CanonicalHeaderKey name)"
    by (auto simp: Let_def andThen_def split: if_splits sum.splits)
  then show ?case using Cons.IH by simp
qed simp

lemma forwardValues_Inr:
  assumes "forwardValues c values (used, out) = Inr (used', out')" "CanonicalHeaderKey c = c" "header_wf out"
    "used = headerBytes out" "used \<le> maximumForwardedHeaderBytes"
  shows "header_wf out' \<and> used' = headerBytes out' \<and> used' \<le> maximumForwardedHeaderBytes \<and>
    list_all validHeaderValue values \<and> (\<forall>n. headerEntry out' n = headerEntry out n @ (if n = c then values else []))"
  using assms
proof (induction c "values" "(used, out)" arbitrary: used out rule: forwardValues.induct)
  case (2 c v vs used out)
  let ?used = "used + (int (length c) + int (length v))"
  have v: "validHeaderValue v" "?used \<le> maximumForwardedHeaderBytes"
    and f: "forwardValues c vs (?used, headerAdd out c v) = Inr (used', out')"
    using "2.prems"(1) by (auto simp: Let_def split: if_splits)
  have b: "?used = headerBytes (headerAdd out c v)" using "2.prems"(2-4) by (simp add: headerBytes_add)
  show ?case
    using "2.hyps" [OF _ refl _ f "2.prems"(2) _ b v(2)] v "2.prems"(2,3) by simp
qed simp

lemma forwardEntries_Inr:
  assumes "forwardEntries allowed connected entries (used, out) = Inr (used', out')" "header_wf out"
    "used = headerBytes out" "used \<le> maximumForwardedHeaderBytes"
    "\<And>n. n \<in> set allowed \<Longrightarrow> \<not> isForbiddenHeader n"
  shows "header_wf out' \<and> used' = headerBytes out' \<and> used' \<le> maximumForwardedHeaderBytes \<and>
    (\<forall>n. headerEntry out' n =
       headerEntry out n @ (if n \<in> set allowed \<and> n \<notin> set connected then canonicalValues entries n else [])) \<and>
    (\<forall>n. n \<in> set allowed \<and> n \<notin> set connected \<longrightarrow> list_all validHeaderValue (canonicalValues entries n))"
  using assms(1-4)
proof (induction entries arbitrary: used out)
  case (Cons e entries)
  obtain name vs where e: "e = (name, vs)" by (cases e)
  let ?c = "CanonicalHeaderKey name"
  show ?case
  proof (cases "?c \<in> set allowed \<and> ?c \<notin> set connected")
    case False
    then have "forwardEntries allowed connected entries (used, out) = Inr (used', out')"
      using Cons.prems(1) assms(5) by (auto simp: e Let_def split: if_splits)
    then show ?thesis using Cons.IH Cons.prems(2-4) False by (auto simp: e)
  next
    case True
    then obtain used1 out1 where v: "forwardValues ?c vs (used, out) = Inr (used1, out1)"
      and f: "forwardEntries allowed connected entries (used1, out1) = Inr (used', out')"
      using Cons.prems(1) assms(5) by (auto simp: e Let_def andThen_def split: sum.splits)
    note 1 = forwardValues_Inr [OF v CanonicalHeaderKey_idem Cons.prems(2-4)]
    then show ?thesis using Cons.IH [OF f] True by (auto simp: e)
  qed
qed simp

lemma ForwardHeaders_Inr:
  assumes "ForwardHeaders incoming allowlist = Inr out"
  shows "header_wf out" "headerBytes out \<le> maximumForwardedHeaderBytes"
    "headerEntry out n =
       (if n \<in> CanonicalHeaderKey ` set allowlist \<and> n \<notin> set (requestConnectionTokens incoming)
        then canonicalValues incoming n else [])"
    "list_all validHeaderValue (headerEntry out n)"
    "isForbiddenHeader n \<Longrightarrow> headerEntry out n = []"
proof -
  obtain allowed used where a: "allowedNames allowlist = Inr allowed"
    and f: "forwardEntries allowed (requestConnectionTokens incoming) incoming (0, []) = Inr (used, out)"
    using assms by (auto simp: ForwardHeaders_def andThen_def split: sum.splits)
  note r = forwardEntries_Inr [OF f] and b = allowedNames_Inr [OF a]
  show "header_wf out" "headerBytes out \<le> maximumForwardedHeaderBytes"
    "headerEntry out n =
       (if n \<in> CanonicalHeaderKey ` set allowlist \<and> n \<notin> set (requestConnectionTokens incoming)
        then canonicalValues incoming n else [])"
    "list_all validHeaderValue (headerEntry out n)"
    "isForbiddenHeader n \<Longrightarrow> headerEntry out n = []"
    using r b by (auto simp: headerBytes_def)
qed

text \<open>
  C29. The forwarding of request headers is exactly an allowlist.  When \<open>ForwardHeaders\<close> succeeds,
  the outbound header map holds, under each name, the values of the incoming entries with that
  canonical name, in their order, if the name is the canonical form of an allowlisted name and no
  \<open>Connection\<close> header names it, and nothing otherwise.  Every value is free of control characters,
  no credential, hop-by-hop or Latchway control header is among them, and their size is bounded.
\<close>

theorem forward_headers_exact:
  assumes "ForwardHeaders incoming allowlist = Inr out"
  shows "header_wf out \<and> headerBytes out \<le> maximumForwardedHeaderBytes \<and>
    (\<forall>n. headerEntry out n =
       (if n \<in> CanonicalHeaderKey ` set allowlist \<and> n \<notin> set (requestConnectionTokens incoming)
        then canonicalValues incoming n else [])) \<and>
    (\<forall>n. list_all validHeaderValue (headerEntry out n)) \<and>
    (\<forall>n. isForbiddenHeader n \<longrightarrow> headerEntry out n = [])"
  using ForwardHeaders_Inr [OF assms] by blast

definition sampleIncoming :: header where
  "sampleIncoming =
     [(''content-type'', [''application/json'']), (''Connection'', [''X-Trace, close'']), (''X-Trace'', [''1'']),
      (''Authorization'', [''Bearer secret''])]"

theorem forward_headers_exact_witness:
  "ForwardHeaders sampleIncoming [''Content-Type'', ''X-Trace''] = Inr [(''Content-Type'', [''application/json''])] \<and>
   header_wf [(''Content-Type'', [''application/json''])] \<and>
   headerEntry [(''Content-Type'', [''application/json''])] ''Content-Type'' = canonicalValues sampleIncoming ''Content-Type''"
proof -
  have r: "ForwardHeaders sampleIncoming [''Content-Type'', ''X-Trace''] = Inr [(''Content-Type'', [''application/json''])]"
    by code_simp
  have "headerEntry [(''Content-Type'', [''application/json''])] ''Content-Type'' = [''application/json'']" by code_simp
  moreover have "canonicalValues sampleIncoming ''Content-Type'' = [''application/json'']" by code_simp
  ultimately show ?thesis using r forward_headers_exact [OF r] by simp
qed

definition canonicalStatic :: "(string \<times> string) list \<Rightarrow> (string \<times> string) list" where
  "canonicalStatic values = map (\<lambda>(k, v). (CanonicalHeaderKey k, v)) values"

lemma canonicalStatic_simps [simp]:
  "canonicalStatic [] = []"
  "canonicalStatic ((k, v) # values) = (CanonicalHeaderKey k, v) # canonicalStatic values"
  by (simp_all add: canonicalStatic_def)

lemma validHeaderName_canonical [simp]: "validHeaderName (CanonicalHeaderKey name) = validHeaderName name"
  by (cases name) (simp_all add: validHeaderName_def CanonicalHeaderKey_def Let_def)

lemma checkStatic_True:
  assumes "checkStatic used seen values" "used \<le> maximumForwardedHeaderBytes"
  shows "distinct (map fst (canonicalStatic values)) \<and> set (map fst (canonicalStatic values)) \<inter> set seen = {} \<and>
     (\<forall>(k, v)\<in>set (canonicalStatic values). \<not> isForbiddenStaticHeader k \<and> validHeaderName k \<and> validHeaderValue v) \<and>
     used + sum_list (map (\<lambda>(k, v). int (length k) + int (length v)) (canonicalStatic values)) \<le> maximumForwardedHeaderBytes"
  using assms
proof (induction "values" arbitrary: used seen)
  case (Cons e rest)
  obtain name v where e: "e = (name, v)" by (cases e)
  let ?c = "CanonicalHeaderKey name" and ?used = "used + (int (length (CanonicalHeaderKey name)) + int (length v))"
  have c: "validHeaderName name" "\<not> isForbiddenStaticHeader ?c" "validHeaderValue v"
    "?used \<le> maximumForwardedHeaderBytes" "?c \<notin> set seen" and r: "checkStatic ?used (?c # seen) rest"
    using Cons.prems(1) by (auto simp: e Let_def validStaticHeaderValue_def split: if_splits)
  show ?case using Cons.IH [OF r c(4)] c by (simp add: e)
qed simp

lemma headerEntry_setStatic [simp]:
  "headerEntry (setStatic (k, v) h) n = (if n = CanonicalHeaderKey k then [v] else headerEntry h n)"
  by (simp add: setStatic_def Let_def)

lemma header_wf_setStatic [simp]: "header_wf h \<Longrightarrow> header_wf (setStatic e h)"
  by (simp add: setStatic_def Let_def)

lemma fold_setStatic:
  "distinct (map fst (canonicalStatic values)) \<Longrightarrow>
     headerEntry (fold setStatic values h) n =
       (case map_of (canonicalStatic values) n of None \<Rightarrow> headerEntry h n | Some v \<Rightarrow> [v])"
proof (induction "values" arbitrary: h)
  case (Cons e "values")
  obtain k v where e: "e = (k, v)" by (cases e)
  have d: "distinct (map fst (canonicalStatic values))" "CanonicalHeaderKey k \<notin> fst ` set (canonicalStatic values)"
    using Cons.prems by (simp_all add: e)
  show ?case
  proof (cases "n = CanonicalHeaderKey k")
    case True
    then have "map_of (canonicalStatic values) n = None" using d(2) by (simp add: map_of_eq_None_iff)
    then show ?thesis using Cons.IH [OF d(1)] True by (simp add: e)
  next
    case False
    then show ?thesis using Cons.IH [OF d(1)] by (simp add: e split: option.split)
  qed
qed simp

lemma header_wf_fold_setStatic: "header_wf h \<Longrightarrow> header_wf (fold setStatic values h)"
  by (induction "values" arbitrary: h) simp_all

lemma ApplyStaticHeaders_Inr:
  assumes "ApplyStaticHeaders (Some h) values = Inr out"
  shows "headerEntry out n = (case map_of (canonicalStatic values) n of None \<Rightarrow> headerEntry h n | Some v \<Rightarrow> [v])"
    "header_wf h \<Longrightarrow> header_wf out"
    "map_of (canonicalStatic values) n = Some v \<Longrightarrow>
       \<not> isForbiddenStaticHeader n \<and> validHeaderName n \<and> validHeaderValue v"
proof -
  have c: "checkStatic 0 [] values" and out: "out = fold setStatic values h"
    using assms by (auto simp: ApplyStaticHeaders_def split: if_splits)
  note s = checkStatic_True [OF c, simplified]
  show "headerEntry out n = (case map_of (canonicalStatic values) n of None \<Rightarrow> headerEntry h n | Some v \<Rightarrow> [v])"
    using s by (simp add: out fold_setStatic)
  show "header_wf h \<Longrightarrow> header_wf out" by (simp add: out header_wf_fold_setStatic)
  show "map_of (canonicalStatic values) n = Some v \<Longrightarrow>
      \<not> isForbiddenStaticHeader n \<and> validHeaderName n \<and> validHeaderValue v"
    using s by (auto dest: map_of_SomeD)
qed

section \<open>Lemmas on the response headers\<close>

lemma canonical_response_names [simp]:
  "CanonicalHeaderKey ''Content-Length'' = ''Content-Length''" "CanonicalHeaderKey ''Trailer'' = ''Trailer''"
  "CanonicalHeaderKey ''Location'' = ''Location''" "CanonicalHeaderKey ''Refresh'' = ''Refresh''"
  "CanonicalHeaderKey ''Content-Encoding'' = ''Content-Encoding''" "CanonicalHeaderKey ''Content-Type'' = ''Content-Type''"
  "CanonicalHeaderKey ''Retry-After'' = ''Retry-After''" "CanonicalHeaderKey ''Cache-Control'' = ''Cache-Control''"
  "CanonicalHeaderKey ''X-Content-Type-Options'' = ''X-Content-Type-Options''"
  "CanonicalHeaderKey ''X-Frame-Options'' = ''X-Frame-Options''"
  "CanonicalHeaderKey ''Referrer-Policy'' = ''Referrer-Policy''"
  by code_simp+

lemma fold_headerAdd:
  "headerEntry (fold (\<lambda>value h. headerAdd h k value) vs h) n = headerEntry h n @ (if n = CanonicalHeaderKey k then vs else [])"
  by (induction vs arbitrary: h) simp_all

lemma header_wf_fold_add: "header_wf h \<Longrightarrow> header_wf (fold (\<lambda>value h. headerAdd h k value) vs h)"
  by (induction vs arbitrary: h) simp_all

definition relayedNames :: "string set" where
  "relayedNames = {''Content-Type'', ''Content-Encoding'', ''Retry-After''}"

text \<open>What the filter keeps of the values of one name.\<close>

definition keptValues :: "string \<Rightarrow> string list \<Rightarrow> string list" where
  "keptValues n vs =
     (if n = ''Content-Encoding'' then (if map TrimSpace vs = [[]] \<or> vs = [] then [] else [''identity'']) else vs)"

lemma keptValues_Nil [simp]: "keptValues n [] = []"
  by (simp add: keptValues_def)

lemma filterResponse_step:
  assumes "filterResponseHeaders connected singletons filtered ((name, vs) # rest) = Inr out"
  obtains (skip) "CanonicalHeaderKey name \<in> set connected \<or> CanonicalHeaderKey name \<notin> relayedNames"
      "filterResponseHeaders connected singletons filtered rest = Inr out"
    | (keep) v filtered' where "CanonicalHeaderKey name \<notin> set connected" "CanonicalHeaderKey name \<in> relayedNames"
      "CanonicalHeaderKey name \<notin> set singletons" "vs = [v]"
      "filterResponseHeaders connected (CanonicalHeaderKey name # singletons) filtered' rest = Inr out"
      "\<And>n. headerEntry filtered' n =
         headerEntry filtered n @ (if n = CanonicalHeaderKey name then keptValues n [v] else [])"
      "header_wf filtered \<Longrightarrow> header_wf filtered'"
      "fst ` set filtered' \<subseteq> insert (CanonicalHeaderKey name) (fst ` set filtered)"
proof -
  let ?c = "CanonicalHeaderKey name"
  consider "?c \<in> set connected \<or> ?c \<notin> relayedNames" | "?c \<notin> set connected" "?c \<in> relayedNames" by blast
  then show ?thesis
  proof cases
    case 1
    then show ?thesis using assms skip by (auto simp: Let_def relayedNames_def split: if_splits)
  next
    case 2
    then have s: "?c \<notin> set singletons" and "length vs = 1"
      using assms by (auto simp: Let_def relayedNames_def split: if_splits)
    then obtain v where v: "vs = [v]" by (auto simp: length_Suc_conv)
    have c: "?c \<in> set [''Content-Type'', ''Content-Encoding'', ''Retry-After'']" using 2 by (simp add: relayedNames_def)
    consider "?c = ''Content-Encoding''" "TrimSpace v = []" | "?c = ''Content-Encoding''" "TrimSpace v \<noteq> []"
      | "?c \<noteq> ''Content-Encoding''" by blast
    then show ?thesis
    proof cases
      case 1
      then show ?thesis
        using assms keep [OF 2 s v, of filtered] 2 s c by (fastforce simp: v keptValues_def Let_def)
    next
      case e: 2
      then show ?thesis
        using assms keep [OF 2 s v, of "headerAdd filtered ?c ''identity''"] 2 s c
        by (auto simp: v keptValues_def Let_def split: if_splits)
    next
      case 3
      then show ?thesis
        using assms keep [OF 2 s v, of "headerAdd filtered ?c v"] 2 s c
        by (auto simp: v keptValues_def Let_def split: if_splits)
    qed
  qed
qed

lemma filterResponseHeaders_seen:
  assumes "filterResponseHeaders connected singletons filtered source = Inr out"
    "n \<in> set singletons" "n \<in> relayedNames" "n \<notin> set connected"
  shows "canonicalValues source n = []"
  using assms(1,2)
proof (induction source arbitrary: singletons filtered)
  case (Cons e rest)
  obtain name vs where e: "e = (name, vs)" by (cases e)
  show ?case
    using Cons.prems(1) unfolding e
    by (cases rule: filterResponse_step) (use Cons.IH Cons.prems(2) assms(3,4) in \<open>auto simp: e\<close>)
qed simp

lemma filterResponseHeaders_Inr:
  assumes "filterResponseHeaders connected singletons filtered source = Inr out" "header_wf filtered"
  shows "header_wf out \<and> fst ` set out \<subseteq> relayedNames \<union> fst ` set filtered \<and>
    (\<forall>n. headerEntry out n = headerEntry filtered n @
    (if n \<in> relayedNames \<and> n \<notin> set connected then keptValues n (canonicalValues source n) else []))"
  using assms
proof (induction source arbitrary: singletons filtered)
  case (Cons e rest)
  obtain name vs where e: "e = (name, vs)" by (cases e)
  have "filterResponseHeaders connected singletons filtered ((name, vs) # rest) = Inr out"
    using Cons.prems(1) by (simp only: e)
  then show ?case
  proof (cases rule: filterResponse_step)
    case skip
    then show ?thesis using Cons.IH [OF skip(2) Cons.prems(2)] by (auto simp: e)
  next
    case (keep v filtered')
    note ih = Cons.IH [OF keep(5) keep(7) [OF Cons.prems(2)]]
    have none: "canonicalValues rest (CanonicalHeaderKey name) = []"
      using filterResponseHeaders_seen [OF keep(5) _ keep(2,1)] by simp
    have sub: "fst ` set filtered' \<subseteq> relayedNames \<union> fst ` set filtered"
      by (rule order_trans [OF keep(8)]) (simp add: keep(2))
    have "fst ` set out \<subseteq> relayedNames \<union> fst ` set filtered"
      by (rule order_trans [OF conjunct1 [OF conjunct2 [OF ih]] Un_least [OF Un_upper1 sub]])
    moreover have "headerEntry out n = headerEntry filtered n @
        (if n \<in> relayedNames \<and> n \<notin> set connected then keptValues n (canonicalValues (e # rest) n) else [])" for n
      using ih keep(1,2,4) none by (cases "n = CanonicalHeaderKey name") (simp_all add: keep(6) e)
    ultimately show ?thesis using conjunct1 [OF ih] by (intro conjI allI)
  qed
qed simp

lemma responseHeaders_Inr:
  assumes "responseHeaders source = Inr (headers, eventStream)" "scanResponseHeaders 0 0 [] source = Inr connected"
  shows "header_wf headers" "fst ` set headers \<subseteq> insert ''Cache-Control'' relayedNames"
    "headerEntry headers n =
       (if n = ''Cache-Control'' then [''no-store'']
        else if n \<in> relayedNames \<and> n \<notin> set connected then keptValues n (canonicalValues source n) else [])"
proof -
  obtain filtered where f: "filterResponseHeaders connected [] [] source = Inr filtered"
    and h: "headers = headerSet filtered ''Cache-Control'' ''no-store''"
    using assms(1) unfolding responseHeaders_def andThen_def Let_def assms(2) sum.case
    by (simp split: sum.splits if_splits option.splits)
  show "header_wf headers" "fst ` set headers \<subseteq> insert ''Cache-Control'' relayedNames"
    "headerEntry headers n =
       (if n = ''Cache-Control'' then [''no-store'']
        else if n \<in> relayedNames \<and> n \<notin> set connected then keptValues n (canonicalValues source n) else [])"
    using filterResponseHeaders_Inr [OF f] by (auto simp: h)
qed

lemma headerEntry_copyEntry [simp]:
  "headerEntry (copyEntry (k, vs) h) n = (if n = CanonicalHeaderKey k then vs else headerEntry h n)"
  by (simp add: copyEntry_def fold_headerAdd)

lemma fold_copyEntry:
  assumes "distinct (map fst headers)" "\<forall>k\<in>fst ` set headers. CanonicalHeaderKey k = k"
  shows "headerEntry (fold copyEntry headers h) n =
    (if n \<in> fst ` set headers then headerEntry headers n else headerEntry h n)"
  using assms
proof (induction headers arbitrary: h)
  case (Cons e headers)
  obtain k vs where e: "e = (k, vs)" by (cases e)
  have "headerEntry (fold copyEntry headers (copyEntry (k, vs) h)) n =
      (if n \<in> fst ` set headers then headerEntry headers n else headerEntry (copyEntry (k, vs) h) n)"
    using Cons by (simp add: e)
  then show ?case using Cons.prems by (auto simp: e headerEntry_Cons)
qed simp

text \<open>
  C30. What reaches the client of a provider's response headers.  If \<open>responseHeaders\<close> accepts the
  response, then after \<open>startClientResponse\<close> the client sees, of the provider's headers, at most
  the single value of \<open>Content-Type\<close> and \<open>Retry-After\<close> and the content encoding \<open>identity\<close>, none
  of them if a \<open>Connection\<close> header names it; the length, trailer and redirection headers are
  gone; the caching, sniffing, framing and referrer policies have the gateway's values; every
  other header is what the gateway had set itself.
\<close>

theorem client_headers_exact:
  assumes "responseHeaders source = Inr (headers, eventStream)"
    and "scanResponseHeaders 0 0 [] source = Inr connected"
  shows "headerEntry (startClientResponse target headers) n =
    (if n \<in> {''Content-Type'', ''Content-Encoding'', ''Retry-After''}
     then (if n \<in> set connected then [] else keptValues n (canonicalValues source n))
     else if n \<in> {''Content-Length'', ''Trailer'', ''Location'', ''Refresh''} then []
     else if n = ''Cache-Control'' then [''no-store'']
     else if n = ''X-Content-Type-Options'' then [''nosniff'']
     else if n = ''X-Frame-Options'' then [''DENY'']
     else if n = ''Referrer-Policy'' then [''no-referrer'']
     else headerEntry target n)"
proof -
  note h = responseHeaders_Inr [OF assms]
  have "CanonicalHeaderKey k = k" if "k \<in> fst ` set headers" for k
    using that h(2) by (auto simp: relayedNames_def)
  then have c: "headerEntry (fold copyEntry headers t) m =
      (if m \<in> fst ` set headers then headerEntry headers m else headerEntry t m)" for t m
    using h(1) by (intro fold_copyEntry) (simp_all add: header_wf_def)
  have r: "headerEntry headers n = [] \<or> n \<in> fst ` set headers" using headerEntry_absent by blast
  show ?thesis
  proof (cases "n \<in> {''Content-Type'', ''Content-Encoding'', ''Retry-After''}")
    case True
    then have "headerEntry (startClientResponse target headers) n = headerEntry headers n"
      using r by (elim insertE emptyE disjE) (simp_all add: startClientResponse_def c)
    moreover have "n \<noteq> ''Cache-Control''" "n \<in> relayedNames" using True by (auto simp: relayedNames_def)
    ultimately show ?thesis using True by (simp add: h(3))
  next
    case False
    show ?thesis
    proof (cases "n = ''Cache-Control''")
      case False
      then have "n \<notin> fst ` set headers"
        using h(2) \<open>n \<notin> {''Content-Type'', ''Content-Encoding'', ''Retry-After''}\<close> unfolding relayedNames_def by blast
      then have d: "headerEntry (fold copyEntry headers t) n = headerEntry t n" for t by (simp add: c)
      show ?thesis
      proof (cases "n \<in> {''Content-Length'', ''Trailer'', ''Location'', ''Refresh''}")
        case True
        then show ?thesis using d by (elim insertE emptyE) (simp_all add: startClientResponse_def)
      next
        case e: False
        show ?thesis
          using False e \<open>n \<notin> {''Content-Type'', ''Content-Encoding'', ''Retry-After''}\<close>
          by (simp add: startClientResponse_def d)
      qed
    qed (simp add: startClientResponse_def)
  qed
qed

definition sampleResponse :: header where
  "sampleResponse =
     [(''Content-Type'', [''text/event-stream; charset=utf-8'']), (''Set-Cookie'', [''a=b'']),
      (''Content-Encoding'', ['' Identity '']), (''Connection'', [''retry-after'']), (''Retry-After'', [''5''])]"

definition sampleRelayed :: header where
  "sampleRelayed =
     [(''Content-Type'', [''text/event-stream; charset=utf-8'']), (''Content-Encoding'', [''identity'']),
      (''Cache-Control'', [''no-store''])]"

theorem client_headers_exact_witness:
  "responseHeaders sampleResponse = Inr (sampleRelayed, True) \<and>
   headerEntry (startClientResponse [(''Set-Cookie'', [''own'']), (''Retry-After'', [''9''])] sampleRelayed) ''Set-Cookie'' = [''own''] \<and>
   headerEntry (startClientResponse [(''Set-Cookie'', [''own'']), (''Retry-After'', [''9''])] sampleRelayed) ''Retry-After'' = []"
proof -
  have r: "responseHeaders sampleResponse = Inr (sampleRelayed, True)"
    and c: "scanResponseHeaders 0 0 [] sampleResponse = Inr [''Retry-After'']" by code_simp+
  show ?thesis
    using r client_headers_exact [OF r c, of "[(''Set-Cookie'', [''own'']), (''Retry-After'', [''9''])]" "''Set-Cookie''"]
      client_headers_exact [OF r c, of "[(''Set-Cookie'', [''own'']), (''Retry-After'', [''9''])]" "''Retry-After''"]
    by (simp add: headerEntry_def)
qed

end
