(* ===== verification/Sha256.thy ===== *)
theory Sha256
  imports Latchway_Prelude
begin

text \<open>
  SHA-256 and unpadded base64url, as \<open>crypto/sha256\<close> and \<open>base64.RawURLEncoding\<close> compute
  them, on lists of bytes.  The digests of the program are SHA-256 sums of strings that
  are each preceded by their length; the theory shows that such an encoding of a list
  of strings can be read back, and that an encoded digest always has the shape that the
  program's digest patterns require.
\<close>

unbundle bit_operations_syntax

type_synonym word8 = "8 word"
type_synonym word32 = "32 word"

section \<open>Bytes and words\<close>

definition string_bytes :: "string \<Rightarrow> word8 list" where
  "string_bytes s = map (\<lambda>c. word_of_nat (of_char c)) s"

text \<open>\<open>binary.BigEndian.PutUint32\<close>.\<close>

definition uint32_be :: "word32 \<Rightarrow> word8 list" where
  "uint32_be w = [ucast (drop_bit 24 w), ucast (drop_bit 16 w), ucast (drop_bit 8 w), ucast w]"

definition be_uint32 :: "word8 list \<Rightarrow> word32" where
  "be_uint32 bs = foldl (\<lambda>w b. push_bit 8 w OR ucast b) 0 bs"

section \<open>SHA-256\<close>

text \<open>The round constants and the initial chaining value: the first 32 bits of the fractional parts of
  the cube roots of the first 64 primes and of the square roots of the first 8 primes.\<close>

definition sha256_K :: "word32 list" where
  "sha256_K =
    [1116352408, 1899447441, 3049323471, 3921009573, 961987163, 1508970993,
     2453635748, 2870763221, 3624381080, 310598401, 607225278, 1426881987,
     1925078388, 2162078206, 2614888103, 3248222580, 3835390401, 4022224774,
     264347078, 604807628, 770255983, 1249150122, 1555081692, 1996064986,
     2554220882, 2821834349, 2952996808, 3210313671, 3336571891, 3584528711,
     113926993, 338241895, 666307205, 773529912, 1294757372, 1396182291,
     1695183700, 1986661051, 2177026350, 2456956037, 2730485921, 2820302411,
     3259730800, 3345764771, 3516065817, 3600352804, 4094571909, 275423344,
     430227734, 506948616, 659060556, 883997877, 958139571, 1322822218,
     1537002063, 1747873779, 1955562222, 2024104815, 2227730452, 2361852424,
     2428436474, 2756734187, 3204031479, 3329325298]"

definition sha256_init :: "word32 list" where
  "sha256_init =
    [1779033703, 3144134277, 1013904242, 2773480762, 1359893119, 2600822924,
     528734635, 1541459225]"

text \<open>The message schedule, kept in reverse: the word for step \<open>t\<close> is computed from those of
  steps \<open>t - 2\<close>, \<open>t - 7\<close>, \<open>t - 15\<close> and \<open>t - 16\<close>.\<close>

definition sha256_extend :: "word32 list \<Rightarrow> word32" where
  "sha256_extend rs =
     (let w2 = rs ! 1; w15 = rs ! 14;
          s0 = word_rotr 7 w15 XOR word_rotr 18 w15 XOR drop_bit 3 w15;
          s1 = word_rotr 17 w2 XOR word_rotr 19 w2 XOR drop_bit 10 w2 in
      rs ! 15 + s0 + rs ! 6 + s1)"

fun sha256_schedule :: "nat \<Rightarrow> word32 list \<Rightarrow> word32 list" where
  "sha256_schedule 0 rs = rev rs"
| "sha256_schedule (Suc n) rs = sha256_schedule n (sha256_extend rs # rs)"

fun sha256_step :: "word32 list \<Rightarrow> word32 \<times> word32 \<Rightarrow> word32 list" where
  "sha256_step [a, b, c, d, e, f, g, h] (k, w) =
     (let S1 = word_rotr 6 e XOR word_rotr 11 e XOR word_rotr 25 e;
          ch = (e AND f) XOR (NOT e AND g);
          t1 = h + S1 + ch + k + w;
          S0 = word_rotr 2 a XOR word_rotr 13 a XOR word_rotr 22 a;
          maj = (a AND b) XOR (a AND c) XOR (b AND c) in
      [t1 + (S0 + maj), a, b, c, d + t1, e, f, g])"
| "sha256_step hs kw = hs"

definition sha256_block :: "word32 list \<Rightarrow> word32 list \<Rightarrow> word32 list" where
  "sha256_block hs ws =
     map2 (+) hs (foldl sha256_step hs (zip sha256_K (sha256_schedule 48 (rev ws))))"

fun chunks :: "nat \<Rightarrow> 'a list \<Rightarrow> 'a list list" where
  "chunks n xs = (if n = 0 \<or> xs = [] then [] else take n xs # chunks n (drop n xs))"

declare chunks.simps [simp del]

definition sha256_pad :: "word8 list \<Rightarrow> word8 list" where
  "sha256_pad m =
     (let bits = (word_of_nat (8 * length m) :: 64 word) in
      m @ [0x80] @ replicate ((119 - length m mod 64) mod 64) 0 @
      uint32_be (ucast (drop_bit 32 bits)) @ uint32_be (ucast bits))"

definition sha256_words :: "word8 list \<Rightarrow> word32 list" where
  "sha256_words bs = map be_uint32 (chunks 4 bs)"

definition sha256 :: "word8 list \<Rightarrow> word8 list" where
  "sha256 m =
     concat (map uint32_be (foldl sha256_block sha256_init (map sha256_words (chunks 64 (sha256_pad m)))))"

section \<open>Base64url without padding\<close>

definition base64url_alphabet :: string where
  "base64url_alphabet = ''ABCDEFGHIJKLMNOPQRSTUVWXYZabcdefghijklmnopqrstuvwxyz0123456789-_''"

definition b64 :: "nat \<Rightarrow> char" where
  "b64 n = base64url_alphabet ! n"

fun base64url :: "word8 list \<Rightarrow> string" where
  "base64url (a # b # c # rest) =
     [b64 (unat a div 4), b64 (unat a mod 4 * 16 + unat b div 16), b64 (unat b mod 16 * 4 + unat c div 64),
      b64 (unat c mod 64)] @ base64url rest"
| "base64url [a, b] =
     [b64 (unat a div 4), b64 (unat a mod 4 * 16 + unat b div 16), b64 (unat b mod 16 * 4)]"
| "base64url [a] = [b64 (unat a div 4), b64 (unat a mod 4 * 16)]"
| "base64url [] = []"

section \<open>Length-prefixed lists of strings\<close>

text \<open>The bytes the program hashes for a list of strings: each string after its length.\<close>

definition lengthPrefixed :: "string list \<Rightarrow> word8 list" where
  "lengthPrefixed parts =
     concat (map (\<lambda>part. uint32_be (word_of_nat (length part)) @ string_bytes part) parts)"

definition part_ok :: "string \<Rightarrow> bool" where
  "part_ok p \<longleftrightarrow> length p < 2 ^ 32"

section \<open>Lemmas\<close>

lemma length_sha256_step: "length hs = 8 \<Longrightarrow> length (sha256_step hs kw) = 8"
  by (cases "(hs, kw)" rule: sha256_step.cases) (auto simp: Let_def)

lemma length_foldl_step: "length hs = 8 \<Longrightarrow> length (foldl sha256_step hs kws) = 8"
  by (induction kws arbitrary: hs) (simp_all add: length_sha256_step)

lemma length_sha256_block: "length hs = 8 \<Longrightarrow> length (sha256_block hs ws) = 8"
  by (simp add: sha256_block_def length_foldl_step)

lemma length_foldl_block: "length hs = 8 \<Longrightarrow> length (foldl sha256_block hs bs) = 8"
  by (induction bs arbitrary: hs) (simp_all add: length_sha256_block)

lemma length_uint32_be [simp]: "length (uint32_be w) = 4"
  by (simp add: uint32_be_def)

lemma length_sha256 [simp]: "length (sha256 m) = 32"
proof -
  have "length (concat (map uint32_be ws)) = 4 * length ws" for ws by (induction ws) simp_all
  then show ?thesis by (simp add: sha256_def length_foldl_block sha256_init_def)
qed

lemma uint32_be_inject: "uint32_be v = uint32_be w \<Longrightarrow> v = w"
proof (rule bit_word_eqI)
  fix n assume e: "uint32_be v = uint32_be w" and n: "n < LENGTH(32)"
  have b: "bit (ucast (drop_bit k v) :: word8) j = bit (ucast (drop_bit k w) :: word8) j" if "k \<in> {0, 8, 16, 24}" for k j
    using e that by (auto simp: uint32_be_def)
  have "n < 8 \<or> 8 \<le> n \<and> n < 16 \<or> 16 \<le> n \<and> n < 24 \<or> 24 \<le> n \<and> n < 32" using n by auto
  then show "bit v n = bit w n"
    using b [of 0 n] b [of 8 "n - 8"] b [of 16 "n - 16"] b [of 24 "n - 24"]
    by (elim disjE conjE) (simp_all add: bit_simps less_diff_conv2)
qed

lemma length_string_bytes [simp]: "length (string_bytes s) = length s"
  by (simp add: string_bytes_def)

lemma string_bytes_inject [simp]: "string_bytes s = string_bytes t \<longleftrightarrow> s = t"
proof -
  have "inj (\<lambda>c. word_of_nat (of_char c) :: word8)"
  proof (rule injI)
    fix c d :: char
    assume e: "word_of_nat (of_char c) = (word_of_nat (of_char d) :: word8)"
    have "unat (word_of_nat (of_char x) :: word8) = of_char x" for x :: char
      by (simp add: unat_of_nat)
    then have "(of_char c :: nat) = of_char d" using e by metis
    then show "c = d" by simp
  qed
  then show ?thesis by (auto simp: string_bytes_def dest: map_injective)
qed

lemma lengthPrefixed_inject:
  "list_all part_ok ps \<Longrightarrow> list_all part_ok qs \<Longrightarrow> lengthPrefixed ps = lengthPrefixed qs \<longleftrightarrow> ps = qs"
proof (induction ps arbitrary: qs)
  case Nil
  then show ?case by (cases qs) (auto simp: lengthPrefixed_def uint32_be_def)
next
  case (Cons p ps)
  show ?case
  proof (cases qs)
    case Nil
    then show ?thesis by (simp add: lengthPrefixed_def uint32_be_def)
  next
    case q: (Cons q qs')
    have lp: "lengthPrefixed (r # rs) = uint32_be (word_of_nat (length r)) @ string_bytes r @ lengthPrefixed rs" for r rs
      by (simp add: lengthPrefixed_def)
    have "p # ps = qs" if e: "lengthPrefixed (p # ps) = lengthPrefixed qs"
    proof -
      have u: "uint32_be (word_of_nat (length p)) = uint32_be (word_of_nat (length q))"
        and r: "string_bytes p @ lengthPrefixed ps = string_bytes q @ lengthPrefixed qs'"
        using e unfolding q lp by (auto simp: append_eq_append_conv)
      have "(word_of_nat (length p) :: word32) = word_of_nat (length q)" by (rule uint32_be_inject [OF u])
      then have "length p = length q"
        using Cons.prems q by (simp add: word_of_nat_eq_iff part_ok_def take_bit_nat_eq_self)
      then show ?thesis using r Cons q by (auto simp: append_eq_append_conv)
    qed
    then show ?thesis by auto
  qed
qed

lemma b64_char: "n < 64 \<Longrightarrow> base64url_char (b64 n)"
proof -
  have "list_all base64url_char base64url_alphabet \<and> length base64url_alphabet = 64" by code_simp
  then show "n < 64 \<Longrightarrow> base64url_char (b64 n)" by (simp add: b64_def list_all_length)
qed

lemma b64_inject: "m < 64 \<Longrightarrow> n < 64 \<Longrightarrow> b64 m = b64 n \<longleftrightarrow> m = n"
proof -
  have "distinct base64url_alphabet \<and> length base64url_alphabet = 64" by code_simp
  then show "m < 64 \<Longrightarrow> n < 64 \<Longrightarrow> b64 m = b64 n \<longleftrightarrow> m = n" by (simp add: b64_def nth_eq_iff_index_eq)
qed

lemma unat_byte: "unat x < 256" for x :: word8
  using uint_bounded [of x] by (simp add: nat_less_iff flip: nat_uint_eq)

lemma sextets:
  fixes a b c :: word8
  shows "unat a div 4 < 64" "unat a mod 4 * 16 + unat b div 16 < 64" "unat b mod 16 * 4 + unat c div 64 < 64"
    "unat c mod 64 < 64" "unat a mod 4 * 16 < 64" "unat b mod 16 * 4 < 64"
proof -
  note l = unat_byte
  show "unat a div 4 < 64" "unat c mod 64 < 64" "unat a mod 4 * 16 < 64" "unat b mod 16 * 4 < 64"
    using l [of a] mod_less_divisor [of 4 "unat a"] mod_less_divisor [of 16 "unat b"]
    by (simp_all add: div_less_iff_less_mult)
  have "unat b div 16 < 16" "unat c div 64 < 4" using l [of b] l [of c] by (simp_all add: div_less_iff_less_mult)
  then show "unat a mod 4 * 16 + unat b div 16 < 64" "unat b mod 16 * 4 + unat c div 64 < 64"
    using mod_less_divisor [of 4 "unat a"] mod_less_divisor [of 16 "unat b"] by simp_all
qed

lemma base64url_chars: "list_all base64url_char (base64url bs)"
  by (induction bs rule: base64url.induct) (simp_all add: b64_char sextets)

lemma length_base64url: "length (base64url bs) = length bs div 3 * 4 + (if length bs mod 3 = 0 then 0 else length bs mod 3 + 1)"
proof (induction bs rule: base64url.induct)
  case (1 a b c rest)
  have "(3 + length rest) div 3 = length rest div 3 + 1" by (rule div_add_self1) simp
  then show ?case using 1 by simp
qed simp_all

lemma base64url_digest: "length bs = 32 \<Longrightarrow> digestPattern (base64url bs)"
  by (simp add: digestPattern_def base64url_chars length_base64url)

lemma mixed_inject:
  fixes a b c d m :: nat
  assumes "b < m" "d < m"
  shows "a * m + b = c * m + d \<longleftrightarrow> a = c \<and> b = d"
proof
  assume e: "a * m + b = c * m + d"
  have "(x * m + y) mod m = y" if "y < m" for x y using that by simp
  then have "b = d" using assms e by metis
  moreover have "0 < m" using assms by simp
  ultimately show "a = c \<and> b = d" using e by simp
qed simp

lemma base64url_inject: "length as = length bs \<Longrightarrow> base64url as = base64url bs \<Longrightarrow> as = bs"
proof (induction as arbitrary: bs rule: base64url.induct)
  case (1 a b c rest)
  then obtain a' b' c' rest' where bs: "bs = a' # b' # c' # rest'" by (cases bs; cases "tl bs"; cases "tl (tl bs)") auto
  have l: "unat x div 16 < 16" "unat x div 64 < 4" for x :: word8
    using unat_byte [of x] by (simp_all add: div_less_iff_less_mult)
  have e: "unat a div 4 = unat a' div 4" "unat a mod 4 = unat a' mod 4" "unat b div 16 = unat b' div 16"
    "unat b mod 16 = unat b' mod 16" "unat c div 64 = unat c' div 64" "unat c mod 64 = unat c' mod 64"
    "rest = rest'"
    using 1 bs l by (auto simp: b64_inject sextets mixed_inject)
  have "unat a = unat a'" "unat b = unat b'" "unat c = unat c'"
    using e by (metis div_mult_mod_eq)+
  then have "a = a'" "b = b'" "c = c'" by (auto intro: unsigned_word_eqI)
  then show ?case using bs e(7) by simp
next
  case (2 a b)
  then obtain a' b' where bs: "bs = [a', b']" by (cases bs; cases "tl bs") auto
  have l: "unat x div 16 < 16" for x :: word8 using unat_byte [of x] by (simp add: div_less_iff_less_mult)
  have "unat a div 4 = unat a' div 4" "unat a mod 4 = unat a' mod 4" "unat b div 16 = unat b' div 16"
    "unat b mod 16 = unat b' mod 16"
    using 2 bs l by (auto simp: b64_inject sextets mixed_inject)
  then have "unat a = unat a'" "unat b = unat b'" by (metis div_mult_mod_eq)+
  then have "a = a'" "b = b'" by (auto intro: unsigned_word_eqI)
  then show ?case using bs by simp
next
  case (3 a)
  then obtain a' where bs: "bs = [a']" by (cases bs) auto
  have "unat a div 4 = unat a' div 4" "unat a mod 4 = unat a' mod 4"
    using 3 bs by (auto simp: b64_inject sextets)
  then have "unat a = unat a'" by (metis div_mult_mod_eq)
  then have "a = a'" by (rule unsigned_word_eqI)
  then show ?case using bs by simp
qed simp

end
