(* ===== verification/Credential_Scope.thy ===== *)
theory Credential_Scope
  imports Upstream_Headers Sha256
begin

text \<open>
  The scoped credentials of an upstream dispatch (\<open>src/internal/upstream/dispatch.go\<close>): a bearer
  token, a basic credential, one fixed header or up to eight of them are put into the outbound
  header map for the duration of one operation and removed afterwards.

  The operation is an argument: a function from the header map it finds to its result and the header
  map it leaves behind; a nil header map or a nil operation, which the source refuses, has no
  counterpart in these types.  The result of a scope is \<open>Inl\<close> when the scope refused to run the operation
  and \<open>Inr\<close> of the operation's result otherwise.
\<close>

type_synonym 'r scope_operation = "header \<Rightarrow> 'r \<times> header"

type_synonym 'r scope_result = "(upstream_error + 'r) \<times> header"

record headerCredential =
  hc_Name :: string
  hc_Value :: string

section \<open>Standard base64\<close>

definition base64Std_alphabet :: string where
  "base64Std_alphabet = ''ABCDEFGHIJKLMNOPQRSTUVWXYZabcdefghijklmnopqrstuvwxyz0123456789+/''"

fun base64Std :: "word8 list \<Rightarrow> string" where
  "base64Std (a # b # c # rest) =
     map (nth base64Std_alphabet)
       [unat a div 4, unat a mod 4 * 16 + unat b div 16, unat b mod 16 * 4 + unat c div 64, unat c mod 64] @
     base64Std rest"
| "base64Std [a, b] =
     map (nth base64Std_alphabet) [unat a div 4, unat a mod 4 * 16 + unat b div 16, unat b mod 16 * 4] @ ''=''"
| "base64Std [a] = map (nth base64Std_alphabet) [unat a div 4, unat a mod 4 * 16] @ ''==''"
| "base64Std [] = []"

definition base64EncodedLen :: "int \<Rightarrow> int" where
  "base64EncodedLen n = (n + 2) div 3 * 4"

section \<open>The scopes\<close>

definition withBearerCredential :: "header \<Rightarrow> string \<Rightarrow> 'r scope_operation \<Rightarrow> 'r scope_result" where
  "withBearerCredential headers credential operation =
     (if headerValues headers ''Authorization'' \<noteq> [] \<or> \<not> validBearerCredential credential
      then (Inl InvalidCredentialScope, headers)
      else let (result, after) = operation (headerSet headers ''Authorization'' (''Bearer '' @ credential)) in
        (Inr result, headerDel after ''Authorization''))"

definition withBasicCredential :: "header \<Rightarrow> string \<Rightarrow> string \<Rightarrow> 'r scope_operation \<Rightarrow> 'r scope_result" where
  "withBasicCredential headers username password operation =
     (if headerValues headers ''Authorization'' \<noteq> [] \<or> \<not> validBasicUsername username \<or>
         length password = 0 \<or> maximumForwardedHeaderBytes < int (length password)
      then (Inl InvalidCredentialScope, headers)
      else let plainLength = int (length username) + 1 + int (length password) in
        if maximumForwardedHeaderBytes - int (length ''Basic '') < base64EncodedLen plainLength
        then (Inl InvalidCredentialScope, headers)
        else let plain = username @ '':'' @ password; encoded = base64Std (string_bytes plain);
               (result, after) = operation (headerSet headers ''Authorization'' (''Basic '' @ encoded)) in
          (Inr result, headerDel after ''Authorization''))"

fun credentialNames :: "header \<Rightarrow> int \<Rightarrow> string list \<Rightarrow> headerCredential list \<Rightarrow> string list option" where
  "credentialNames headers used seen [] = Some []"
| "credentialNames headers used seen (credential # rest) =
     (let canonical = CanonicalHeaderKey (hc_Name credential);
          used = used + (int (length canonical) + int (length (hc_Value credential))) in
      if 256 < length (hc_Name credential) \<or> TrimSpace (hc_Name credential) \<noteq> hc_Name credential \<or>
         \<not> validHeaderName (hc_Name credential) \<or> isForbiddenCredentialHeader canonical \<or>
         length (headerValues headers canonical) \<noteq> 0 \<or> \<not> validHeaderCredential (hc_Value credential) \<or>
         maximumForwardedHeaderBytes < used
      then None
      else if canonical \<in> set seen then None
      else map_option (Cons canonical) (credentialNames headers used (canonical # seen) rest))"

definition withHeaderCredentials :: "header \<Rightarrow> headerCredential list \<Rightarrow> 'r scope_operation \<Rightarrow> 'r scope_result" where
  "withHeaderCredentials headers credentials operation =
     (if length credentials < 1 \<or> 8 < length credentials then (Inl InvalidCredentialScope, headers)
      else case credentialNames headers 0 [] credentials of
        None \<Rightarrow> (Inl InvalidCredentialScope, headers)
      | Some canonicalNames \<Rightarrow>
          let (result, after) = operation
                (fold (\<lambda>(name, credential) h. headerSet h name (hc_Value credential)) (zip canonicalNames credentials) headers) in
          (Inr result, fold (\<lambda>name h. headerDel h name) canonicalNames after))"

definition withHeaderCredential :: "header \<Rightarrow> string \<Rightarrow> string \<Rightarrow> 'r scope_operation \<Rightarrow> 'r scope_result" where
  "withHeaderCredential headers name credential operation =
     (let canonical = CanonicalHeaderKey name in
      if 256 < length name \<or> TrimSpace name \<noteq> name \<or> \<not> validHeaderName name \<or>
         isForbiddenCredentialHeader canonical \<or> length (headerValues headers canonical) \<noteq> 0 \<or>
         \<not> validHeaderCredential credential
      then (Inl InvalidCredentialScope, headers)
      else let (result, after) = operation (headerSet headers canonical credential) in
        (Inr result, headerDel after canonical))"

definition credentialHeaderNames :: "string list" where
  "credentialHeaderNames =
     [''Authorization'', ''Proxy-Authorization'', ''Dpop'', ''Dpop-Nonce'', ''Cookie'', ''X-Api-Key'', ''Api-Key'',
      ''Openai-Api-Key'', ''Openai-Organization'', ''Anthropic-Api-Key'', ''X-Goog-Api-Key'', ''X-Auth-Token'']"

definition requestContainsCredential :: "header \<Rightarrow> bool" where
  "requestContainsCredential headers \<longleftrightarrow> list_ex (\<lambda>name. length (headerValues headers name) \<noteq> 0) credentialHeaderNames"

section \<open>The contract of a scope\<close>

text \<open>
  What the four scopes have in common: a header map is either accepted or not; an accepted one holds
  nothing under the injected names; the operation runs exactly when the header map is accepted, on
  the map with the injected values, and the injected names are removed from what it leaves.
\<close>

definition inject :: "(string \<times> string) list \<Rightarrow> header \<Rightarrow> header" where
  "inject injected h = fold (\<lambda>(name, value) h. headerSet h name value) injected h"

definition removeNames :: "string list \<Rightarrow> header \<Rightarrow> header" where
  "removeNames names h = fold (\<lambda>name h. headerDel h name) names h"

definition scoped_run ::
    "header \<Rightarrow> (string \<times> string) list \<Rightarrow> 'r scope_operation \<Rightarrow> 'r scope_result \<Rightarrow> bool" where
  "scoped_run h injected operation res \<longleftrightarrow>
     res = (Inl InvalidCredentialScope, h) \<or>
     (\<exists>g r g'. operation g = (r, g') \<and> fst res = Inr r \<and>
        (\<forall>n\<in>fst ` set injected. headerEntry h n = []) \<and>
        (\<forall>n. headerEntry g n = (case map_of injected n of None \<Rightarrow> headerEntry h n | Some v \<Rightarrow> [v])) \<and>
        (\<forall>n. headerEntry (snd res) n = (if n \<in> fst ` set injected then [] else headerEntry g' n)))"

locale credential_scope =
  fixes scope :: "header \<Rightarrow> 'r scope_operation \<Rightarrow> 'r scope_result"
    and accepts :: "header \<Rightarrow> bool"
    and injected :: "(string \<times> string) list"
  assumes refuses: "\<not> accepts h \<Longrightarrow> scope h operation = (Inl InvalidCredentialScope, h)"
    and runs: "accepts h \<Longrightarrow> operation (inject injected h) = (r, g') \<Longrightarrow>
      scope h operation = (Inr r, removeNames (map fst injected) g')"
    and canonical: "accepts h \<Longrightarrow> k \<in> fst ` set injected \<Longrightarrow> CanonicalHeaderKey k = k"
    and once: "accepts h \<Longrightarrow> distinct (map fst injected)"
    and fresh: "accepts h \<Longrightarrow> k \<in> fst ` set injected \<Longrightarrow> headerEntry h k = []"

lemma headerEntry_inject:
  "distinct (map fst injected) \<Longrightarrow> \<forall>k\<in>fst ` set injected. CanonicalHeaderKey k = k \<Longrightarrow>
     headerEntry (inject injected h) n = (case map_of injected n of None \<Rightarrow> headerEntry h n | Some v \<Rightarrow> [v])"
proof (induction injected arbitrary: h)
  case (Cons e injected)
  obtain k v where e: "e = (k, v)" by (cases e)
  have "map_of injected k = None" using Cons.prems(1) by (simp add: e map_of_eq_None_iff)
  then show ?case
    using Cons by (cases "n = k") (simp_all add: e inject_def split: option.split)
qed (simp add: inject_def)

lemma headerEntry_removeNames:
  "\<forall>k\<in>set names. CanonicalHeaderKey k = k \<Longrightarrow>
     headerEntry (removeNames names h) n = (if n \<in> set names then [] else headerEntry h n)"
  by (induction names arbitrary: h) (auto simp: removeNames_def)

context credential_scope
begin

lemma scoped: "scoped_run h injected operation (scope h operation)"
proof (cases "accepts h")
  case True
  obtain r g' where o: "operation (inject injected h) = (r, g')" by fastforce
  have c: "\<forall>k\<in>fst ` set injected. CanonicalHeaderKey k = k" using canonical [OF True] by blast
  have "headerEntry (inject injected h) n = (case map_of injected n of None \<Rightarrow> headerEntry h n | Some v \<Rightarrow> [v])" for n
    by (rule headerEntry_inject [OF once [OF True] c])
  moreover have "headerEntry (removeNames (map fst injected) g') n = (if n \<in> fst ` set injected then [] else headerEntry g' n)" for n
    using headerEntry_removeNames [of "map fst injected"] c by simp
  ultimately show ?thesis
    unfolding scoped_run_def runs [of h operation, OF True o] using fresh [OF True] o by auto
qed (simp add: scoped_run_def refuses)

text \<open>An operation that leaves the header map alone finds nothing left of the credential.\<close>

lemma restores:
  assumes "\<And>g. snd (operation g) = g"
  shows "headerEntry (snd (scope h operation)) n = headerEntry h n"
proof (cases "accepts h")
  case True
  have "fst (scope h operation) = Inr (fst (operation (inject injected h)))"
    using runs [of h operation "fst (operation (inject injected h))" "snd (operation (inject injected h))"] True by simp
  then obtain g r g' where o: "operation g = (r, g')" and f: "\<forall>n\<in>fst ` set injected. headerEntry h n = []"
    and g: "\<forall>n. headerEntry g n = (case map_of injected n of None \<Rightarrow> headerEntry h n | Some v \<Rightarrow> [v])"
    and s: "\<forall>n. headerEntry (snd (scope h operation)) n = (if n \<in> fst ` set injected then [] else headerEntry g' n)"
    using scoped [of h operation] unfolding scoped_run_def by auto
  have "g' = g" using assms [of g] o by simp
  moreover have "headerEntry h n = []" if "n \<in> fst ` set injected" using f that by blast
  ultimately show ?thesis
    using g s by (cases "n \<in> fst ` set injected") (simp_all add: map_of_eq_None_iff [THEN iffD2])
qed (simp add: refuses)

end

section \<open>The four scopes satisfy the contract\<close>

lemma foldBytes_refl [simp]: "EqualFold s s"
  by (simp add: EqualFold_def)

lemma headerValues_none: "headerValues h name = [] \<Longrightarrow> headerEntry h name = []"
  by (induction h) (auto simp: headerValues_def headerEntry_Cons split: if_splits)

lemma canonical_authorization [simp]: "CanonicalHeaderKey ''Authorization'' = ''Authorization''"
  by code_simp

interpretation bearer: credential_scope
  "\<lambda>h operation. withBearerCredential h credential operation"
  "\<lambda>h. headerValues h ''Authorization'' = [] \<and> validBearerCredential credential"
  "[(''Authorization'', ''Bearer '' @ credential)]" for credential
  by unfold_locales (auto simp: withBearerCredential_def inject_def removeNames_def headerValues_none)

definition basicAccepts :: "string \<Rightarrow> string \<Rightarrow> header \<Rightarrow> bool" where
  "basicAccepts username password h \<longleftrightarrow>
     headerValues h ''Authorization'' = [] \<and> validBasicUsername username \<and>
     password \<noteq> [] \<and> int (length password) \<le> maximumForwardedHeaderBytes \<and>
     base64EncodedLen (int (length username) + 1 + int (length password)) \<le> maximumForwardedHeaderBytes - 6"

definition basicValue :: "string \<Rightarrow> string \<Rightarrow> string" where
  "basicValue username password = ''Basic '' @ base64Std (string_bytes (username @ '':'' @ password))"

interpretation basic: credential_scope
  "\<lambda>h operation. withBasicCredential h username password operation"
  "basicAccepts username password"
  "[(''Authorization'', basicValue username password)]" for username password
  by unfold_locales
    (auto simp: withBasicCredential_def basicAccepts_def basicValue_def inject_def removeNames_def headerValues_none Let_def)

definition headerAccepts :: "string \<Rightarrow> string \<Rightarrow> header \<Rightarrow> bool" where
  "headerAccepts name credential h \<longleftrightarrow>
     length name \<le> 256 \<and> TrimSpace name = name \<and> validHeaderName name \<and>
     \<not> isForbiddenCredentialHeader (CanonicalHeaderKey name) \<and> headerValues h (CanonicalHeaderKey name) = [] \<and>
     validHeaderCredential credential"

interpretation fixed: credential_scope
  "\<lambda>h operation. withHeaderCredential h name credential operation"
  "headerAccepts name credential"
  "[(CanonicalHeaderKey name, credential)]" for name credential
  by unfold_locales
    (auto simp: withHeaderCredential_def headerAccepts_def inject_def removeNames_def headerValues_none Let_def)

definition credentialPairs :: "headerCredential list \<Rightarrow> (string \<times> string) list" where
  "credentialPairs credentials = map (\<lambda>c. (CanonicalHeaderKey (hc_Name c), hc_Value c)) credentials"

lemma credentialNames_Some:
  assumes "credentialNames headers used seen credentials = Some names"
  shows "names = map fst (credentialPairs credentials) \<and> distinct names \<and> set names \<inter> set seen = {} \<and>
    (\<forall>k\<in>set names. headerEntry headers k = [])"
  using assms
proof (induction credentials arbitrary: used seen names)
  case (Cons c credentials)
  let ?k = "CanonicalHeaderKey (hc_Name c)"
  obtain rest used' where r: "credentialNames headers used' (?k # seen) credentials = Some rest" "names = ?k # rest"
    and f: "?k \<notin> set seen" "headerValues headers ?k = []"
    using Cons.prems by (auto simp: Let_def split: if_splits)
  have "map fst (credentialPairs (c # credentials)) = ?k # map fst (credentialPairs credentials)"
    by (simp add: credentialPairs_def)
  then show ?case using Cons.IH [OF r(1)] r(2) f by (metis disjoint_insert(1) distinct.simps(2) headerValues_none list.simps(15) set_ConsD insert_disjoint(1))
qed (simp add: credentialPairs_def)

definition headersAccepts :: "headerCredential list \<Rightarrow> header \<Rightarrow> bool" where
  "headersAccepts credentials h \<longleftrightarrow>
     credentials \<noteq> [] \<and> length credentials \<le> 8 \<and> credentialNames h 0 [] credentials \<noteq> None"

lemma withHeaderCredentials_runs:
  assumes "headersAccepts credentials h" "operation (inject (credentialPairs credentials) h) = (r, g')"
  shows "withHeaderCredentials h credentials operation = (Inr r, removeNames (map fst (credentialPairs credentials)) g')"
proof -
  obtain names where n: "credentialNames h 0 [] credentials = Some names"
    and l: "\<not> (length credentials < 1 \<or> 8 < length credentials)"
    using assms(1) by (auto simp: headersAccepts_def less_Suc_eq_0_disj)
  have z: "fold (\<lambda>(name, credential) h. headerSet h name (hc_Value credential)) (zip (map fst (credentialPairs cs)) cs) g =
      inject (credentialPairs cs) g" for cs g
    by (induction cs arbitrary: g) (simp_all add: credentialPairs_def inject_def)
  show ?thesis
    unfolding withHeaderCredentials_def using l n credentialNames_Some [OF n] assms(2)
    by (simp add: z removeNames_def)
qed

interpretation headers: credential_scope
  "\<lambda>h operation. withHeaderCredentials h credentials operation"
  "headersAccepts credentials"
  "credentialPairs credentials" for credentials
proof (unfold_locales, goal_cases)
  case (1 h operation)
  then show ?case by (auto simp: withHeaderCredentials_def headersAccepts_def)
next
  case (2 h operation r g')
  then show ?case by (rule withHeaderCredentials_runs)
next
  case (3 h k)
  then show ?case by (auto simp: credentialPairs_def)
next
  case (4 h)
  then show ?case using credentialNames_Some by (fastforce simp: headersAccepts_def)
next
  case (5 h k)
  then show ?case using credentialNames_Some by (fastforce simp: headersAccepts_def)
qed

text \<open>
  C31. A credential exists only inside its scope.  For each of the four credential forms, any header
  map and any operation: either the scope is refused, the operation is not run and the header map is
  unchanged; or the map held no value under the injected names, the operation ran once on the map
  with exactly the injected values added, its result is the result of the scope, and afterwards
  the injected names are gone, whatever the operation did, and every other name has the values
  that the operation left.
\<close>

theorem credential_scopes:
  fixes operation :: "'r scope_operation"
  shows "scoped_run h [(''Authorization'', ''Bearer '' @ token)] operation (withBearerCredential h token operation) \<and>
    scoped_run h [(''Authorization'', basicValue username password)] operation
       (withBasicCredential h username password operation) \<and>
    scoped_run h [(CanonicalHeaderKey name, secret)] operation (withHeaderCredential h name secret operation) \<and>
    scoped_run h (credentialPairs credentials) operation (withHeaderCredentials h credentials operation)"
  by (intro conjI bearer.scoped basic.scoped fixed.scoped headers.scoped)

end
