(* ===== verification/Upstream_Path.thy ===== *)
theory Upstream_Path
  imports Go_Http
begin

text \<open>
  The canonical request paths of the upstream package (\<open>canonicalUpstreamPath\<close> of
  \<open>src/internal/upstream/target.go\<close>), with the two library functions it is built on: the escaping of
  \<open>net/url\<close> and \<open>path.Clean\<close> on rooted paths.
\<close>

section \<open>Library functions\<close>

definition unreservedByte :: "char \<Rightarrow> bool" where
  "unreservedByte c \<longleftrightarrow> is_lower c \<or> is_upper c \<or> is_digit c \<or> c \<in> set ''-_.~''"

definition shouldEscapePath :: "char \<Rightarrow> bool" where
  "shouldEscapePath c \<longleftrightarrow> \<not> (unreservedByte c \<or> c \<in> set ''$&+,/:;=@'')"

definition upperHex :: "nat \<Rightarrow> char" where
  "upperHex n = (if n < 10 then char_of (48 + n) else char_of (55 + n))"

definition escapePathByte :: "char \<Rightarrow> string" where
  "escapePathByte c =
     (if shouldEscapePath c then [CHR 0x25, upperHex (byte_of c div 16), upperHex (byte_of c mod 16)] else [c])"

definition escapedPath :: "string \<Rightarrow> string" where
  "escapedPath p = concat (map escapePathByte p)"

definition joinSegments :: "string list \<Rightarrow> string" where
  "joinSegments segments = concat (map (\<lambda>s. CHR ''/'' # s) segments)"

text \<open>\<open>path.Clean\<close> on a path with a leading slash: empty and \<open>.\<close> segments are dropped, \<open>..\<close> removes the
  segment before it and nothing above the root.\<close>

definition cleanStep :: "string list \<Rightarrow> string \<Rightarrow> string list" where
  "cleanStep stack segment =
     (if segment = [] \<or> segment = ''.'' then stack
      else if segment = ''..'' then butlast stack
      else stack @ [segment])"

definition cleanRooted :: "string \<Rightarrow> string" where
  "cleanRooted p =
     (case foldl cleanStep [] (splitAt (CHR ''/'') p) of [] \<Rightarrow> ''/'' | segments \<Rightarrow> joinSegments segments)"

section \<open>Canonical paths\<close>

definition hasSuffix :: "string \<Rightarrow> char \<Rightarrow> bool" where
  "hasSuffix s c \<longleftrightarrow> s \<noteq> [] \<and> last s = c"

definition canonicalUpstreamPath :: "string \<Rightarrow> bool \<Rightarrow> bool" where
  "canonicalUpstreamPath value allowEmpty =
     (if value = [] then allowEmpty
      else if 2048 < int (length value) \<or> \<not> hasPrefix value ''/'' \<or> list_ex (\<lambda>c. c \<in> {CHR 0x5C, CHR 0x25, CHR ''?'', CHR 0x23}) value
      then False
      else if list_ex (\<lambda>c. byte_of c < 0x20 \<or> 0x7F \<le> byte_of c) value then False
      else if escapedPath value \<noteq> value then False
      else let canonical = cleanRooted value;
               canonical = (if hasSuffix value (CHR ''/'') \<and> canonical \<noteq> ''/'' then canonical @ ''/'' else canonical) in
        canonical = value)"

section \<open>Segments\<close>

definition plainSegment :: "string \<Rightarrow> bool" where
  "plainSegment s \<longleftrightarrow> s \<noteq> [] \<and> s \<noteq> ''.'' \<and> s \<noteq> ''..'' \<and> CHR ''/'' \<notin> set s"

lemma splitAt_join: "joinSegments (splitAt (CHR ''/'') s) = CHR ''/'' # s"
  by (induction s) (auto simp: joinSegments_def split: list.splits)

lemma splitAt_no_sep: "seg \<in> set (splitAt c s) \<Longrightarrow> c \<notin> set seg"
  by (induction s arbitrary: seg) (auto split: if_splits list.splits)

lemma splitAt_append_sep: "c \<notin> set s \<Longrightarrow> splitAt c (s @ c # t) = s # splitAt c t"
  by (induction s) auto

lemma splitAt_noop: "c \<notin> set s \<Longrightarrow> splitAt c s = [s]"
  by (induction s) auto

lemma splitAt_joinSegments:
  "segments \<noteq> [] \<Longrightarrow> \<forall>s\<in>set segments. CHR ''/'' \<notin> set s \<Longrightarrow>
     splitAt (CHR ''/'') (joinSegments segments) = [] # segments"
proof (induction segments)
  case (Cons s segments)
  show ?case
  proof (cases "segments = []")
    case True
    then show ?thesis using Cons by (simp add: joinSegments_def splitAt_noop)
  next
    case False
    then obtain t ts where t: "segments = t # ts" by (cases segments) auto
    then have "splitAt (CHR ''/'') (joinSegments segments) = [] # segments" using Cons False by simp
    then have "splitAt (CHR ''/'') (t @ joinSegments ts) = segments" by (simp add: t joinSegments_def)
    then show ?thesis using Cons.prems by (simp add: t joinSegments_def splitAt_append_sep)
  qed
qed simp

lemma joinSegments_inject:
  assumes "joinSegments xs = joinSegments ys" "xs \<noteq> []" "\<forall>s\<in>set xs \<union> set ys. CHR ''/'' \<notin> set s"
  shows "xs = ys"
proof -
  have "joinSegments xs \<noteq> []" using assms(2) by (cases xs) (simp_all add: joinSegments_def)
  then have "ys \<noteq> []" using assms(1) by (auto simp: joinSegments_def)
  then have "splitAt (CHR ''/'') (joinSegments ys) = [] # ys" by (rule splitAt_joinSegments) (use assms(3) in blast)
  moreover have "splitAt (CHR ''/'') (joinSegments xs) = [] # xs"
    by (rule splitAt_joinSegments [OF assms(2)]) (use assms(3) in blast)
  ultimately show ?thesis using assms(1) by simp
qed

lemma clean_plain:
  "\<forall>s\<in>set stack. plainSegment s \<Longrightarrow> \<forall>s\<in>set segments. CHR ''/'' \<notin> set s \<Longrightarrow>
     \<forall>s\<in>set (foldl cleanStep stack segments). plainSegment s"
proof (induction segments arbitrary: stack)
  case (Cons s segments)
  have "\<forall>t\<in>set (cleanStep stack s). plainSegment t"
    using Cons.prems by (auto simp: cleanStep_def plainSegment_def dest: in_set_butlastD)
  then show ?case using Cons by simp
qed simp

lemma clean_keeps: "\<forall>s\<in>set segments. plainSegment s \<Longrightarrow> foldl cleanStep stack segments = stack @ segments"
  by (induction segments arbitrary: stack) (simp_all add: cleanStep_def plainSegment_def)

text \<open>The reference: which paths are canonical, by their segments.\<close>

definition canonicalSegments :: "string list \<Rightarrow> bool" where
  "canonicalSegments segments \<longleftrightarrow>
     segments \<noteq> [] \<and> (\<forall>s\<in>set (butlast segments). plainSegment s) \<and>
     (last segments = [] \<or> plainSegment (last segments))"

definition pathByte :: "char \<Rightarrow> bool" where
  "pathByte c \<longleftrightarrow> unreservedByte c \<or> c \<in> set ''$&+,/:;=@''"

lemma escapedPath_same: "escapedPath p = p \<longleftrightarrow> list_all pathByte p"
proof (induction p)
  case (Cons c p)
  show ?case
  proof (cases "pathByte c")
    case True
    then show ?thesis using Cons by (simp add: escapedPath_def escapePathByte_def shouldEscapePath_def pathByte_def)
  next
    case False
    have "length q \<le> length (escapedPath q)" for q
      by (induction q) (auto simp: escapedPath_def escapePathByte_def)
    then have "length (c # p) < length (escapedPath (c # p))"
      using False by (simp add: escapedPath_def escapePathByte_def shouldEscapePath_def pathByte_def less_Suc_eq_le le_SucI)
    then have "escapedPath (c # p) \<noteq> c # p" by (metis less_irrefl)
    then show ?thesis using False by simp
  qed
qed (simp add: escapedPath_def)

lemma pathByte_range: "pathByte c \<Longrightarrow> 0x20 \<le> byte_of c \<and> byte_of c < 0x7F"
  unfolding pathByte_def unreservedByte_def byte_classes by (elim disjE) (auto simp: byte_of_def)

lemma pathByte_exclusions:
  "\<not> pathByte (CHR 0x5C)" "\<not> pathByte (CHR 0x25)" "\<not> pathByte (CHR ''?'')" "\<not> pathByte (CHR 0x23)"
  by code_simp+

lemma hasSuffix_join:
  assumes "segments \<noteq> []" "\<forall>s\<in>set segments. CHR ''/'' \<notin> set s"
  shows "hasSuffix (joinSegments segments) (CHR ''/'') \<longleftrightarrow> last segments = []"
proof -
  have "joinSegments segments = joinSegments (butlast segments) @ CHR ''/'' # last segments"
    using assms(1) by (metis append_butlast_last_id append_Nil2 concat.simps concat_append joinSegments_def list.simps(8,9) map_append)
  moreover have "CHR ''/'' \<notin> set (last segments)" using assms by simp
  ultimately show ?thesis by (cases "last segments = []") (auto simp: hasSuffix_def last_append dest: last_in_set)
qed

lemma clean_canonical:
  assumes "canonicalSegments segments"
  shows "foldl cleanStep [] segments = (if last segments = [] then butlast segments else segments)"
proof -
  have s: "butlast segments @ [last segments] = segments" and p: "\<forall>t\<in>set (butlast segments). plainSegment t"
    using assms by (simp_all add: canonicalSegments_def)
  have "foldl cleanStep [] segments = foldl cleanStep [] (butlast segments @ [last segments])" by (simp only: s)
  also have "\<dots> = cleanStep (butlast segments) (last segments)" using p by (simp add: clean_keeps)
  also have "\<dots> = (if last segments = [] then butlast segments else butlast segments @ [last segments])"
    using assms unfolding canonicalSegments_def
    by (cases "last segments = []") (simp_all add: cleanStep_def plainSegment_def)
  finally show ?thesis by (simp only: s)
qed

lemma clean_fixpoint:
  assumes "segments \<noteq> []" "\<forall>s\<in>set segments. CHR ''/'' \<notin> set s"
  shows "(let canonical = (case foldl cleanStep [] segments of [] \<Rightarrow> ''/'' | stack \<Rightarrow> joinSegments stack) in
      (if last segments = [] \<and> canonical \<noteq> ''/'' then canonical @ ''/'' else canonical) = joinSegments segments)
    \<longleftrightarrow> canonicalSegments segments"
proof -
  define stack where "stack = foldl cleanStep [] segments"
  have plain: "\<forall>s\<in>set stack. plainSegment s" unfolding stack_def by (rule clean_plain) (use assms(2) in simp_all)
  have ns: "\<forall>s\<in>set (stack @ [[]]) \<union> set segments. CHR ''/'' \<notin> set s" using plain assms(2) by (auto simp: plainSegment_def)
  have fwd: "foldl cleanStep [] segments = (if last segments = [] then butlast segments else segments)"
    if "canonicalSegments segments" by (rule clean_canonical [OF that])
  show ?thesis
  proof (cases "stack = []")
    case True
    have "''/'' = joinSegments segments \<longleftrightarrow> segments = [[]]"
      using joinSegments_inject [of "[[]]" segments] assms(2) by (auto simp: joinSegments_def)
    moreover have "segments = [[]]" if "canonicalSegments segments"
      using fwd [OF that] True assms(1) unfolding stack_def [symmetric]
      by (metis append_butlast_last_id append_Nil)
    ultimately show ?thesis using True by (auto simp: stack_def [symmetric] canonicalSegments_def)
  next
    case False
    then obtain t ts where st: "stack = t # ts" by (cases stack) auto
    have ne: "joinSegments stack \<noteq> ''/''" using plain by (auto simp: st joinSegments_def plainSegment_def)
    have a: "joinSegments stack @ ''/'' = joinSegments (stack @ [[]])" by (simp add: joinSegments_def)
    show ?thesis
    proof (cases "last segments = []")
      case True
      have "joinSegments (stack @ [[]]) = joinSegments segments \<longleftrightarrow> stack @ [[]] = segments"
        using joinSegments_inject [of "stack @ [[]]" segments] ns by auto
      moreover have "stack @ [[]] = segments \<longleftrightarrow> canonicalSegments segments"
      proof
        assume h: "stack @ [[]] = segments"
        show "canonicalSegments segments" unfolding canonicalSegments_def h [symmetric] using plain by simp
      next
        assume "canonicalSegments segments"
        then have "stack = butlast segments" using fwd True by (simp add: stack_def)
        then show "stack @ [[]] = segments" using append_butlast_last_id [OF assms(1)] True by simp
      qed
      ultimately show ?thesis using True ne a by (simp add: stack_def [symmetric] st [symmetric] False split: list.split) (simp add: st)
    next
      case l: False
      have "joinSegments stack = joinSegments segments \<longleftrightarrow> stack = segments"
        using joinSegments_inject [of stack segments] ns False by auto
      moreover have "stack = segments \<longleftrightarrow> canonicalSegments segments"
      proof
        assume h: "stack = segments"
        show "canonicalSegments segments"
          unfolding canonicalSegments_def h [symmetric] using plain False by (auto dest: in_set_butlastD)
      qed (use fwd l in \<open>simp add: stack_def\<close>)
      ultimately show ?thesis using l by (simp add: stack_def [symmetric] st)
    qed
  qed
qed

lemma canonicalUpstreamPath_Cons:
  "canonicalUpstreamPath (c # rest) allowEmpty \<longleftrightarrow>
     c = CHR ''/'' \<and> length rest < 2048 \<and> list_all pathByte rest \<and> canonicalSegments (splitAt (CHR ''/'') rest)"
proof (cases "c = CHR ''/'' \<and> length rest < 2048 \<and> list_all pathByte rest")
  case True
  then have c: "c = CHR ''/''" and all: "list_all pathByte (c # rest)" by (simp_all, code_simp)
  have "\<not> list_ex (\<lambda>c. c \<in> {CHR 0x5C, CHR 0x25, CHR ''?'', CHR 0x23}) (c # rest)"
    "\<not> list_ex (\<lambda>c. byte_of c < 0x20 \<or> 0x7F \<le> byte_of c) (c # rest)"
    using all pathByte_exclusions pathByte_range unfolding list_ex_iff list_all_iff by (blast, fastforce)
  then have "canonicalUpstreamPath (c # rest) allowEmpty \<longleftrightarrow>
      (let canonical = cleanRooted (c # rest) in
       (if hasSuffix (c # rest) (CHR ''/'') \<and> canonical \<noteq> ''/'' then canonical @ ''/'' else canonical) = c # rest)"
    using True escapedPath_same [THEN iffD2, OF all]
    by (simp add: canonicalUpstreamPath_def hasPrefix_def Let_def)
  also have "\<dots> \<longleftrightarrow> canonicalSegments (splitAt (CHR ''/'') rest)"
    using clean_fixpoint [of "splitAt (CHR ''/'') rest"] hasSuffix_join [of "splitAt (CHR ''/'') rest"] splitAt_no_sep
    by (simp add: cleanRooted_def c splitAt_join cleanStep_def [of "[]" "[]"])
  finally show ?thesis using True by simp
next
  case False
  then show ?thesis
    by (auto simp: canonicalUpstreamPath_def hasPrefix_def escapedPath_same Let_def split: if_splits)
qed

text \<open>
  C36. Canonical paths, by their segments: the empty path is canonical where the caller allows it, and
  any other path exactly if it has at most 2048
  bytes, starts with a slash, consists of bytes that need no escaping, and has no empty, \<open>.\<close> or \<open>..\<close>
  segment; only the last segment may be empty, which is the trailing slash.
\<close>

theorem canonical_path_exact:
  "canonicalUpstreamPath value allowEmpty \<longleftrightarrow>
     (case value of
        [] \<Rightarrow> allowEmpty
      | c # rest \<Rightarrow> c = CHR ''/'' \<and> length value \<le> 2048 \<and> list_all pathByte rest \<and>
          canonicalSegments (splitAt (CHR ''/'') rest))"
proof (cases "value")
  case Nil
  then show ?thesis by (simp add: canonicalUpstreamPath_def)
next
  case (Cons c rest)
  then show ?thesis by (simp add: canonicalUpstreamPath_Cons Suc_le_eq)
qed

end
