(* ===== verification/Destination_Policy.thy ===== *)
theory Destination_Policy
  imports Latchway_Prelude
begin

text \<open>
  The destination policy of the upstream package (\<open>src/internal/upstream/target.go\<close>): which network
  addresses the gateway may connect to.  An address of \<open>net/netip\<close> is the zero address, an IPv4
  address or an IPv6 address with its zone; a prefix is the zero prefix or a base address with a
  number of bits.  The parser of textual addresses and the name resolver are arguments of the
  definitions that use them, and every theorem holds for all of them.
\<close>

unbundle bit_operations_syntax

datatype netAddr = NoAddr | Addr4 "32 word" | Addr6 "128 word" string

datatype netPrefix = NoPrefix | Prefix4 "32 word" nat | Prefix6 "128 word" nat

datatype destination_error =
    PrivateOptInRequired
  | PrivateCIDRCount
  | PrivateCIDRInvalid nat
  | PrivateCIDROverlap nat nat
  | AddressBlocked
  | ResolveFailed
  | NoAddresses
  | ResolvedInvalid
  | ResolvedBlocked
  | ParseAddressFailed
  | ConnectFailed

record destinationPolicy =
  dp_AllowPrivate :: bool
  dp_AllowedCIDRs :: "netPrefix list"

section \<open>Addresses and prefixes of \<open>net/netip\<close>\<close>

definition ip4 :: "nat \<Rightarrow> nat \<Rightarrow> nat \<Rightarrow> nat \<Rightarrow> 32 word" where
  "ip4 a b c d = word_of_nat (((a * 256 + b) * 256 + c) * 256 + d)"

text \<open>The groups before and behind the double colon of an IPv6 address.\<close>

definition ip6 :: "nat list \<Rightarrow> nat list \<Rightarrow> 128 word" where
  "ip6 hi lo = word_of_nat (foldl (\<lambda>n g. n * 65536 + g) 0 (hi @ replicate (8 - length hi - length lo) 0 @ lo))"

definition addr_v4 :: "32 word \<Rightarrow> nat \<Rightarrow> nat" where
  "addr_v4 a i = unat a div 2 ^ (24 - 8 * i) mod 256"

definition addr_v6u16 :: "128 word \<Rightarrow> nat \<Rightarrow> nat" where
  "addr_v6u16 a i = unat a div 2 ^ (112 - 16 * i) mod 65536"

definition addr_is4in6 :: "128 word \<Rightarrow> bool" where
  "addr_is4in6 a \<longleftrightarrow> unat a div 2 ^ 32 = 0xFFFF"

fun addrUnmap :: "netAddr \<Rightarrow> netAddr" where
  "addrUnmap (Addr6 a zone) = (if addr_is4in6 a then Addr4 (ucast a) else Addr6 a zone)"
| "addrUnmap address = address"

definition addrIsValid :: "netAddr \<Rightarrow> bool" where
  "addrIsValid address \<longleftrightarrow> address \<noteq> NoAddr"

definition addrIs6 :: "netAddr \<Rightarrow> bool" where
  "addrIs6 address = (case address of Addr6 _ _ \<Rightarrow> True | _ \<Rightarrow> False)"

definition addrIsUnspecified :: "netAddr \<Rightarrow> bool" where
  "addrIsUnspecified address \<longleftrightarrow> address = Addr4 0 \<or> address = Addr6 0 []"

text \<open>The predicates are used on unmapped addresses, for which the treatment of IPv4-mapped IPv6
  addresses inside the library functions plays no role.\<close>

fun addrIsLoopback :: "netAddr \<Rightarrow> bool" where
  "addrIsLoopback (Addr4 a) = (addr_v4 a 0 = 127)"
| "addrIsLoopback (Addr6 a _) = (a = 1)"
| "addrIsLoopback NoAddr = False"

fun addrIsMulticast :: "netAddr \<Rightarrow> bool" where
  "addrIsMulticast (Addr4 a) = (addr_v4 a 0 AND 0xF0 = 0xE0)"
| "addrIsMulticast (Addr6 a _) = (unat a div 2 ^ 120 = 0xFF)"
| "addrIsMulticast NoAddr = False"

fun addrIsLinkLocalMulticast :: "netAddr \<Rightarrow> bool" where
  "addrIsLinkLocalMulticast (Addr4 a) = (addr_v4 a 0 = 224 \<and> addr_v4 a 1 = 0 \<and> addr_v4 a 2 = 0)"
| "addrIsLinkLocalMulticast (Addr6 a _) = (addr_v6u16 a 0 AND 0xFF0F = 0xFF02)"
| "addrIsLinkLocalMulticast NoAddr = False"

fun addrIsLinkLocalUnicast :: "netAddr \<Rightarrow> bool" where
  "addrIsLinkLocalUnicast (Addr4 a) = (addr_v4 a 0 = 169 \<and> addr_v4 a 1 = 254)"
| "addrIsLinkLocalUnicast (Addr6 a _) = (addr_v6u16 a 0 AND 0xFFC0 = 0xFE80)"
| "addrIsLinkLocalUnicast NoAddr = False"

fun addrIsPrivate :: "netAddr \<Rightarrow> bool" where
  "addrIsPrivate (Addr4 a) =
     (addr_v4 a 0 = 10 \<or> addr_v4 a 0 = 172 \<and> addr_v4 a 1 AND 0xF0 = 16 \<or> addr_v4 a 0 = 192 \<and> addr_v4 a 1 = 168)"
| "addrIsPrivate (Addr6 a _) = (unat a div 2 ^ 120 AND 0xFE = 0xFC)"
| "addrIsPrivate NoAddr = False"

definition addrIsGlobalUnicast :: "netAddr \<Rightarrow> bool" where
  "addrIsGlobalUnicast address =
     (if address = NoAddr then False
      else if address = Addr4 0 \<or> address = Addr4 0xFFFFFFFF then False
      else address \<noteq> Addr6 0 [] \<and> \<not> addrIsLoopback address \<and> \<not> addrIsMulticast address \<and>
           \<not> addrIsLinkLocalUnicast address)"

fun prefixContains :: "netPrefix \<Rightarrow> netAddr \<Rightarrow> bool" where
  "prefixContains (Prefix4 p bits) (Addr4 a) = (drop_bit (32 - bits) (a XOR p) = 0)"
| "prefixContains (Prefix6 p bits) (Addr6 a zone) =
     (zone = [] \<and> (a XOR p) AND push_bit (128 - bits) (mask bits) = 0)"
| "prefixContains _ _ = False"

fun prefixAddr :: "netPrefix \<Rightarrow> netAddr" where
  "prefixAddr (Prefix4 p _) = Addr4 p"
| "prefixAddr (Prefix6 p _) = Addr6 p []"
| "prefixAddr NoPrefix = NoAddr"

fun prefixBits :: "netPrefix \<Rightarrow> int" where
  "prefixBits (Prefix4 _ bits) = int bits"
| "prefixBits (Prefix6 _ bits) = int bits"
| "prefixBits NoPrefix = - 1"

fun prefixMasked :: "netPrefix \<Rightarrow> netPrefix" where
  "prefixMasked (Prefix4 p bits) = Prefix4 (p AND push_bit (32 - bits) (mask bits)) bits"
| "prefixMasked (Prefix6 p bits) = Prefix6 (p AND push_bit (128 - bits) (mask bits)) bits"
| "prefixMasked NoPrefix = NoPrefix"

fun addrBitLen :: "netAddr \<Rightarrow> nat" where
  "addrBitLen NoAddr = 0"
| "addrBitLen (Addr4 _) = 32"
| "addrBitLen (Addr6 _ _) = 128"

section \<open>The policy\<close>

definition privateDestinationPrefixes :: "netPrefix list" where
  "privateDestinationPrefixes =
     [Prefix4 (ip4 10 0 0 0) 8, Prefix4 (ip4 172 16 0 0) 12, Prefix4 (ip4 192 168 0 0) 16,
      Prefix6 (ip6 [0xfc00] []) 7]"

definition additionalBlockedPrefixes :: "netPrefix list" where
  "additionalBlockedPrefixes =
     [Prefix4 (ip4 0 0 0 0) 8, Prefix4 (ip4 100 64 0 0) 10, Prefix4 (ip4 192 0 0 0) 24,
      Prefix4 (ip4 192 0 2 0) 24, Prefix4 (ip4 192 31 196 0) 24, Prefix4 (ip4 192 52 193 0) 24,
      Prefix4 (ip4 192 88 99 0) 24, Prefix4 (ip4 192 175 48 0) 24, Prefix4 (ip4 198 18 0 0) 15,
      Prefix4 (ip4 198 51 100 0) 24, Prefix4 (ip4 203 0 113 0) 24, Prefix4 (ip4 240 0 0 0) 4,
      Prefix6 (ip6 [0x2001] []) 23, Prefix6 (ip6 [0x2001, 0xdb8] []) 32, Prefix6 (ip6 [0x2002] []) 16,
      Prefix6 (ip6 [0x2620, 0x4f, 0x8000] []) 48, Prefix6 (ip6 [0x3fff] []) 20,
      Prefix6 (ip6 [0xfd00, 0xec2] [0x254]) 128]"

definition allocatedGlobalIPv6Prefixes :: "netPrefix list" where
  "allocatedGlobalIPv6Prefixes =
     [Prefix6 (ip6 [0x2001, 0x200] []) 23, Prefix6 (ip6 [0x2001, 0x400] []) 23,
      Prefix6 (ip6 [0x2001, 0x600] []) 23, Prefix6 (ip6 [0x2001, 0x800] []) 22,
      Prefix6 (ip6 [0x2001, 0xc00] []) 23, Prefix6 (ip6 [0x2001, 0xe00] []) 23,
      Prefix6 (ip6 [0x2001, 0x1200] []) 23, Prefix6 (ip6 [0x2001, 0x1400] []) 22,
      Prefix6 (ip6 [0x2001, 0x1800] []) 23, Prefix6 (ip6 [0x2001, 0x1a00] []) 23,
      Prefix6 (ip6 [0x2001, 0x1c00] []) 22, Prefix6 (ip6 [0x2001, 0x2000] []) 19,
      Prefix6 (ip6 [0x2001, 0x4000] []) 23, Prefix6 (ip6 [0x2001, 0x4200] []) 23,
      Prefix6 (ip6 [0x2001, 0x4400] []) 23, Prefix6 (ip6 [0x2001, 0x4600] []) 23,
      Prefix6 (ip6 [0x2001, 0x4800] []) 23, Prefix6 (ip6 [0x2001, 0x4a00] []) 23,
      Prefix6 (ip6 [0x2001, 0x4c00] []) 23, Prefix6 (ip6 [0x2001, 0x5000] []) 20,
      Prefix6 (ip6 [0x2001, 0x8000] []) 19, Prefix6 (ip6 [0x2001, 0xa000] []) 20,
      Prefix6 (ip6 [0x2001, 0xb000] []) 20, Prefix6 (ip6 [0x2003] []) 18, Prefix6 (ip6 [0x2400] []) 12,
      Prefix6 (ip6 [0x2410] []) 12, Prefix6 (ip6 [0x2600] []) 12, Prefix6 (ip6 [0x2610] []) 23,
      Prefix6 (ip6 [0x2620] []) 23, Prefix6 (ip6 [0x2630] []) 12, Prefix6 (ip6 [0x2800] []) 12,
      Prefix6 (ip6 [0x2a00] []) 12, Prefix6 (ip6 [0x2a10] []) 12, Prefix6 (ip6 [0x2c00] []) 12]"

definition validPrivateDestinationPrefix :: "netPrefix \<Rightarrow> bool" where
  "validPrivateDestinationPrefix prefix =
     (if prefix = NoPrefix \<or> prefix \<noteq> prefixMasked prefix \<or>
         (case prefixAddr prefix of Addr6 a _ \<Rightarrow> addr_is4in6 a | _ \<Rightarrow> False)
      then False
      else list_ex (\<lambda>privateRange. addrBitLen (prefixAddr prefix) = addrBitLen (prefixAddr privateRange) \<and>
             prefixBits privateRange \<le> prefixBits prefix \<and> prefixContains privateRange (prefixAddr prefix))
             privateDestinationPrefixes)"

definition prefixesOverlap :: "netPrefix \<Rightarrow> netPrefix \<Rightarrow> bool" where
  "prefixesOverlap first second \<longleftrightarrow>
     first \<noteq> NoPrefix \<and> second \<noteq> NoPrefix \<and>
     (prefixContains first (prefixAddr second) \<or> prefixContains second (prefixAddr first))"

text \<open>The first earlier prefix that overlaps, with its index.\<close>

fun firstOverlap :: "netPrefix \<Rightarrow> nat \<Rightarrow> netPrefix list \<Rightarrow> nat option" where
  "firstOverlap prefix prior [] = None"
| "firstOverlap prefix prior (p # ps) =
     (if prefixesOverlap prefix p then Some prior else firstOverlap prefix (Suc prior) ps)"

fun checkPrivatePrefixes :: "netPrefix list \<Rightarrow> netPrefix list \<Rightarrow> destination_error + unit" where
  "checkPrivatePrefixes earlier [] = Inr ()"
| "checkPrivatePrefixes earlier (prefix # rest) =
     (if \<not> validPrivateDestinationPrefix prefix then Inl (PrivateCIDRInvalid (length earlier))
      else case firstOverlap prefix 0 earlier of
        Some prior \<Rightarrow> Inl (PrivateCIDROverlap prior (length earlier))
      | None \<Rightarrow> checkPrivatePrefixes (earlier @ [prefix]) rest)"

definition ValidateDestinationPolicy :: "destinationPolicy \<Rightarrow> destination_error + unit" where
  "ValidateDestinationPolicy policy =
     (if \<not> dp_AllowPrivate policy then
        (if length (dp_AllowedCIDRs policy) \<noteq> 0 then Inl PrivateOptInRequired else Inr ())
      else if length (dp_AllowedCIDRs policy) = 0 \<or> 32 < length (dp_AllowedCIDRs policy) then Inl PrivateCIDRCount
      else checkPrivatePrefixes [] (dp_AllowedCIDRs policy))"

definition hardBlockedDestination :: "netAddr \<Rightarrow> bool" where
  "hardBlockedDestination address =
     (if \<not> addrIsValid address \<or> addrIsUnspecified address \<or> addrIsLoopback address \<or>
         addrIsLinkLocalUnicast address \<or> addrIsLinkLocalMulticast address \<or> addrIsMulticast address
      then True
      else list_ex (\<lambda>prefix. prefixContains prefix address) additionalBlockedPrefixes)"

definition isPublicDestination :: "netAddr \<Rightarrow> bool" where
  "isPublicDestination address =
     (if hardBlockedDestination address \<or> addrIsPrivate address then False
      else if addrIs6 address \<and> \<not> list_ex (\<lambda>prefix. prefixContains prefix address) allocatedGlobalIPv6Prefixes
      then False
      else addrIsGlobalUnicast address)"

definition policyAllowed :: "destinationPolicy \<Rightarrow> netAddr \<Rightarrow> bool" where
  "policyAllowed p address0 =
     (let address = addrUnmap address0 in
      if hardBlockedDestination address then False
      else if isPublicDestination address then True
      else if \<not> dp_AllowPrivate p \<or> \<not> addrIsPrivate address then False
      else list_ex (\<lambda>prefix. validPrivateDestinationPrefix prefix \<and> prefixContains prefix address) (dp_AllowedCIDRs p))"

text \<open>The check of a configured host, and the resolution that the dialer performs on every connection.
  \<open>parseAddr\<close> is \<open>netip.ParseAddr\<close> and \<open>lookup\<close> the resolver.\<close>

definition trimDot :: "string \<Rightarrow> string" where
  "trimDot host = (if host \<noteq> [] \<and> last host = CHR ''.'' then butlast host else host)"

definition validateDestination ::
    "(string \<Rightarrow> netAddr option) \<Rightarrow> string \<Rightarrow> destinationPolicy \<Rightarrow> destination_error + unit" where
  "validateDestination parseAddr hostname policy =
     andThen (ValidateDestinationPolicy policy) (\<lambda>_.
     case parseAddr (trimDot hostname) of
       None \<Rightarrow> Inr ()
     | Some address \<Rightarrow> if \<not> policyAllowed policy (addrUnmap address) then Inl AddressBlocked else Inr ())"

fun approveAll :: "destinationPolicy \<Rightarrow> netAddr list \<Rightarrow> destination_error + netAddr list" where
  "approveAll policy [] = Inr []"
| "approveAll policy (resolvedIP # rest) =
     (let address = addrUnmap resolvedIP in
      if \<not> addrIsValid address then Inl ResolvedInvalid
      else if \<not> policyAllowed policy address then Inl ResolvedBlocked
      else andThen (approveAll policy rest) (\<lambda>addresses. Inr (address # addresses)))"

definition dialerResolve ::
    "(string \<Rightarrow> netAddr option) \<Rightarrow> (string \<Rightarrow> netAddr list option) \<Rightarrow> destinationPolicy \<Rightarrow> string \<Rightarrow>
     destination_error + netAddr list" where
  "dialerResolve parseAddr lookup policy host =
     (case parseAddr host of
        Some parsed \<Rightarrow>
          let parsed = addrUnmap parsed in
          if \<not> policyAllowed policy parsed then Inl AddressBlocked else Inr [parsed]
      | None \<Rightarrow>
          case lookup host of
            None \<Rightarrow> Inl ResolveFailed
          | Some resolved \<Rightarrow>
              if length resolved = 0 then Inl NoAddresses else approveAll policy resolved)"

text \<open>The dialer tries the approved addresses in order.  \<open>splitHostPort\<close> yields the host of a dialled
  address, \<open>dial\<close> is one connection attempt; the result carries the addresses that were tried.\<close>

fun dialAll :: "(netAddr \<Rightarrow> 'c option) \<Rightarrow> netAddr list \<Rightarrow> netAddr list \<times> 'c option" where
  "dialAll dial [] = ([], None)"
| "dialAll dial (address # addresses) =
     (case dial address of
        Some connection \<Rightarrow> ([address], Some connection)
      | None \<Rightarrow> let (tried, result) = dialAll dial addresses in (address # tried, result))"

definition DialContext ::
    "(string \<Rightarrow> string option) \<Rightarrow> (string \<Rightarrow> netAddr option) \<Rightarrow> (string \<Rightarrow> netAddr list option) \<Rightarrow>
     (netAddr \<Rightarrow> 'c option) \<Rightarrow> destinationPolicy \<Rightarrow> string \<Rightarrow> netAddr list \<times> (destination_error + 'c)" where
  "DialContext splitHostPort parseAddr lookup dial policy address =
     (case splitHostPort address of
        None \<Rightarrow> ([], Inl ParseAddressFailed)
      | Some host \<Rightarrow>
          case dialerResolve parseAddr lookup policy host of
            Inl e \<Rightarrow> ([], Inl e)
          | Inr addresses \<Rightarrow>
              case dialAll dial addresses of
                (tried, Some connection) \<Rightarrow> (tried, Inr connection)
              | (tried, None) \<Rightarrow> (tried, Inl ConnectFailed))"

section \<open>Lemmas on prefixes\<close>

lemma word_xor_eq_0: "(x :: 'a :: len word) XOR y = 0 \<longleftrightarrow> x = y"
  by (auto simp: bit_eq_iff bit_simps)

lemma xor_drop_bit:
  "drop_bit k ((a :: 'a :: len word) XOR b) = 0 \<longleftrightarrow> unat a div 2 ^ k = unat b div 2 ^ k"
proof -
  have "drop_bit k (a XOR b) = 0 \<longleftrightarrow> drop_bit k a = drop_bit k b"
    by (simp add: word_xor_eq_0)
  also have "\<dots> \<longleftrightarrow> unat (drop_bit k a) = unat (drop_bit k b)" by (simp only: word_unat_eq_iff)
  also have "\<dots> \<longleftrightarrow> unat a div 2 ^ k = unat b div 2 ^ k" by (simp only: unat_drop_bit_eq) (simp only: drop_bit_eq_div)
  finally show ?thesis .
qed

lemma contains4:
  "prefixContains (Prefix4 p bits) (Addr4 a) \<longleftrightarrow> unat a div 2 ^ (32 - bits) = unat p div 2 ^ (32 - bits)"
  unfolding prefixContains.simps by (rule xor_drop_bit)

lemma and_high_mask:
  "(x :: 128 word) AND push_bit (128 - bits) (mask bits) = 0 \<longleftrightarrow> drop_bit (128 - bits) x = 0"
proof
  assume h: "x AND push_bit (128 - bits) (mask bits) = 0"
  show "drop_bit (128 - bits) x = 0"
  proof (rule bit_word_eqI)
    fix n assume "n < LENGTH(128)"
    have "\<not> (bit x (128 - bits + n) \<and> 128 - bits + n < 128)"
      using h [THEN arg_cong [of _ _ "\<lambda>w. bit w (128 - bits + n)"]] by (auto simp: bit_simps)
    then show "bit (drop_bit (128 - bits) x) n = bit 0 n" by (auto simp: bit_simps dest: bit_imp_le_length)
  qed
next
  assume h: "drop_bit (128 - bits) x = 0"
  show "x AND push_bit (128 - bits) (mask bits) = 0"
  proof (rule bit_word_eqI)
    fix n
    have "\<not> bit x n" if "128 - bits \<le> n"
      using h [THEN arg_cong [of _ _ "\<lambda>w. bit w (n - (128 - bits))"]] that by (simp add: bit_simps)
    then show "bit (x AND push_bit (128 - bits) (mask bits)) n = bit 0 n" by (auto simp: bit_simps)
  qed
qed

lemma contains6:
  "prefixContains (Prefix6 p bits) (Addr6 a zone) \<longleftrightarrow>
     zone = [] \<and> unat a div 2 ^ (128 - bits) = unat p div 2 ^ (128 - bits)"
  unfolding prefixContains.simps by (simp only: and_high_mask xor_drop_bit)

lemma unat_small: "n < 2 ^ LENGTH('a) \<Longrightarrow> unat (word_of_nat n :: 'a :: len word) = n"
  by (simp add: unat_of_nat take_bit_nat_eq_self)

lemma unat_ip4:
  "((a * 256 + b) * 256 + c) * 256 + d < 2 ^ 32 \<Longrightarrow> unat (ip4 a b c d) = ((a * 256 + b) * 256 + c) * 256 + d"
  unfolding ip4_def by (rule unat_small) simp

section \<open>The policy on IPv4 addresses, by octets\<close>

text \<open>The special-purpose blocks, the private blocks and what remains, in terms of the first three octets.\<close>

definition specialOctets :: "nat \<Rightarrow> nat \<Rightarrow> nat \<Rightarrow> bool" where
  "specialOctets a b c \<longleftrightarrow>
     a = 0 \<or> a = 100 \<and> 64 \<le> b \<and> b \<le> 127 \<or> a = 192 \<and> b = 0 \<and> c = 0 \<or> a = 192 \<and> b = 0 \<and> c = 2 \<or>
     a = 192 \<and> b = 31 \<and> c = 196 \<or> a = 192 \<and> b = 52 \<and> c = 193 \<or> a = 192 \<and> b = 88 \<and> c = 99 \<or>
     a = 192 \<and> b = 175 \<and> c = 48 \<or> a = 198 \<and> (b = 18 \<or> b = 19) \<or> a = 198 \<and> b = 51 \<and> c = 100 \<or>
     a = 203 \<and> b = 0 \<and> c = 113 \<or> 240 \<le> a"

definition privateOctets :: "nat \<Rightarrow> nat \<Rightarrow> bool" where
  "privateOctets a b \<longleftrightarrow> a = 10 \<or> a = 172 \<and> 16 \<le> b \<and> b \<le> 31 \<or> a = 192 \<and> b = 168"

definition publicOctets :: "nat \<Rightarrow> nat \<Rightarrow> nat \<Rightarrow> bool" where
  "publicOctets a b c \<longleftrightarrow>
     \<not> specialOctets a b c \<and> \<not> privateOctets a b \<and> a \<noteq> 127 \<and> \<not> (a = 169 \<and> b = 254) \<and> a < 224"

lemma nat_and_high: "(x :: nat) AND push_bit k (mask m) = push_bit k (take_bit m (drop_bit k x))"
  by (rule bit_eqI) (auto simp: bit_simps)

lemma and_F0: "b < 256 \<Longrightarrow> (b :: nat) AND 0xF0 = b div 16 * 16"
  using nat_and_high [of b 4 4] by (simp add: push_bit_eq_mult take_bit_eq_mod drop_bit_eq_div mask_eq_exp_minus_1)

lemma div_eq_range: "0 < k \<Longrightarrow> (n :: nat) div k = q \<longleftrightarrow> q * k \<le> n \<and> n < Suc q * k"
  using div_nat_eqI [of k q n] times_div_less_eq_dividend [of k n] dividend_less_times_div [of k n]
  by (auto simp: mult.commute)

lemma masked_octets:
  assumes "b < 256"
  shows "(b :: nat) AND 0xF0 = 0xE0 \<longleftrightarrow> 224 \<le> b \<and> b < 240" "b AND 0xF0 = 16 \<longleftrightarrow> 16 \<le> b \<and> b \<le> 31"
proof -
  have "b div 16 * 16 = 224 \<longleftrightarrow> b div 16 = 14" "b div 16 * 16 = 16 \<longleftrightarrow> b div 16 = 1" by simp_all
  then show "b AND 0xF0 = 0xE0 \<longleftrightarrow> 224 \<le> b \<and> b < 240" "b AND 0xF0 = 16 \<longleftrightarrow> 16 \<le> b \<and> b \<le> 31"
    by (auto simp: and_F0 [OF assms] div_eq_range)
qed

lemma octet_blocks:
  fixes n :: nat
  assumes "n < 2 ^ 32"
  defines "a \<equiv> n div 2 ^ 24 mod 256" and "b \<equiv> n div 2 ^ 16 mod 256" and "c \<equiv> n div 2 ^ 8 mod 256"
  shows "n div 2 ^ 24 = a" "n div 2 ^ 8 = (a * 256 + b) * 256 + c" "n div 2 ^ 16 = a * 256 + b"
    "n div 2 ^ 17 = (a * 256 + b) div 2" "n div 2 ^ 22 = (a * 256 + b) div 64" "n div 2 ^ 28 = a div 16"
    "n div 2 ^ 20 = (a * 256 + b) div 16" "a < 256" "b < 256" "c < 256"
proof -
  have a: "n div 2 ^ 24 = a" using assms(1) by (simp add: a_def)
  have 16: "n div 2 ^ 16 = a * 256 + b"
    using div_mult_mod_eq [of "n div 2 ^ 16" 256] by (simp add: a [symmetric] b_def div_mult2_eq [symmetric])
  have 8: "n div 2 ^ 8 = (a * 256 + b) * 256 + c"
    using div_mult_mod_eq [of "n div 2 ^ 8" 256] by (simp add: 16 [symmetric] c_def div_mult2_eq [symmetric])
  show "n div 2 ^ 24 = a" "n div 2 ^ 8 = (a * 256 + b) * 256 + c" "n div 2 ^ 16 = a * 256 + b" by (fact a 8 16)+
  show "n div 2 ^ 28 = a div 16" by (simp add: a [symmetric] div_mult2_eq [symmetric])
  show "n div 2 ^ 17 = (a * 256 + b) div 2" "n div 2 ^ 22 = (a * 256 + b) div 64" "n div 2 ^ 20 = (a * 256 + b) div 16"
    unfolding 16 [symmetric] by (simp_all add: div_mult2_eq [symmetric])
  show "a < 256" "b < 256" "c < 256" by (simp_all add: a_def b_def c_def)
qed

lemma octet_inject:
  fixes a b c :: nat
  assumes "b < 256" "c < 256" "b' < 256" "c' < 256"
  shows "(a * 256 + b) * 256 + c = (a' * 256 + b') * 256 + c' \<longleftrightarrow> a = a' \<and> b = b' \<and> c = c'"
proof
  assume h: "(a * 256 + b) * 256 + c = (a' * 256 + b') * 256 + c'"
  have m: "(k * 256 + d) mod 256 = d" if "d < 256" for k d :: nat using that by simp
  have "c = c'" using m [OF assms(2), of "a * 256 + b"] m [OF assms(4), of "a' * 256 + b'"] h by simp
  moreover have h2: "a * 256 + b = a' * 256 + b'" using h calculation by simp
  moreover have "b = b'" using m [OF assms(1), of a] m [OF assms(3), of a'] h2 by simp
  ultimately show "a = a' \<and> b = b' \<and> c = c'" by simp
qed simp

lemma octet_equations:
  fixes a b c :: nat
  assumes "a < 256" "b < 256" "c < 256"
  shows "(a * 256 + b) * 256 + c = 12582912 \<longleftrightarrow> a = 192 \<and> b = 0 \<and> c = 0"
    "(a * 256 + b) * 256 + c = 12582914 \<longleftrightarrow> a = 192 \<and> b = 0 \<and> c = 2"
    "(a * 256 + b) * 256 + c = 12591044 \<longleftrightarrow> a = 192 \<and> b = 31 \<and> c = 196"
    "(a * 256 + b) * 256 + c = 12596417 \<longleftrightarrow> a = 192 \<and> b = 52 \<and> c = 193"
    "(a * 256 + b) * 256 + c = 12605539 \<longleftrightarrow> a = 192 \<and> b = 88 \<and> c = 99"
    "(a * 256 + b) * 256 + c = 12627760 \<longleftrightarrow> a = 192 \<and> b = 175 \<and> c = 48"
    "(a * 256 + b) * 256 + c = 12989284 \<longleftrightarrow> a = 198 \<and> b = 51 \<and> c = 100"
    "(a * 256 + b) * 256 + c = 13303921 \<longleftrightarrow> a = 203 \<and> b = 0 \<and> c = 113"
    "(a * 256 + b) div 64 = 401 \<longleftrightarrow> a = 100 \<and> 64 \<le> b \<and> b \<le> 127"
    "(a * 256 + b) div 2 = 25353 \<longleftrightarrow> a = 198 \<and> (b = 18 \<or> b = 19)"
    "a div 16 = 15 \<longleftrightarrow> 240 \<le> a"
proof -
  show "(a * 256 + b) * 256 + c = 12582912 \<longleftrightarrow> a = 192 \<and> b = 0 \<and> c = 0"
    using octet_inject [OF assms(2,3), of 0 0 a 192] by simp
  show "(a * 256 + b) * 256 + c = 12582914 \<longleftrightarrow> a = 192 \<and> b = 0 \<and> c = 2"
    using octet_inject [OF assms(2,3), of 0 2 a 192] by simp
  show "(a * 256 + b) * 256 + c = 12591044 \<longleftrightarrow> a = 192 \<and> b = 31 \<and> c = 196"
    using octet_inject [OF assms(2,3), of 31 196 a 192] by simp
  show "(a * 256 + b) * 256 + c = 12596417 \<longleftrightarrow> a = 192 \<and> b = 52 \<and> c = 193"
    using octet_inject [OF assms(2,3), of 52 193 a 192] by simp
  show "(a * 256 + b) * 256 + c = 12605539 \<longleftrightarrow> a = 192 \<and> b = 88 \<and> c = 99"
    using octet_inject [OF assms(2,3), of 88 99 a 192] by simp
  show "(a * 256 + b) * 256 + c = 12627760 \<longleftrightarrow> a = 192 \<and> b = 175 \<and> c = 48"
    using octet_inject [OF assms(2,3), of 175 48 a 192] by simp
  show "(a * 256 + b) * 256 + c = 12989284 \<longleftrightarrow> a = 198 \<and> b = 51 \<and> c = 100"
    using octet_inject [OF assms(2,3), of 51 100 a 198] by simp
  show "(a * 256 + b) * 256 + c = 13303921 \<longleftrightarrow> a = 203 \<and> b = 0 \<and> c = 113"
    using octet_inject [OF assms(2,3), of 0 113 a 203] by simp
  show "(a * 256 + b) div 64 = 401 \<longleftrightarrow> a = 100 \<and> 64 \<le> b \<and> b \<le> 127"
    using assms by (cases "a = 100") (auto simp: div_eq_range)
  show "(a * 256 + b) div 2 = 25353 \<longleftrightarrow> a = 198 \<and> (b = 18 \<or> b = 19)"
    using assms by (cases "a = 198") (auto simp: div_eq_range)
  show "a div 16 = 15 \<longleftrightarrow> 240 \<le> a"
    using assms by (auto simp: div_eq_range)
qed

lemma blocked4:
  "list_ex (\<lambda>prefix. prefixContains prefix (Addr4 x)) additionalBlockedPrefixes \<longleftrightarrow>
     specialOctets (addr_v4 x 0) (addr_v4 x 1) (addr_v4 x 2)"
proof -
  have n: "unat x < 2 ^ 32" using unsigned_less [of x] by simp
  have abc: "unat x div 2 ^ 24 mod 256 = addr_v4 x 0" "unat x div 2 ^ 16 mod 256 = addr_v4 x 1"
    "unat x div 2 ^ 8 mod 256 = addr_v4 x 2"
    by (simp_all add: addr_v4_def)
  note o = octet_blocks [OF n, unfolded abc]
  show ?thesis
    unfolding additionalBlockedPrefixes_def
    by (simp add: contains4 unat_ip4 del: prefixContains.simps(1))
      (simp add: o(1-7) [simplified] octet_equations [OF o(8-10), simplified] specialOctets_def)
qed

lemma octet_bound [simp]: "addr_v4 x i < 256"
  by (simp add: addr_v4_def)

lemma private4: "addrIsPrivate (Addr4 x) \<longleftrightarrow> privateOctets (addr_v4 x 0) (addr_v4 x 1)"
  unfolding addrIsPrivate.simps privateOctets_def masked_octets [OF octet_bound] by (rule refl)

lemma v4_extremes: "addr_v4 0 0 = 0" "addr_v4 0xFFFFFFFF 0 = 255"
  by (simp_all add: addr_v4_def)

lemma hardBlocked4:
  "hardBlockedDestination (Addr4 x) \<longleftrightarrow>
     \<not> publicOctets (addr_v4 x 0) (addr_v4 x 1) (addr_v4 x 2) \<and> \<not> privateOctets (addr_v4 x 0) (addr_v4 x 1)"
proof -
  let ?a = "addr_v4 x 0" and ?b = "addr_v4 x 1" and ?c = "addr_v4 x 2"
  have "hardBlockedDestination (Addr4 x) \<longleftrightarrow>
      x = 0 \<or> ?a = 127 \<or> ?a = 169 \<and> ?b = 254 \<or> ?a = 224 \<and> ?b = 0 \<and> ?c = 0 \<or> 224 \<le> ?a \<and> ?a < 240 \<or> specialOctets ?a ?b ?c"
    unfolding hardBlockedDestination_def if_bool_eq_disj addrIsValid_def addrIsUnspecified_def addrIsLoopback.simps
      addrIsLinkLocalUnicast.simps addrIsLinkLocalMulticast.simps addrIsMulticast.simps blocked4 masked_octets [OF octet_bound]
    by (simp only: netAddr.inject netAddr.distinct simp_thms) blast
  moreover have "specialOctets ?a ?b ?c" if "x = 0 \<or> 240 \<le> ?a"
    using that v4_extremes(1) by (elim disjE) (simp_all add: specialOctets_def)
  moreover have "\<not> privateOctets ?a ?b" if "specialOctets ?a ?b ?c \<or> ?a = 127 \<or> ?a = 169 \<or> 224 \<le> ?a"
    using that unfolding specialOctets_def by (elim disjE conjE) (simp_all add: privateOctets_def)
  ultimately show ?thesis
    unfolding publicOctets_def by (cases "?a < 224"; cases "specialOctets ?a ?b ?c"; cases "?a < 240") auto
qed

lemma public4:
  "isPublicDestination (Addr4 x) \<longleftrightarrow> publicOctets (addr_v4 x 0) (addr_v4 x 1) (addr_v4 x 2)"
proof -
  let ?a = "addr_v4 x 0" and ?b = "addr_v4 x 1" and ?c = "addr_v4 x 2"
  have "addrIsGlobalUnicast (Addr4 x)" if "publicOctets ?a ?b ?c"
  proof -
    have "?a \<noteq> 0" "?a < 224" using that by (simp_all add: publicOctets_def specialOctets_def)
    then have "x \<noteq> 0" "x \<noteq> 0xFFFFFFFF" using v4_extremes by force+
    moreover have "\<not> (224 \<le> ?a \<and> ?a < 240)" "?a \<noteq> 127" "\<not> (?a = 169 \<and> ?b = 254)" using that by (auto simp: publicOctets_def)
    ultimately show ?thesis
      unfolding addrIsGlobalUnicast_def addrIsLoopback.simps addrIsMulticast.simps addrIsLinkLocalUnicast.simps
        masked_octets [OF octet_bound] by simp
  qed
  moreover have "\<not> privateOctets ?a ?b" if "publicOctets ?a ?b ?c" using that by (simp add: publicOctets_def)
  ultimately show ?thesis
    unfolding isPublicDestination_def hardBlocked4 private4 addrIs6_def by auto
qed

text \<open>
  C33. The policy on IPv4, by octets.  An IPv4 address is allowed exactly if it is public, that is
  outside every special-purpose, private, loopback, link-local, multicast and reserved block, or if
  it is private, private destinations are enabled and a canonical private prefix of the policy
  contains it.  An IPv4-mapped IPv6 address is judged as the IPv4 address it contains, with or
  without a zone.
\<close>

theorem ipv4_policy_exact:
  "policyAllowed policy (Addr4 x) \<longleftrightarrow>
     publicOctets (addr_v4 x 0) (addr_v4 x 1) (addr_v4 x 2) \<or>
     privateOctets (addr_v4 x 0) (addr_v4 x 1) \<and> dp_AllowPrivate policy \<and>
     (\<exists>prefix. prefix \<in> set (dp_AllowedCIDRs policy) \<and> validPrivateDestinationPrefix prefix \<and>
        prefixContains prefix (Addr4 x))"
proof -
  have "\<not> publicOctets (addr_v4 x 0) (addr_v4 x 1) (addr_v4 x 2)" if "privateOctets (addr_v4 x 0) (addr_v4 x 1)"
    using that by (simp add: publicOctets_def)
  then show ?thesis
    unfolding policyAllowed_def addrUnmap.simps Let_def hardBlocked4 public4 private4 by (auto simp: list_ex_iff)
qed

section \<open>The policy on IPv6 addresses\<close>

definition firstByte :: "128 word \<Rightarrow> nat" where
  "firstByte a = unat a div 2 ^ 120"

lemma unat_128: "unat (a :: 128 word) < 2 ^ 128"
  using unsigned_less [of a] by simp

lemma firstByte_bound: "firstByte a < 256"
  using unat_128 [of a] by (simp add: firstByte_def less_mult_imp_div_less)

lemma group0: "addr_v6u16 a 0 div 256 = firstByte a" "addr_v6u16 a 0 < 65536"
proof -
  have "unat a div 2 ^ 112 < 65536" using unat_128 [of a] by (simp add: less_mult_imp_div_less)
  then show "addr_v6u16 a 0 div 256 = firstByte a"
    by (simp add: addr_v6u16_def firstByte_def div_mult2_eq [symmetric])
qed (simp add: addr_v6u16_def)

lemma firstByte_contains:
  assumes "prefixContains (Prefix6 p bits) (Addr6 a zone)" "8 \<le> bits" "bits \<le> 128"
  shows "firstByte a = firstByte p \<and> zone = []"
proof -
  have "unat a div 2 ^ (128 - bits) = unat p div 2 ^ (128 - bits)" "zone = []"
    using assms(1) unfolding contains6 by auto
  moreover have "(n :: nat) div 2 ^ (128 - bits) div 2 ^ (bits - 8) = n div 2 ^ 120" for n
  proof -
    have "128 - bits + (bits - 8) = 120" using assms(2,3) by simp
    then show ?thesis by (simp only: div_mult2_eq [symmetric] power_add [symmetric])
  qed
  ultimately show ?thesis by (metis firstByte_def)
qed

lemma and_high_byte: "(x AND y) div 256 = (x div 256) AND (y div 256 :: nat)"
proof -
  have "drop_bit 8 (x AND y) = drop_bit 8 x AND drop_bit 8 y" by simp
  then show ?thesis by (simp add: drop_bit_eq_div)
qed

lemma and_FF: "b < 256 \<Longrightarrow> (b :: nat) AND 0xFF = b"
  using take_bit_eq_mask [of 8 b] by (simp add: mask_eq_exp_minus_1 take_bit_nat_eq_self)

lemma and_FE: "b < 256 \<Longrightarrow> (b :: nat) AND 0xFE = 0xFC \<longleftrightarrow> b = 0xFC \<or> b = 0xFD"
proof -
  assume b: "b < 256"
  have "(0xFE :: nat) = push_bit 1 (mask 7)" by (simp add: push_bit_eq_mult mask_eq_exp_minus_1)
  then have "b AND 0xFE = b div 2 * 2"
    using b nat_and_high [of b 1 7] by (simp add: push_bit_eq_mult take_bit_eq_mod drop_bit_eq_div)
  then show ?thesis by (auto simp: div_eq_range)
qed

lemma linkLocal6:
  "addrIsLinkLocalUnicast (Addr6 a zone) \<Longrightarrow> firstByte a = 0xFE"
  "addrIsLinkLocalMulticast (Addr6 a zone) \<Longrightarrow> firstByte a = 0xFF"
  using and_high_byte [of "addr_v6u16 a 0" "0xFFC0"] and_high_byte [of "addr_v6u16 a 0" "0xFF0F"] firstByte_bound [of a]
  by (simp_all add: group0 and_FF)

lemma classes6:
  "addrIsPrivate (Addr6 a zone) \<longleftrightarrow> firstByte a = 0xFC \<or> firstByte a = 0xFD"
  "addrIsMulticast (Addr6 a zone) \<longleftrightarrow> firstByte a = 0xFF"
  "addrIsLoopback (Addr6 a zone) \<Longrightarrow> firstByte a = 0" "addrIsUnspecified (Addr6 a zone) \<Longrightarrow> firstByte a = 0"
  using and_FE [OF firstByte_bound] by (auto simp: firstByte_def addrIsUnspecified_def)

definition allocated6 :: "128 word \<Rightarrow> bool" where
  "allocated6 a \<longleftrightarrow> (\<exists>prefix. prefix \<in> set allocatedGlobalIPv6Prefixes \<and> prefixContains prefix (Addr6 a []))"

definition special6 :: "128 word \<Rightarrow> bool" where
  "special6 a \<longleftrightarrow> (\<exists>prefix. prefix \<in> set additionalBlockedPrefixes \<and> prefixContains prefix (Addr6 a []))"

lemma contains6_zone: "prefixContains prefix (Addr6 a zone) \<longleftrightarrow> zone = [] \<and> prefixContains prefix (Addr6 a [])"
  by (cases prefix) auto

lemma replicate_groups:
  "replicate 5 x = [x, x, x, x, x]" "replicate 6 x = [x, x, x, x, x, x]" "replicate 7 x = [x, x, x, x, x, x, x]"
  by (simp_all add: eval_nat_numeral)

lemma allocated_firstByte:
  assumes "allocated6 a"
  shows "0x20 \<le> firstByte a \<and> firstByte a \<le> 0x2C"
proof -
  have t: "list_all (\<lambda>prefix. case prefix of
      Prefix6 p bits \<Rightarrow> 8 \<le> bits \<and> bits \<le> 128 \<and> 0x20 \<le> firstByte p \<and> firstByte p \<le> 0x2C | _ \<Rightarrow> False)
      allocatedGlobalIPv6Prefixes"
    by (simp add: allocatedGlobalIPv6Prefixes_def firstByte_def ip6_def replicate_groups)
  obtain prefix where p: "prefix \<in> set allocatedGlobalIPv6Prefixes" "prefixContains prefix (Addr6 a [])"
    using assms by (auto simp: allocated6_def)
  obtain q bits where q: "prefix = Prefix6 q bits" "8 \<le> bits" "bits \<le> 128" "0x20 \<le> firstByte q" "firstByte q \<le> 0x2C"
    using bspec [OF t [unfolded list_all_iff] p(1)] by (cases prefix rule: netPrefix.exhaust) auto
  then show ?thesis using firstByte_contains [of q bits a "[]"] p(2) by simp
qed

text \<open>
  C34. The policy on IPv6.  An IPv4-mapped address is judged as the IPv4 address it contains, with or
  without a zone.  Any other IPv6 address is allowed exactly if it has no zone, lies in no
  special-purpose block, and either lies in an allocated global block or is a unique-local address
  inside a canonical private prefix of a policy that enables private destinations; loopback,
  link-local, multicast and unallocated addresses are allowed under no policy.
\<close>

theorem ipv6_policy_exact:
  "policyAllowed policy (Addr6 a zone) \<longleftrightarrow>
     (if addr_is4in6 a then policyAllowed policy (Addr4 (ucast a))
      else zone = [] \<and> \<not> special6 a \<and>
        (allocated6 a \<or>
         (firstByte a = 0xFC \<or> firstByte a = 0xFD) \<and> dp_AllowPrivate policy \<and>
         (\<exists>prefix. prefix \<in> set (dp_AllowedCIDRs policy) \<and> validPrivateDestinationPrefix prefix \<and>
            prefixContains prefix (Addr6 a []))))"
proof (cases "addr_is4in6 a")
  case True
  then show ?thesis by (simp add: policyAllowed_def)
next
  case False
  let ?d = "Addr6 a zone"
  define C where "C \<longleftrightarrow> addrIsUnspecified ?d \<or> addrIsLoopback ?d \<or> addrIsLinkLocalUnicast ?d \<or>
      addrIsLinkLocalMulticast ?d \<or> addrIsMulticast ?d \<or> a = 0"
  have hb: "hardBlockedDestination ?d \<longleftrightarrow>
      addrIsUnspecified ?d \<or> addrIsLoopback ?d \<or> addrIsLinkLocalUnicast ?d \<or>
      addrIsLinkLocalMulticast ?d \<or> addrIsMulticast ?d \<or> zone = [] \<and> special6 a"
    by (auto simp: hardBlockedDestination_def addrIsValid_def special6_def list_ex_iff contains6_zone [of _ a zone])
  have alloc: "list_ex (\<lambda>prefix. prefixContains prefix ?d) allocatedGlobalIPv6Prefixes \<longleftrightarrow> zone = [] \<and> allocated6 a"
    by (auto simp: allocated6_def list_ex_iff contains6_zone [of _ a zone])
  have cidr: "list_ex (\<lambda>prefix. validPrivateDestinationPrefix prefix \<and> prefixContains prefix ?d) (dp_AllowedCIDRs policy) \<longleftrightarrow>
      zone = [] \<and> (\<exists>prefix. prefix \<in> set (dp_AllowedCIDRs policy) \<and> validPrivateDestinationPrefix prefix \<and>
            prefixContains prefix (Addr6 a []))"
    by (auto simp: list_ex_iff contains6_zone [of _ a zone])
  have clear: "\<not> C" if "0x20 \<le> firstByte a \<and> firstByte a \<le> 0xFD"
    using that linkLocal6 classes6(2-4) unfolding C_def by (fastforce simp: firstByte_def)
  have glob: "\<not> C \<Longrightarrow> addrIsGlobalUnicast ?d" unfolding C_def addrIsGlobalUnicast_def by simp
  have hbC: "\<not> C \<Longrightarrow> hardBlockedDestination ?d \<longleftrightarrow> zone = [] \<and> special6 a"
    "hardBlockedDestination ?d \<Longrightarrow> C \<or> special6 a"
    unfolding hb C_def by blast+
  have pol: "policyAllowed policy ?d \<longleftrightarrow> \<not> hardBlockedDestination ?d \<and>
      (isPublicDestination ?d \<or> dp_AllowPrivate policy \<and> addrIsPrivate ?d \<and>
        list_ex (\<lambda>prefix. validPrivateDestinationPrefix prefix \<and> prefixContains prefix ?d) (dp_AllowedCIDRs policy))"
    using False by (simp add: policyAllowed_def Let_def del: addrIsPrivate.simps prefixContains.simps) blast
  have pub: "isPublicDestination ?d \<longleftrightarrow> \<not> hardBlockedDestination ?d \<and> \<not> addrIsPrivate ?d \<and> zone = [] \<and> allocated6 a \<and>
      addrIsGlobalUnicast ?d"
    by (simp add: isPublicDestination_def alloc addrIs6_def del: addrIsPrivate.simps) blast
  consider (alloc) "allocated6 a" "\<not> (firstByte a = 0xFC \<or> firstByte a = 0xFD)" "\<not> C"
    | (priv) "\<not> allocated6 a" "firstByte a = 0xFC \<or> firstByte a = 0xFD" "\<not> C"
    | (other) "\<not> allocated6 a" "\<not> (firstByte a = 0xFC \<or> firstByte a = 0xFD)"
    using allocated_firstByte [of a] clear by fastforce
  then show ?thesis
  proof cases
    case alloc
    then show ?thesis using False glob hbC(1) by (simp add: pol pub classes6(1) del: addrIsPrivate.simps) blast
  next
    case priv
    then show ?thesis using False hbC(1) by (simp add: pol pub cidr classes6(1) del: addrIsPrivate.simps) blast
  next
    case other
    then show ?thesis using False by (simp add: pol pub classes6(1) del: addrIsPrivate.simps)
  qed
qed

section \<open>Canonical, disjoint exceptions\<close>

lemma contains_trans:
  assumes "prefixContains p x" "prefixContains q x" "prefixBits p \<le> prefixBits q"
  shows "prefixContains p (prefixAddr q)"
proof -
  have e: "(n :: nat) div 2 ^ (w - k) = n div 2 ^ (w - l) div 2 ^ (w - k - (w - l))" if "k \<le> l" for n w k l :: nat
  proof -
    have "w - l + (w - k - (w - l)) = w - k" using that by simp
    then show ?thesis by (simp only: div_mult2_eq [symmetric] power_add [symmetric])
  qed
  show ?thesis
  proof (cases p)
    case (Prefix4 b k)
    then obtain x' c l where "x = Addr4 x'" "q = Prefix4 c l"
      using assms(1,2) by (cases x; cases q) auto
    then show ?thesis using assms Prefix4 e [of k l _ 32] by (simp add: contains4 del: prefixContains.simps)
  next
    case (Prefix6 b k)
    then obtain x' zone c l where "x = Addr6 x' zone" "q = Prefix6 c l"
      using assms(1,2) by (cases x; cases q) auto
    then show ?thesis using assms Prefix6 e [of k l _ 128] by (simp add: contains6 del: prefixContains.simps)
  qed (use assms(1) in simp)
qed

lemma disjoint_prefixes:
  assumes "\<not> prefixesOverlap p q"
  shows "\<not> (prefixContains p x \<and> prefixContains q x)"
proof
  assume h: "prefixContains p x \<and> prefixContains q x"
  then have "p \<noteq> NoPrefix" "q \<noteq> NoPrefix" by auto
  moreover have "prefixContains p (prefixAddr q) \<or> prefixContains q (prefixAddr p)"
    using contains_trans h by (cases "prefixBits p \<le> prefixBits q") auto
  ultimately show False using assms by (simp add: prefixesOverlap_def)
qed

lemma firstOverlap_None: "firstOverlap prefix k ps = None \<longleftrightarrow> (\<forall>p\<in>set ps. \<not> prefixesOverlap prefix p)"
  by (induction ps arbitrary: k) auto

lemma checkPrivatePrefixes_Inr:
  assumes "checkPrivatePrefixes earlier ps = Inr ()"
  shows "(\<forall>p\<in>set ps. validPrivateDestinationPrefix p) \<and>
    (\<forall>i j. i < j \<and> j < length (earlier @ ps) \<and> length earlier \<le> j \<longrightarrow>
       \<not> prefixesOverlap ((earlier @ ps) ! j) ((earlier @ ps) ! i))"
  using assms
proof (induction ps arbitrary: earlier)
  case (Cons p ps)
  have v: "validPrivateDestinationPrefix p" and f: "firstOverlap p 0 earlier = None"
    and r: "checkPrivatePrefixes (earlier @ [p]) ps = Inr ()"
    using Cons.prems by (auto split: if_splits option.splits)
  have "\<not> prefixesOverlap ((earlier @ p # ps) ! j) ((earlier @ p # ps) ! i)"
    if "i < j" "j < length (earlier @ p # ps)" "length earlier \<le> j" for i j
  proof (cases "j = length earlier")
    case True
    then show ?thesis using that f by (auto simp: firstOverlap_None nth_append)
  next
    case False
    then show ?thesis using that Cons.IH [OF r] by auto
  qed
  then show ?case using v Cons.IH [OF r] by simp
qed auto

text \<open>
  C35. An accepted policy is unambiguous: if private destinations are disabled it has no exceptions;
  otherwise it has between one and 32 exceptions, each of them a canonical prefix inside the private
  ranges, and no address is covered by two of them.
\<close>

theorem policy_exceptions_disjoint:
  assumes "ValidateDestinationPolicy policy = Inr ()"
  shows "(if dp_AllowPrivate policy then dp_AllowedCIDRs policy \<noteq> [] \<and> length (dp_AllowedCIDRs policy) \<le> 32
      else dp_AllowedCIDRs policy = []) \<and>
    list_all validPrivateDestinationPrefix (dp_AllowedCIDRs policy) \<and>
    (\<forall>x. length (filter (\<lambda>prefix. prefixContains prefix x) (dp_AllowedCIDRs policy)) \<le> 1)"
proof (cases "dp_AllowPrivate policy")
  case True
  let ?ps = "dp_AllowedCIDRs policy"
  have n: "?ps \<noteq> []" "length ?ps \<le> 32" and c: "checkPrivatePrefixes [] ?ps = Inr ()"
    using assms True by (auto simp: ValidateDestinationPolicy_def split: if_splits)
  note ch = checkPrivatePrefixes_Inr [OF c, simplified]
  have "length (filter (\<lambda>prefix. prefixContains prefix x) ?ps) \<le> 1" for x
  proof -
    have "\<not> (prefixContains (?ps ! j) x \<and> prefixContains (?ps ! i) x)" if "i < j" "j < length ?ps" for i j
      using that ch disjoint_prefixes by blast
    then have "card {i. i < length ?ps \<and> prefixContains (?ps ! i) x} \<le> Suc 0"
      by (intro card_le_Suc0_iff_eq [THEN iffD2]) (auto, metis linorder_neqE_nat)
    then show ?thesis by (simp add: length_filter_conv_card)
  qed
  then show ?thesis using True n ch by (simp add: list_all_iff)
next
  case False
  then show ?thesis using assms by (auto simp: ValidateDestinationPolicy_def split: if_splits)
qed

definition samplePolicy :: destinationPolicy where
  "samplePolicy = \<lparr>dp_AllowPrivate = True, dp_AllowedCIDRs = [Prefix4 0x0A010000 16, Prefix4 0xC0A80000 16]\<rparr>"

theorem policy_exceptions_disjoint_witness:
  "ValidateDestinationPolicy samplePolicy = Inr () \<and>
   length (filter (\<lambda>prefix. prefixContains prefix (Addr4 0x0A010203)) (dp_AllowedCIDRs samplePolicy)) \<le> 1"
proof -
  have v: "ValidateDestinationPolicy samplePolicy = Inr ()"
    by (simp add: ValidateDestinationPolicy_def samplePolicy_def validPrivateDestinationPrefix_def
        privateDestinationPrefixes_def prefixesOverlap_def ip4_def mask_eq_exp_minus_1 push_bit_eq_mult)
  then show ?thesis using policy_exceptions_disjoint [OF v] by blast
qed

section \<open>The dialer\<close>

lemma approveAll_Inr:
  "approveAll policy resolved = Inr addresses \<Longrightarrow>
     addresses = map addrUnmap resolved \<and> (\<forall>a\<in>set resolved. addrIsValid (addrUnmap a) \<and> policyAllowed policy (addrUnmap a))"
proof (induction resolved arbitrary: addresses)
  case (Cons r resolved)
  then obtain rest where "approveAll policy resolved = Inr rest" "addresses = addrUnmap r # rest"
    "addrIsValid (addrUnmap r)" "policyAllowed policy (addrUnmap r)"
    by (auto simp: Let_def andThen_def split: if_splits sum.splits)
  then show ?case using Cons.IH by simp
qed simp

lemma dialAll_tried: "dialAll dial addresses = (tried, result) \<Longrightarrow> \<exists>rest. addresses = tried @ rest"
  by (induction addresses arbitrary: tried result) (auto split: option.splits prod.splits)

text \<open>
  C32. No connection attempt leaves the policy.  Whatever the resolver answers and however often its
  answers change, every address that one call of the dialer tries is a valid address that the policy
  allows; the attempts are the answers of this call in their order; and if one answer is invalid or
  blocked, nothing is tried at all.
\<close>

theorem dial_within_policy:
  assumes "DialContext splitHostPort parseAddr lookup dial policy address = (tried, result)"
    and "splitHostPort address = Some host"
  shows "list_all (policyAllowed policy) tried \<and>
    (\<exists>rest. dialerResolve parseAddr lookup policy host = Inr (tried @ rest) \<or> tried = []) \<and>
    (parseAddr host = None \<longrightarrow> lookup host = Some answers \<longrightarrow>
       \<not> list_all (\<lambda>a. addrIsValid (addrUnmap a) \<and> policyAllowed policy (addrUnmap a)) answers \<longrightarrow> tried = [])"
proof -
  have ok: "list_all (policyAllowed policy) addresses" if "dialerResolve parseAddr lookup policy host = Inr addresses" for addresses
    using that approveAll_Inr [of policy _ addresses]
    by (fastforce simp: dialerResolve_def Let_def list_all_iff split: option.splits if_splits)
  have bad: "\<not> is_ok (dialerResolve parseAddr lookup policy host)"
    if "parseAddr host = None" "lookup host = Some answers"
      "\<not> list_all (\<lambda>a. addrIsValid (addrUnmap a) \<and> policyAllowed policy (addrUnmap a)) answers"
    using that approveAll_Inr [of policy answers]
    by (auto simp: dialerResolve_def is_ok_def list_all_iff split: sum.splits)
  show ?thesis
  proof (cases "dialerResolve parseAddr lookup policy host")
    case (Inl e)
    then show ?thesis using assms by (simp add: DialContext_def)
  next
    case (Inr addresses)
    obtain tried' r where d: "dialAll dial addresses = (tried', r)" by fastforce
    then have "tried = tried'" using assms Inr by (auto simp: DialContext_def split: option.splits)
    then obtain rest where "addresses = tried @ rest" using dialAll_tried [OF d] by blast
    then show ?thesis using Inr ok [OF Inr] bad by (auto simp: is_ok_def)
  qed
qed

lemma sample_allowed: "policyAllowed samplePolicy (Addr4 0x5DB8D822)" "\<not> policyAllowed samplePolicy (Addr4 0xA9FEA9FE)"
  by (simp_all add: policyAllowed_def hardBlocked4 public4 addr_v4_def publicOctets_def specialOctets_def privateOctets_def)

theorem dial_within_policy_witness:
  "DialContext (\<lambda>_. Some ''provider'') (\<lambda>_. None) (\<lambda>_. Some [Addr4 0x5DB8D822]) (\<lambda>_. None :: unit option) samplePolicy
      ''provider:443'' = ([Addr4 0x5DB8D822], Inl ConnectFailed) \<and>
   policyAllowed samplePolicy (Addr4 0x5DB8D822) \<and>
   fst (DialContext (\<lambda>_. Some ''provider'') (\<lambda>_. None) (\<lambda>_. Some [Addr4 0x5DB8D822, Addr4 0xA9FEA9FE])
      (\<lambda>_. None :: unit option) samplePolicy ''provider:443'') = []"
proof -
  have d: "DialContext (\<lambda>_. Some ''provider'') (\<lambda>_. None) (\<lambda>_. Some [Addr4 0x5DB8D822]) (\<lambda>_. None :: unit option) samplePolicy
      ''provider:443'' = ([Addr4 0x5DB8D822], Inl ConnectFailed)"
    by (simp add: DialContext_def dialerResolve_def sample_allowed addrIsValid_def andThen_def)
  obtain t r where e: "DialContext (\<lambda>_. Some ''provider'') (\<lambda>_. None) (\<lambda>_. Some [Addr4 0x5DB8D822, Addr4 0xA9FEA9FE])
      (\<lambda>_. None :: unit option) samplePolicy ''provider:443'' = (t, r)" by fastforce
  have "t = []"
    using dial_within_policy [OF e, of "''provider''" "[Addr4 0x5DB8D822, Addr4 0xA9FEA9FE]"] by (simp add: sample_allowed)
  then show ?thesis
    using d e dial_within_policy [OF d, of "''provider''"] by simp
qed

end
