(* ===== verification/Upstream_Request.thy ===== *)
theory Upstream_Request
  imports Credential_Scope Upstream_Path Destination_Policy Go_Strconv
begin

text \<open>
  Upstream targets and prepared requests (\<open>src/internal/upstream/target.go\<close> and \<open>request.go\<close>): the
  validation of a configured base URL, the resolution of a request path below it, the reconstruction
  of a client request for that target, and the single use of the prepared request.

  A URL is the parsed structure of \<open>net/url\<close>; the parser is an argument where the source calls it.
  A target is identified by the address of its object.  Contexts and bodies of requests are carried
  along unchanged by the code and are not part of the model.
\<close>

record url =
  u_Scheme :: string
  u_Opaque :: string
  u_User :: "string option"
  u_Host :: string
  u_Path :: string
  u_RawPath :: string
  u_ForceQuery :: bool
  u_RawQuery :: string
  u_Fragment :: string

record httpRequest =
  rq_Method :: string
  rq_URL :: url
  rq_Header :: header
  rq_RequestURI :: string
  rq_Host :: string
  rq_TransferEncoding :: "string list"
  rq_Trailer :: header
  rq_Close :: bool

record target =
  tg_object :: nat
  tg_baseURL :: url

datatype traceContextPropagation = TraceContextPropagationNone | TraceContextPropagationW3C | TraceContextPropagationOther nat

record preparedUpstreamRequest =
  pr_target :: target
  pr_request :: httpRequest
  pr_traceContextPropagation :: traceContextPropagation

datatype request_error =
    SchemeNotHTTP
  | HostOrUserinfo
  | QueryOrFragment
  | InvalidPort
  | URLParseError
  | RequestPathNotCanonical
  | ResolvedPathNotCanonical
  | InvalidUpstreamRequest
  | EncodedBody
  | InvalidTracePolicy
  | InvalidPreparedRequest
  | EscapedTarget
  | EscapedTargetPath
  | RetainedState
  | AmbiguousEncoding
  | ForbiddenPreparedHeader
  | InvalidPreparedHeaders
  | AlreadyDispatched
  | HeaderError upstream_error
  | DestinationError destination_error

abbreviation maximumPreparedHeaderBytes :: int where
  "maximumPreparedHeaderBytes \<equiv> 65536"

section \<open>Host and port of a URL\<close>

definition validOptionalPort :: "string \<Rightarrow> bool" where
  "validOptionalPort port = (case port of [] \<Rightarrow> True | c # cs \<Rightarrow> c = CHR '':'' \<and> list_all is_digit cs)"

text \<open>The part before the last colon and the part from it on.\<close>

definition lastColon :: "string \<Rightarrow> (string \<times> string) option" where
  "lastColon s =
     (if CHR '':'' \<in> set s
      then let tail = rev (takeWhile (\<lambda>c. c \<noteq> CHR '':'') (rev s)) in
        Some (take (length s - length tail - 1) s, CHR '':'' # tail)
      else None)"

definition stripBrackets :: "string \<Rightarrow> string" where
  "stripBrackets host =
     (if hasPrefix host ''['' \<and> hasSuffix host (CHR '']'') then drop 1 (butlast host) else host)"

definition splitHostPort :: "string \<Rightarrow> string \<times> string" where
  "splitHostPort hostPort =
     (case lastColon hostPort of
        Some (host, port) \<Rightarrow>
          if validOptionalPort port then (stripBrackets host, drop 1 port) else (stripBrackets hostPort, [])
      | None \<Rightarrow> (stripBrackets hostPort, []))"

definition u_Hostname :: "url \<Rightarrow> string" where
  "u_Hostname u = fst (splitHostPort (u_Host u))"

definition u_Port :: "url \<Rightarrow> string" where
  "u_Port u = snd (splitHostPort (u_Host u))"

section \<open>Targets\<close>

text \<open>\<open>strconv.Atoi\<close> of the digits of a port; a value beyond the range of \<open>int\<close> is an error.\<close>

definition portInRange :: "string \<Rightarrow> bool" where
  "portInRange port \<longleftrightarrow> (let parsed = digitsValue port 0 in parsed \<le> max_int64 \<and> 1 \<le> parsed \<and> parsed \<le> 65535)"

definition validateBaseURL :: "url \<Rightarrow> request_error + unit" where
  "validateBaseURL baseURL =
     (if u_Opaque baseURL \<noteq> [] \<or> u_Scheme baseURL \<noteq> ''http'' \<and> u_Scheme baseURL \<noteq> ''https'' then Inl SchemeNotHTTP
      else if u_Hostname baseURL = [] \<or> u_User baseURL \<noteq> None then Inl HostOrUserinfo
      else if u_RawPath baseURL \<noteq> [] \<or> u_RawQuery baseURL \<noteq> [] \<or> u_ForceQuery baseURL \<or> u_Fragment baseURL \<noteq> [] \<or>
              \<not> canonicalUpstreamPath (u_Path baseURL) True
      then Inl QueryOrFragment
      else if u_Port baseURL \<noteq> [] \<and> \<not> portInRange (u_Port baseURL) then Inl InvalidPort
      else Inr ())"

definition parseBaseURL :: "(string \<Rightarrow> url option) \<Rightarrow> string \<Rightarrow> request_error + url" where
  "parseBaseURL parseURL rawBaseURL =
     (case parseURL rawBaseURL of
        None \<Rightarrow> Inl URLParseError
      | Some baseURL \<Rightarrow> andThen (validateBaseURL baseURL) (\<lambda>_. Inr baseURL))"

definition lift_destination :: "destination_error + 'a \<Rightarrow> request_error + 'a" where
  "lift_destination r = (case r of Inl e \<Rightarrow> Inl (DestinationError e) | Inr x \<Rightarrow> Inr x)"

definition lift_header :: "upstream_error + 'a \<Rightarrow> request_error + 'a" where
  "lift_header r = (case r of Inl e \<Rightarrow> Inl (HeaderError e) | Inr x \<Rightarrow> Inr x)"

definition ValidateDestination ::
    "(string \<Rightarrow> url option) \<Rightarrow> (string \<Rightarrow> netAddr option) \<Rightarrow> string \<Rightarrow> destinationPolicy \<Rightarrow> request_error + unit" where
  "ValidateDestination parseURL parseAddr rawBaseURL policy =
     andThen (parseBaseURL parseURL rawBaseURL) (\<lambda>baseURL.
     lift_destination (validateDestination parseAddr (u_Hostname baseURL) policy))"

text \<open>The trimmed base path of a target.\<close>

definition trimSlash :: "string \<Rightarrow> string" where
  "trimSlash p = (if hasSuffix p (CHR ''/'') then butlast p else p)"

definition ResolveURL :: "target \<Rightarrow> string \<Rightarrow> request_error + url" where
  "ResolveURL t requestPath =
     (if \<not> canonicalUpstreamPath requestPath False then Inl RequestPathNotCanonical
      else let basePath = trimSlash (u_Path (tg_baseURL t));
               path = (if basePath = [] then requestPath else basePath @ requestPath) in
        if \<not> canonicalUpstreamPath path False then Inl ResolvedPathNotCanonical
        else Inr ((tg_baseURL t)\<lparr>u_Path := path, u_RawPath := [], u_RawQuery := [], u_ForceQuery := False,
                    u_Fragment := []\<rparr>))"

section \<open>Prepared requests\<close>

fun preparedHeaderBytes :: "int \<Rightarrow> header \<Rightarrow> request_error + int" where
  "preparedHeaderBytes used [] = Inr used"
| "preparedHeaderBytes used ((name, values) # rest) =
     (let canonical = CanonicalHeaderKey name in
      if \<not> validHeaderName name \<or> canonical \<noteq> ''Accept-Encoding'' \<and> isForbiddenHeader canonical
      then Inl ForbiddenPreparedHeader
      else andThen (foldl (\<lambda>acc value. andThen acc (\<lambda>used.
             let used = used + (int (length canonical) + int (length value)) in
             if \<not> validHeaderValue value \<or> maximumPreparedHeaderBytes < used then Inl InvalidPreparedHeaders
             else Inr used)) (Inr used) values) (\<lambda>used.
           preparedHeaderBytes used rest))"

definition validatePreparedRequest :: "target \<Rightarrow> preparedUpstreamRequest \<Rightarrow> request_error + unit" where
  "validatePreparedRequest t prepared =
     (let request = pr_request prepared; u = rq_URL request; basePath = trimSlash (u_Path (tg_baseURL t));
          encodings = headerValues (rq_Header request) ''Accept-Encoding'' in
      if tg_object (pr_target prepared) \<noteq> tg_object t \<or> \<not> validHeaderName (rq_Method request)
      then Inl InvalidPreparedRequest
      else if pr_traceContextPropagation prepared \<noteq> TraceContextPropagationNone \<and>
              pr_traceContextPropagation prepared \<noteq> TraceContextPropagationW3C
      then Inl InvalidTracePolicy
      else if u_Scheme u \<noteq> u_Scheme (tg_baseURL t) \<or> u_Host u \<noteq> u_Host (tg_baseURL t) \<or> u_User u \<noteq> None \<or>
              u_Opaque u \<noteq> [] \<or> u_RawPath u \<noteq> [] \<or> u_RawQuery u \<noteq> [] \<or> u_ForceQuery u \<or> u_Fragment u \<noteq> [] \<or>
              \<not> canonicalUpstreamPath (u_Path u) False
      then Inl EscapedTarget
      else if basePath \<noteq> [] \<and> u_Path u \<noteq> basePath \<and> \<not> hasPrefix (u_Path u) (basePath @ ''/'')
      then Inl EscapedTargetPath
      else if rq_RequestURI request \<noteq> [] \<or> rq_Host request \<noteq> [] \<or> length (rq_TransferEncoding request) \<noteq> 0 \<or>
              length (rq_Trailer request) \<noteq> 0 \<or> rq_Close request \<or> requestContainsCredential (rq_Header request) \<or>
              \<not> is_ok (validateSingletonRequestHeaders (rq_Header request))
      then Inl RetainedState
      else if length encodings \<noteq> 1 \<or> encodings ! 0 \<noteq> ''identity'' \<or>
              length (headerValues (rq_Header request) ''Content-Encoding'') \<noteq> 0
      then Inl AmbiguousEncoding
      else andThen (preparedHeaderBytes 0 (rq_Header request)) (\<lambda>_. Inr ()))"

definition requestedTraceContextPropagation ::
    "traceContextPropagation list \<Rightarrow> request_error + traceContextPropagation" where
  "requestedTraceContextPropagation values =
     (if length values = 0 then Inr TraceContextPropagationNone
      else if length values \<noteq> 1 \<or>
              values ! 0 \<noteq> TraceContextPropagationNone \<and> values ! 0 \<noteq> TraceContextPropagationW3C
      then Inl InvalidTracePolicy
      else Inr (values ! 0))"

definition prepareRequestAtURL ::
    "httpRequest \<Rightarrow> target \<Rightarrow> url \<Rightarrow> string list \<Rightarrow> (string \<times> string) list \<Rightarrow> traceContextPropagation \<Rightarrow>
     request_error + preparedUpstreamRequest" where
  "prepareRequestAtURL incoming t resolved forwardedHeaders staticHeaders mode =
     (if rq_Method incoming = [] then Inl InvalidUpstreamRequest
      else andThen (lift_header (validateSingletonRequestHeaders (rq_Header incoming))) (\<lambda>_.
        if length (headerValues (rq_Header incoming) ''Content-Encoding'') \<noteq> 0 then Inl EncodedBody
        else andThen (lift_header (ForwardHeaders (rq_Header incoming) forwardedHeaders)) (\<lambda>headers.
        andThen (lift_header (ApplyStaticHeaders (Some headers) staticHeaders)) (\<lambda>headers.
        let headers = headerSet headers ''Accept-Encoding'' ''identity'';
            outbound = incoming\<lparr>rq_URL := resolved, rq_RequestURI := [], rq_Host := [], rq_Header := headers,
                         rq_TransferEncoding := [], rq_Trailer := [], rq_Close := False\<rparr>;
            prepared = \<lparr>pr_target = t, pr_request = outbound, pr_traceContextPropagation = mode\<rparr> in
        andThen (validatePreparedRequest t prepared) (\<lambda>_. Inr prepared)))))"

definition PrepareRequest ::
    "httpRequest \<Rightarrow> target \<Rightarrow> string \<Rightarrow> string list \<Rightarrow> (string \<times> string) list \<Rightarrow> traceContextPropagation list \<Rightarrow>
     request_error + preparedUpstreamRequest" where
  "PrepareRequest incoming t requestPath forwardedHeaders staticHeaders modes =
     andThen (ResolveURL t requestPath) (\<lambda>resolved.
     andThen (requestedTraceContextPropagation modes) (\<lambda>mode.
     prepareRequestAtURL incoming t resolved forwardedHeaders staticHeaders mode))"

definition PrepareBaseRequest ::
    "httpRequest \<Rightarrow> target \<Rightarrow> string list \<Rightarrow> (string \<times> string) list \<Rightarrow> request_error + preparedUpstreamRequest" where
  "PrepareBaseRequest incoming t forwardedHeaders staticHeaders =
     (let resolved = tg_baseURL t;
          resolved = (if u_Path resolved = [] then resolved\<lparr>u_Path := ''/''\<rparr> else resolved) in
      prepareRequestAtURL incoming t resolved forwardedHeaders staticHeaders TraceContextPropagationNone)"

text \<open>The shared flag of a prepared request, under its mutex: the result and the new flag.\<close>

definition claimPreparedRequest :: "target \<Rightarrow> preparedUpstreamRequest \<Rightarrow> bool \<Rightarrow> (request_error + unit) \<times> bool" where
  "claimPreparedRequest t prepared used =
     (case validatePreparedRequest t prepared of
        Inl e \<Rightarrow> (Inl e, used)
      | Inr _ \<Rightarrow> if used then (Inl AlreadyDispatched, used) else (Inr (), True))"

fun injectedHeaderBytes :: "int \<Rightarrow> header \<Rightarrow> bool" where
  "injectedHeaderBytes used [] = True"
| "injectedHeaderBytes used ((name, values) # rest) =
     (if \<not> validHeaderName name \<or> length values = 0 then False
      else let canonical = CanonicalHeaderKey name in
        case foldl (\<lambda>acc value. case acc of
               None \<Rightarrow> None
             | Some used \<Rightarrow>
                 let used = used + (int (length canonical) + int (length value)) in
                 if \<not> validHeaderValue value \<or> maximumPreparedHeaderBytes < used then None else Some used)
               (Some used) values of
          None \<Rightarrow> False
        | Some used \<Rightarrow> injectedHeaderBytes used rest)"

definition validateInjectedTraceContext :: "header \<Rightarrow> bool" where
  "validateInjectedTraceContext headers =
     (if 1 < length (headerValues headers ''Traceparent'') \<or> 1 < length (headerValues headers ''Tracestate'') \<or>
         length (headerValues headers ''Baggage'') \<noteq> 0
      then False
      else injectedHeaderBytes 0 headers)"

section \<open>Lemmas\<close>

lemma canonical_accept_encoding [simp]: "CanonicalHeaderKey ''Accept-Encoding'' = ''Accept-Encoding''"
  by code_simp

lemma canonicalUpstreamPath_Nil [simp]: "canonicalUpstreamPath [] allowEmpty = allowEmpty"
  by (simp add: canonicalUpstreamPath_def)

lemma lift_header_Inr [simp]: "lift_header r = Inr x \<longleftrightarrow> r = Inr x"
  by (cases r) (simp_all add: lift_header_def)

lemma ResolveURL_Inr:
  assumes "ResolveURL t requestPath = Inr u"
  shows "u = (tg_baseURL t)\<lparr>u_Path := trimSlash (u_Path (tg_baseURL t)) @ requestPath, u_RawPath := [], u_RawQuery := [],
      u_ForceQuery := False, u_Fragment := []\<rparr>"
    "canonicalUpstreamPath requestPath False" "canonicalUpstreamPath (u_Path u) False"
  using assms by (auto simp: ResolveURL_def Let_def split: if_splits)

text \<open>
  C37. A prepared request stays inside its target and carries exactly what the configuration allows.
  Its URL has the scheme, host and user part of the target's base URL, no query and no fragment; its
  path is the base path followed by the requested path, below the base path segment by segment and
  without a segment that a server could resolve upwards.  Its header map holds the identity encoding,
  the administrator's value where one is set, and otherwise the allowlisted values of the client's
  request; the transport state of the client's request is gone.
\<close>

theorem prepared_request_exact:
  assumes "PrepareRequest incoming t requestPath forwarded static modes = Inr prepared"
  shows "rq_URL (pr_request prepared) =
      (tg_baseURL t)\<lparr>u_Path := trimSlash (u_Path (tg_baseURL t)) @ requestPath, u_RawPath := [], u_RawQuery := [],
        u_ForceQuery := False, u_Fragment := []\<rparr> \<and>
    (\<exists>rest. requestPath = CHR ''/'' # rest \<and> canonicalSegments (splitAt (CHR ''/'') rest)) \<and>
    (\<forall>n. headerEntry (rq_Header (pr_request prepared)) n =
       (if n = ''Accept-Encoding'' then [''identity'']
        else case map_of (canonicalStatic static) n of
          Some v \<Rightarrow> [v]
        | None \<Rightarrow>
            if n \<in> CanonicalHeaderKey ` set forwarded \<and> n \<notin> set (requestConnectionTokens (rq_Header incoming))
            then canonicalValues (rq_Header incoming) n else [])) \<and>
    \<not> requestContainsCredential (rq_Header (pr_request prepared)) \<and>
    rq_Host (pr_request prepared) = [] \<and> rq_TransferEncoding (pr_request prepared) = [] \<and>
    rq_Trailer (pr_request prepared) = [] \<and> \<not> rq_Close (pr_request prepared)"
proof -
  obtain u mode where u: "ResolveURL t requestPath = Inr u"
    and p: "prepareRequestAtURL incoming t u forwarded static mode = Inr prepared"
    using assms by (auto simp: PrepareRequest_def andThen_eq_Inr)
  obtain fw st where fw: "ForwardHeaders (rq_Header incoming) forwarded = Inr fw"
    and st: "ApplyStaticHeaders (Some fw) static = Inr st"
    and r: "pr_request prepared = incoming\<lparr>rq_URL := u, rq_RequestURI := [], rq_Host := [],
        rq_Header := headerSet st ''Accept-Encoding'' ''identity'', rq_TransferEncoding := [], rq_Trailer := [], rq_Close := False\<rparr>"
    and v: "validatePreparedRequest t prepared = Inr ()"
    using p by (auto simp: prepareRequestAtURL_def andThen_eq_Inr Let_def split: if_splits)
  have "\<not> requestContainsCredential (rq_Header (pr_request prepared))"
    using v by (auto simp: validatePreparedRequest_def Let_def split: if_splits)
  moreover obtain rest where "requestPath = CHR ''/'' # rest" "canonicalSegments (splitAt (CHR ''/'') rest)"
    using ResolveURL_Inr(2) [OF u] by (cases requestPath) (auto simp: canonicalUpstreamPath_Cons)
  moreover have "headerEntry (rq_Header (pr_request prepared)) n =
       (if n = ''Accept-Encoding'' then [''identity'']
        else case map_of (canonicalStatic static) n of
          Some v \<Rightarrow> [v]
        | None \<Rightarrow>
            if n \<in> CanonicalHeaderKey ` set forwarded \<and> n \<notin> set (requestConnectionTokens (rq_Header incoming))
            then canonicalValues (rq_Header incoming) n else [])" for n
    using ApplyStaticHeaders_Inr(1) [OF st, of n] ForwardHeaders_Inr(3) [OF fw, of n]
    by (simp add: r split: option.split)
  ultimately show ?thesis using ResolveURL_Inr(1) [OF u] by (simp add: r)
qed

definition sampleBase :: url where
  "sampleBase = \<lparr>u_Scheme = ''https'', u_Opaque = [], u_User = None, u_Host = ''api.example'', u_Path = ''/v1/'',
     u_RawPath = [], u_ForceQuery = False, u_RawQuery = [], u_Fragment = []\<rparr>"

definition sampleTarget :: target where
  "sampleTarget = \<lparr>tg_object = 7, tg_baseURL = sampleBase\<rparr>"

definition sampleClient :: httpRequest where
  "sampleClient = \<lparr>rq_Method = ''POST'', rq_URL = sampleBase\<lparr>u_Host := ''gateway'', u_Path := ''/x''\<rparr>,
     rq_Header = [(''content-type'', [''application/json'']), (''Authorization'', [''Bearer client''])],
     rq_RequestURI = ''/x'', rq_Host = ''gateway'', rq_TransferEncoding = [''chunked''], rq_Trailer = [], rq_Close = True\<rparr>"

definition samplePreparedRequest :: preparedUpstreamRequest where
  "samplePreparedRequest =
     \<lparr>pr_target = sampleTarget,
      pr_request = \<lparr>rq_Method = ''POST'', rq_URL = sampleBase\<lparr>u_Path := ''/v1/chat''\<rparr>,
        rq_Header = [(''Content-Type'', [''application/json'']), (''X-Title'', [''latchway'']), (''Accept-Encoding'', [''identity''])],
        rq_RequestURI = [], rq_Host = [], rq_TransferEncoding = [], rq_Trailer = [], rq_Close = False\<rparr>,
      pr_traceContextPropagation = TraceContextPropagationNone\<rparr>"

lemma sample_prepared:
  "PrepareRequest sampleClient sampleTarget ''/chat'' [''Content-Type''] [(''x-title'', ''latchway'')] [] = Inr samplePreparedRequest"
  by code_simp

theorem prepared_request_exact_witness:
  "PrepareRequest sampleClient sampleTarget ''/chat'' [''Content-Type''] [(''x-title'', ''latchway'')] [] = Inr samplePreparedRequest \<and>
   headerEntry (rq_Header (pr_request samplePreparedRequest)) ''Accept-Encoding'' = [''identity'']"
  using sample_prepared prepared_request_exact [OF sample_prepared] by simp

section \<open>Single use\<close>

text \<open>Any number of concurrent dispatches of the same prepared request are a sequence of claims of its
  flag, because the claim holds the mutex.\<close>

fun claims :: "(target \<times> preparedUpstreamRequest) list \<Rightarrow> bool \<Rightarrow> (request_error + unit) list" where
  "claims [] used = []"
| "claims ((t, prepared) # rest) used =
     (let (result, used') = claimPreparedRequest t prepared used in result # claims rest used')"

lemma claims_used: "list_all (\<lambda>r. \<not> is_ok r) (claims cs True)"
  by (induction cs) (auto simp: claimPreparedRequest_def is_ok_def split: sum.splits)

text \<open>
  A prepared request is dispatched at most once.  Among any claims that share the flag of one
  prepared request, whatever target and request each of them presents, at most one succeeds; and if
  the flag is unused, the first claim that passes the validation succeeds, whatever failed before it.
\<close>

theorem prepared_request_single_use:
  "length (filter is_ok (claims cs used)) = (if \<not> used \<and> list_ex (\<lambda>(t, p). is_ok (validatePreparedRequest t p)) cs then 1 else 0)"
proof (induction cs arbitrary: used)
  case (Cons c cs)
  obtain t p where c: "c = (t, p)" by (cases c)
  have "filter is_ok (claims cs True) = []" using claims_used by (simp add: filter_empty_conv list_all_iff)
  then show ?case
    using Cons [of used] by (cases "validatePreparedRequest t p") (auto simp: c claimPreparedRequest_def)
qed simp

end
