(* ===== verification/Quota_Base.thy ===== *)
theory Quota_Base
  imports Latchway_Prelude
begin

text \<open>
  The closed vocabulary of the quota package (\<open>src/internal/quota/model.go\<close>): its
  metrics and algorithms, its bounds, and the sentinel errors its operations return.
  \<open>GoPanic\<close> stands for a run-time panic of the language (division by zero, an index
  out of range); no operation of the package is meant to produce it.
\<close>

datatype quota_error =
    ErrInvalidInput
  | ErrExceeded
  | ErrConcurrencyExceeded
  | ErrNotFound
  | ErrExpired
  | ErrFinalized
  | ErrInvalidState
  | ErrDependency
  | ErrCalendarKeyBound
  | GoPanic

definition LogicalRequestsMetric :: string where
  "LogicalRequestsMetric = ''logical_requests''"

definition UpstreamAttemptsMetric :: string where
  "UpstreamAttemptsMetric = ''upstream_attempts''"

definition InputTokensMetric :: string where
  "InputTokensMetric = ''input_tokens''"

definition OutputTokensMetric :: string where
  "OutputTokensMetric = ''output_tokens''"

definition TotalTokensMetric :: string where
  "TotalTokensMetric = ''total_tokens''"

definition ConcurrentRequestsMetric :: string where
  "ConcurrentRequestsMetric = ''concurrent_requests''"

definition ConcurrentStreamsMetric :: string where
  "ConcurrentStreamsMetric = ''concurrent_streams''"

definition CostNanoUSDMetric :: string where
  "CostNanoUSDMetric = ''cost_nano_usd''"

definition RequestBytesMetric :: string where
  "RequestBytesMetric = ''request_bytes''"

definition ImageUnitsMetric :: string where
  "ImageUnitsMetric = ''image_units''"

definition ToolCallsMetric :: string where
  "ToolCallsMetric = ''tool_calls''"

definition CalendarAlgorithm :: string where
  "CalendarAlgorithm = ''calendar''"

definition TokenBucketAlgorithm :: string where
  "TokenBucketAlgorithm = ''token_bucket''"

definition PerRequestAlgorithm :: string where
  "PerRequestAlgorithm = ''per_request''"

definition ConcurrencyAlgorithm :: string where
  "ConcurrencyAlgorithm = ''concurrency''"

lemmas metric_defs =
  LogicalRequestsMetric_def UpstreamAttemptsMetric_def InputTokensMetric_def
  OutputTokensMetric_def TotalTokensMetric_def ConcurrentRequestsMetric_def
  ConcurrentStreamsMetric_def CostNanoUSDMetric_def RequestBytesMetric_def
  ImageUnitsMetric_def ToolCallsMetric_def

lemmas algorithm_defs =
  CalendarAlgorithm_def TokenBucketAlgorithm_def PerRequestAlgorithm_def
  ConcurrencyAlgorithm_def

lemma metrics_distinct:
  "distinct [LogicalRequestsMetric, UpstreamAttemptsMetric, InputTokensMetric,
     OutputTokensMetric, TotalTokensMetric, ConcurrentRequestsMetric,
     ConcurrentStreamsMetric, CostNanoUSDMetric, RequestBytesMetric, ImageUnitsMetric,
     ToolCallsMetric]"
  by (simp add: metric_defs)

lemma algorithms_distinct:
  "distinct [CalendarAlgorithm, TokenBucketAlgorithm, PerRequestAlgorithm, ConcurrencyAlgorithm]"
  by (simp add: algorithm_defs)

lemma metrics_distinct_rev:
  "distinct (rev [LogicalRequestsMetric, UpstreamAttemptsMetric, InputTokensMetric,
     OutputTokensMetric, TotalTokensMetric, ConcurrentRequestsMetric,
     ConcurrentStreamsMetric, CostNanoUSDMetric, RequestBytesMetric, ImageUnitsMetric,
     ToolCallsMetric])"
  by (simp only: distinct_rev metrics_distinct)

lemma algorithms_distinct_rev:
  "distinct (rev [CalendarAlgorithm, TokenBucketAlgorithm, PerRequestAlgorithm, ConcurrencyAlgorithm])"
  by (simp only: distinct_rev algorithms_distinct)

lemmas metric_neqs [simp] =
  metrics_distinct [simplified] metrics_distinct_rev [simplified]
  algorithms_distinct [simplified] algorithms_distinct_rev [simplified]

end
