(* ===== verification/Go_Time.thy ===== *)
theory Go_Time
  imports Latchway_Prelude
begin

text \<open>
  Instants of Go's package \<open>time\<close>, as far as the program uses them.  A \<open>time.Time\<close>
  without a monotonic clock reading (all times the quota package handles are read
  from PostgreSQL) is a count of seconds since January 1 of year 1 UTC, kept as an
  \<open>int64\<close>, and a nanosecond within the second.  The location of a time only affects
  how it is shown, so \<open>UTC()\<close> is the identity on instants.
\<close>

datatype gotime = GoTime (gt_sec: int) (gt_nsec: int)

instantiation gotime :: linorder
begin

definition less_eq_gotime :: "gotime \<Rightarrow> gotime \<Rightarrow> bool" where
  "less_eq_gotime a b \<longleftrightarrow>
     gt_sec a < gt_sec b \<or> (gt_sec a = gt_sec b \<and> gt_nsec a \<le> gt_nsec b)"

definition less_gotime :: "gotime \<Rightarrow> gotime \<Rightarrow> bool" where
  "less_gotime a b \<longleftrightarrow>
     gt_sec a < gt_sec b \<or> (gt_sec a = gt_sec b \<and> gt_nsec a < gt_nsec b)"

instance
proof
  fix a b c :: gotime
  show "(a < b) = (a \<le> b \<and> \<not> b \<le> a)"
    by (auto simp: less_gotime_def less_eq_gotime_def)
  show "a \<le> a"
    by (simp add: less_eq_gotime_def)
  show "a \<le> b \<Longrightarrow> b \<le> c \<Longrightarrow> a \<le> c"
    by (auto simp: less_eq_gotime_def)
  show "a \<le> b \<Longrightarrow> b \<le> a \<Longrightarrow> a = b"
    by (cases a; cases b) (auto simp: less_eq_gotime_def)
  show "a \<le> b \<or> b \<le> a"
    by (auto simp: less_eq_gotime_def)
qed

end

text \<open>\<open>time.Time{}\<close>, \<open>IsZero\<close>, \<open>Unix\<close>, \<open>Nanosecond\<close> and \<open>time.Unix\<close> (with a nanosecond
  argument already inside one second).  \<open>Before\<close>, \<open>After\<close> and \<open>Equal\<close> are the order and
  the equality of the type.\<close>

abbreviation unixToInternal :: int where
  "unixToInternal \<equiv> 62135596800"

definition zeroTime :: gotime where
  "zeroTime = GoTime 0 0"

definition isZero :: "gotime \<Rightarrow> bool" where
  "isZero t \<longleftrightarrow> gt_sec t = 0 \<and> gt_nsec t = 0"

definition unixOf :: "gotime \<Rightarrow> int" where
  "unixOf t = sub64 (gt_sec t) unixToInternal"

definition timeUnix :: "int \<Rightarrow> int \<Rightarrow> gotime" where
  "timeUnix s n = GoTime (add64 s unixToInternal) n"

text \<open>
  The position of an instant on the line of nanoseconds, and the instants the
  properties speak about: a nanosecond inside the second, not before year 1, and a
  distance from it that leaves room for every computation of the program.
  PostgreSQL's timestamps end in the year 294276, five orders of magnitude inside
  this range.
\<close>

definition nanos :: "gotime \<Rightarrow> int" where
  "nanos t = gt_sec t * 1000000000 + gt_nsec t"

definition of_nanos :: "int \<Rightarrow> gotime" where
  "of_nanos n = GoTime (n div 1000000000) (n mod 1000000000)"

definition time_ok :: "gotime \<Rightarrow> bool" where
  "time_ok t \<longleftrightarrow> 0 \<le> gt_nsec t \<and> gt_nsec t < 1000000000 \<and>
     0 \<le> gt_sec t \<and> gt_sec t \<le> 1000000000000000000"

lemma isZero_nanos: "time_ok t \<Longrightarrow> isZero t \<longleftrightarrow> nanos t = 0"
  by (auto simp: isZero_def nanos_def time_ok_def)

lemma time_ok_nanos: "time_ok t \<Longrightarrow> 0 \<le> nanos t"
  by (simp add: nanos_def time_ok_def)

lemma time_ok_nsec: "time_ok t \<Longrightarrow> 0 \<le> gt_nsec t" "time_ok t \<Longrightarrow> gt_nsec t < 1000000000"
  by (simp_all add: time_ok_def)

lemma unixOf_ok [go_arith]: "time_ok t \<Longrightarrow> unixOf t = gt_sec t - unixToInternal"
  by (simp add: unixOf_def time_ok_def go_arith)

lemma nanos_le_iff:
  assumes "0 \<le> gt_nsec a" "gt_nsec a < 1000000000" "0 \<le> gt_nsec b" "gt_nsec b < 1000000000"
  shows "nanos a \<le> nanos b \<longleftrightarrow> a \<le> b"
  using assms by (auto simp: nanos_def less_eq_gotime_def)

lemma nanos_less_iff:
  assumes "0 \<le> gt_nsec a" "gt_nsec a < 1000000000" "0 \<le> gt_nsec b" "gt_nsec b < 1000000000"
  shows "nanos a < nanos b \<longleftrightarrow> a < b"
  using assms by (auto simp: nanos_def less_gotime_def)

lemma time_ok_le_iff: "time_ok a \<Longrightarrow> time_ok b \<Longrightarrow> a \<le> b \<longleftrightarrow> nanos a \<le> nanos b"
  by (simp add: nanos_le_iff time_ok_nsec)

lemma time_ok_less_iff: "time_ok a \<Longrightarrow> time_ok b \<Longrightarrow> a < b \<longleftrightarrow> nanos a < nanos b"
  by (simp add: nanos_less_iff time_ok_nsec)

lemma time_ok_of_nanos:
  "0 \<le> n \<Longrightarrow> n \<le> nanos t \<Longrightarrow> time_ok t \<Longrightarrow> time_ok (of_nanos n)"
  by (auto simp: time_ok_def of_nanos_def nanos_def)

lemma isZero_iff: "isZero t \<longleftrightarrow> t = zeroTime"
  by (cases t) (auto simp: isZero_def zeroTime_def)

lemma of_nanos_nanos [simp]: "time_ok t \<Longrightarrow> of_nanos (nanos t) = t"
  by (cases t) (simp add: of_nanos_def nanos_def time_ok_def)

lemma nanos_of_nanos [simp]: "nanos (of_nanos n) = n"
  by (simp add: of_nanos_def nanos_def)

lemma of_nanos_split: "of_nanos (a * 1000000000 + n) = GoTime (a + n div 1000000000) (n mod 1000000000)"
  by (simp add: of_nanos_def)

text \<open>Instants a database clock produces: years 1 to 31 million.\<close>

definition db_time :: "gotime \<Rightarrow> bool" where
  "db_time t \<longleftrightarrow> time_ok t \<and> \<not> isZero t \<and> gt_sec t \<le> 1000000000000000"

lemma db_timeD: "db_time t \<Longrightarrow> time_ok t" "db_time t \<Longrightarrow> \<not> isZero t"
  by (simp_all add: db_time_def)

end
