(* ===== verification/Token_Bucket.thy ===== *)
theory Token_Bucket
  imports Quota_Base Go_Time
begin

text \<open>
  The durable token bucket of \<open>src/internal/quota/token_bucket.go\<close>: fixed-point
  balances in units of \<open>10\<^sup>-\<^sup>1\<^sup>2\<close> token, refilled once per complete microsecond tick,
  reconciled to a changed policy, reserved, refunded, and asked for the instant at
  which a reservation will fit.
\<close>

section \<open>Model\<close>

abbreviation tokenBalanceScale :: int where
  "tokenBalanceScale \<equiv> 1000000000000"

abbreviation tokenRateDecimalScale :: int where
  "tokenRateDecimalScale \<equiv> 1000000"

abbreviation tokenTicksPerSecond :: int where
  "tokenTicksPerSecond \<equiv> 1000000"

definition maximumTokenCapacity :: int where
  "maximumTokenCapacity = quot64 max_int64 tokenBalanceScale"

record tokenBucketState =
  capacity :: int
  balance :: int
  numerator :: int
  denominator :: int
  refilledAt :: gotime

text \<open>Euclid's loop on Go's truncated remainder.\<close>

function greatestCommonDivisor :: "int \<Rightarrow> int \<Rightarrow> int" where
  "greatestCommonDivisor left right =
     (if right \<noteq> 0 then greatestCommonDivisor right (left smod right) else left)"
  by pat_completeness auto
termination
proof (relation "measure (\<lambda>(left, right). nat \<bar>right\<bar>)")
  fix left right :: int
  assume "right \<noteq> 0"
  then have "\<bar>left smod right\<bar> < \<bar>right\<bar>"
    by (simp add: signed_modulo_int_def abs_mult abs_sgn_eq)
  then show "((right, left smod right), (left, right)) \<in> measure (\<lambda>(left, right). nat \<bar>right\<bar>)"
    by simp
qed simp

declare greatestCommonDivisor.simps [simp del]

definition tokenCreditPerTick :: "int \<Rightarrow> int \<Rightarrow> quota_error + int" where
  "tokenCreditPerTick num den =
     (if num \<le> 0 \<or> den \<le> 0 \<or> rem64 tokenRateDecimalScale den \<noteq> 0 \<or>
         greatestCommonDivisor num den \<noteq> 1
      then Inl ErrInvalidInput
      else let factor = quot64 tokenRateDecimalScale den in
        if num > quot64 max_int64 factor then Inl ErrInvalidInput
        else let credit = mul64 num factor in
          if credit \<le> 0 \<or> credit > tokenBalanceScale then Inl ErrInvalidInput
          else Inr credit)"

definition validateTokenBucketPolicy :: "int \<Rightarrow> int \<Rightarrow> int \<Rightarrow> quota_error + unit" where
  "validateTokenBucketPolicy cap num den =
     (if cap \<le> 0 \<or> cap > maximumTokenCapacity then Inl ErrInvalidInput
      else andThen (tokenCreditPerTick num den) (\<lambda>_. Inr ()))"

definition tokenCapacityBalance :: "int \<Rightarrow> int option" where
  "tokenCapacityBalance cap =
     (if cap \<le> 0 \<or> cap > maximumTokenCapacity then None
      else Some (mul64 cap tokenBalanceScale))"

definition validatePersistedTokenBucket :: "tokenBucketState \<Rightarrow> quota_error + unit" where
  "validatePersistedTokenBucket state =
     (if \<not> is_ok (validateTokenBucketPolicy (capacity state) (numerator state) (denominator state))
         \<or> isZero (refilledAt state)
      then Inl ErrInvalidState
      else case tokenCapacityBalance (capacity state) of
          None \<Rightarrow> Inl ErrInvalidState
        | Some maximum \<Rightarrow>
            if balance state < 0 \<or> balance state > maximum then Inl ErrInvalidState
            else Inr ())"

text \<open>The division panics when the divisor is zero.\<close>

definition ceilingDivision :: "int \<Rightarrow> int \<Rightarrow> quota_error + int" where
  "ceilingDivision num den =
     (if den = 0 then Inl GoPanic
      else Inr (add64 1 (quot64 (sub64 num 1) den)))"

definition elapsedTokenTicks :: "gotime \<Rightarrow> gotime \<Rightarrow> quota_error + int" where
  "elapsedTokenTicks from to =
     (if isZero from \<or> isZero to then Inl ErrInvalidState
      else if to < from then Inr 0
      else
        let fromSeconds = unixOf from; toSeconds = unixOf to in
        if toSeconds < fromSeconds then Inl ErrInvalidState
        else
          let maximumWholeSeconds = quot64 max_int64 tokenTicksPerSecond;
              comparisonSpan = add64 maximumWholeSeconds 1 in
          if fromSeconds \<le> sub64 max_int64 comparisonSpan \<and>
             toSeconds > add64 fromSeconds comparisonSpan
          then Inr max_int64
          else
            let seconds = sub64 toSeconds fromSeconds;
                nanoseconds = sub64 (gt_nsec to) (gt_nsec from);
                borrow = nanoseconds < 0;
                seconds' = (if borrow then sub64 seconds 1 else seconds);
                nanoseconds' = (if borrow then add64 nanoseconds 1000000000 else nanoseconds) in
            if seconds' < 0 then Inl ErrInvalidState
            else if seconds' > maximumWholeSeconds then Inr max_int64
            else
              let ticks = mul64 seconds' tokenTicksPerSecond;
                  additional = quot64 nanoseconds' 1000 in
              if additional > sub64 max_int64 ticks then Inr max_int64
              else Inr (add64 ticks additional))"

definition addTokenTicks :: "gotime \<Rightarrow> int \<Rightarrow> quota_error + gotime" where
  "addTokenTicks at ticks =
     (if isZero at \<or> ticks < 0 then Inl ErrInvalidState
      else
        let seconds = quot64 ticks tokenTicksPerSecond;
            nanoseconds = add64 (gt_nsec at) (mul64 (rem64 ticks tokenTicksPerSecond) 1000);
            seconds' = add64 seconds (quot64 nanoseconds 1000000000);
            nanoseconds' = rem64 nanoseconds 1000000000;
            baseSeconds = unixOf at in
        if baseSeconds > sub64 max_int64 seconds' then Inl ErrInvalidState
        else Inr (timeUnix (add64 baseSeconds seconds') nanoseconds'))"

definition refillTokenBalance ::
  "int \<Rightarrow> int \<Rightarrow> int \<Rightarrow> gotime \<Rightarrow> gotime \<Rightarrow> quota_error + int \<times> gotime" where
  "refillTokenBalance bal maximum credit cursor now =
     (if bal < 0 \<or> maximum \<le> 0 \<or> bal > maximum \<or> credit \<le> 0 \<or> isZero cursor \<or> isZero now
      then Inl ErrInvalidState
      else if now < cursor then Inr (bal, cursor)
      else if bal = maximum then Inr (bal, now)
      else
        andThen (elapsedTokenTicks cursor now) (\<lambda>ticks.
        if ticks \<le> 0 then Inr (bal, cursor)
        else
          let missing = sub64 maximum bal in
          andThen (ceilingDivision missing credit) (\<lambda>ticksToFull.
          if ticks \<ge> ticksToFull then Inr (maximum, now)
          else
            let addition = mul64 ticks credit in
            andThen (addTokenTicks cursor ticks) (\<lambda>advanced.
            Inr (add64 bal addition, advanced)))))"

definition reconcileTokenBucket ::
  "tokenBucketState \<Rightarrow> int \<Rightarrow> int \<Rightarrow> int \<Rightarrow> gotime \<Rightarrow> quota_error + tokenBucketState" where
  "reconcileTokenBucket stored selectedCapacity selectedNumerator selectedDenominator now =
     (if \<not> is_ok (validatePersistedTokenBucket stored) \<or> isZero now \<or>
         \<not> is_ok (validateTokenBucketPolicy selectedCapacity selectedNumerator selectedDenominator)
      then Inl ErrInvalidState
      else
        let oldCredit = (case tokenCreditPerTick (numerator stored) (denominator stored) of
                Inl _ \<Rightarrow> 0 | Inr c \<Rightarrow> c);
            newCredit = (case tokenCreditPerTick selectedNumerator selectedDenominator of
                Inl _ \<Rightarrow> 0 | Inr c \<Rightarrow> c);
            changed = (capacity stored \<noteq> selectedCapacity \<or> numerator stored \<noteq> selectedNumerator \<or>
                denominator stored \<noteq> selectedDenominator);
            effectiveCapacity = min (capacity stored) selectedCapacity;
            effectiveMaximum = (case tokenCapacityBalance effectiveCapacity of
                None \<Rightarrow> 0 | Some m \<Rightarrow> m);
            bal = min (balance stored) effectiveMaximum;
            credit = min oldCredit newCredit in
        andThen (refillTokenBalance bal effectiveMaximum credit (refilledAt stored) now)
          (\<lambda>(bal', cursor).
          let cursor' = (if changed \<and> \<not> now < refilledAt stored then now else cursor);
              result = \<lparr>capacity = selectedCapacity, balance = bal',
                numerator = selectedNumerator, denominator = selectedDenominator,
                refilledAt = cursor'\<rparr> in
          if \<not> is_ok (validatePersistedTokenBucket result) then Inl ErrInvalidState
          else Inr result))"

text \<open>The boolean of the result says whether the reservation was accepted.\<close>

definition reserveTokenBalance ::
  "tokenBucketState \<Rightarrow> int \<Rightarrow> quota_error + tokenBucketState \<times> bool" where
  "reserveTokenBalance state units =
     (if \<not> is_ok (validatePersistedTokenBucket state) \<or> units \<le> 0 \<or> units > capacity state \<or>
         units > quot64 max_int64 tokenBalanceScale
      then Inl ErrInvalidState
      else
        let required = mul64 units tokenBalanceScale in
        if balance state < required then Inr (state, False)
        else Inr (state\<lparr>balance := sub64 (balance state) required\<rparr>, True))"

definition refundTokenBalance ::
  "tokenBucketState \<Rightarrow> int \<Rightarrow> gotime \<Rightarrow> quota_error + tokenBucketState" where
  "refundTokenBalance state units now =
     (if \<not> is_ok (validatePersistedTokenBucket state) \<or> units \<le> 0 \<or>
         units > quot64 max_int64 tokenBalanceScale \<or> isZero now
      then Inl ErrInvalidState
      else
        let maximum = (case tokenCapacityBalance (capacity state) of None \<Rightarrow> 0 | Some m \<Rightarrow> m);
            refund = mul64 units tokenBalanceScale in
        if refund \<ge> sub64 maximum (balance state)
        then
          let full = state\<lparr>balance := maximum\<rparr> in
          Inr (if \<not> now < refilledAt state then full\<lparr>refilledAt := now\<rparr> else full)
        else Inr (state\<lparr>balance := add64 (balance state) refund\<rparr>))"

definition tokenRetryAt :: "tokenBucketState \<Rightarrow> int \<Rightarrow> gotime \<Rightarrow> quota_error + gotime" where
  "tokenRetryAt state units now =
     (if \<not> is_ok (validatePersistedTokenBucket state) \<or> units \<le> 0 \<or>
         units > capacity state \<or> units > quot64 max_int64 tokenBalanceScale \<or> isZero now
      then Inl ErrInvalidState
      else
        let required = mul64 units tokenBalanceScale in
        if balance state \<ge> required then Inr now
        else case tokenCreditPerTick (numerator state) (denominator state) of
            Inl _ \<Rightarrow> Inl ErrInvalidState
          | Inr credit \<Rightarrow>
              andThen (ceilingDivision (sub64 required (balance state)) credit) (\<lambda>ticks.
              case addTokenTicks (refilledAt state) ticks of
                Inl _ \<Rightarrow> Inl ErrInvalidState
              | Inr retryAt \<Rightarrow> if retryAt < now then Inr now else Inr retryAt))"

text \<open>
  The decision of one reservation on one token bucket (\<open>Store.Reserve\<close> in
  \<open>src/internal/quota/store.go\<close>): reconcile to the selected policy, compute the retry
  time, and try to reserve.  A denial keeps the reconciled state, as
  \<open>persistTokenBucket\<close> does for a denied request.
\<close>

definition admitToken ::
  "tokenBucketState \<Rightarrow> int \<Rightarrow> int \<Rightarrow> int \<Rightarrow> int \<Rightarrow> gotime \<Rightarrow> quota_error + tokenBucketState \<times> bool" where
  "admitToken stored cap num den units decisionAt =
     andThen (reconcileTokenBucket stored cap num den decisionAt) (\<lambda>reconciled.
     andThen (tokenRetryAt reconciled units decisionAt) (\<lambda>_.
     reserveTokenBalance reconciled units))"

text \<open>
  A history of reservations on one bucket, each with the policy selected for it.  A
  reservation that fails with an error is rolled back and changes nothing.
\<close>

type_synonym admission = "int \<times> int \<times> int \<times> int \<times> gotime"

definition admitStep :: "tokenBucketState \<times> int \<Rightarrow> admission \<Rightarrow> tokenBucketState \<times> int" where
  "admitStep st req = (case (st, req) of ((s, granted), (cap, num, den, units, now)) \<Rightarrow>
     (case admitToken s cap num den units now of
        Inl _ \<Rightarrow> (s, granted)
      | Inr (s', ok) \<Rightarrow> (s', if ok then granted + units else granted)))"

definition admitRun :: "tokenBucketState \<Rightarrow> admission list \<Rightarrow> tokenBucketState \<times> int" where
  "admitRun s reqs = foldl admitStep (s, 0) reqs"

section \<open>Time arithmetic\<close>

lemma maximumTokenCapacity_eq: "maximumTokenCapacity = 9223372"
  by (simp add: maximumTokenCapacity_def go_arith)

lemma elapsedTokenTicks_eq:
  assumes ok: "time_ok from" "time_ok to" "\<not> isZero from" "\<not> isZero to" and le: "from \<le> to"
  shows "elapsedTokenTicks from to = Inr (min max_int64 ((nanos to - nanos from) div 1000))"
proof -
  define S where "S = gt_sec to - gt_sec from"
  define N where "N = gt_nsec to - gt_nsec from"
  define D where "D = (if N < 0 then S - 1 else S)"
  define R where "R = (if N < 0 then N + 1000000000 else N)"
  have rng: "0 \<le> gt_sec from" "gt_sec from \<le> 1000000000000000000"
     "0 \<le> gt_sec to" "gt_sec to \<le> 1000000000000000000"
     "0 \<le> gt_nsec from" "gt_nsec from < 1000000000" "0 \<le> gt_nsec to" "gt_nsec to < 1000000000"
    using ok by (simp_all add: time_ok_def)
  have fs: "unixOf from = gt_sec from - unixToInternal" and ts: "unixOf to = gt_sec to - unixToInternal"
    using ok by (simp_all add: unixOf_ok)
  have S0: "0 \<le> S" and D0: "0 \<le> D"
    using le by (auto simp: less_eq_gotime_def S_def D_def N_def)
  have R: "0 \<le> R" "R < 1000000000" using rng by (auto simp: R_def N_def)
  have SD: "S \<le> D + 1" "D \<le> S" by (auto simp: D_def)
  have diff: "nanos to - nanos from = (D * 1000000) * 1000 + R"
    by (simp add: nanos_def D_def R_def S_def N_def algebra_simps)
  have dv: "(nanos to - nanos from) div 1000 = D * 1000000 + R div 1000"
    unfolding diff by simp
  have Nw: "sub64 (gt_nsec to) (gt_nsec from) = N"
    using rng by (simp add: N_def go_arith)
  have Sw: "sub64 (unixOf to) (unixOf from) = S"
    using rng by (simp add: S_def fs ts go_arith)
  have Dw: "(if N < 0 then sub64 S 1 else S) = D"
    using S0 rng by (auto simp: D_def S_def go_arith)
  have Rw: "(if N < 0 then add64 N 1000000000 else N) = R"
    using rng by (auto simp: R_def N_def go_arith)
  have early: "(unixOf from \<le> sub64 max_int64 9223372036855 \<and>
      unixOf to > add64 (unixOf from) 9223372036855) \<longleftrightarrow> S > 9223372036855"
    using rng by (auto simp: fs ts S_def go_arith)
  have cs: "quot64 max_int64 tokenTicksPerSecond = 9223372036854" "add64 9223372036854 1 = 9223372036855"
    by (simp_all add: go_arith)
  have "\<not> to < from" "\<not> unixOf to < unixOf from" using le S0 by (simp_all add: fs ts S_def)
  then have e: "elapsedTokenTicks from to =
      (if S > 9223372036855 then Inr max_int64
       else if D < 0 then Inl ErrInvalidState
       else if D > 9223372036854 then Inr max_int64
       else if quot64 R 1000 > sub64 max_int64 (mul64 D tokenTicksPerSecond) then Inr max_int64
       else Inr (add64 (mul64 D tokenTicksPerSecond) (quot64 R 1000)))"
    unfolding elapsedTokenTicks_def Let_def cs early Nw Sw Dw Rw using ok by simp
  show ?thesis
  proof (cases "D > 9223372036854")
    case True
    then show ?thesis using R SD D0 unfolding e dv by (auto simp: min_def)
  next
    case False
    have q: "quot64 R 1000 = R div 1000" "mul64 D tokenTicksPerSecond = D * 1000000"
      using R D0 False by (simp_all add: go_arith)
    have b: "0 \<le> R div 1000" "R div 1000 < 1000000" using R by auto
    show ?thesis using False D0 SD b unfolding e dv q by (auto simp: go_arith min_def)
  qed
qed

lemma addTokenTicks_eq:
  assumes ok: "time_ok at" "\<not> isZero at" and t: "0 \<le> ticks" "ticks \<le> max_int64"
  shows "addTokenTicks at ticks = Inr (of_nanos (nanos at + ticks * 1000))"
proof -
  define s where "s = ticks div 1000000"
  define r where "r = ticks mod 1000000"
  define n where "n = gt_nsec at + r * 1000"
  have tr: "ticks = s * 1000000 + r" by (simp add: s_def r_def)
  have rng: "0 \<le> gt_sec at" "gt_sec at \<le> 1000000000000000000"
     "0 \<le> gt_nsec at" "gt_nsec at < 1000000000"
    using ok by (simp_all add: time_ok_def)
  have r: "0 \<le> r" "r < 1000000" and s: "0 \<le> s" "s \<le> 9223372036854"
    using t by (auto simp: r_def s_def)
  have n: "0 \<le> n" "n < 2000000000" using r rng by (auto simp: n_def)
  have nq: "0 \<le> n div 1000000000" "n div 1000000000 \<le> 1" using n by auto
  have w: "quot64 ticks tokenTicksPerSecond = s" "rem64 ticks tokenTicksPerSecond = r"
    using t by (simp_all add: s_def r_def go_arith)
  have w2: "add64 (gt_nsec at) (mul64 r 1000) = n"
    using r rng by (simp add: n_def go_arith)
  have w3: "add64 s (quot64 n 1000000000) = s + n div 1000000000" "rem64 n 1000000000 = n mod 1000000000"
    using n s nq by (simp_all add: go_arith)
  have base: "unixOf at = gt_sec at - unixToInternal" using ok by (simp add: unixOf_ok)
  have "nanos at + ticks * 1000 = (gt_sec at + s) * 1000000000 + n"
    unfolding nanos_def tr by (simp add: n_def algebra_simps)
  then have tgt: "of_nanos (nanos at + ticks * 1000) =
      GoTime (gt_sec at + s + n div 1000000000) (n mod 1000000000)"
    by (simp only: of_nanos_split)
  have l: "sub64 max_int64 (s + n div 1000000000) = max_int64 - (s + n div 1000000000)"
    using s nq by (simp add: go_arith)
  have a: "add64 (gt_sec at - unixToInternal) (s + n div 1000000000)
      = gt_sec at - unixToInternal + (s + n div 1000000000)"
    using s nq rng by (simp add: go_arith)
  show ?thesis
    unfolding addTokenTicks_def Let_def w w2 w3 base l a tgt timeUnix_def
    using ok t s nq rng by (simp add: go_arith)
qed

lemma greatestCommonDivisor_gcd:
  "0 \<le> left \<Longrightarrow> 0 \<le> right \<Longrightarrow> greatestCommonDivisor left right = gcd left right"
proof (induction left right rule: greatestCommonDivisor.induct)
  case (1 left right)
  show ?case
  proof (cases "right = 0")
    case True
    with "1.prems" show ?thesis by (simp add: greatestCommonDivisor.simps)
  next
    case False
    with "1.prems" have "0 < right" by simp
    with "1.prems" have m: "left smod right = left mod right" by (simp add: smod_nonneg)
    with "1" False \<open>0 < right\<close> have "greatestCommonDivisor right (left mod right) = gcd right (left mod right)"
      by simp
    with False m show ?thesis
      by (simp add: greatestCommonDivisor.simps [of left right] gcd_red_int [of left right])
  qed
qed

lemma tokenCreditPerTick_iff:
  "tokenCreditPerTick num den = Inr credit \<longleftrightarrow>
     0 < num \<and> 0 < den \<and> den dvd 1000000 \<and> gcd num den = 1 \<and>
     num * (1000000 div den) \<le> tokenBalanceScale \<and> credit = num * (1000000 div den)"
proof (cases "0 < num \<and> 0 < den \<and> den dvd 1000000 \<and> gcd num den = 1")
  case False
  then show ?thesis
    by (auto simp: tokenCreditPerTick_def Let_def greatestCommonDivisor_gcd go_arith dvd_eq_mod_eq_0)
next
  case True
  define f where "f = 1000000 div den"
  have f: "0 < f" "f \<le> 1000000"
    using True by (auto simp: f_def pos_imp_zdiv_pos_iff zdvd_imp_le div_le_self_int)
  have guard: "tokenCreditPerTick num den =
      (if num > max_int64 div f then Inl ErrInvalidInput
       else if mul64 num f \<le> 0 \<or> mul64 num f > tokenBalanceScale then Inl ErrInvalidInput
       else Inr (mul64 num f))"
    using True f
    by (auto simp: tokenCreditPerTick_def Let_def greatestCommonDivisor_gcd go_arith f_def dvd_eq_mod_eq_0)
  have lim: "num > max_int64 div f \<longleftrightarrow> num * f > max_int64"
    using le_div_iff_int [OF f(1), of num max_int64] by linarith
  show ?thesis
  proof (cases "num * f > max_int64")
    case True
    then show ?thesis using lim guard \<open>0 < num \<and> _\<close> by (auto simp flip: f_def)
  next
    case False
    moreover have "0 < num * f" using \<open>0 < num \<and> _\<close> f by simp
    ultimately have "mul64 num f = num * f" by (simp add: go_arith)
    with False lim guard \<open>0 < num \<and> _\<close> \<open>0 < num * f\<close> show ?thesis
      by (auto simp flip: f_def)
  qed
qed

lemma tokenCreditPerTick_pos:
  "tokenCreditPerTick num den = Inr credit \<Longrightarrow> 0 < credit \<and> credit \<le> tokenBalanceScale"
  by (auto simp: tokenCreditPerTick_iff pos_imp_zdiv_pos_iff zdvd_imp_le intro!: mult_pos_pos)

text \<open>The states the functions accept, and the fixed-point credit of one tick.\<close>

definition valid_bucket :: "tokenBucketState \<Rightarrow> bool" where
  "valid_bucket s \<longleftrightarrow> is_ok (validatePersistedTokenBucket s)"

definition credit_of :: "tokenBucketState \<Rightarrow> int" where
  "credit_of s = numerator s * (1000000 div denominator s)"

lemma validateTokenBucketPolicy_ok:
  "is_ok (validateTokenBucketPolicy cap num den) \<longleftrightarrow>
     0 < cap \<and> cap \<le> 9223372 \<and> (\<exists>c. tokenCreditPerTick num den = Inr c)"
  by (auto simp: validateTokenBucketPolicy_def maximumTokenCapacity_eq is_ok_iff go_result)

lemma tokenCapacityBalance_eq:
  "0 < cap \<Longrightarrow> cap \<le> 9223372 \<Longrightarrow> tokenCapacityBalance cap = Some (cap * tokenBalanceScale)"
  by (simp add: tokenCapacityBalance_def maximumTokenCapacity_eq go_arith)

lemma valid_bucket_iff:
  "valid_bucket s \<longleftrightarrow>
     0 < capacity s \<and> capacity s \<le> 9223372 \<and>
     tokenCreditPerTick (numerator s) (denominator s) = Inr (credit_of s) \<and>
     \<not> isZero (refilledAt s) \<and> 0 \<le> balance s \<and> balance s \<le> capacity s * tokenBalanceScale"
proof -
  have c: "(\<exists>c. tokenCreditPerTick (numerator s) (denominator s) = Inr c) \<longleftrightarrow>
      tokenCreditPerTick (numerator s) (denominator s) = Inr (credit_of s)"
    by (auto simp: tokenCreditPerTick_iff credit_of_def)
  show ?thesis
    by (auto simp: valid_bucket_def validatePersistedTokenBucket_def validateTokenBucketPolicy_ok
        tokenCapacityBalance_eq simp flip: c)
qed

lemma valid_bucketD:
  assumes "valid_bucket s"
  shows "0 < capacity s" "capacity s \<le> 9223372" "\<not> isZero (refilledAt s)" "0 \<le> balance s"
    "balance s \<le> capacity s * tokenBalanceScale"
    "tokenCreditPerTick (numerator s) (denominator s) = Inr (credit_of s)"
    "0 < credit_of s" "credit_of s \<le> tokenBalanceScale"
proof -
  show c: "tokenCreditPerTick (numerator s) (denominator s) = Inr (credit_of s)"
    using assms by (simp add: valid_bucket_iff)
  show "0 < credit_of s" "credit_of s \<le> tokenBalanceScale"
    using tokenCreditPerTick_pos [OF c] by simp_all
qed (use assms in \<open>simp_all add: valid_bucket_iff\<close>)

lemma valid_bucket_capacity: "valid_bucket s \<Longrightarrow> capacity s * tokenBalanceScale \<le> max_int64"
  using valid_bucketD(2) [of s] by linarith

lemma ceilingDivision_eq:
  assumes "0 < m" "m \<le> max_int64" "0 < c"
  shows "ceilingDivision m c = Inr (1 + (m - 1) div c)"
proof -
  have "0 \<le> (m - 1) div c" "(m - 1) div c < max_int64"
    using assms div_le_self_int [of "m - 1" c] by (simp_all add: pos_imp_zdiv_nonneg_iff)
  then show ?thesis using assms by (simp add: ceilingDivision_def go_arith)
qed

lemma ceiling_le_iff: "0 < (c :: int) \<Longrightarrow> 1 + (m - 1) div c \<le> k \<longleftrightarrow> m \<le> c * k"
proof -
  assume c: "0 < c"
  have "1 + (m - 1) div c \<le> k \<longleftrightarrow> \<not> k \<le> (m - 1) div c" by linarith
  also have "\<dots> \<longleftrightarrow> \<not> k * c \<le> m - 1" by (simp only: le_div_iff_int [OF c])
  also have "\<dots> \<longleftrightarrow> m \<le> c * k" by (auto simp: mult.commute)
  finally show ?thesis .
qed

text \<open>
  What a refill computes, on the line of nanoseconds: every complete tick earns
  \<open>credit\<close>, a full bucket forgets the fraction of a tick, any other one keeps it.
\<close>

definition refill_spec :: "int \<Rightarrow> int \<Rightarrow> int \<Rightarrow> gotime \<Rightarrow> gotime \<Rightarrow> int \<times> gotime" where
  "refill_spec bal maximum credit cursor now =
     (if now < cursor then (bal, cursor)
      else
        let ticks = (nanos now - nanos cursor) div 1000 in
        if maximum \<le> bal + credit * ticks then (maximum, now)
        else (bal + credit * ticks, of_nanos (nanos cursor + ticks * 1000)))"

lemma refillTokenBalance_eq:
  assumes b: "0 \<le> bal" "bal \<le> maximum" "0 < maximum" "maximum \<le> max_int64" "0 < credit"
    and t: "time_ok cursor" "time_ok now" "\<not> isZero cursor" "\<not> isZero now"
  shows "refillTokenBalance bal maximum credit cursor now = Inr (refill_spec bal maximum credit cursor now)"
proof (cases "now < cursor \<or> bal = maximum")
  case True
  have "\<not> now < cursor \<Longrightarrow> 0 \<le> (nanos now - nanos cursor) div 1000"
    using t by (simp add: time_ok_less_iff pos_imp_zdiv_nonneg_iff)
  with True b t show ?thesis
    by (auto simp: refillTokenBalance_def refill_spec_def Let_def)
next
  case False
  define k where "k = (nanos now - nanos cursor) div 1000"
  have le: "cursor \<le> now" and lt: "bal < maximum" using False b by auto
  then have k0: "0 \<le> k" using t by (simp add: k_def time_ok_le_iff pos_imp_zdiv_nonneg_iff)
  define m where "m = min max_int64 k"
  have el: "elapsedTokenTicks cursor now = Inr m"
    using t le by (simp add: elapsedTokenTicks_eq k_def m_def)
  have ms: "sub64 maximum bal = maximum - bal" using b by (simp add: go_arith)
  have cd: "ceilingDivision (maximum - bal) credit = Inr (1 + (maximum - bal - 1) div credit)"
    using b lt by (simp add: ceilingDivision_eq)
  have full: "1 + (maximum - bal - 1) div credit \<le> j \<longleftrightarrow> maximum \<le> bal + credit * j" for j
    using ceiling_le_iff [OF b(5), of "maximum - bal" j] by linarith
  have head: "refillTokenBalance bal maximum credit cursor now =
      (if m \<le> 0 then Inr (bal, cursor)
       else if maximum \<le> bal + credit * m then Inr (maximum, now)
       else andThen (addTokenTicks cursor m)
         (\<lambda>advanced. Inr (add64 bal (mul64 m credit), advanced)))"
    using False b t el ms cd full by (auto simp: refillTokenBalance_def Let_def)
  have spec: "refill_spec bal maximum credit cursor now =
      (if maximum \<le> bal + credit * k then (maximum, now)
       else (bal + credit * k, of_nanos (nanos cursor + k * 1000)))"
    using False by (simp add: refill_spec_def Let_def k_def)
  consider "k = 0" | "0 < k" "k \<le> max_int64" | "max_int64 < k" using k0 by linarith
  then show ?thesis
  proof cases
    case 1
    then show ?thesis using head spec lt t by (simp add: m_def)
  next
    case 2
    have p: "0 \<le> credit * k" using 2 b by simp
    have "bal + credit * k < maximum \<Longrightarrow> mul64 k credit = credit * k"
      using b p by (simp add: mul64_def mult.commute [of k])
    moreover have "bal + credit * k < maximum \<Longrightarrow> add64 bal (credit * k) = bal + credit * k"
      using b p by (intro add64_exact) linarith+
    ultimately show ?thesis
      using 2 head spec b t addTokenTicks_eq [of cursor k]
      by (auto simp: not_le m_def)
  next
    case 3
    have "max_int64 \<le> credit * max_int64" using b(5) by simp
    moreover have "credit * max_int64 \<le> credit * k" using 3 b(5) by simp
    ultimately have "maximum \<le> bal + credit * max_int64" "maximum \<le> bal + credit * k"
      using b by linarith+
    then show ?thesis using 3 head spec by (simp add: m_def)
  qed
qed

lemma refill_spec_cursor_ok:
  assumes "time_ok cursor" "time_ok now"
  shows "time_ok (snd (refill_spec bal maximum credit cursor now))"
proof (cases "now < cursor")
  case True
  then show ?thesis using assms by (simp add: refill_spec_def)
next
  case False
  define k where "k = (nanos now - nanos cursor) div 1000"
  define n where "n = nanos cursor + k * 1000"
  have "nanos cursor \<le> nanos now" using False assms by (simp add: time_ok_less_iff)
  then have "nanos cursor \<le> n" "n \<le> nanos now" by (auto simp: n_def k_def)
  then have "time_ok (of_nanos n)"
    using assms by (auto simp: time_ok_def of_nanos_def nanos_def)
  then show ?thesis using False assms by (auto simp: refill_spec_def Let_def n_def k_def)
qed

lemma refill_spec_bounds:
  assumes "0 \<le> bal" "bal \<le> maximum" "0 < credit" "time_ok cursor" "time_ok now"
    and "refill_spec bal maximum credit cursor now = (b, c)"
  shows "bal \<le> b" "b \<le> maximum" "cursor \<le> c" "c \<le> max cursor now" "time_ok c"
    "1000 * (b - bal) \<le> credit * (nanos c - nanos cursor)"
proof -
  define k where "k = (nanos now - nanos cursor) div 1000"
  have tc: "time_ok c" using refill_spec_cursor_ok [OF assms(4,5), of bal maximum credit] assms(6) by simp
  then show "time_ok c" .
  have "bal \<le> b \<and> b \<le> maximum \<and> nanos cursor \<le> nanos c \<and> nanos c \<le> max (nanos cursor) (nanos now)
      \<and> 1000 * (b - bal) \<le> credit * (nanos c - nanos cursor)"
  proof (cases "now < cursor")
    case True
    then show ?thesis using assms by (simp add: refill_spec_def)
  next
    case False
    then have le: "nanos cursor \<le> nanos now" using assms by (simp add: time_ok_less_iff)
    then have k: "0 \<le> k" "k * 1000 \<le> nanos now - nanos cursor" by (auto simp: k_def)
    have ck: "0 \<le> credit * k" using k assms by simp
    have m: "1000 * (credit * k) \<le> credit * (nanos now - nanos cursor)"
      using mult_left_mono [OF k(2), of credit] assms(3) by (simp add: algebra_simps)
    have "refill_spec bal maximum credit cursor now =
        (if maximum \<le> bal + credit * k then (maximum, now)
         else (bal + credit * k, of_nanos (nanos cursor + k * 1000)))"
      using False by (simp add: refill_spec_def Let_def k_def)
    with assms(6) consider
        "maximum \<le> bal + credit * k" "b = maximum" "c = now"
      | "\<not> maximum \<le> bal + credit * k" "b = bal + credit * k" "c = of_nanos (nanos cursor + k * 1000)"
      by (auto split: if_splits)
    then show ?thesis
    proof cases
      case 1
      then have "1000 * (b - bal) \<le> 1000 * (credit * k)" by simp
      then have "1000 * (b - bal) \<le> credit * (nanos c - nanos cursor)"
        unfolding \<open>c = now\<close> using m by (rule order_trans)
      then show ?thesis using 1 assms le by simp
    next
      case 2
      then show ?thesis using assms k ck le by (simp add: algebra_simps)
    qed
  qed
  then show "bal \<le> b" "b \<le> maximum" "1000 * (b - bal) \<le> credit * (nanos c - nanos cursor)"
    and "cursor \<le> c" "c \<le> max cursor now"
    using tc assms(4,5) by (auto simp: time_ok_le_iff max_def split: if_splits)
qed

text \<open>The reconciled state, spelled out.\<close>

definition reconcile_spec :: "tokenBucketState \<Rightarrow> int \<Rightarrow> int \<Rightarrow> int \<Rightarrow> gotime \<Rightarrow> tokenBucketState" where
  "reconcile_spec s cap num den now =
     (let eff = min (capacity s) cap * tokenBalanceScale;
          (b, c) = refill_spec (min (balance s) eff) eff
            (min (credit_of s) (num * (1000000 div den))) (refilledAt s) now;
          changed = (capacity s \<noteq> cap \<or> numerator s \<noteq> num \<or> denominator s \<noteq> den) in
      \<lparr>capacity = cap, balance = b, numerator = num, denominator = den,
        refilledAt = (if changed \<and> \<not> now < refilledAt s then now else c)\<rparr>)"

lemma reconcile_spec_bounds:
  assumes v: "valid_bucket s" and pol: "is_ok (validateTokenBucketPolicy cap num den)"
    and t: "time_ok (refilledAt s)" "time_ok now" "\<not> isZero now"
  defines "s' \<equiv> reconcile_spec s cap num den now"
  shows "valid_bucket s'" "time_ok (refilledAt s')" "refilledAt s \<le> refilledAt s'"
    "refilledAt s' \<le> max (refilledAt s) now"
    "1000 * (balance s' - balance s) \<le>
       min (credit_of s) (credit_of s') * (nanos (refilledAt s') - nanos (refilledAt s))"
    "reconcileTokenBucket s cap num den now = Inr s'"
proof -
  define eff where "eff = min (capacity s) cap * tokenBalanceScale"
  define bal where "bal = min (balance s) eff"
  define credit where "credit = min (credit_of s) (num * (1000000 div den))"
  define changed where "changed = (capacity s \<noteq> cap \<or> numerator s \<noteq> num \<or> denominator s \<noteq> den)"
  obtain b c where bc: "refill_spec bal eff credit (refilledAt s) now = (b, c)" by force
  note vd = valid_bucketD [OF v]
  have cap: "0 < cap" "cap \<le> 9223372" using pol by (simp_all add: validateTokenBucketPolicy_ok)
  obtain nc where nc0: "tokenCreditPerTick num den = Inr nc"
    using pol by (auto simp: validateTokenBucketPolicy_ok)
  have nc: "nc = num * (1000000 div den)" "0 < nc"
    using nc0 [unfolded tokenCreditPerTick_iff] tokenCreditPerTick_pos [OF nc0] by simp_all
  have m: "0 < min (capacity s) cap" "min (capacity s) cap \<le> 9223372" using vd(1,2) cap by auto
  then have "0 < eff" "eff \<le> max_int64" by (simp_all add: eff_def)
  moreover have "0 \<le> bal" "bal \<le> eff" using vd(4) \<open>0 < eff\<close> by (simp_all add: bal_def)
  moreover have "0 < credit" using vd(7) nc by (simp add: credit_def)
  ultimately have bal: "0 \<le> bal" "bal \<le> eff" "0 < eff" "eff \<le> max_int64" "0 < credit"
    by simp_all
  have nz: "\<not> isZero (refilledAt s)" using vd by simp
  note rb = refill_spec_bounds [OF bal(1,2,5) t(1,2) bc]
  have s': "s' = \<lparr>capacity = cap, balance = b, numerator = num, denominator = den,
      refilledAt = (if changed \<and> \<not> now < refilledAt s then now else c)\<rparr>"
    using bc by (simp add: s'_def reconcile_spec_def Let_def eff_def bal_def credit_def changed_def)
  show tok: "time_ok (refilledAt s')" using rb t by (simp add: s')
  show le: "refilledAt s \<le> refilledAt s'" and "refilledAt s' \<le> max (refilledAt s) now"
    using rb by (auto simp: s')
  have nz': "\<not> isZero (refilledAt s')"
  proof -
    have "nanos (refilledAt s) \<noteq> 0" "0 \<le> nanos (refilledAt s)"
      using nz t(1) by (simp_all add: isZero_nanos time_ok_nanos)
    moreover have "nanos (refilledAt s) \<le> nanos (refilledAt s')"
      using le tok t(1) by (simp add: time_ok_le_iff)
    ultimately show ?thesis using tok by (simp add: isZero_nanos)
  qed
  have cr: "credit_of s' = nc" by (simp add: credit_of_def s' nc)
  have "b \<le> cap * tokenBalanceScale" using rb(2) by (simp add: eff_def)
  moreover have "0 \<le> b" using bal(1) rb(1) by simp
  ultimately show v': "valid_bucket s'"
    using cap nc0 nz' cr unfolding valid_bucket_iff by (simp add: s')
  have cle: "c \<le> refilledAt s'"
    using rb by (auto simp: s' max_def not_less split: if_splits)
  have "1000 * (b - balance s) \<le> 1000 * (b - bal)" by (simp add: bal_def)
  also have "\<dots> \<le> credit * (nanos c - nanos (refilledAt s))" by (rule rb(6))
  also have "\<dots> \<le> credit * (nanos (refilledAt s') - nanos (refilledAt s))"
    using cle tok rb(5) bal(5) by (simp add: time_ok_le_iff)
  finally show "1000 * (balance s' - balance s) \<le>
       min (credit_of s) (credit_of s') * (nanos (refilledAt s') - nanos (refilledAt s))"
    using cr nc(1) by (simp add: s' credit_def)
  have effm: "tokenCapacityBalance (min (capacity s) cap) = Some eff"
    using vd cap by (simp add: tokenCapacityBalance_eq eff_def min_def)
  have ok: "is_ok (validatePersistedTokenBucket s)" "is_ok (validatePersistedTokenBucket s')"
    using v v' by (simp_all add: valid_bucket_def)
  have cr': "(case tokenCreditPerTick num den of Inl _ \<Rightarrow> 0 | Inr c \<Rightarrow> c) = nc"
    "(case tokenCreditPerTick (numerator s) (denominator s) of Inl _ \<Rightarrow> 0 | Inr c \<Rightarrow> c) = credit_of s"
    using nc0 vd by simp_all
  have rf: "refillTokenBalance bal eff credit (refilledAt s) now = Inr (b, c)"
    using refillTokenBalance_eq [OF bal t(1,2) nz t(3)] bc by simp
  have "reconcileTokenBucket s cap num den now =
      andThen (refillTokenBalance bal eff credit (refilledAt s) now) (\<lambda>(bal', cursor).
        let cursor' = (if changed \<and> \<not> now < refilledAt s then now else cursor);
            result = \<lparr>capacity = cap, balance = bal', numerator = num, denominator = den,
              refilledAt = cursor'\<rparr> in
        if \<not> is_ok (validatePersistedTokenBucket result) then Inl ErrInvalidState else Inr result)"
    unfolding reconcileTokenBucket_def Let_def effm option.case cr'
      bal_def credit_def changed_def nc(1)
    using ok(1) pol t(3) by simp
  then show "reconcileTokenBucket s cap num den now = Inr s'"
    using ok(2) by (simp add: rf Let_def s')
qed

lemma reserveTokenBalance_eq:
  assumes "valid_bucket s" "0 < units" "units \<le> capacity s"
  shows "reserveTokenBalance s units =
    Inr (if balance s < units * tokenBalanceScale then (s, False)
         else (s\<lparr>balance := balance s - units * tokenBalanceScale\<rparr>, True))"
proof -
  have "units \<le> 9223372" using assms valid_bucketD(2) by fastforce
  moreover have "balance s \<le> max_int64"
    using valid_bucketD(5) [OF assms(1)] valid_bucket_capacity [OF assms(1)] by linarith
  ultimately show ?thesis
    using assms by (auto simp: reserveTokenBalance_def valid_bucket_def Let_def go_arith)
qed

lemma valid_bucket_balance:
  "valid_bucket s \<Longrightarrow> 0 \<le> b \<Longrightarrow> b \<le> capacity s * tokenBalanceScale \<Longrightarrow> valid_bucket (s\<lparr>balance := b\<rparr>)"
  by (simp add: valid_bucket_iff credit_of_def)

lemma refundTokenBalance_eq:
  assumes "valid_bucket s" "0 < units" "units \<le> 9223372" "\<not> isZero now"
  shows "refundTokenBalance s units now =
    Inr (if capacity s * tokenBalanceScale \<le> balance s + units * tokenBalanceScale
         then s\<lparr>balance := capacity s * tokenBalanceScale, refilledAt := max (refilledAt s) now\<rparr>
         else s\<lparr>balance := balance s + units * tokenBalanceScale\<rparr>)"
proof -
  note v = valid_bucketD [OF assms(1)] valid_bucket_capacity [OF assms(1)]
  have m: "sub64 (capacity s * tokenBalanceScale) (balance s) = capacity s * tokenBalanceScale - balance s"
    using v by (intro sub64_exact) linarith+
  have r: "mul64 units tokenBalanceScale = units * tokenBalanceScale"
    using assms by (simp add: go_arith)
  have a: "balance s + units * tokenBalanceScale < capacity s * tokenBalanceScale \<Longrightarrow>
      add64 (balance s) (units * tokenBalanceScale) = balance s + units * tokenBalanceScale"
    using v assms by (intro add64_exact) linarith+
  have ok: "is_ok (validatePersistedTokenBucket s)" using assms(1) by (simp add: valid_bucket_def)
  have q: "quot64 max_int64 tokenBalanceScale = 9223372" by (simp add: go_arith)
  have head: "refundTokenBalance s units now =
     (if capacity s * tokenBalanceScale \<le> balance s + units * tokenBalanceScale
      then let full = s\<lparr>balance := capacity s * tokenBalanceScale\<rparr> in
          Inr (if \<not> now < refilledAt s then full\<lparr>refilledAt := now\<rparr> else full)
      else Inr (s\<lparr>balance := add64 (balance s) (units * tokenBalanceScale)\<rparr>))"
    unfolding refundTokenBalance_def q tokenCapacityBalance_eq [OF v(1,2)] option.case Let_def r m
    using assms ok by auto
  show ?thesis
    unfolding head using a by (auto simp: Let_def max_def not_less)
qed

definition retry_ticks :: "tokenBucketState \<Rightarrow> int \<Rightarrow> int" where
  "retry_ticks s units = 1 + (units * tokenBalanceScale - balance s - 1) div credit_of s"

lemma retry_ticks_le_iff:
  "valid_bucket s \<Longrightarrow> retry_ticks s units \<le> k \<longleftrightarrow> units * tokenBalanceScale \<le> balance s + credit_of s * k"
  using ceiling_le_iff [of "credit_of s" "units * tokenBalanceScale - balance s" k] valid_bucketD(7)
  by (auto simp: retry_ticks_def)

lemma tokenRetryAt_eq:
  assumes v: "valid_bucket s" and u: "0 < units" "units \<le> capacity s"
    and t: "db_time (refilledAt s)" "\<not> isZero now"
  shows "tokenRetryAt s units now =
    Inr (if units * tokenBalanceScale \<le> balance s then now
         else max now (of_nanos (nanos (refilledAt s) + retry_ticks s units * 1000)))"
proof (cases "units * tokenBalanceScale \<le> balance s")
  case True
  then show ?thesis
    using assms valid_bucketD(2) [OF v] by (auto simp: tokenRetryAt_def valid_bucket_def Let_def go_arith)
next
  case False
  note vd = valid_bucketD [OF v]
  define m where "m = units * tokenBalanceScale - balance s"
  have m: "0 < m" "m \<le> max_int64" using False vd u by (auto simp: m_def)
  have q: "quot64 max_int64 tokenBalanceScale = 9223372" by (simp add: go_arith)
  have r: "mul64 units tokenBalanceScale = units * tokenBalanceScale"
    using u vd by (simp add: go_arith)
  have d: "sub64 (units * tokenBalanceScale) (balance s) = m"
    using m by (simp add: m_def sub64_def)
  have rt: "ceilingDivision m (credit_of s) = Inr (retry_ticks s units)"
    using ceilingDivision_eq [OF m vd(7)] by (simp add: retry_ticks_def m_def)
  have "0 \<le> (m - 1) div credit_of s" using m vd by (simp add: pos_imp_zdiv_nonneg_iff)
  moreover have "(m - 1) div credit_of s \<le> m - 1" using m vd by (intro div_le_self_int) auto
  ultimately have b: "0 \<le> retry_ticks s units" "retry_ticks s units \<le> max_int64"
    using m by (auto simp: retry_ticks_def m_def)
  have ad: "addTokenTicks (refilledAt s) (retry_ticks s units) =
      Inr (of_nanos (nanos (refilledAt s) + retry_ticks s units * 1000))"
    using t b by (intro addTokenTicks_eq) (auto simp: db_time_def)
  have ok: "is_ok (validatePersistedTokenBucket s)" using v by (simp add: valid_bucket_def)
  have "tokenRetryAt s units now =
     (let retryAt = of_nanos (nanos (refilledAt s) + retry_ticks s units * 1000) in
      if retryAt < now then Inr now else Inr retryAt)"
    unfolding tokenRetryAt_def q r d vd(6) sum.case rt ad Let_def
    using ok u vd False t by (auto simp: d rt ad)
  then show ?thesis using False by (auto simp: Let_def max_def)
qed

lemma refill_spec_compose:
  assumes b: "bal \<le> maximum" "0 < credit" and t: "time_ok cursor" "time_ok t1" "time_ok t2" "t1 \<le> t2"
    and r: "refill_spec bal maximum credit cursor t1 = (b1, c1)"
  shows "refill_spec b1 maximum credit c1 t2 = refill_spec bal maximum credit cursor t2"
proof (cases "t1 < cursor")
  case True
  then show ?thesis using r by (simp add: refill_spec_def)
next
  case False
  define k1 where "k1 = (nanos t1 - nanos cursor) div 1000"
  define k2 where "k2 = (nanos t2 - nanos cursor) div 1000"
  have le: "nanos cursor \<le> nanos t1" "nanos t1 \<le> nanos t2"
    using False t by (simp_all add: time_ok_less_iff time_ok_le_iff)
  have k: "0 \<le> k1" "k1 \<le> k2" "k1 * 1000 \<le> nanos t1 - nanos cursor"
    using le by (auto simp: k1_def k2_def zdiv_mono1)
  have ck: "credit * k1 \<le> credit * k2" using k b by simp
  have nb: "\<not> t2 < cursor" "\<not> t2 < t1" using False t(4) by auto
  have s1: "refill_spec bal maximum credit cursor t1 =
        (if maximum \<le> bal + credit * k1 then (maximum, t1)
         else (bal + credit * k1, of_nanos (nanos cursor + k1 * 1000)))"
    using False by (simp add: refill_spec_def Let_def k1_def)
  have s2: "refill_spec bal maximum credit cursor t2 =
        (if maximum \<le> bal + credit * k2 then (maximum, t2)
         else (bal + credit * k2, of_nanos (nanos cursor + k2 * 1000)))"
    using nb by (simp add: refill_spec_def Let_def k2_def)
  show ?thesis
  proof (cases "maximum \<le> bal + credit * k1")
    case True
    have "0 \<le> credit * ((nanos t2 - nanos t1) div 1000)"
      using le b by (simp add: pos_imp_zdiv_nonneg_iff)
    then have "refill_spec maximum maximum credit t1 t2 = (maximum, t2)"
      using nb by (simp add: refill_spec_def Let_def)
    then show ?thesis using True s1 s2 r ck by simp
  next
    case False
    then have bc: "b1 = bal + credit * k1" "c1 = of_nanos (nanos cursor + k1 * 1000)"
      using s1 r by auto
    have n1: "nanos c1 = nanos cursor + k1 * 1000" by (simp add: bc)
    have "0 \<le> nanos cursor + k1 * 1000" using k time_ok_nanos [OF t(1)] by simp
    then have c1: "time_ok c1"
      using time_ok_of_nanos [of "nanos cursor + k1 * 1000" t1] k t(2) bc by simp
    have "\<not> t2 < c1" using c1 t k le by (simp add: time_ok_less_iff n1)
    moreover have "(nanos t2 - nanos c1) div 1000 = k2 - k1"
    proof -
      have "nanos t2 - nanos c1 = (nanos t2 - nanos cursor) + (- k1) * 1000" by (simp add: n1)
      then show ?thesis by (simp only: k2_def)
    qed
    ultimately have "refill_spec b1 maximum credit c1 t2 =
        (if maximum \<le> b1 + credit * (k2 - k1) then (maximum, t2)
         else (b1 + credit * (k2 - k1), of_nanos (nanos c1 + (k2 - k1) * 1000)))"
      by (simp add: refill_spec_def)
    then show ?thesis
      unfolding s2 by (simp add: bc(1) n1 algebra_simps)
  qed
qed

lemma reconcile_same_policy:
  assumes "valid_bucket s"
  shows "reconcile_spec s (capacity s) (numerator s) (denominator s) now =
    (case refill_spec (balance s) (capacity s * tokenBalanceScale) (credit_of s) (refilledAt s) now of
       (b, c) \<Rightarrow> s\<lparr>balance := b, refilledAt := c\<rparr>)"
  using valid_bucketD(5) [OF assms]
  by (simp add: reconcile_spec_def Let_def credit_of_def min_def split: prod.splits)

lemma reconcile_spec_fields [simp]:
  "capacity (reconcile_spec s cap num den now) = cap"
  "numerator (reconcile_spec s cap num den now) = num"
  "denominator (reconcile_spec s cap num den now) = den"
  by (simp_all add: reconcile_spec_def Let_def split: prod.splits)

lemma policy_ok_self: "valid_bucket s \<Longrightarrow> is_ok (validateTokenBucketPolicy (capacity s) (numerator s) (denominator s))"
  by (simp add: valid_bucket_iff validateTokenBucketPolicy_ok)

lemma admitToken_eq:
  assumes v: "valid_bucket s" and p: "is_ok (validateTokenBucketPolicy cap num den)"
    and t: "db_time (refilledAt s)" "db_time now" and u: "0 < units" "units \<le> cap"
  defines "s' \<equiv> reconcile_spec s cap num den now"
  shows "admitToken s cap num den units now =
    Inr (if balance s' < units * tokenBalanceScale then (s', False)
         else (s'\<lparr>balance := balance s' - units * tokenBalanceScale\<rparr>, True))"
proof -
  note rb = reconcile_spec_bounds [OF v p db_timeD(1) [OF t(1)] db_timeD [OF t(2)], folded s'_def]
  have c: "capacity s' = cap" by (simp add: s'_def)
  have "gt_sec (refilledAt s') \<le> 1000000000000000"
    using rb(4) t by (auto simp: db_time_def less_eq_gotime_def max_def split: if_splits)
  moreover have "\<not> isZero (refilledAt s')" using valid_bucketD(3) [OF rb(1)] .
  ultimately have "db_time (refilledAt s')" using rb(2) by (simp add: db_time_def)
  then have "\<exists>r. tokenRetryAt s' units now = Inr r"
    using tokenRetryAt_eq [OF rb(1) u(1)] u(2) c db_timeD(2) [OF t(2)] by simp
  then show ?thesis
    using rb(6) reserveTokenBalance_eq [OF rb(1) u(1)] u(2) c
    by (auto simp: admitToken_def)
qed

lemma admitToken_Inr_args:
  assumes "admitToken s cap num den units now = Inr r"
  shows "is_ok (validateTokenBucketPolicy cap num den)" "0 < units" "units \<le> cap"
proof -
  obtain s' where s': "reconcileTokenBucket s cap num den now = Inr s'"
    and res: "reserveTokenBalance s' units = Inr r"
    using assms by (auto simp: admitToken_def go_result)
  show "is_ok (validateTokenBucketPolicy cap num den)"
    using s' by (auto simp: reconcileTokenBucket_def split: if_splits)
  have "capacity s' = cap"
    using s' by (auto simp: reconcileTokenBucket_def Let_def go_result split: if_splits prod.splits)
  then show "0 < units" "units \<le> cap"
    using res by (auto simp: reserveTokenBalance_def split: if_splits)
qed

lemma admitToken_step:
  assumes v: "valid_bucket s" and t: "db_time (refilledAt s)" "db_time now"
    and a: "admitToken s cap num den units now = Inr (s', ok)"
  shows "valid_bucket s'" "db_time (refilledAt s')" "refilledAt s \<le> refilledAt s'"
    "refilledAt s' \<le> max (refilledAt s) now" "credit_of s' = num * (1000000 div den)"
    "1000 * (balance s' + (if ok then units * tokenBalanceScale else 0)) \<le>
      1000 * balance s + credit_of s' * (nanos (refilledAt s') - nanos (refilledAt s))"
proof -
  note args = admitToken_Inr_args [OF a]
  define r where "r = reconcile_spec s cap num den now"
  note rb = reconcile_spec_bounds [OF v args(1) db_timeD(1) [OF t(1)] db_timeD [OF t(2)], folded r_def]
  have s': "s' = (if ok then r\<lparr>balance := balance r - units * tokenBalanceScale\<rparr> else r)"
      "ok \<Longrightarrow> units * tokenBalanceScale \<le> balance r"
    using a admitToken_eq [OF v args(1) t args(2,3), folded r_def] by (auto split: if_splits)
  have ref: "refilledAt s' = refilledAt r" "credit_of s' = credit_of r" by (auto simp: s' credit_of_def)
  show "valid_bucket s'"
    using s' rb(1) args(2) valid_bucketD(5) [OF rb(1)]
    by (cases ok) (auto intro!: valid_bucket_balance)
  show le: "refilledAt s \<le> refilledAt s'" and ub: "refilledAt s' \<le> max (refilledAt s) now"
    using rb(3,4) by (simp_all add: ref)
  have "gt_sec (refilledAt r) \<le> 1000000000000000"
    using rb(4) t by (auto simp: db_time_def less_eq_gotime_def max_def split: if_splits)
  then show "db_time (refilledAt s')"
    using rb(2) valid_bucketD(3) [OF rb(1)] by (simp add: db_time_def ref)
  show "credit_of s' = num * (1000000 div den)" unfolding ref by (simp add: credit_of_def r_def)
  have d: "0 \<le> nanos (refilledAt r) - nanos (refilledAt s)"
    using rb(2,3) db_timeD(1) [OF t(1)] by (simp add: time_ok_le_iff)
  have "1000 * (balance r - balance s) \<le> credit_of r * (nanos (refilledAt r) - nanos (refilledAt s))"
    using rb(5) mult_right_mono [OF min.cobounded2 d, of "credit_of s" "credit_of r"] by linarith
  moreover have e: "balance s' + (if ok then units * tokenBalanceScale else 0) = balance r"
    by (simp add: s'(1))
  ultimately show "1000 * (balance s' + (if ok then units * tokenBalanceScale else 0)) \<le>
      1000 * balance s + credit_of s' * (nanos (refilledAt s') - nanos (refilledAt s))"
    unfolding ref e by (simp add: algebra_simps)
qed

lemma admitRun_potential:
  assumes "valid_bucket s" "db_time (refilledAt s)" "refilledAt s \<le> T" "0 \<le> C"
    and "\<forall>(cap, num, den, units, now) \<in> set reqs.
      db_time now \<and> now \<le> T \<and> num * (1000000 div den) \<le> C"
    and "foldl admitStep (s, g) reqs = (s', g')"
  shows "valid_bucket s' \<and> db_time (refilledAt s') \<and> refilledAt s' \<le> T \<and> refilledAt s \<le> refilledAt s' \<and>
    1000 * (balance s' + (g' - g) * tokenBalanceScale) \<le>
      1000 * balance s + C * (nanos (refilledAt s') - nanos (refilledAt s))"
  using assms
proof (induction reqs arbitrary: s g)
  case Nil
  then show ?case by simp
next
  case (Cons req reqs)
  obtain cap num den units now where req: "req = (cap, num, den, units, now)" by (cases req) auto
  have now: "db_time now" "now \<le> T" "num * (1000000 div den) \<le> C"
    using Cons.prems(5) by (simp_all add: req)
  show ?case
  proof (cases "admitToken s cap num den units now")
    case (Inl e)
    then have "admitStep (s, g) req = (s, g)" by (simp add: admitStep_def req)
    then show ?thesis using Cons.IH [of s g] Cons.prems by simp
  next
    case (Inr r)
    obtain s1 ok where r: "r = (s1, ok)" by (cases r)
    define g1 where "g1 = (if ok then g + units else g)"
    have st: "admitStep (s, g) req = (s1, g1)" using Inr r by (simp add: admitStep_def req g1_def)
    note step = admitToken_step [OF Cons.prems(1,2) now(1) Inr [unfolded r]]
    have T1: "refilledAt s1 \<le> T" using step(4) Cons.prems(3) now(2) by (auto simp: max_def split: if_splits)
    have ih: "valid_bucket s' \<and> db_time (refilledAt s') \<and> refilledAt s' \<le> T \<and> refilledAt s1 \<le> refilledAt s' \<and>
      1000 * (balance s' + (g' - g1) * tokenBalanceScale) \<le>
        1000 * balance s1 + C * (nanos (refilledAt s') - nanos (refilledAt s1))"
      using Cons.IH [of s1 g1] step(1,2) T1 Cons.prems(4,5,6) st by simp
    have "nanos (refilledAt s) \<le> nanos (refilledAt s1)"
      using step(2,3) Cons.prems(2) by (simp add: time_ok_le_iff db_timeD)
    then have "credit_of s1 * (nanos (refilledAt s1) - nanos (refilledAt s)) \<le>
        C * (nanos (refilledAt s1) - nanos (refilledAt s))"
      using step(5) now(3) by (intro mult_right_mono) auto
    moreover have "C * (nanos (refilledAt s') - nanos (refilledAt s1)) +
        C * (nanos (refilledAt s1) - nanos (refilledAt s)) =
        C * (nanos (refilledAt s') - nanos (refilledAt s))"
      by (simp add: algebra_simps)
    moreover have "(g' - g) * tokenBalanceScale =
        (g' - g1) * tokenBalanceScale + (if ok then units * tokenBalanceScale else 0)"
      by (simp add: g1_def algebra_simps)
    ultimately show ?thesis using ih step(3,6) by auto
  qed
qed

lemma refill_spec_reaches:
  assumes v: "valid_bucket s" and t: "time_ok (refilledAt s)" "time_ok now"
    and u: "units \<le> capacity s" and n: "balance s < units * tokenBalanceScale"
  shows "units * tokenBalanceScale \<le>
      balance (reconcile_spec s (capacity s) (numerator s) (denominator s) now) \<longleftrightarrow>
    nanos (refilledAt s) + retry_ticks s units * 1000 \<le> nanos now"
proof -
  let ?m = "capacity s * tokenBalanceScale" and ?b = "units * tokenBalanceScale"
  define k where "k = (nanos now - nanos (refilledAt s)) div 1000"
  obtain b c where bc: "refill_spec (balance s) ?m (credit_of s) (refilledAt s) now = (b, c)" by force
  have bal: "balance (reconcile_spec s (capacity s) (numerator s) (denominator s) now) = b"
    using bc by (simp add: reconcile_same_policy [OF v])
  have "\<not> retry_ticks s units \<le> 0" using n by (simp add: retry_ticks_le_iff [OF v])
  then have pos: "0 < retry_ticks s units" by simp
  show ?thesis
  proof (cases "now < refilledAt s")
    case True
    then have "b = balance s" "nanos now < nanos (refilledAt s)"
      using bc t by (simp_all add: refill_spec_def time_ok_less_iff)
    then show ?thesis using n pos unfolding bal by linarith
  next
    case False
    have "?b \<le> ?m" using u by simp
    moreover have "b = min ?m (balance s + credit_of s * k)"
      using bc False by (auto simp: refill_spec_def Let_def k_def split: if_splits)
    ultimately have "?b \<le> b \<longleftrightarrow> retry_ticks s units \<le> k"
      by (auto simp: retry_ticks_le_iff [OF v])
    also have "\<dots> \<longleftrightarrow> retry_ticks s units * 1000 \<le> nanos now - nanos (refilledAt s)"
      unfolding k_def by (rule le_div_iff_int) simp
    finally show ?thesis unfolding bal by linarith
  qed
qed

text \<open>A concrete bucket for the witnesses below.\<close>

definition ex_bucket :: tokenBucketState where
  "ex_bucket = \<lparr>capacity = 5, balance = 2000000000000, numerator = 1, denominator = 1,
     refilledAt = GoTime 63900000000 0\<rparr>"

lemma ex_bucket_valid: "valid_bucket ex_bucket" "db_time (refilledAt ex_bucket)"
  by code_simp+

section \<open>Properties\<close>

text \<open>
  C1 (rate limit).  Over any history of reservations on one bucket, whatever their
  units, their order in time and the policies selected for them, the tokens granted
  up to an instant \<open>T\<close> are at most the initial balance plus the credit that a bound
  \<open>C\<close> on the selected rates earns from the initial refill time to \<open>T\<close>.  (Balances are
  in units of \<open>10\<^sup>-\<^sup>1\<^sup>2\<close> token and a tick is 1000 nanoseconds.)
\<close>

theorem token_bucket_rate_limit:
  assumes "valid_bucket s" "db_time (refilledAt s)" "db_time T" "refilledAt s \<le> T" "0 \<le> C"
    and "\<forall>(cap, num, den, units, now) \<in> set reqs.
      db_time now \<and> now \<le> T \<and> num * (1000000 div den) \<le> C"
  shows "1000 * (snd (admitRun s reqs) * tokenBalanceScale) \<le>
    1000 * balance s + C * (nanos T - nanos (refilledAt s))"
proof -
  obtain s' g' where run: "foldl admitStep (s, 0) reqs = (s', g')" by force
  note p = admitRun_potential [OF assms(1,2,4,5,6) run]
  have "0 \<le> balance s'" using p valid_bucketD(4) by blast
  moreover have "C * (nanos (refilledAt s') - nanos (refilledAt s)) \<le> C * (nanos T - nanos (refilledAt s))"
    using p assms(3,5) by (intro mult_left_mono) (auto simp: time_ok_le_iff db_timeD)
  ultimately show ?thesis using p by (simp add: admitRun_def run)
qed

theorem token_bucket_rate_limit_witness:
  "1000 * (snd (admitRun ex_bucket [(5, 1, 1, 2, GoTime 63900000001 0), (5, 1, 1, 4, GoTime 63900000003 0)])
      * tokenBalanceScale) \<le>
    1000 * balance ex_bucket + 1000000 * (nanos (GoTime 63900000003 0) - nanos (refilledAt ex_bucket))"
  by (rule token_bucket_rate_limit [OF ex_bucket_valid]) code_simp+

text \<open>
  C2.  Reconciling a valid stored state with a valid selected policy always succeeds
  and gives a valid state with the selected policy.  The refill time never moves
  backwards and never past the later of the stored time and now, and the balance
  grows by at most the credit of the slower of the two policies for the time the
  refill time advanced.
\<close>

theorem reconcile_sound:
  assumes "valid_bucket s" "is_ok (validateTokenBucketPolicy cap num den)"
    and "db_time (refilledAt s)" "db_time now"
  shows "\<exists>s'. reconcileTokenBucket s cap num den now = Inr s' \<and> valid_bucket s' \<and>
    capacity s' = cap \<and> numerator s' = num \<and> denominator s' = den \<and>
    refilledAt s \<le> refilledAt s' \<and> refilledAt s' \<le> max (refilledAt s) now \<and>
    1000 * (balance s' - balance s) \<le>
      min (credit_of s) (credit_of s') * (nanos (refilledAt s') - nanos (refilledAt s))"
  using reconcile_spec_bounds [OF assms(1,2) db_timeD(1) [OF assms(3)] db_timeD [OF assms(4)]]
  by (intro exI [where x = "reconcile_spec s cap num den now"] conjI) simp_all

theorem reconcile_sound_witness:
  "\<exists>s'. reconcileTokenBucket ex_bucket 7 1 2 (GoTime 63900000010 0) = Inr s' \<and> valid_bucket s' \<and>
    capacity s' = 7 \<and> numerator s' = 1 \<and> denominator s' = 2 \<and>
    refilledAt ex_bucket \<le> refilledAt s' \<and>
    refilledAt s' \<le> max (refilledAt ex_bucket) (GoTime 63900000010 0) \<and>
    1000 * (balance s' - balance ex_bucket) \<le>
      min (credit_of ex_bucket) (credit_of s') * (nanos (refilledAt s') - nanos (refilledAt ex_bucket))"
  by (rule reconcile_sound [OF ex_bucket_valid(1) _ ex_bucket_valid(2)]) code_simp+

text \<open>
  C3.  Observing a bucket does not change what it will hold: reconciling under an
  unchanged policy at \<open>t1\<close> and again at a later \<open>t2\<close> gives exactly the state of one
  reconciliation at \<open>t2\<close>.  No fraction of a tick is lost or gained by a denied or
  unrelated request in between.
\<close>

theorem reconcile_compose:
  assumes v: "valid_bucket s" and t: "db_time (refilledAt s)" "db_time t1" "db_time t2" "t1 \<le> t2"
    and r: "reconcileTokenBucket s (capacity s) (numerator s) (denominator s) t1 = Inr s1"
  shows "reconcileTokenBucket s1 (capacity s) (numerator s) (denominator s) t2 =
    reconcileTokenBucket s (capacity s) (numerator s) (denominator s) t2"
proof -
  note ok = db_timeD(1) [OF t(1)] db_timeD(1) [OF t(2)] db_timeD(1) [OF t(3)]
  let ?m = "capacity s * tokenBalanceScale"
  obtain b1 c1 where r1: "refill_spec (balance s) ?m (credit_of s) (refilledAt s) t1 = (b1, c1)" by force
  note rb1 = reconcile_spec_bounds [OF v policy_ok_self [OF v] ok(1,2) db_timeD(2) [OF t(2)]]
  note rb2 = reconcile_spec_bounds [OF v policy_ok_self [OF v] ok(1,3) db_timeD(2) [OF t(3)]]
  have s1: "s1 = s\<lparr>balance := b1, refilledAt := c1\<rparr>"
    using r rb1(6) r1 by (simp add: reconcile_same_policy [OF v])
  have v1: "valid_bucket s1" "time_ok (refilledAt s1)" using rb1(1,2,6) r by simp_all
  have f: "capacity s1 = capacity s" "numerator s1 = numerator s" "denominator s1 = denominator s"
      "credit_of s1 = credit_of s" "balance s1 = b1" "refilledAt s1 = c1"
    by (simp_all add: s1 credit_of_def)
  have cmp: "refill_spec b1 ?m (credit_of s) c1 t2 =
      refill_spec (balance s) ?m (credit_of s) (refilledAt s) t2"
    using valid_bucketD(5,7) [OF v] ok t(4) r1 by (intro refill_spec_compose)
  have "reconcile_spec s1 (capacity s) (numerator s) (denominator s) t2 =
      reconcile_spec s (capacity s) (numerator s) (denominator s) t2"
    unfolding reconcile_same_policy [OF v] cmp [symmetric]
    using reconcile_same_policy [OF v1(1), of t2, unfolded f] by (simp add: s1)
  moreover have "reconcileTokenBucket s1 (capacity s) (numerator s) (denominator s) t2 =
      Inr (reconcile_spec s1 (capacity s) (numerator s) (denominator s) t2)"
    using reconcile_spec_bounds(6) [OF v1(1) policy_ok_self [OF v1(1)] v1(2) ok(3) db_timeD(2) [OF t(3)]]
    by (simp add: f)
  ultimately show ?thesis using rb2(6) by simp
qed

theorem reconcile_compose_witness:
  "reconcileTokenBucket (ex_bucket\<lparr>balance := 2000001000000, refilledAt := GoTime 63900000000 1000\<rparr>)
      (capacity ex_bucket) (numerator ex_bucket) (denominator ex_bucket) (GoTime 63900000001 0) =
    reconcileTokenBucket ex_bucket (capacity ex_bucket) (numerator ex_bucket) (denominator ex_bucket)
      (GoTime 63900000001 0)"
  by (rule reconcile_compose [OF ex_bucket_valid, where ?t1.0 = "GoTime 63900000000 1500"]) code_simp+

text \<open>
  C4.  The retry time reported with a denial is the earliest one: at that instant the
  same reservation is granted, and at every instant from now up to it it is denied.
\<close>

theorem token_retry_earliest:
  assumes v: "valid_bucket s" and u: "0 < units" "units \<le> capacity s"
    and t: "db_time (refilledAt s)" "db_time now" "gt_sec (refilledAt s) \<le> 900000000000000"
    and r: "tokenRetryAt s units now = Inr retryAt"
  shows "now \<le> retryAt \<and>
    (\<exists>s'. admitToken s (capacity s) (numerator s) (denominator s) units retryAt = Inr (s', True)) \<and>
    (\<forall>at. db_time at \<longrightarrow> now \<le> at \<longrightarrow> at < retryAt \<longrightarrow>
      (\<exists>s'. admitToken s (capacity s) (numerator s) (denominator s) units at = Inr (s', False)))"
proof -
  let ?b = "units * tokenBalanceScale"
  let ?rec = "reconcile_spec s (capacity s) (numerator s) (denominator s)"
  let ?adm = "admitToken s (capacity s) (numerator s) (denominator s) units"
  note adm = admitToken_eq [OF v policy_ok_self [OF v] t(1) _ u]
  note ok = db_timeD(1) [OF t(1)]
  show ?thesis
  proof (cases "?b \<le> balance s")
    case True
    then have "retryAt = now" using r tokenRetryAt_eq [OF v u t(1) db_timeD(2) [OF t(2)]] by simp
    moreover have "balance s \<le> balance (?rec now)"
      using refill_spec_bounds(1) [of "balance s" "capacity s * tokenBalanceScale" "credit_of s"
          "refilledAt s" now] valid_bucketD [OF v] ok db_timeD(1) [OF t(2)]
      by (auto simp: reconcile_same_policy [OF v] split: prod.splits)
    ultimately show ?thesis using adm [OF t(2)] True by auto
  next
    case False
    define e where "e = nanos (refilledAt s) + retry_ticks s units * 1000"
    have ra: "retryAt = max now (of_nanos e)"
      using r False tokenRetryAt_eq [OF v u t(1) db_timeD(2) [OF t(2)]] by (simp add: e_def)
    have "retry_ticks s units \<le> max_int64"
      using retry_ticks_le_iff [OF v, of units max_int64] valid_bucketD(1,2,4,7) [OF v] u
        mult_right_mono [of 1 "credit_of s" max_int64]
      by linarith
    moreover have "\<not> retry_ticks s units \<le> 0"
      using False by (simp add: retry_ticks_le_iff [OF v])
    moreover have "0 \<le> gt_nsec (refilledAt s)" "gt_nsec (refilledAt s) < 1000000000"
        "0 \<le> gt_sec (refilledAt s)"
      using ok by (simp_all add: time_ok_def)
    ultimately have e: "0 < e" "e div 1000000000 \<le> 1000000000000000"
      using t(3) by (simp_all add: e_def nanos_def)
    have te: "db_time (of_nanos e)" using e by (auto simp: db_time_def time_ok_def of_nanos_def isZero_def)
    have dra: "db_time retryAt" using te t(2) by (simp add: ra max_def)
    have "of_nanos e \<le> retryAt" by (simp add: ra)
    then have "e \<le> nanos retryAt"
      using time_ok_le_iff [OF db_timeD(1) [OF te] db_timeD(1) [OF dra]] by simp
    then have "?b \<le> balance (?rec retryAt)"
      using refill_spec_reaches [OF v ok db_timeD(1) [OF dra] u(2)] False by (simp add: e_def)
    then have "\<exists>s'. ?adm retryAt = Inr (s', True)" using adm [OF dra] by auto
    moreover have "\<exists>s'. ?adm at = Inr (s', False)" if "db_time at" "now \<le> at" "at < retryAt" for at
    proof -
      have "at < of_nanos e" using that ra by (auto simp: max_def split: if_splits)
      then have "\<not> e \<le> nanos at" using that(1) te by (simp add: time_ok_less_iff db_timeD)
      then have "balance (?rec at) < ?b"
        using refill_spec_reaches [OF v ok db_timeD(1) [OF that(1)] u(2)] False by (simp add: e_def)
      then show ?thesis using adm [OF that(1)] by auto
    qed
    ultimately show ?thesis by (auto simp: ra)
  qed
qed

theorem token_retry_earliest_witness:
  "(\<exists>s'. admitToken ex_bucket (capacity ex_bucket) (numerator ex_bucket) (denominator ex_bucket) 3
      (GoTime 63900000001 0) = Inr (s', True)) \<and>
   (\<exists>s'. admitToken ex_bucket (capacity ex_bucket) (numerator ex_bucket) (denominator ex_bucket) 3
      (GoTime 63900000000 999999999) = Inr (s', False))"
proof -
  have h: "(0 :: int) < 3" "3 \<le> capacity ex_bucket" "db_time (GoTime 63900000000 500)"
      "gt_sec (refilledAt ex_bucket) \<le> 900000000000000"
      "tokenRetryAt ex_bucket 3 (GoTime 63900000000 500) = Inr (GoTime 63900000001 0)"
    by code_simp+
  have at: "db_time (GoTime 63900000000 999999999)" "GoTime 63900000000 500 \<le> GoTime 63900000000 999999999"
      "GoTime 63900000000 999999999 < GoTime 63900000001 0"
    by code_simp+
  show ?thesis
    using token_retry_earliest [OF ex_bucket_valid(1) h(1,2) ex_bucket_valid(2) h(3-5)] at by blast
qed

text \<open>
  C5.  Releasing a reservation undoes it: after a granted reservation of \<open>units\<close>, a
  refund of the same units restores the balance exactly and gives a valid state.
\<close>

theorem reserve_refund_restores:
  assumes v: "valid_bucket s" and r: "reserveTokenBalance s units = Inr (s1, True)" and n: "\<not> isZero now"
  shows "\<exists>s2. refundTokenBalance s1 units now = Inr s2 \<and> balance s2 = balance s \<and> valid_bucket s2"
proof -
  have u: "0 < units" "units \<le> capacity s"
    using r by (auto simp: reserveTokenBalance_def split: if_splits)
  have s1: "s1 = s\<lparr>balance := balance s - units * tokenBalanceScale\<rparr>" "units * tokenBalanceScale \<le> balance s"
    using r reserveTokenBalance_eq [OF v u] by (auto split: if_splits)
  have v1: "valid_bucket s1"
    using s1 u valid_bucketD(4,5) [OF v] by (auto intro!: valid_bucket_balance [OF v])
  have nz: "\<not> isZero (max (refilledAt s1) now)"
    using valid_bucketD(3) [OF v1] n by (simp add: max_def)
  have "units \<le> 9223372" using u valid_bucketD(2) [OF v] by linarith
  with refundTokenBalance_eq [OF v1 u(1) _ n]
  have "refundTokenBalance s1 units now =
      Inr (if capacity s * tokenBalanceScale \<le> balance s
           then s1\<lparr>balance := capacity s * tokenBalanceScale, refilledAt := max (refilledAt s1) now\<rparr>
           else s1\<lparr>balance := balance s\<rparr>)"
    by (simp add: s1)
  then show ?thesis
    using v v1 nz valid_bucketD(4,5) [OF v] valid_bucketD(1) [OF v]
    by (auto simp: valid_bucket_iff credit_of_def s1)
qed

theorem reserve_refund_restores_witness:
  "\<exists>s2. refundTokenBalance (ex_bucket\<lparr>balance := 1000000000000\<rparr>) 1 (GoTime 63900000001 0) = Inr s2 \<and>
    balance s2 = balance ex_bucket \<and> valid_bucket s2"
  by (rule reserve_refund_restores [OF ex_bucket_valid(1)]) code_simp+

end
