(* ===== verification/Go_Date.thy ===== *)
theory Go_Date
  imports Go_Time Go_Strconv
begin

text \<open>
  The civil calendar and the time zones of Go's package \<open>time\<close>: the proleptic
  Gregorian calendar in both directions, local dates in a location, and \<open>time.Date\<close> at
  midnight with Go's way of resolving a local time to an instant.  A location is what
  its lookup returns: for an instant, the offset from UTC in force and the interval
  \<open>[start, end)\<close> of instants for which it is in force.
\<close>

section \<open>Model\<close>

definition isLeap :: "int \<Rightarrow> bool" where
  "isLeap y \<longleftrightarrow> y mod 4 = 0 \<and> (y mod 100 \<noteq> 0 \<or> y mod 400 = 0)"

text \<open>Days from January 1 of year 1 to January 1 of year \<open>y\<close>.\<close>

definition daysBeforeYear :: "int \<Rightarrow> int" where
  "daysBeforeYear y = 365 * (y - 1) + (y - 1) div 4 - (y - 1) div 100 + (y - 1) div 400"

text \<open>Days from January 1 to the first of the month \<open>m\<close> (\<open>m = 13\<close> is the next January).\<close>

definition daysBeforeMonth :: "int \<Rightarrow> int \<Rightarrow> int" where
  "daysBeforeMonth y m =
     [0, 31, 59, 90, 120, 151, 181, 212, 243, 273, 304, 334, 365] ! nat (m - 1) +
     (if 2 < m \<and> isLeap y then 1 else 0)"

definition dateDays :: "int \<Rightarrow> int \<Rightarrow> int \<Rightarrow> int" where
  "dateDays y m d = daysBeforeYear y + daysBeforeMonth y m + (d - 1)"

text \<open>The year of a day, by the cycles of 400, 100, 4 and 1 years.\<close>

definition yearOf :: "int \<Rightarrow> int" where
  "yearOf n =
     (let a = n div 146097; r1 = n mod 146097;
          c = r1 div 36524; c' = c - c div 4; r2 = r1 - 36524 * c';
          q = r2 div 1461; r3 = r2 - 1461 * q;
          u = r3 div 365; u' = u - u div 4 in
      400 * a + 100 * c' + 4 * q + u' + 1)"

fun monthScan :: "int \<Rightarrow> int \<Rightarrow> nat \<Rightarrow> int" where
  "monthScan y d 0 = 1"
| "monthScan y d (Suc k) = (if daysBeforeMonth y (int (Suc k)) \<le> d then int (Suc k) else monthScan y d k)"

definition monthOf :: "int \<Rightarrow> int" where
  "monthOf n = monthScan (yearOf n) (n - daysBeforeYear (yearOf n)) 12"

definition dayOf :: "int \<Rightarrow> int" where
  "dayOf n = n - daysBeforeYear (yearOf n) - daysBeforeMonth (yearOf n) (monthOf n) + 1"

record location =
  loc_name :: string
  loc_lookup :: "int \<Rightarrow> int \<times> int \<times> int"

definition timeUTC :: location where
  "timeUTC = \<lparr>loc_name = ''UTC'', loc_lookup = \<lambda>_. (0, min_int64, max_int64)\<rparr>"

definition loc_offset :: "location \<Rightarrow> int \<Rightarrow> int" where
  "loc_offset loc u = fst (loc_lookup loc u)"

text \<open>The day, counted from January 1 of year 1, that a clock in the location shows, and
  the accessors \<open>Year\<close>, \<open>Month\<close> and \<open>Day\<close> of a time shown there.\<close>

definition localDays :: "location \<Rightarrow> gotime \<Rightarrow> int" where
  "localDays loc t = (gt_sec t + loc_offset loc (unixOf t)) div 86400"

definition time_Year :: "location \<Rightarrow> gotime \<Rightarrow> int" where
  "time_Year loc t = yearOf (localDays loc t)"

definition time_Month :: "location \<Rightarrow> gotime \<Rightarrow> int" where
  "time_Month loc t = monthOf (localDays loc t)"

definition time_Day :: "location \<Rightarrow> gotime \<Rightarrow> int" where
  "time_Day loc t = dayOf (localDays loc t)"

text \<open>
  \<open>time.Date(y, m, d, 0, 0, 0, 0, loc)\<close> for a month from 1 to 12.  The offset is first
  looked up for the date read as if it were UTC.  If the instant this gives is outside
  the interval of that offset, the offset is looked up again for that instant.
\<close>

definition timeDate :: "location \<Rightarrow> int \<Rightarrow> int \<Rightarrow> int \<Rightarrow> gotime" where
  "timeDate loc y m d =
     (let unix = sub64 (mul64 (dateDays y m d) 86400) unixToInternal;
          (offset, start, end) = loc_lookup loc unix;
          utc = sub64 unix offset;
          offset' = (if utc < start \<or> end \<le> utc then loc_offset loc utc else offset) in
      timeUnix (if offset \<noteq> 0 then sub64 unix offset' else unix) 0)"

text \<open>\<open>Format("20060102T150405Z")\<close> of an instant in UTC.\<close>

definition formatUTC :: "gotime \<Rightarrow> string" where
  "formatUTC t =
     (let s = gt_sec t mod 86400 in
      formatPadded 4 (time_Year timeUTC t) @ formatPadded 2 (time_Month timeUTC t) @
      formatPadded 2 (time_Day timeUTC t) @ ''T'' @ formatPadded 2 (s div 3600) @
      formatPadded 2 (s div 60 mod 60) @ formatPadded 2 (s mod 60) @ ''Z'')"

section \<open>The calendar\<close>

lemma daysBeforeYear_step:
  "daysBeforeYear (y + 1) = daysBeforeYear y + (if isLeap y then 366 else 365)"
proof -
  have s: "x div k = (x - 1) div k + (if x mod k = 0 then 1 else 0)" if "0 < k" for x k :: int
  proof (cases "k = 1")
    case False
    then have k: "1 < k" using that by simp
    show ?thesis
    proof (cases "x mod k = 0")
      case True
      then obtain z where z: "x = k * z" by (auto simp: mod_eq_0_iff_dvd)
      have "(k * z - 1) div k = z - 1"
        by (rule int_div_pos_eq [of _ _ _ "k - 1"]) (use k in \<open>simp_all add: algebra_simps\<close>)
      then show ?thesis using True z k by simp
    next
      case False
      have "0 \<le> x mod k" "x mod k < k" using k by simp_all
      then have "(x - 1) div k = x div k"
        using False mult_div_mod_eq [of k x]
        by (intro int_div_pos_eq [of _ _ _ "x mod k - 1"]) linarith+
      then show ?thesis using False by simp
    qed
  qed simp
  obtain A B C p q r where A: "(y - 1) div 4 = A" "(y - 1) div 100 = B" "(y - 1) div 400 = C"
    and p: "(y mod 4 = 0) = p" "(y mod 100 = 0) = q" "(y mod 400 = 0) = r" by simp
  have "r \<Longrightarrow> q" "q \<Longrightarrow> p"
    using dvd_trans [of 100 400 y] dvd_trans [of 4 100 y] by (simp_all flip: p dvd_eq_mod_eq_0)
  moreover have "daysBeforeYear (y + 1) = 365 * y + (A + (if p then 1 else 0)) -
      (B + (if q then 1 else 0)) + (C + (if r then 1 else 0))"
    using s [of 4 y] s [of 100 y] s [of 400 y] by (simp add: daysBeforeYear_def A p)
  moreover have "daysBeforeYear y = 365 * (y - 1) + A - B + C" by (simp add: daysBeforeYear_def A)
  ultimately show ?thesis unfolding isLeap_def p by (cases p; cases q; cases r) simp_all
qed

lemma daysBeforeYear_mono: "a \<le> b \<Longrightarrow> daysBeforeYear a \<le> daysBeforeYear b"
  by (induction b rule: int_ge_induct) (auto simp: daysBeforeYear_step)

lemma div_bounds: "0 < k \<Longrightarrow> k * (x div k) \<le> x \<and> x < k * (x div k) + k" for x k :: int
  using mult_div_mod_eq [of k x] pos_mod_sign [of k x] pos_mod_bound [of k x] by linarith

text \<open>Splitting a cycle of three short parts and a last part one day longer.\<close>

lemma cycle_split:
  fixes k r :: int
  assumes "1 < k" "0 \<le> r" "r \<le> 4 * k"
  defines "c \<equiv> r div k - (r div k) div 4"
  shows "0 \<le> c" "c \<le> 3" "k * c \<le> r" "r \<le> k * c + k" "c < 3 \<longrightarrow> r < k * c + k"
proof -
  have d: "k * (r div k) \<le> r" "r < k * (r div k) + k" using div_bounds [of k r] assms by auto
  have "0 \<le> r div k" using assms by (simp add: pos_imp_zdiv_nonneg_iff)
  moreover have "r div k \<le> 4"
    using zdiv_mono1 [OF assms(3), of k] assms(1) by simp
  ultimately consider "r div k = 0" | "r div k = 1" | "r div k = 2" | "r div k = 3" | "r div k = 4" by linarith
  then have "0 \<le> c \<and> c \<le> 3 \<and> k * c \<le> r \<and> r \<le> k * c + k \<and> (c < 3 \<longrightarrow> r < k * c + k)"
    by cases (use d assms(1,3) in \<open>simp_all add: c_def\<close>)
  then show "0 \<le> c" "c \<le> 3" "k * c \<le> r" "r \<le> k * c + k" "c < 3 \<longrightarrow> r < k * c + k" by auto
qed

lemma yearOf_bounds:
  "daysBeforeYear (yearOf n) \<le> n \<and> n < daysBeforeYear (yearOf n + 1)"
proof -
  define a where "a = n div 146097"
  define r1 where "r1 = n mod 146097"
  define c where "c = r1 div 36524 - (r1 div 36524) div 4"
  define r2 where "r2 = r1 - 36524 * c"
  define q where "q = r2 div 1461"
  define r3 where "r3 = r2 - 1461 * q"
  define u where "u = r3 div 365 - (r3 div 365) div 4"
  have n: "n = 146097 * a + 36524 * c + 1461 * q + r3" by (simp add: a_def r1_def r2_def r3_def)
  have r1: "0 \<le> r1" "r1 < 146097" by (simp_all add: r1_def)
  have c: "0 \<le> c" "c \<le> 3" "0 \<le> r2" "r2 \<le> 36524" "c < 3 \<longrightarrow> r2 < 36524"
    using cycle_split [of 36524 r1, folded c_def] r1 by (auto simp: r2_def)
  have q: "0 \<le> q" "q \<le> 24" "0 \<le> r3" "r3 \<le> 1460" "c < 3 \<longrightarrow> q = 24 \<longrightarrow> r3 < 1460"
    using c div_bounds [of 1461 r2] unfolding q_def r3_def by (auto simp: pos_imp_zdiv_nonneg_iff)
  have u: "0 \<le> u" "u \<le> 3" "365 * u \<le> r3" "r3 \<le> 365 * u + 365" "u < 3 \<longrightarrow> r3 < 365 * u + 365"
    using cycle_split [of 365 r3, folded u_def] q by auto
  define y where "y = 400 * a + 100 * c + 4 * q + u"
  have y: "yearOf n = y + 1"
    by (simp only: yearOf_def Let_def y_def u_def r3_def q_def r2_def c_def r1_def a_def)
  have d: "y div 4 = 100 * a + 25 * c + q" "y div 100 = 4 * a + c" "y div 400 = a"
    by (rule int_div_pos_eq [of _ _ _ u] int_div_pos_eq [of _ _ _ "4 * q + u"]
      int_div_pos_eq [of _ _ _ "100 * c + 4 * q + u"]; use c q u in \<open>simp add: y_def\<close>)+
  have "daysBeforeYear (yearOf n) = 146097 * a + 36524 * c + 1461 * q + 365 * u"
    by (simp add: y daysBeforeYear_def d) (simp add: y_def)
  moreover have "u = 3 \<and> r3 = 1460 \<longrightarrow> isLeap (y + 1)"
  proof
    assume "u = 3 \<and> r3 = 1460"
    then have "y + 1 = 400 * a + 100 * c + 4 * (q + 1)" "c < 3 \<longrightarrow> q < 24" using q by (auto simp: y_def)
    then have y1: "y + 1 = 4 * (100 * a + 25 * c + q + 1)" "y + 1 = 100 * (4 * a + c) + 4 * (q + 1)"
      "c = 3 \<Longrightarrow> q = 24 \<Longrightarrow> y + 1 = 400 * (a + 1)" by simp_all
    have "(y + 1) mod 4 = 0" unfolding y1(1) by simp
    moreover have "(y + 1) mod 100 \<noteq> 0" if "q < 24"
    proof -
      have "(y + 1) mod 100 = 4 * (q + 1)"
        by (rule int_mod_pos_eq [of _ _ "4 * a + c"]) (use that q y1(2) in auto)
      then show ?thesis using q by simp
    qed
    moreover have "(y + 1) mod 400 = 0" if "\<not> q < 24"
    proof -
      have "c = 3" "q = 24" using that c q \<open>c < 3 \<longrightarrow> q < 24\<close> by auto
      then show ?thesis using y1(3) by simp
    qed
    ultimately show "isLeap (y + 1)" unfolding isLeap_def by (cases "q < 24") simp_all
  qed
  ultimately show ?thesis
    using u n unfolding daysBeforeYear_step y by auto
qed

lemma yearOf_eqI:
  assumes "daysBeforeYear y \<le> n" "n < daysBeforeYear (y + 1)"
  shows "yearOf n = y"
proof (rule ccontr)
  assume "yearOf n \<noteq> y"
  then consider "yearOf n + 1 \<le> y" | "y + 1 \<le> yearOf n" by linarith
  then show False
    by cases (use assms yearOf_bounds [of n] in \<open>force dest: daysBeforeYear_mono\<close>)+
qed

lemma yearOf_mono: "a \<le> b \<Longrightarrow> yearOf a \<le> yearOf b"
proof (rule ccontr)
  assume ab: "a \<le> b" and "\<not> yearOf a \<le> yearOf b"
  then have "daysBeforeYear (yearOf b + 1) \<le> daysBeforeYear (yearOf a)"
    by (intro daysBeforeYear_mono) simp
  then show False using yearOf_bounds [of a] yearOf_bounds [of b] ab by linarith
qed


lemma yearOf_ge_iff: "y \<le> yearOf n \<longleftrightarrow> daysBeforeYear y \<le> n"
proof
  assume "y \<le> yearOf n"
  then show "daysBeforeYear y \<le> n" using yearOf_bounds [of n] daysBeforeYear_mono by (blast intro: order_trans)
next
  assume a: "daysBeforeYear y \<le> n"
  show "y \<le> yearOf n"
  proof (rule ccontr)
    assume "\<not> y \<le> yearOf n"
    then have "daysBeforeYear (yearOf n + 1) \<le> daysBeforeYear y" by (intro daysBeforeYear_mono) simp
    then show False using a yearOf_bounds [of n] by linarith
  qed
qed

lemma yearOf_ge_1: "1 \<le> yearOf n \<longleftrightarrow> 0 \<le> n"
  unfolding yearOf_ge_iff by (simp add: daysBeforeYear_def)

lemma yearOf_le_9999: "yearOf n \<le> 9999 \<longleftrightarrow> n \<le> 3652058"
proof -
  have "10000 \<le> yearOf n \<longleftrightarrow> 3652059 \<le> n" unfolding yearOf_ge_iff by (simp add: daysBeforeYear_def)
  then show ?thesis by linarith
qed

lemma monthScan_bounds:
  "0 \<le> d \<Longrightarrow> d < daysBeforeMonth y (int k + 1) \<Longrightarrow> 0 < k \<Longrightarrow>
     1 \<le> monthScan y d k \<and> monthScan y d k \<le> int k \<and>
     daysBeforeMonth y (monthScan y d k) \<le> d \<and> d < daysBeforeMonth y (monthScan y d k + 1)"
proof (induction k)
  case (Suc k)
  have "daysBeforeMonth y 1 = 0" by (simp add: daysBeforeMonth_def)
  with Suc show ?case by (cases "k = 0") (auto simp: algebra_simps)
qed simp

lemma monthOf_bounds:
  "1 \<le> monthOf n \<and> monthOf n \<le> 12 \<and>
   daysBeforeMonth (yearOf n) (monthOf n) \<le> n - daysBeforeYear (yearOf n) \<and>
   n - daysBeforeYear (yearOf n) < daysBeforeMonth (yearOf n) (monthOf n + 1)"
proof -
  let ?d = "n - daysBeforeYear (yearOf n)"
  have "0 \<le> ?d" "?d < daysBeforeMonth (yearOf n) (int 12 + 1)"
    using yearOf_bounds [of n] by (auto simp: daysBeforeYear_step daysBeforeMonth_def)
  from monthScan_bounds [OF this] show ?thesis by (simp add: monthOf_def del: monthScan.simps)
qed

text \<open>Months counted from January of year 1: the first day of a month, and the month of a day.\<close>

definition monthStart :: "int \<Rightarrow> int" where
  "monthStart i = dateDays (i div 12 + 1) (i mod 12 + 1) 1"

definition monthIndex :: "int \<Rightarrow> int" where
  "monthIndex n = (yearOf n - 1) * 12 + (monthOf n - 1)"

lemma month_cases:
  "1 \<le> m \<Longrightarrow> m \<le> 12 \<Longrightarrow> m \<in> {1, 2, 3, 4, 5, 6, 7, 8, 9, 10, 11, 12 :: int}"
  by simp presburger

lemma daysBeforeMonth_step:
  assumes "1 \<le> m" "m \<le> 12"
  shows "daysBeforeMonth y m < daysBeforeMonth y (m + 1)"
proof -
  from month_cases [OF assms] show ?thesis by (auto simp: daysBeforeMonth_def)
qed

lemma monthStart_Suc:
  "monthStart (i + 1) = daysBeforeYear (i div 12 + 1) + daysBeforeMonth (i div 12 + 1) (i mod 12 + 2)"
proof (cases "i mod 12 = 11")
  case True
  then have "(i + 1) div 12 = i div 12 + 1" "(i + 1) mod 12 = 0" by presburger+
  then have "monthStart (i + 1) = daysBeforeYear (i div 12 + 1 + 1)"
    by (simp add: monthStart_def dateDays_def daysBeforeMonth_def)
  then show ?thesis unfolding daysBeforeYear_step True by (simp add: daysBeforeMonth_def)
next
  case False
  have "i mod 12 < 12" by simp
  then have "(i + 1) div 12 = i div 12" "(i + 1) mod 12 = i mod 12 + 1" using False by presburger+
  then show ?thesis by (simp add: monthStart_def dateDays_def add.commute)
qed

lemma monthStart_step: "monthStart i < monthStart (i + 1)"
proof -
  have "0 \<le> i mod 12" "i mod 12 < 12" by simp_all
  then show ?thesis
    unfolding monthStart_Suc using daysBeforeMonth_step [of "i mod 12 + 1" "i div 12 + 1"]
    by (simp add: monthStart_def dateDays_def add.commute)
qed

lemma monthStart_mono: "i \<le> j \<Longrightarrow> monthStart i \<le> monthStart j"
  by (induction j rule: int_ge_induct) (auto intro: order_trans less_imp_le [OF monthStart_step])

lemma monthIndex_split: "monthIndex n div 12 = yearOf n - 1" "monthIndex n mod 12 = monthOf n - 1"
proof -
  have "0 \<le> monthOf n - 1" "monthOf n - 1 < 12" using monthOf_bounds [of n] by simp_all
  then show "monthIndex n div 12 = yearOf n - 1" "monthIndex n mod 12 = monthOf n - 1"
    unfolding monthIndex_def
    by (auto intro!: int_div_pos_eq [of _ _ _ "monthOf n - 1"] int_mod_pos_eq [of _ _ "yearOf n - 1"])
qed

lemma monthIndex_bounds: "monthStart (monthIndex n) \<le> n \<and> n < monthStart (monthIndex n + 1)"
  using monthOf_bounds [of n]
  unfolding monthStart_Suc by (simp add: monthStart_def monthIndex_split dateDays_def add.commute)

lemma monthStart_le_iff: "monthStart i \<le> n \<longleftrightarrow> i \<le> monthIndex n"
proof
  assume a: "monthStart i \<le> n"
  show "i \<le> monthIndex n"
  proof (rule ccontr)
    assume "\<not> i \<le> monthIndex n"
    then have "monthStart (monthIndex n + 1) \<le> monthStart i" by (intro monthStart_mono) simp
    then show False using a monthIndex_bounds [of n] by linarith
  qed
next
  assume "i \<le> monthIndex n"
  then show "monthStart i \<le> n" using monthStart_mono monthIndex_bounds [of n] by (blast intro: order_trans)
qed

lemma dateDays_of: "dateDays (yearOf n) (monthOf n) (dayOf n) = n"
  by (simp add: dateDays_def dayOf_def)

lemma dayOf_bounds: "1 \<le> dayOf n \<and> dayOf n \<le> 31"
proof -
  have "1 \<le> monthOf n" "monthOf n \<le> 12" using monthOf_bounds [of n] by simp_all
  from month_cases [OF this] have "daysBeforeMonth (yearOf n) (monthOf n + 1) \<le> daysBeforeMonth (yearOf n) (monthOf n) + 31"
    by (auto simp: daysBeforeMonth_def)
  then show ?thesis using monthOf_bounds [of n] by (simp add: dayOf_def)
qed

section \<open>Midnights\<close>

lemma localDays_UTC: "localDays timeUTC t = gt_sec t div 86400"
  by (simp add: localDays_def loc_offset_def timeUTC_def)

text \<open>The offsets of the time zone database (RFC 8536): more than -25 and less than 26 hours.\<close>

definition zone_ok :: "location \<Rightarrow> bool" where
  "zone_ok loc \<longleftrightarrow> (\<forall>u. - 89999 \<le> loc_offset loc u \<and> loc_offset loc u \<le> 93599)"

lemma zone_okD: "zone_ok loc \<Longrightarrow> - 89999 \<le> loc_offset loc u" "zone_ok loc \<Longrightarrow> loc_offset loc u \<le> 93599"
  by (simp_all add: zone_ok_def)

text \<open>A location with one offset for all time, as \<open>UTC\<close> itself and the zones without transitions.\<close>

definition fixed_zone :: "location \<Rightarrow> int \<Rightarrow> bool" where
  "fixed_zone loc off \<longleftrightarrow> - 89999 \<le> off \<and> off \<le> 93599 \<and> (\<forall>u. loc_lookup loc u = (off, min_int64, max_int64))"

lemma fixed_zone_UTC: "fixed_zone timeUTC 0"
  by (simp add: fixed_zone_def timeUTC_def)

lemma fixed_zoneD: "fixed_zone loc off \<Longrightarrow> loc_lookup loc u = (off, min_int64, max_int64)"
  by (simp add: fixed_zone_def)

lemma fixed_zone_ok: "fixed_zone loc off \<Longrightarrow> zone_ok loc"
  by (auto simp: fixed_zone_def zone_ok_def loc_offset_def)

lemma localDays_fixed: "fixed_zone loc off \<Longrightarrow> localDays loc t = (gt_sec t + off) div 86400"
  by (simp add: localDays_def loc_offset_def fixed_zoneD)

definition days_ok :: "int \<Rightarrow> bool" where
  "days_ok n \<longleftrightarrow> - 1000000000000 \<le> n \<and> n \<le> 1000000000000"

lemma timeDate_bounds:
  assumes "zone_ok loc" "days_ok (dateDays y m d)"
  shows "gt_nsec (timeDate loc y m d) = 0"
    "86400 * dateDays y m d - 93599 \<le> gt_sec (timeDate loc y m d)"
    "gt_sec (timeDate loc y m d) \<le> 86400 * dateDays y m d + 89999"
proof -
  obtain D where D: "dateDays y m d = D" by simp
  have b: "- 1000000000000 \<le> D" "D \<le> 1000000000000" using assms D by (simp_all add: days_ok_def)
  have u: "sub64 (mul64 D 86400) unixToInternal = D * 86400 - unixToInternal" using b by (simp add: go_arith)
  define U where "U = D * 86400 - unixToInternal"
  obtain x s e where x: "loc_lookup loc U = (x, s, e)" by (cases "loc_lookup loc U")
  define z where "z = (if sub64 U x < s \<or> e \<le> sub64 U x then loc_offset loc (sub64 U x) else x)"
  have xb: "- 89999 \<le> x" "x \<le> 93599" using zone_okD [OF assms(1), of U] x by (simp_all add: loc_offset_def)
  have zb: "- 89999 \<le> z" "z \<le> 93599" using xb zone_okD [OF assms(1)] by (simp_all add: z_def)
  have eq: "timeDate loc y m d = timeUnix (if x \<noteq> 0 then sub64 U z else U) 0"
    unfolding timeDate_def D u U_def [symmetric] x Let_def split z_def ..
  have uz: "sub64 U z = U - z" using b zb by (simp add: U_def go_arith)
  show "gt_nsec (timeDate loc y m d) = 0" by (simp add: eq timeUnix_def)
  show "86400 * dateDays y m d - 93599 \<le> gt_sec (timeDate loc y m d)"
    "gt_sec (timeDate loc y m d) \<le> 86400 * dateDays y m d + 89999"
    using b zb unfolding eq uz D by (simp_all add: timeUnix_def U_def go_arith)
qed

lemma timeDate_fixed:
  assumes "fixed_zone loc off" "days_ok (dateDays y m d)"
  shows "timeDate loc y m d = GoTime (86400 * dateDays y m d - off) 0"
proof -
  obtain D where D: "dateDays y m d = D" by simp
  have b: "- 1000000000000 \<le> D" "D \<le> 1000000000000" "- 89999 \<le> off" "off \<le> 93599"
    using assms D by (simp_all add: days_ok_def fixed_zone_def)
  have u: "sub64 (mul64 D 86400) unixToInternal = D * 86400 - unixToInternal"
    using b by (simp add: go_arith)
  have s: "sub64 (D * 86400 - unixToInternal) off = D * 86400 - unixToInternal - off"
    using b by (simp add: go_arith)
  show ?thesis
    unfolding timeDate_def D u Let_def fixed_zoneD [OF assms(1)] split s
    using b by (simp add: timeUnix_def go_arith)
qed

lemma timeDate_UTC:
  "days_ok (dateDays y m d) \<Longrightarrow> timeDate timeUTC y m d = GoTime (86400 * dateDays y m d) 0"
  using timeDate_fixed [OF fixed_zone_UTC] by simp

section \<open>The timestamp format\<close>

lemma formatPadded_inject:
  assumes "0 \<le> a" "a < 10 ^ w" "0 \<le> b" "b < 10 ^ w" "0 < w"
  shows "formatPadded w a @ r = formatPadded w b @ s \<longleftrightarrow> a = b \<and> r = s"
  using assms formatPadded_length [of a w] formatPadded_length [of b w]
    formatPadded_value [of a w] formatPadded_value [of b w]
  by (metis append_eq_append_conv)

definition format_year_ok :: "gotime \<Rightarrow> bool" where
  "format_year_ok t \<longleftrightarrow> 0 \<le> time_Year timeUTC t \<and> time_Year timeUTC t \<le> 9999"

lemma seconds_of_day:
  fixes s :: int
  assumes "0 \<le> s" "s < 86400"
  shows "0 \<le> s div 3600" "s div 3600 < 10 ^ 2" "0 \<le> s div 60 mod 60" "s div 60 mod 60 < 10 ^ 2"
    "0 \<le> s mod 60" "s mod 60 < 10 ^ 2" "s = 3600 * (s div 3600) + 60 * (s div 60 mod 60) + s mod 60"
proof -
  show "0 \<le> s div 3600" "s div 3600 < 10 ^ 2" using assms by (simp_all add: pos_imp_zdiv_nonneg_iff)
  have "0 \<le> s div 60 mod 60" "s div 60 mod 60 < 60" "0 \<le> s mod 60" "s mod 60 < 60" by simp_all
  then show "0 \<le> s div 60 mod 60" "s div 60 mod 60 < 10 ^ 2" "0 \<le> s mod 60" "s mod 60 < 10 ^ 2" by simp_all
  have "s div 3600 = s div 60 div 60" by (simp add: zdiv_zmult2_eq [symmetric])
  then show "s = 3600 * (s div 3600) + 60 * (s div 60 mod 60) + s mod 60"
    using mult_div_mod_eq [of 60 s] mult_div_mod_eq [of 60 "s div 60"] by linarith
qed

text \<open>The six numbers a timestamp shows.\<close>

definition stamp_ok :: "int \<times> int \<times> int \<times> int \<times> int \<times> int \<Rightarrow> bool" where
  "stamp_ok = (\<lambda>(y, mo, d, h, mi, s). 0 \<le> y \<and> y < 10 ^ 4 \<and> 0 \<le> mo \<and> mo < 10 ^ 2 \<and> 0 \<le> d \<and> d < 10 ^ 2 \<and>
     0 \<le> h \<and> h < 10 ^ 2 \<and> 0 \<le> mi \<and> mi < 10 ^ 2 \<and> 0 \<le> s \<and> s < 10 ^ 2)"

definition stampString :: "int \<times> int \<times> int \<times> int \<times> int \<times> int \<Rightarrow> string" where
  "stampString = (\<lambda>(y, mo, d, h, mi, s). formatPadded 4 y @ formatPadded 2 mo @ formatPadded 2 d @ ''T'' @
     formatPadded 2 h @ formatPadded 2 mi @ formatPadded 2 s @ ''Z'')"

definition stampOf :: "gotime \<Rightarrow> int \<times> int \<times> int \<times> int \<times> int \<times> int" where
  "stampOf t = (let n = gt_sec t div 86400; s = gt_sec t mod 86400 in
     (yearOf n, monthOf n, dayOf n, s div 3600, s div 60 mod 60, s mod 60))"

lemma formatUTC_stamp: "formatUTC t = stampString (stampOf t)"
  by (simp add: formatUTC_def stampString_def stampOf_def Let_def time_Year_def time_Month_def
      time_Day_def localDays_UTC)

lemma stampString_inject: "stamp_ok a \<Longrightarrow> stamp_ok b \<Longrightarrow> stampString a = stampString b \<Longrightarrow> a = b"
  using formatPadded_inject [where w = 2 and r = "[]" and s = "[]"]
  by (cases a; cases b) (simp add: stamp_ok_def stampString_def
      formatPadded_inject [where w = 4, simplified] formatPadded_inject [where w = 2, simplified])

lemma stampString_length: "stamp_ok a \<Longrightarrow> length (stampString a) = 16"
  by (cases a) (simp add: stamp_ok_def stampString_def formatPadded_length)

lemma stampString_chars:
  "stamp_ok a \<Longrightarrow> c \<in> set (stampString a) \<Longrightarrow> isDecimalDigit c \<or> c = CHR ''T'' \<or> c = CHR ''Z''"
  using formatPadded_digits by (cases a) (auto simp: stamp_ok_def stampString_def list_all_iff)

lemma stampOf_ok:
  assumes "format_year_ok t"
  shows "stamp_ok (stampOf t)"
proof -
  let ?n = "gt_sec t div 86400" and ?s = "gt_sec t mod 86400"
  have "0 \<le> ?s" "?s < 86400" by simp_all
  note s = seconds_of_day [OF this]
  have m: "0 \<le> monthOf n" "monthOf n < 10 ^ 2" "0 \<le> dayOf n" "dayOf n < 10 ^ 2" for n
    using monthOf_bounds [of n] dayOf_bounds [of n] by simp_all
  have "0 \<le> yearOf ?n" "yearOf ?n < 10 ^ 4"
    using assms by (simp_all add: format_year_ok_def time_Year_def localDays_UTC)
  then show ?thesis
    unfolding stampOf_def stamp_ok_def Let_def split using s(1-6) m by blast
qed

lemma stampOf_inject:
  assumes "gt_nsec a = gt_nsec b" and e: "stampOf a = stampOf b"
  shows "a = b"
proof -
  let ?da = "gt_sec a div 86400" and ?db = "gt_sec b div 86400"
  let ?sa = "gt_sec a mod 86400" and ?sb = "gt_sec b mod 86400"
  have s: "0 \<le> ?sa" "?sa < 86400" "0 \<le> ?sb" "?sb < 86400" by simp_all
  have "?da = ?db"
    using e unfolding stampOf_def Let_def prod.inject by (metis dateDays_of)
  moreover have "?sa = ?sb"
    using e seconds_of_day(7) [OF s(1,2)] seconds_of_day(7) [OF s(3,4)]
    unfolding stampOf_def Let_def prod.inject by metis
  ultimately have "gt_sec a = gt_sec b"
    using mult_div_mod_eq [of 86400 "gt_sec a"] mult_div_mod_eq [of 86400 "gt_sec b"] by metis
  then show ?thesis using assms(1) by (cases a; cases b) simp
qed

lemma formatUTC_inject:
  "format_year_ok a \<Longrightarrow> format_year_ok b \<Longrightarrow> gt_nsec a = gt_nsec b \<Longrightarrow> formatUTC a = formatUTC b \<Longrightarrow> a = b"
  unfolding formatUTC_stamp by (blast dest: stampString_inject [OF stampOf_ok stampOf_ok] intro: stampOf_inject)

lemma formatUTC_length: "format_year_ok t \<Longrightarrow> length (formatUTC t) = 16"
  by (simp add: formatUTC_stamp stampString_length stampOf_ok)

lemma formatUTC_no_colon: "format_year_ok t \<Longrightarrow> CHR '':'' \<notin> set (formatUTC t)"
  using stampString_chars [OF stampOf_ok] unfolding formatUTC_stamp
  by (fastforce simp: isDecimalDigit_def less_eq_char_def)

end
