(* ===== verification/Calendar.thy ===== *)
theory Calendar
  imports Quota_Base Go_Date
begin

text \<open>
  Calendar quota windows (\<open>src/internal/quota/calendar.go\<close>): the parsing of a window
  such as \<open>6h\<close> or \<open>2mo\<close>, the alignment of an instant to its window in a time zone, the
  stable key of a window, and the list of windows that overlap an interval.  The
  database of time zones is a parameter: \<open>LoadLocation\<close> is \<open>time.LoadLocation\<close>, with
  \<open>None\<close> for its error.
\<close>

section \<open>Model\<close>

record calendarSpec =
  spec_raw :: string
  spec_amount :: int
  spec_unit :: string

record calendarPeriod =
  period_key :: string
  period_start :: gotime
  period_end :: gotime

text \<open>The captures of \<open>^([1-9][0-9]*)(m|h|d|w|mo)$\<close>.\<close>

definition calendarWindowPattern :: "string \<Rightarrow> (string \<times> string) option" where
  "calendarWindowPattern raw =
     (let digits = takeWhile isDecimalDigit raw; unit = dropWhile isDecimalDigit raw in
      if digits \<noteq> [] \<and> hd digits \<noteq> CHR ''0'' \<and> unit \<in> {''m'', ''h'', ''d'', ''w'', ''mo''}
      then Some (digits, unit) else None)"

definition parseCalendarSpec :: "string \<Rightarrow> quota_error + calendarSpec" where
  "parseCalendarSpec raw =
     (case calendarWindowPattern raw of
        None \<Rightarrow> Inl ErrInvalidInput
      | Some (digits, unit) \<Rightarrow>
          let amount = digitsValue digits 0 in
          if amount > max_int64 \<or> amount \<le> 0 then Inl ErrInvalidInput
          else Inr \<lparr>spec_raw = raw, spec_amount = amount, spec_unit = unit\<rparr>)"

definition is_alpha :: "char \<Rightarrow> bool" where
  "is_alpha c \<longleftrightarrow> is_lower c \<or> is_upper c"

definition timezone_rest :: "char \<Rightarrow> bool" where
  "timezone_rest c \<longleftrightarrow>
     is_alpha c \<or> is_digit c \<or> c = CHR ''.'' \<or> c = CHR ''_'' \<or> c = CHR ''+'' \<or> c = CHR ''-''"

text \<open>\<open>^[A-Za-z][A-Za-z0-9._+-]*(/[A-Za-z0-9][A-Za-z0-9._+-]*)*$\<close>, read from left to right:
  \<open>Some F\<close> stands at the start of a segment whose first byte has class \<open>F\<close>, \<open>None\<close> inside one.\<close>

fun timezoneMatch :: "(char \<Rightarrow> bool) option \<Rightarrow> string \<Rightarrow> bool" where
  "timezoneMatch (Some F) [] = False"
| "timezoneMatch None [] = True"
| "timezoneMatch (Some F) (c # cs) = (F c \<and> timezoneMatch None cs)"
| "timezoneMatch None (c # cs) =
     (if timezone_rest c then timezoneMatch None cs
      else c = CHR ''/'' \<and> timezoneMatch (Some (\<lambda>c. is_alpha c \<or> is_digit c)) cs)"

definition calendarTimezonePattern :: "string \<Rightarrow> bool" where
  "calendarTimezonePattern = timezoneMatch (Some is_alpha)"

definition canonicalCalendarTimezone ::
  "(string \<Rightarrow> location option) \<Rightarrow> string \<Rightarrow> quota_error + string \<times> location" where
  "canonicalCalendarTimezone LoadLocation raw =
     (if raw = '''' \<or> raw = ''UTC'' then Inr (''UTC'', timeUTC)
      else if raw = ''Local'' \<or> length raw > 64 \<or> \<not> calendarTimezonePattern raw then Inl ErrInvalidInput
      else case LoadLocation raw of
          None \<Rightarrow> Inl ErrInvalidInput
        | Some location \<Rightarrow>
            if loc_name location \<noteq> raw then Inl ErrInvalidInput else Inr (raw, location))"

definition floorDivision :: "int \<Rightarrow> int \<Rightarrow> quota_error + int" where
  "floorDivision value divisor =
     (if divisor = 0 then Inl GoPanic
      else
        let quotient = quot64 value divisor in
        Inr (if value < 0 \<and> rem64 value divisor \<noteq> 0 then sub64 quotient 1 else quotient))"

definition calendarFixedWindow ::
  "gotime \<Rightarrow> calendarSpec \<Rightarrow> location \<Rightarrow> quota_error + gotime \<times> gotime" where
  "calendarFixedWindow now spec location =
     (let seconds = (if spec_unit spec = ''h'' then 60 * 60 else 60) in
      if spec_amount spec > quot64 max_int64 seconds then Inl ErrInvalidInput
      else
        let span = mul64 (spec_amount spec) seconds;
            anchor = unixOf (timeDate location 1970 1 1);
            delta = sub64 (unixOf now) anchor in
        andThen (floorDivision delta span) (\<lambda>index.
        let offset = mul64 index span in
        if 0 < offset \<and> sub64 max_int64 offset < anchor \<or>
           offset < 0 \<and> anchor < sub64 min_int64 offset then Inl ErrInvalidInput
        else
          let startUnix = add64 anchor offset in
          if startUnix > sub64 max_int64 span then Inl ErrInvalidInput
          else
            let start = timeUnix startUnix 0; end = timeUnix (add64 startUnix span) 0 in
            if time_Year location start < 1 \<or> time_Year location end > 9999 then Inl ErrInvalidInput
            else Inr (start, end)))"

definition civilDayOrdinal :: "location \<Rightarrow> gotime \<Rightarrow> int" where
  "civilDayOrdinal location value =
     quot64 (unixOf (timeDate timeUTC (time_Year location value) (time_Month location value)
       (time_Day location value))) (24 * 60 * 60)"

text \<open>Midnight, in the location, of the UTC date of an instant, and of the first day of a month
  counted from January of year 1.\<close>

definition civilMidnight :: "location \<Rightarrow> gotime \<Rightarrow> gotime" where
  "civilMidnight location t =
     timeDate location (time_Year timeUTC t) (time_Month timeUTC t) (time_Day timeUTC t)"

definition monthMidnight :: "location \<Rightarrow> int \<Rightarrow> gotime" where
  "monthMidnight location index =
     timeDate location (add64 (quot64 index 12) 1) (add64 (rem64 index 12) 1) 1"

definition calendarCivilDayBounds :: "int \<Rightarrow> int \<Rightarrow> location \<Rightarrow> quota_error + gotime \<times> gotime" where
  "calendarCivilDayBounds startOrdinal spanDays location =
     (if spanDays \<le> 0 \<or> startOrdinal > sub64 max_int64 spanDays then Inl ErrInvalidInput
      else
        let endOrdinal = add64 startOrdinal spanDays;
            minimumOrdinal = quot64 (unixOf (timeDate timeUTC 1 1 1)) (24 * 60 * 60);
            maximumOrdinal = add64 (quot64 (unixOf (timeDate timeUTC 9999 12 31)) (24 * 60 * 60)) 1 in
        if startOrdinal < minimumOrdinal \<or> maximumOrdinal < endOrdinal then Inl ErrInvalidInput
        else
          let startDate = timeUnix (mul64 (mul64 (mul64 startOrdinal 24) 60) 60) 0;
              endDate = timeUnix (mul64 (mul64 (mul64 endOrdinal 24) 60) 60) 0 in
          Inr (civilMidnight location startDate, civilMidnight location endDate))"

definition calendarDayWindow :: "gotime \<Rightarrow> int \<Rightarrow> location \<Rightarrow> quota_error + gotime \<times> gotime" where
  "calendarDayWindow now amount location =
     andThen (floorDivision (civilDayOrdinal location now) amount) (\<lambda>index.
     calendarCivilDayBounds (mul64 index amount) amount location)"

definition calendarWeekWindow :: "gotime \<Rightarrow> int \<Rightarrow> location \<Rightarrow> quota_error + gotime \<times> gotime" where
  "calendarWeekWindow now amount location =
     (if amount > quot64 max_int64 7 then Inl ErrInvalidInput
      else
        let spanDays = mul64 amount 7;
            delta = sub64 (civilDayOrdinal location now) 4 in
        andThen (floorDivision delta spanDays) (\<lambda>index.
        calendarCivilDayBounds (add64 4 (mul64 index spanDays)) spanDays location))"

definition calendarMonthWindowIn :: "gotime \<Rightarrow> int \<Rightarrow> location \<Rightarrow> quota_error + gotime \<times> gotime" where
  "calendarMonthWindowIn now amount location =
     (let current = add64 (mul64 (sub64 (time_Year location now) 1) 12) (sub64 (time_Month location now) 1) in
      andThen (floorDivision current amount) (\<lambda>index.
      let startIndex = mul64 index amount in
      if startIndex > sub64 max_int64 amount then Inl ErrInvalidInput
      else
        let endIndex = add64 startIndex amount in
        if startIndex < 0 \<or> 9999 * 12 < endIndex then Inl ErrInvalidInput
        else Inr (monthMidnight location startIndex, monthMidnight location endIndex)))"

definition calendarKey :: "string \<Rightarrow> string \<Rightarrow> gotime \<Rightarrow> string" where
  "calendarKey timezone raw start =
     (if timezone \<noteq> ''UTC''
      then ''iana:v1:'' @ timezone @ '':'' @ raw @ '':'' @ formatUTC start
      else ''utc:v1:'' @ raw @ '':'' @ formatUTC start)"

definition calendarBounds :: "gotime \<Rightarrow> calendarSpec \<Rightarrow> location \<Rightarrow> quota_error + gotime \<times> gotime" where
  "calendarBounds now spec location =
     (if spec_unit spec = ''m'' \<or> spec_unit spec = ''h'' then calendarFixedWindow now spec location
      else if spec_unit spec = ''d'' then calendarDayWindow now (spec_amount spec) location
      else if spec_unit spec = ''w'' then calendarWeekWindow now (spec_amount spec) location
      else if spec_unit spec = ''mo'' then calendarMonthWindowIn now (spec_amount spec) location
      else Inl ErrInvalidInput)"

definition calendarWindowIn ::
  "(string \<Rightarrow> location option) \<Rightarrow> gotime \<Rightarrow> string \<Rightarrow> string \<Rightarrow> quota_error + calendarPeriod" where
  "calendarWindowIn LoadLocation now raw timezone =
     (case parseCalendarSpec raw of
        Inl _ \<Rightarrow> Inl ErrInvalidInput
      | Inr spec \<Rightarrow>
          if isZero now then Inl ErrInvalidInput
          else case canonicalCalendarTimezone LoadLocation timezone of
              Inl _ \<Rightarrow> Inl ErrInvalidInput
            | Inr (timezone, location) \<Rightarrow>
                if time_Year location now < 1 \<or> time_Year location now > 9999 then Inl ErrInvalidInput
                else case calendarBounds now spec location of
                    Inl e \<Rightarrow> Inl (if e = GoPanic then GoPanic else ErrInvalidInput)
                  | Inr (start, end) \<Rightarrow>
                      if \<not> start < end \<or> now < start \<or> \<not> now < end then Inl ErrInvalidInput
                      else
                        let key = calendarKey timezone (spec_raw spec) start in
                        if length key > 128 then Inl ErrCalendarKeyBound
                        else Inr \<lparr>period_key = key, period_start = start, period_end = end\<rparr>)"

definition calendarWindow ::
  "(string \<Rightarrow> location option) \<Rightarrow> gotime \<Rightarrow> string \<Rightarrow> quota_error + calendarPeriod" where
  "calendarWindow LoadLocation now raw = calendarWindowIn LoadLocation now raw ''UTC''"

text \<open>The loop of \<open>CalendarPeriods\<close>, with the number of periods that may still be added.\<close>

fun calendarPeriodsLoop ::
  "(string \<Rightarrow> location option) \<Rightarrow> string \<Rightarrow> string \<Rightarrow> gotime \<Rightarrow> nat \<Rightarrow> gotime \<Rightarrow>
     quota_error + (gotime \<times> gotime) list" where
  "calendarPeriodsLoop LoadLocation window timezone end 0 cursor =
     (if cursor < end then
        andThen (calendarWindowIn LoadLocation cursor window timezone) (\<lambda>_. Inl ErrInvalidInput)
      else Inr [])"
| "calendarPeriodsLoop LoadLocation window timezone end (Suc remaining) cursor =
     (if cursor < end then
        andThen (calendarWindowIn LoadLocation cursor window timezone) (\<lambda>period.
        andThen (calendarPeriodsLoop LoadLocation window timezone end remaining (period_end period)) (\<lambda>periods.
        Inr ((period_start period, period_end period) # periods)))
      else Inr [])"

definition CalendarPeriods ::
  "(string \<Rightarrow> location option) \<Rightarrow> string \<Rightarrow> string \<Rightarrow> gotime \<Rightarrow> gotime \<Rightarrow> int \<Rightarrow>
     quota_error + (gotime \<times> gotime) list" where
  "CalendarPeriods LoadLocation window timezone start end maximum =
     (if \<not> start < end \<or> maximum < 1 then Inl ErrInvalidInput
      else calendarPeriodsLoop LoadLocation window timezone end (nat maximum) start)"

section \<open>Cells of a grid\<close>

text \<open>
  Every kind of window is a block of consecutive cells of a grid on the line of seconds:
  the cell of an instant and the first instant of a cell are adjoint.  A window of
  \<open>amount\<close> cells contains the instant it is computed for, and it is the window of every
  instant it contains.
\<close>

locale boundary_grid =
  fixes boundary :: "int \<Rightarrow> int" and cell :: "int \<Rightarrow> int"
  assumes boundary_le_iff: "boundary i \<le> t \<longleftrightarrow> i \<le> cell t"
begin

definition block :: "int \<Rightarrow> int \<Rightarrow> int" where
  "block amount t = cell t div amount * amount"

lemma block_bounds: "0 < amount \<Longrightarrow> block amount t \<le> cell t \<and> cell t < block amount t + amount"
  using div_bounds [of amount "cell t"] by (simp add: block_def mult.commute)

lemma block_contains:
  assumes "0 < amount"
  shows "boundary (block amount t) \<le> t" "t < boundary (block amount t + amount)"
  using block_bounds [OF assms, of t] by (auto simp: boundary_le_iff simp flip: not_le)

lemma block_same:
  assumes "0 < amount" "boundary (block amount t) \<le> u" "u < boundary (block amount t + amount)"
  shows "block amount u = block amount t"
proof -
  define q where "q = cell t div amount"
  have q: "block amount t = amount * q" by (simp add: block_def q_def)
  have "amount * q \<le> cell u" "cell u < amount * q + amount"
    using assms(2,3) by (simp_all add: q boundary_le_iff flip: not_le)
  then have "cell u div amount = q"
    by (intro int_div_pos_eq [of _ _ _ "cell u - amount * q"]) auto
  then show ?thesis by (simp add: block_def q_def)
qed

end

abbreviation epochDays :: int where
  "epochDays \<equiv> 719162"

definition monthBoundary :: "int \<Rightarrow> int \<Rightarrow> int" where
  "monthBoundary off i = 86400 * monthStart i - off"

definition monthCell :: "int \<Rightarrow> int \<Rightarrow> int" where
  "monthCell off t = monthIndex ((t + off) div 86400)"

text \<open>Days counted from \<open>first\<close>: from 1970-01-01 for days, from the Monday 1970-01-05 for weeks.\<close>

definition dayBoundary :: "int \<Rightarrow> int \<Rightarrow> int \<Rightarrow> int" where
  "dayBoundary first off i = 86400 * (i + first + epochDays) - off"

definition dayCell :: "int \<Rightarrow> int \<Rightarrow> int \<Rightarrow> int" where
  "dayCell first off t = (t + off) div 86400 - epochDays - first"

interpretation months: boundary_grid "monthBoundary off" "monthCell off" for off
proof
  fix i t
  have "monthBoundary off i \<le> t \<longleftrightarrow> monthStart i * 86400 \<le> t + off" by (auto simp: monthBoundary_def)
  also have "\<dots> \<longleftrightarrow> monthStart i \<le> (t + off) div 86400" by (simp add: le_div_iff_int)
  finally show "monthBoundary off i \<le> t \<longleftrightarrow> i \<le> monthCell off t"
    by (simp add: monthCell_def monthStart_le_iff)
qed

interpretation days: boundary_grid "dayBoundary first off" "dayCell first off" for first off
proof
  fix i t
  have "dayBoundary first off i \<le> t \<longleftrightarrow> (i + first + epochDays) * 86400 \<le> t + off" by (auto simp: dayBoundary_def)
  also have "\<dots> \<longleftrightarrow> i + first + epochDays \<le> (t + off) div 86400" by (simp only: le_div_iff_int)
  finally show "dayBoundary first off i \<le> t \<longleftrightarrow> i \<le> dayCell first off t" by (auto simp: dayCell_def)
qed

interpretation seconds: boundary_grid "(+) anchor" "\<lambda>t. t - anchor" for anchor
  by unfold_locales auto

section \<open>Windows of a fixed-offset location\<close>

lemma floorDivision_eq:
  assumes "in64 v" "0 < d"
  shows "floorDivision v d = Inr (v div d)"
proof (cases "0 \<le> v")
  case True
  then show ?thesis using assms by (simp add: floorDivision_def quot64_exact in64_def)
next
  case False
  define n where "n = - v"
  have n: "0 < n" "n \<le> 9223372036854775808" "v = - n" using False assms(1) by (auto simp: n_def in64_def)
  have q: "0 \<le> n div d" "n div d \<le> n" "0 \<le> n mod d" "n mod d \<le> n"
    using n assms div_le_self_int [of n d] zmod_le_nonneg_dividend [of n d] by (simp_all add: pos_imp_zdiv_nonneg_iff)
  have sd: "v sdiv d = - (n div d)" "v smod d = - (n mod d)"
    using n assms by (simp_all add: signed_divide_int_def signed_modulo_int_def sgn_if)
  have w: "quot64 v d = - (n div d)" "rem64 v d = - (n mod d)"
    using q n(2) by (simp_all add: quot64_def rem64_def sd)
  have "n div d < n" if "n mod d \<noteq> 0"
  proof -
    have "d \<noteq> 1" using that by auto
    then show ?thesis using assms n(1) by (intro int_div_less_self) auto
  qed
  then have "sub64 (- (n div d)) 1 = - (n div d) - 1" if "n mod d \<noteq> 0"
    using that q n(2) by (intro sub64_exact) auto
  then show ?thesis
    using False assms(2) w by (simp add: floorDivision_def Let_def n(3) zdiv_zminus1_eq_if)
qed

lemma block_in64:
  fixes z a :: int
  assumes "- 1000000000000 \<le> z" "z \<le> 1000000000000" "0 < a" "a \<le> max_int64"
  shows "min_int64 < z div a * a" "z div a * a \<le> 1000000000000"
proof -
  have b: "a * (z div a) \<le> z" "z < a * (z div a) + a" using div_bounds [OF assms(3), of z] by auto
  show "z div a * a \<le> 1000000000000" using b assms(2) by (simp add: mult.commute)
  show "min_int64 < z div a * a"
  proof (cases "a \<le> 1000000000000")
    case True
    then show ?thesis using b assms by (simp add: mult.commute)
  next
    case False
    have "(- a) div a = - 1" using zdiv_zminus1_eq_if [of a a] assms(3) by simp
    then have "- 1 \<le> z div a" using zdiv_mono1 [of "- a" z a] False assms by simp
    then have "- a \<le> z div a * a" using mult_right_mono [of "- 1" "z div a" a] assms(3) by simp
    then show ?thesis using assms(4) by linarith
  qed
qed

lemma quot64_mult:
  assumes "- 1000000000000000 \<le> c * z" "c * z \<le> 1000000000000000" "0 < c"
  shows "quot64 (c * z) c = z"
proof -
  have "(c * z) sdiv c = z"
    using assms(3) by (cases "z < 0"; cases "z = 0")
      (simp_all add: signed_divide_int_def sgn_if abs_mult zero_less_mult_iff mult_less_0_iff flip: mult_minus_right)
  moreover have "\<bar>z\<bar> \<le> \<bar>c * z\<bar>"
    using assms(3) mult_right_mono [of 1 c "\<bar>z\<bar>"] by (simp add: abs_mult)
  ultimately show ?thesis using assms by (simp add: quot64_def)
qed

text \<open>Instants a clock of the location shows in the years 1 to 9999.\<close>

definition years_ok :: "int \<Rightarrow> gotime \<Rightarrow> bool" where
  "years_ok off t \<longleftrightarrow> 0 \<le> (gt_sec t + off) div 86400 \<and> (gt_sec t + off) div 86400 \<le> 3652058 \<and>
     0 \<le> gt_nsec t \<and> gt_nsec t < 1000000000"

lemma years_ok_iff:
  "fixed_zone loc off \<Longrightarrow> 0 \<le> gt_nsec t \<Longrightarrow> gt_nsec t < 1000000000 \<Longrightarrow>
     years_ok off t \<longleftrightarrow> \<not> (time_Year loc t < 1 \<or> time_Year loc t > 9999)"
  using yearOf_ge_1 [of "localDays loc t"] yearOf_le_9999 [of "localDays loc t"]
  by (auto simp: years_ok_def time_Year_def localDays_fixed)

lemma civilDayOrdinal_fixed:
  assumes "fixed_zone loc off" "years_ok off t"
  shows "civilDayOrdinal loc t = dayCell 0 off (gt_sec t)"
proof -
  define n where "n = (gt_sec t + off) div 86400"
  have n: "0 \<le> n" "n \<le> 3652058" using assms(2) by (simp_all add: years_ok_def n_def)
  have l: "localDays loc t = n" using assms(1) by (simp add: localDays_fixed n_def)
  have "timeDate timeUTC (time_Year loc t) (time_Month loc t) (time_Day loc t) = GoTime (86400 * n) 0"
    unfolding time_Year_def time_Month_def time_Day_def l
    using timeDate_UTC [of "yearOf n" "monthOf n" "dayOf n"] n by (simp add: dateDays_of days_ok_def)
  moreover have "unixOf (GoTime (86400 * n) 0) = 86400 * (n - epochDays)"
    using n by (simp add: unixOf_def go_arith)
  ultimately show ?thesis
    unfolding civilDayOrdinal_def using quot64_mult [of 86400 "n - epochDays"] n
    by (simp add: dayCell_def n_def)
qed

lemma civil_midnight_fixed:
  assumes "fixed_zone loc off" "- epochDays \<le> i" "i \<le> 2932897"
  shows "civilMidnight loc (timeUnix (mul64 (mul64 (mul64 i 24) 60) 60) 0) = GoTime (dayBoundary 0 off i) 0"
proof -
  have "timeUnix (mul64 (mul64 (mul64 i 24) 60) 60) 0 = GoTime (86400 * (i + epochDays)) 0"
    using assms(2,3) by (simp add: timeUnix_def go_arith)
  moreover have "localDays timeUTC (GoTime (86400 * (i + epochDays)) 0) = i + epochDays"
    by (simp only: localDays_UTC gotime.sel nonzero_mult_div_cancel_left)
  ultimately show ?thesis
    using assms timeDate_fixed [OF assms(1), of "yearOf (i + epochDays)" "monthOf (i + epochDays)" "dayOf (i + epochDays)"]
    by (simp add: civilMidnight_def time_Year_def time_Month_def time_Day_def dateDays_of days_ok_def dayBoundary_def)
qed

lemma ordinal_limits:
  "quot64 (unixOf (timeDate timeUTC 1 1 1)) (24 * 60 * 60) = - epochDays"
  "add64 (quot64 (unixOf (timeDate timeUTC 9999 12 31)) (24 * 60 * 60)) 1 = 2932897"
  by code_simp+

lemma calendarCivilDayBounds_fixed:
  assumes z: "fixed_zone loc off" and k: "0 < k" "k \<le> max_int64" and S: "min_int64 \<le> S" "S \<le> 2000000000000"
  shows "calendarCivilDayBounds S k loc =
    (if - epochDays \<le> S \<and> S + k \<le> 2932897
     then Inr (GoTime (dayBoundary 0 off S) 0, GoTime (dayBoundary 0 off (S + k)) 0)
     else Inl ErrInvalidInput)"
proof -
  have m: "sub64 max_int64 k = max_int64 - k" using k by (simp add: go_arith)
  show ?thesis
  proof (cases "S > max_int64 - k")
    case True
    then show ?thesis by (simp add: calendarCivilDayBounds_def m)
  next
    case False
    then have a: "add64 S k = S + k" using k S by (simp add: go_arith)
    show ?thesis
    proof (cases "- epochDays \<le> S \<and> S + k \<le> 2932897")
      case True
      then show ?thesis
        using False k civil_midnight_fixed [OF z, of S] civil_midnight_fixed [OF z, of "S + k"]
        unfolding calendarCivilDayBounds_def m a ordinal_limits Let_def by simp
    next
      case out: False
      then show ?thesis
        using False k unfolding calendarCivilDayBounds_def m a ordinal_limits Let_def by auto
    qed
  qed
qed

lemma dayCell_range:
  assumes "years_ok off t"
  shows "- epochDays - first \<le> dayCell first off (gt_sec t)" "dayCell first off (gt_sec t) \<le> 2932896 - first"
  using assms by (simp_all add: years_ok_def dayCell_def)

lemma calendarDayWindow_fixed:
  assumes z: "fixed_zone loc off" and y: "years_ok off now" and k: "0 < k" "k \<le> max_int64"
  defines "b \<equiv> days.block 0 off k (gt_sec now)"
  shows "calendarDayWindow now k loc =
    (if - epochDays \<le> b \<and> b + k \<le> 2932897
     then Inr (GoTime (dayBoundary 0 off b) 0, GoTime (dayBoundary 0 off (b + k)) 0)
     else Inl ErrInvalidInput)"
proof -
  define c where "c = dayCell 0 off (gt_sec now)"
  have c: "- 1000000000000 \<le> c" "c \<le> 1000000000000" using dayCell_range [OF y, of 0] by (simp_all add: c_def)
  have b: "min_int64 \<le> b" "b \<le> 2000000000000" "b = c div k * k"
    using block_in64 [OF c k] by (simp_all add: b_def days.block_def c_def)
  have "floorDivision c k = Inr (c div k)" using c k by (intro floorDivision_eq) auto
  moreover have "mul64 (c div k) k = b" using b by (simp add: go_arith)
  ultimately show ?thesis
    using calendarCivilDayBounds_fixed [OF z k b(1,2)]
    by (simp add: calendarDayWindow_def civilDayOrdinal_fixed [OF z y] c_def andThen_def)
qed

lemma calendarWeekWindow_fixed:
  assumes z: "fixed_zone loc off" and y: "years_ok off now" and a: "0 < a" "a \<le> max_int64"
  defines "b \<equiv> days.block 4 off (7 * a) (gt_sec now)"
  shows "calendarWeekWindow now a loc =
    (if - epochDays - 4 \<le> b \<and> b + 7 * a \<le> 2932893
     then Inr (GoTime (dayBoundary 4 off b) 0, GoTime (dayBoundary 4 off (b + 7 * a)) 0)
     else Inl ErrInvalidInput)"
proof -
  define c where "c = dayCell 4 off (gt_sec now)"
  have cr: "- 719166 \<le> c" "c \<le> 2932892" using dayCell_range [OF y, of 4] by (simp_all add: c_def)
  have q: "quot64 max_int64 7 = 1317624576693539401" by code_simp
  show ?thesis
  proof (cases "a > 1317624576693539401")
    case True
    then show ?thesis by (auto simp: calendarWeekWindow_def q)
  next
    case False
    have k: "0 < 7 * a" "7 * a \<le> max_int64" and sp: "mul64 a 7 = 7 * a"
      using False a by (simp_all add: go_arith)
    have c: "- 1000000000000 \<le> c" "c \<le> 1000000000000" using cr by simp_all
    have b: "min_int64 \<le> b" "b \<le> 1000000000000" "b = c div (7 * a) * (7 * a)"
      using block_in64 [OF c k] by (simp_all add: b_def days.block_def c_def)
    have ord: "civilDayOrdinal loc now = c + 4"
      by (simp add: civilDayOrdinal_fixed [OF z y] c_def dayCell_def)
    have f: "floorDivision c (7 * a) = Inr (c div (7 * a))" using c k by (intro floorDivision_eq) auto
    have m: "mul64 (c div (7 * a)) (7 * a) = b" unfolding mul64_def b(3) [symmetric] using b(1,2) by simp
    have d: "sub64 (c + 4) 4 = c" "add64 4 b = b + 4" using c b by (simp_all add: go_arith)
    have B: "dayBoundary 0 off (x + 4) = dayBoundary 4 off x" for x by (simp add: dayBoundary_def)
    have s: "calendarWeekWindow now a loc = calendarCivilDayBounds (b + 4) (7 * a) loc"
      using False by (simp add: calendarWeekWindow_def q sp ord d(1) f m d(2) andThen_def)
    show ?thesis
      unfolding s using calendarCivilDayBounds_fixed [OF z k, of "b + 4"] b B [of b] B [of "b + 7 * a"]
      by (simp add: algebra_simps)
  qed
qed

lemma monthStart_ok:
  assumes "0 \<le> i" "i \<le> 119988"
  shows "days_ok (monthStart i)"
proof -
  have "monthStart 0 = 0" "monthStart 119988 = 3652059" by code_simp+
  then show ?thesis
    using monthStart_mono [OF assms(1)] monthStart_mono [OF assms(2)] by (simp add: days_ok_def)
qed

lemma civil_month_fixed:
  assumes "fixed_zone loc off" "0 \<le> i" "i \<le> 119988"
  shows "monthMidnight loc i = GoTime (monthBoundary off i) 0"
proof -
  have "quot64 i 12 = i div 12" "rem64 i 12 = i mod 12"
    using assms by (simp_all add: quot64_exact rem64_exact)
  moreover have "0 \<le> i div 12" "i div 12 \<le> i" "0 \<le> i mod 12" "i mod 12 < 12"
    using assms by (simp_all add: pos_imp_zdiv_nonneg_iff div_le_self_int)
  ultimately have "add64 (quot64 i 12) 1 = i div 12 + 1" "add64 (rem64 i 12) 1 = i mod 12 + 1"
    using assms(3) by (simp_all add: add64_exact)
  then show ?thesis
    using timeDate_fixed [OF assms(1), of "i div 12 + 1" "i mod 12 + 1" 1] monthStart_ok [OF assms(2,3)]
    by (simp add: monthMidnight_def monthStart_def monthBoundary_def)
qed

lemma calendarMonthWindow_fixed:
  assumes z: "fixed_zone loc off" and y: "years_ok off now" and k: "0 < k" "k \<le> max_int64"
  defines "b \<equiv> months.block off k (gt_sec now)"
  shows "calendarMonthWindowIn now k loc =
    (if 0 \<le> b \<and> b + k \<le> 119988
     then Inr (GoTime (monthBoundary off b) 0, GoTime (monthBoundary off (b + k)) 0)
     else Inl ErrInvalidInput)"
proof -
  define n where "n = localDays loc now"
  have n: "n = (gt_sec now + off) div 86400" using z by (simp add: n_def localDays_fixed)
  have yr: "1 \<le> yearOf n" "yearOf n \<le> 9999"
    using y by (simp_all add: yearOf_ge_1 yearOf_le_9999 n years_ok_def)
  define c where "c = monthIndex n"
  have c: "0 \<le> c" "c \<le> 119987" using yr monthOf_bounds [of n] by (simp_all add: c_def monthIndex_def)
  have cell: "monthCell off (gt_sec now) = c" by (simp add: monthCell_def c_def n)
  have cur: "add64 (mul64 (sub64 (time_Year loc now) 1) 12) (sub64 (time_Month loc now) 1) = c"
    using yr monthOf_bounds [of n]
    by (simp add: time_Year_def time_Month_def monthIndex_def c_def go_arith flip: n_def)
  have c': "- 1000000000000 \<le> c" "c \<le> 1000000000000" using c by simp_all
  have b: "min_int64 \<le> b" "b \<le> c" "b = c div k * k"
    using block_in64 [OF c' k] months.block_bounds [OF k(1), of off "gt_sec now"]
    by (simp_all add: b_def months.block_def cell)
  have f: "floorDivision c k = Inr (c div k)" using c k by (intro floorDivision_eq) auto
  have m: "mul64 (c div k) k = b" unfolding mul64_def b(3) [symmetric] using b(1,2) c by simp
  have s: "sub64 max_int64 k = max_int64 - k" using k by (simp add: go_arith)
  show ?thesis
  proof (cases "b > max_int64 - k")
    case True
    then show ?thesis by (simp add: calendarMonthWindowIn_def cur f m s andThen_def)
  next
    case False
    then have a: "add64 b k = b + k" using b(1) k by (simp add: go_arith)
    show ?thesis
      using False k civil_month_fixed [OF z, of b] civil_month_fixed [OF z, of "b + k"]
      by (auto simp: calendarMonthWindowIn_def cur f m s a andThen_def Let_def)
  qed
qed

section \<open>Minute and hour windows in any location\<close>

definition calendarAnchor :: "location \<Rightarrow> int" where
  "calendarAnchor loc = unixOf (timeDate loc 1970 1 1)"

lemma calendarAnchor_bounds:
  assumes "zone_ok loc"
  shows "- 93599 \<le> calendarAnchor loc" "calendarAnchor loc \<le> 89999"
proof -
  have D: "dateDays 1970 1 1 = 719162" by code_simp
  then show "- 93599 \<le> calendarAnchor loc" "calendarAnchor loc \<le> 89999"
    using timeDate_bounds [OF assms, of 1970 1 1] by (simp_all add: calendarAnchor_def D days_ok_def unixOf_def go_arith)
qed

definition spanSeconds :: "calendarSpec \<Rightarrow> int" where
  "spanSeconds spec = spec_amount spec * (if spec_unit spec = ''h'' then 3600 else 60)"

lemma calendarFixedWindow_eq:
  fixes loc spec now
  assumes z: "zone_ok loc" and a: "0 < spec_amount spec" "spec_amount spec \<le> max_int64"
    and u: "- 900000000000 \<le> unixOf now" "unixOf now \<le> 900000000000"
  defines "A \<equiv> calendarAnchor loc" and "k \<equiv> spanSeconds spec"
  defines "b \<equiv> seconds.block A k (unixOf now)"
  shows "calendarFixedWindow now spec loc =
    (if k \<le> max_int64 \<and> min_int64 \<le> A + b \<and> A + b + k \<le> max_int64 \<and>
        1 \<le> time_Year loc (timeUnix (A + b) 0) \<and> time_Year loc (timeUnix (A + b + k) 0) \<le> 9999
     then Inr (timeUnix (A + b) 0, timeUnix (A + b + k) 0) else Inl ErrInvalidInput)"
proof -
  define s where "s = (if spec_unit spec = ''h'' then 60 * 60 else 60 :: int)"
  have s: "0 < s" "k = spec_amount spec * s" by (simp_all add: s_def k_def spanSeconds_def)
  have q: "quot64 max_int64 s = max_int64 div s" using s by (intro quot64_exact) simp_all
  have big: "spec_amount spec > max_int64 div s \<longleftrightarrow> k > max_int64"
    using le_div_iff_int [OF s(1), of "spec_amount spec" max_int64] s(2) by (auto simp flip: not_le)
  note D = calendarFixedWindow_def [of now spec loc, folded s_def calendarAnchor_def, folded A_def]
  show ?thesis
  proof (cases "k > max_int64")
    case True
    then show ?thesis using big by (simp add: D q)
  next
    case False
    have k: "0 < k" "k \<le> max_int64" using False a s by simp_all
    have A: "- 93599 \<le> A" "A \<le> 89999" using calendarAnchor_bounds [OF z] by (simp_all add: A_def)
    define c where "c = unixOf now - A"
    have c: "- 1000000000000 \<le> c" "c \<le> 1000000000000" using u A by (simp_all add: c_def)
    have b: "min_int64 < b" "b \<le> 1000000000000" "b = c div k * k"
      using block_in64 [OF c k] by (simp_all add: b_def seconds.block_def c_def)
    have sp: "mul64 (spec_amount spec) s = k" using k by (simp add: mul64_def flip: s(2))
    have dl: "sub64 (unixOf now) A = c" using u A by (simp add: go_arith c_def)
    have f: "floorDivision c k = Inr (c div k)" using c k by (intro floorDivision_eq) auto
    have m: "mul64 (c div k) k = b" unfolding mul64_def b(3) [symmetric] using b(1,2) by simp
    have g: "0 < b \<Longrightarrow> sub64 max_int64 b = max_int64 - b" "b < 0 \<Longrightarrow> sub64 min_int64 b = min_int64 - b"
      using b by (simp_all add: go_arith)
    have sk: "sub64 max_int64 k = max_int64 - k" using k by (simp add: go_arith)
    show ?thesis
    proof (cases "min_int64 \<le> A + b")
      case low: False
      then have "b < 0" using A by simp
      then show ?thesis
        using False low big g
        by (simp add: D q sp dl f m andThen_def)
    next
      case low: True
      have ab: "add64 A b = A + b" using low A b by (simp add: go_arith)
      have no: "\<not> (0 < b \<and> sub64 max_int64 b < A \<or> b < 0 \<and> A < sub64 min_int64 b)"
        using g A b low by auto
      have ae: "A + b \<le> max_int64 - k \<Longrightarrow> add64 (A + b) k = A + b + k" using low k by (simp add: go_arith)
      show ?thesis
        using False low big no ae k
        by (auto simp: D q sp dl f m andThen_def sk ab Let_def)
    qed
  qed
qed

section \<open>Stability of windows\<close>

lemma GoTime_le_iff: "0 \<le> gt_nsec u \<Longrightarrow> GoTime B 0 \<le> u \<longleftrightarrow> B \<le> gt_sec u"
  by (cases u) (auto simp: less_eq_gotime_def)

lemma less_GoTime_iff: "0 \<le> gt_nsec u \<Longrightarrow> u < GoTime B 0 \<longleftrightarrow> gt_sec u < B"
  by (cases u) (auto simp: less_gotime_def)

lemma wrap64_over: "max_int64 < x \<Longrightarrow> x \<le> 18446744073709551615 \<Longrightarrow> wrap64 x = x - 18446744073709551616"
proof -
  assume "max_int64 < x" "x \<le> 18446744073709551615"
  then have "(x + 9223372036854775808) mod 18446744073709551616 = x - 9223372036854775808"
    by (intro int_mod_pos_eq [of _ _ 1]) simp_all
  then show ?thesis by (simp add: wrap64_def)
qed

definition civil_ok :: "location \<Rightarrow> gotime \<Rightarrow> bool" where
  "civil_ok loc t \<longleftrightarrow> 1 \<le> time_Year loc t \<and> time_Year loc t \<le> 9999 \<and> 0 \<le> gt_nsec t \<and> gt_nsec t < 1000000000"

lemma civil_ok_years: "fixed_zone loc off \<Longrightarrow> civil_ok loc t \<Longrightarrow> years_ok off t"
  using years_ok_iff [of loc off t] by (auto simp: civil_ok_def)

lemma civil_ok_bounds:
  assumes "zone_ok loc" "civil_ok loc t"
  shows "- 93599 \<le> gt_sec t" "gt_sec t \<le> 86400 * 3652059 + 89999"
proof -
  obtain x where x: "loc_offset loc (unixOf t) = x" "- 89999 \<le> x" "x \<le> 93599"
    using zone_okD [OF assms(1), of "unixOf t"] by auto
  have "0 \<le> (gt_sec t + x) div 86400" "(gt_sec t + x) div 86400 \<le> 3652058"
    using assms(2) x(1) by (auto simp: civil_ok_def time_Year_def yearOf_ge_1 yearOf_le_9999 localDays_def)
  then have "0 \<le> gt_sec t + x" "gt_sec t + x < 86400 * 3652059"
    using div_bounds [of 86400 "gt_sec t + x"] by simp_all
  then show "- 93599 \<le> gt_sec t" "gt_sec t \<le> 86400 * 3652059 + 89999" using x by simp_all
qed

definition spec_ok :: "calendarSpec \<Rightarrow> bool" where
  "spec_ok spec \<longleftrightarrow> 0 < spec_amount spec \<and> spec_amount spec \<le> max_int64"

lemma parseCalendarSpec_ok: "parseCalendarSpec raw = Inr spec \<Longrightarrow> spec_ok spec \<and> spec_raw spec = raw"
  by (auto simp: parseCalendarSpec_def spec_ok_def Let_def split: option.splits if_splits)

lemma calendarFixedWindow_stable:
  assumes z: "zone_ok loc" and sp: "spec_ok spec" and now: "civil_ok loc now" and u: "civil_ok loc u"
    and w: "calendarFixedWindow now spec loc = Inr (s, e)" and se: "s \<le> u" "u < e" "now < e"
  shows "calendarFixedWindow u spec loc = Inr (s, e)"
proof -
  define A where "A = calendarAnchor loc"
  define k where "k = spanSeconds spec"
  define b where "b = seconds.block A k (unixOf now)"
  note nb = civil_ok_bounds [OF z now] and ub = civil_ok_bounds [OF z u]
  have un: "unixOf now = gt_sec now - unixToInternal" and uu: "unixOf u = gt_sec u - unixToInternal"
    using nb ub by (simp_all add: unixOf_def go_arith)
  have a: "0 < spec_amount spec" "spec_amount spec \<le> max_int64" using sp by (simp_all add: spec_ok_def)
  have k: "0 < k" using a by (simp add: k_def spanSeconds_def)
  have eqn: "calendarFixedWindow now spec loc =
      (if k \<le> max_int64 \<and> min_int64 \<le> A + b \<and> A + b + k \<le> max_int64 \<and>
        1 \<le> time_Year loc (timeUnix (A + b) 0) \<and> time_Year loc (timeUnix (A + b + k) 0) \<le> 9999
     then Inr (timeUnix (A + b) 0, timeUnix (A + b + k) 0) else Inl ErrInvalidInput)"
    unfolding A_def b_def k_def using nb un by (intro calendarFixedWindow_eq [OF z a]) simp_all
  then have c: "min_int64 \<le> A + b" "A + b + k \<le> max_int64" and s: "s = timeUnix (A + b) 0"
    and e: "e = timeUnix (A + b + k) 0"
    using w by (auto split: if_splits)
  have Ab: "A + b \<le> unixOf now" using seconds.block_contains(1) [OF k] by (simp add: b_def)
  have s': "s = GoTime (A + b + unixToInternal) 0"
    unfolding s timeUnix_def using c(1) Ab un nb by (simp add: go_arith)
  have "A + b + k \<le> max_int64 - unixToInternal"
  proof (rule ccontr)
    assume "\<not> ?thesis"
    then have "gt_sec e < - 1000000000000" using c(2) wrap64_over [of "A + b + k + unixToInternal"] by (simp add: e timeUnix_def add64_def)
    then show False using se(3) nb by (auto simp: less_gotime_def)
  qed
  then have e': "e = GoTime (A + b + k + unixToInternal) 0"
    unfolding e timeUnix_def using c k by (simp add: go_arith)
  have "A + b \<le> unixOf u" "unixOf u < A + (b + k)"
    using se(1,2) u uu unfolding s' e' by (simp_all add: GoTime_le_iff less_GoTime_iff civil_ok_def)
  then have "seconds.block A k (unixOf u) = b"
    using seconds.block_same [OF k, of A "unixOf now" "unixOf u"] by (simp add: b_def)
  then have "calendarFixedWindow u spec loc = calendarFixedWindow now spec loc"
    unfolding eqn A_def k_def
    using calendarFixedWindow_eq [OF z a, of u] ub uu by simp
  then show ?thesis using w by simp
qed

lemma calendarBounds_stable:
  assumes z: "fixed_zone loc off" and sp: "spec_ok spec" and now: "civil_ok loc now" and u: "civil_ok loc u"
    and w: "calendarBounds now spec loc = Inr (s, e)" and se: "s \<le> u" "u < e" "now < e"
  shows "calendarBounds u spec loc = Inr (s, e)"
proof -
  let ?k = "spec_amount spec"
  have k: "0 < ?k" "?k \<le> max_int64" and k7: "0 < 7 * ?k" using sp by (simp_all add: spec_ok_def)
  note yn = civil_ok_years [OF z now] and yu = civil_ok_years [OF z u]
  have ns: "0 \<le> gt_nsec u" using u by (simp add: civil_ok_def)
  consider "spec_unit spec = ''m'' \<or> spec_unit spec = ''h''" | "spec_unit spec = ''d''" | "spec_unit spec = ''w''"
    | "spec_unit spec = ''mo''" using w by (auto simp: calendarBounds_def split: if_splits)
  then show ?thesis
  proof cases
    case 1
    then show ?thesis
      using calendarFixedWindow_stable [OF fixed_zone_ok [OF z] sp now u _ se] w by (auto simp: calendarBounds_def)
  next
    case 2
    then have "dayBoundary 0 off (days.block 0 off ?k (gt_sec now)) \<le> gt_sec u"
      "gt_sec u < dayBoundary 0 off (days.block 0 off ?k (gt_sec now) + ?k)"
      using w se(1,2) ns
      by (auto simp: calendarBounds_def calendarDayWindow_fixed [OF z yn k] GoTime_le_iff less_GoTime_iff split: if_splits)
    from days.block_same [OF k(1) this] show ?thesis
      using 2 w by (auto simp: calendarBounds_def calendarDayWindow_fixed [OF z yn k] calendarDayWindow_fixed [OF z yu k] split: if_splits)
  next
    case 3
    then have "dayBoundary 4 off (days.block 4 off (7 * ?k) (gt_sec now)) \<le> gt_sec u"
      "gt_sec u < dayBoundary 4 off (days.block 4 off (7 * ?k) (gt_sec now) + 7 * ?k)"
      using w se(1,2) ns
      by (auto simp: calendarBounds_def calendarWeekWindow_fixed [OF z yn k] GoTime_le_iff less_GoTime_iff split: if_splits)
    from days.block_same [OF k7 this] show ?thesis
      using 3 w by (auto simp: calendarBounds_def calendarWeekWindow_fixed [OF z yn k] calendarWeekWindow_fixed [OF z yu k] split: if_splits)
  next
    case 4
    then have "monthBoundary off (months.block off ?k (gt_sec now)) \<le> gt_sec u"
      "gt_sec u < monthBoundary off (months.block off ?k (gt_sec now) + ?k)"
      using w se(1,2) ns
      by (auto simp: calendarBounds_def calendarMonthWindow_fixed [OF z yn k] GoTime_le_iff less_GoTime_iff split: if_splits)
    from months.block_same [OF k(1) this] show ?thesis
      using 4 w by (auto simp: calendarBounds_def calendarMonthWindow_fixed [OF z yn k] calendarMonthWindow_fixed [OF z yu k] split: if_splits)
  qed
qed

section \<open>The whole operation\<close>

lemma calendarWindowIn_iff:
  "calendarWindowIn LL now raw tz = Inr p \<longleftrightarrow>
   (\<exists>spec name loc s e. parseCalendarSpec raw = Inr spec \<and> \<not> isZero now \<and>
     canonicalCalendarTimezone LL tz = Inr (name, loc) \<and>
     1 \<le> time_Year loc now \<and> time_Year loc now \<le> 9999 \<and>
     calendarBounds now spec loc = Inr (s, e) \<and> s < e \<and> s \<le> now \<and> now < e \<and>
     length (calendarKey name raw s) \<le> 128 \<and>
     p = \<lparr>period_key = calendarKey name raw s, period_start = s, period_end = e\<rparr>)"
proof (cases "parseCalendarSpec raw")
  case (Inr spec)
  note raw = parseCalendarSpec_ok [OF Inr]
  show ?thesis
  proof (cases "canonicalCalendarTimezone LL tz")
    case z: (Inr x)
    obtain name loc where x: "x = (name, loc)" by (cases x)
    show ?thesis
      by (cases "calendarBounds now spec loc")
        (auto simp: calendarWindowIn_def Inr z x raw Let_def not_less not_le split: if_splits)
  qed (simp add: calendarWindowIn_def Inr)
qed (simp add: calendarWindowIn_def)

lemma fixed_unit_last:
  assumes "parseCalendarSpec raw = Inr spec" "last raw \<in> {CHR ''m'', CHR ''h''}"
  shows "spec_unit spec = ''m'' \<or> spec_unit spec = ''h''"
proof -
  have u: "spec_unit spec = dropWhile isDecimalDigit raw" "spec_unit spec \<in> {''m'', ''h'', ''d'', ''w'', ''mo''}"
    using assms(1)
    by (auto simp: parseCalendarSpec_def calendarWindowPattern_def Let_def split: option.splits if_splits)
  have "last raw = last (takeWhile isDecimalDigit raw @ spec_unit spec)" unfolding u(1) by simp
  also have "\<dots> = last (spec_unit spec)" using u(2) by auto
  finally show ?thesis using assms(2) u(2) by auto
qed



section \<open>Keys\<close>

lemma delim_inject:
  "d \<notin> set a \<Longrightarrow> d \<notin> set b \<Longrightarrow> a @ d # x = b @ d # y \<longleftrightarrow> a = b \<and> x = y"
proof (induction a arbitrary: b)
  case Nil
  then show ?case by (cases b) auto
next
  case (Cons c a)
  then show ?case by (cases b) auto
qed

lemma parseCalendarSpec_raw:
  assumes "parseCalendarSpec raw = Inr spec"
  shows "CHR '':'' \<notin> set raw" "length raw \<le> 21"
proof -
  define ds where "ds = takeWhile isDecimalDigit raw"
  define un where "un = dropWhile isDecimalDigit raw"
  have r: "raw = ds @ un" by (simp add: ds_def un_def)
  have u: "un \<in> {''m'', ''h'', ''d'', ''w'', ''mo''}" "ds \<noteq> []" "hd ds \<noteq> CHR ''0''" "digitsValue ds 0 \<le> max_int64"
    using assms by (auto simp: parseCalendarSpec_def calendarWindowPattern_def Let_def ds_def un_def split: option.splits if_splits)
  have d: "list_all isDecimalDigit ds" by (auto simp: ds_def list_all_iff dest: set_takeWhileD)
  have "CHR '':'' \<notin> set ds"
    using d by (auto simp: list_all_iff isDecimalDigit_def less_eq_char_def)
  then show "CHR '':'' \<notin> set raw" using u(1) by (auto simp: r)
  obtain c cs where c: "ds = c # cs" using u(2) by (cases ds) auto
  have "1 \<le> digitValue c" using d u(3) c digitValue_range [of c] digitValue_zero_iff [of c] by force
  then have "10 ^ length cs \<le> digitValue c * 10 ^ length cs" by simp
  also have "\<dots> \<le> digitsValue ds 0"
    using d digitsValue_bounds [of cs] unfolding c digitsValue_Cons [of c cs] by simp
  finally have "(10 :: int) ^ length cs < 10 ^ 19" using u(4) by simp
  then have "length cs < 19" by (rule power_less_imp_less_exp [rotated]) simp
  then show "length raw \<le> 21" using u(1) by (auto simp: r c)
qed

lemma timezoneMatch_no_colon: "timezoneMatch f s \<Longrightarrow> (\<And>F. f = Some F \<Longrightarrow> \<not> F CHR '':'') \<Longrightarrow> CHR '':'' \<notin> set s"
proof (induction f s rule: timezoneMatch.induct)
  case (4 c cs)
  have n: "\<not> timezone_rest CHR '':''" "\<not> is_alpha CHR '':''" "\<not> is_digit CHR '':''" by code_simp+
  show ?case
    using 4 n by (auto split: if_splits)
qed auto

lemma canonicalCalendarTimezone_name:
  assumes "canonicalCalendarTimezone LL tz = Inr (name, loc)"
  shows "CHR '':'' \<notin> set name" "length name \<le> 64"
proof -
  have "\<not> is_alpha CHR '':''" by code_simp
  then show "CHR '':'' \<notin> set name" "length name \<le> 64"
    using assms timezoneMatch_no_colon [of "Some is_alpha" name]
    by (auto simp: canonicalCalendarTimezone_def calendarTimezonePattern_def split: if_splits option.splits)
qed

lemma calendarKey_inject:
  assumes "CHR '':'' \<notin> set n" "CHR '':'' \<notin> set m" "CHR '':'' \<notin> set r" "CHR '':'' \<notin> set q"
    and "format_year_ok s" "format_year_ok t" "gt_nsec s = gt_nsec t"
  shows "calendarKey n r s = calendarKey m q t \<longleftrightarrow> n = m \<and> r = q \<and> s = t"
proof -
  have "formatUTC s = formatUTC t \<longleftrightarrow> s = t" using formatUTC_inject [OF assms(5-7)] by auto
  then show ?thesis
    using assms(1-4) by (auto simp: calendarKey_def delim_inject)
qed

lemma year_lower:
  assumes "zone_ok loc" "1 \<le> time_Year loc t"
  shows "- 93600 \<le> gt_sec t"
proof -
  obtain x where x: "loc_offset loc (unixOf t) = x" "x \<le> 93599" using zone_okD [OF assms(1), of "unixOf t"] by auto
  have "0 \<le> (gt_sec t + x) div 86400" using assms(2) x(1) by (simp add: time_Year_def yearOf_ge_1 localDays_def)
  then show ?thesis using div_bounds [of 86400 "gt_sec t + x"] x(2) by simp
qed

lemma calendarCivilDayBounds_start:
  assumes z: "zone_ok loc" and k: "k \<le> max_int64" and S: "in64 S" and w: "calendarCivilDayBounds S k loc = Inr (s, e)"
  shows "gt_nsec s = 0 \<and> - 93600 \<le> gt_sec s"
proof -
  have k0: "0 < k" using w by (auto simp: calendarCivilDayBounds_def split: if_splits)
  then have m: "sub64 max_int64 k = max_int64 - k" using k by (simp add: go_arith)
  then have Sk: "S \<le> max_int64 - k" using w by (auto simp: calendarCivilDayBounds_def split: if_splits)
  then have a: "add64 S k = S + k" using S k0 by (simp add: in64_def go_arith)
  have r: "- epochDays \<le> S" "S \<le> 2932897" and sd: "s = civilMidnight loc (timeUnix (mul64 (mul64 (mul64 S 24) 60) 60) 0)"
    using w k0 unfolding calendarCivilDayBounds_def m a ordinal_limits Let_def by (auto split: if_splits)
  define n where "n = S + epochDays"
  have "timeUnix (mul64 (mul64 (mul64 S 24) 60) 60) 0 = GoTime (86400 * n) 0"
    using r by (simp add: timeUnix_def n_def go_arith)
  moreover have "localDays timeUTC (GoTime (86400 * n) 0) = n"
    by (simp only: localDays_UTC gotime.sel nonzero_mult_div_cancel_left)
  ultimately have "s = timeDate loc (yearOf n) (monthOf n) (dayOf n)"
    unfolding sd civilMidnight_def by (simp add: time_Year_def time_Month_def time_Day_def)
  then show ?thesis
    using timeDate_bounds [OF z, of "yearOf n" "monthOf n" "dayOf n"] r by (simp add: dateDays_of days_ok_def n_def)
qed

lemma in64_ops [simp]: "in64 (add64 a b)" "in64 (sub64 a b)" "in64 (mul64 a b)"
  by (simp_all add: add64_def sub64_def mul64_def)

lemma in64_max: "in64 x \<Longrightarrow> x \<le> max_int64"
  by (simp add: in64_def)

lemma calendarMonthWindow_start:
  assumes z: "zone_ok loc" and k: "0 < k" "k \<le> max_int64" and w: "calendarMonthWindowIn now k loc = Inr (s, e)"
  shows "gt_nsec s = 0 \<and> - 93600 \<le> gt_sec s"
proof -
  have m: "sub64 max_int64 k = max_int64 - k" using k by (simp add: go_arith)
  obtain x where x: "mul64 x k \<le> max_int64 - k" "0 \<le> mul64 x k" "add64 (mul64 x k) k \<le> 119988"
    "s = monthMidnight loc (mul64 x k)"
    using w unfolding calendarMonthWindowIn_def m Let_def go_result
    by (auto split: if_splits simp: not_less not_le)
  define i where "i = mul64 x k"
  have i: "in64 i" "i \<le> max_int64 - k" "0 \<le> i" "add64 i k \<le> 119988"
    "s = monthMidnight loc i"
    using x by (simp_all add: i_def)
  have "add64 i k = i + k" using i k by (simp add: go_arith)
  then have r: "0 \<le> i" "i \<le> 119988" using i k by simp_all
  have "0 \<le> i div 12" "i div 12 \<le> i" "0 \<le> i mod 12" "i mod 12 < 12"
    using r by (simp_all add: pos_imp_zdiv_nonneg_iff div_le_self_int)
  then have "s = timeDate loc (i div 12 + 1) (i mod 12 + 1) 1"
    using r by (simp add: i(5) monthMidnight_def quot64_exact rem64_exact add64_exact)
  moreover have "monthStart 0 = 0" by code_simp
  ultimately show ?thesis
    using timeDate_bounds [OF z, of "i div 12 + 1" "i mod 12 + 1" 1] monthStart_ok [OF r] monthStart_mono [OF r(1)]
    by (simp add: monthStart_def)
qed

lemma calendarBounds_start:
  assumes z: "zone_ok loc" and sp: "spec_ok spec" and w: "calendarBounds now spec loc = Inr (s, e)"
  shows "gt_nsec s = 0 \<and> - 93600 \<le> gt_sec s"
proof -
  have k: "0 < spec_amount spec" "spec_amount spec \<le> max_int64" using sp by (simp_all add: spec_ok_def)
  consider "calendarFixedWindow now spec loc = Inr (s, e)" | "calendarDayWindow now (spec_amount spec) loc = Inr (s, e)"
    | "calendarWeekWindow now (spec_amount spec) loc = Inr (s, e)"
    | "calendarMonthWindowIn now (spec_amount spec) loc = Inr (s, e)"
    using w by (auto simp: calendarBounds_def split: if_splits)
  then show ?thesis
  proof cases
    case 1
    then have "gt_nsec s = 0" "1 \<le> time_Year loc s"
      by (auto simp: calendarFixedWindow_def Let_def go_result timeUnix_def split: if_splits)
    then show ?thesis using year_lower [OF z] by simp
  next
    case 2
    then obtain x where "calendarCivilDayBounds (mul64 x (spec_amount spec)) (spec_amount spec) loc = Inr (s, e)"
      by (auto simp: calendarDayWindow_def go_result)
    from calendarCivilDayBounds_start [OF z k(2) in64_ops(3) this] show ?thesis .
  next
    case 3
    then obtain x where
      "calendarCivilDayBounds (add64 4 (mul64 x (mul64 (spec_amount spec) 7))) (mul64 (spec_amount spec) 7) loc = Inr (s, e)"
      by (auto simp: calendarWeekWindow_def go_result Let_def split: if_splits)
    from calendarCivilDayBounds_start [OF z in64_max [OF in64_ops(3)] in64_ops(1) this] show ?thesis .
  next
    case 4
    then show ?thesis by (rule calendarMonthWindow_start [OF z k])
  qed
qed

lemma format_year_okI:
  assumes "- 93600 \<le> gt_sec s" "s \<le> now" "time_Year timeUTC now \<le> 9999"
  shows "format_year_ok s"
proof -
  have "yearOf (- 2) = 0" by code_simp
  moreover have "- 2 \<le> gt_sec s div 86400" using assms(1) div_bounds [of 86400 "gt_sec s"] by linarith
  moreover have "gt_sec s div 86400 \<le> gt_sec now div 86400"
    using assms(2) by (intro zdiv_mono1) (auto simp: less_eq_gotime_def)
  ultimately show ?thesis
    using assms(3) yearOf_mono [of "- 2" "gt_sec s div 86400"] yearOf_mono [of "gt_sec s div 86400" "gt_sec now div 86400"]
    by (simp add: format_year_ok_def time_Year_def localDays_UTC)
qed

lemma calendarWindowIn_key:
  assumes "calendarWindowIn LL now raw tz = Inr p" "canonicalCalendarTimezone LL tz = Inr (name, loc)"
    and "zone_ok loc" "time_Year timeUTC now \<le> 9999"
  shows "period_key p = calendarKey name raw (period_start p)" "CHR '':'' \<notin> set name" "CHR '':'' \<notin> set raw"
    "format_year_ok (period_start p)" "gt_nsec (period_start p) = 0"
proof -
  obtain spec s e where sp: "parseCalendarSpec raw = Inr spec" and w: "calendarBounds now spec loc = Inr (s, e)"
    and sn: "s \<le> now" and p: "period_key p = calendarKey name raw s" "period_start p = s"
    using assms(1,2) unfolding calendarWindowIn_iff by auto
  have s: "gt_nsec s = 0" "- 93600 \<le> gt_sec s"
    using calendarBounds_start [OF assms(3) _ w] parseCalendarSpec_ok [OF sp] by simp_all
  show "period_key p = calendarKey name raw (period_start p)" "gt_nsec (period_start p) = 0" using p s by simp_all
  show "CHR '':'' \<notin> set name" by (rule canonicalCalendarTimezone_name [OF assms(2)])
  show "CHR '':'' \<notin> set raw" by (rule parseCalendarSpec_raw [OF sp])
  show "format_year_ok (period_start p)" using format_year_okI [OF s(2) sn assms(4)] p(2) by simp
qed

text \<open>
  C11.  The key of a calendar bucket identifies the window: two windows have the same key
  exactly if they have the same canonical time zone, the same window length and the same
  start instant, for all instants before the year 10000 UTC.  In particular the two
  serialisations, \<open>utc:v1\<close> and \<open>iana:v1\<close>, never collide.
\<close>

theorem calendar_key_unique:
  assumes "calendarWindowIn LL a raw tz = Inr p" "canonicalCalendarTimezone LL tz = Inr (name, loc)"
    and "calendarWindowIn LL b raw' tz' = Inr q" "canonicalCalendarTimezone LL tz' = Inr (name', loc')"
    and "zone_ok loc" "zone_ok loc'" "time_Year timeUTC a \<le> 9999" "time_Year timeUTC b \<le> 9999"
  shows "period_key p = period_key q \<longleftrightarrow> name = name' \<and> raw = raw' \<and> period_start p = period_start q"
  using calendarWindowIn_key [OF assms(1,2,5,7)] calendarWindowIn_key [OF assms(3,4,6,8)]
  by (simp add: calendarKey_inject)

theorem calendar_key_unique_witness:
  "(''utc:v1:1d:20250701T000000Z'' = ''utc:v1:24h:20250701T000000Z'') =
    (''UTC'' = ''UTC'' \<and> ''1d'' = ''24h'' \<and> timeUnix 1751328000 0 = timeUnix 1751328000 0)"
proof -
  have a: "calendarWindowIn (\<lambda>_. None) (timeUnix 1751328000 0) ''1d'' ''UTC'' =
     Inr \<lparr>period_key = ''utc:v1:1d:20250701T000000Z'', period_start = timeUnix 1751328000 0,
       period_end = timeUnix 1751414400 0\<rparr>" by code_simp
  have b: "calendarWindowIn (\<lambda>_. None) (timeUnix 1751329000 0) ''24h'' '''' =
     Inr \<lparr>period_key = ''utc:v1:24h:20250701T000000Z'', period_start = timeUnix 1751328000 0,
       period_end = timeUnix 1751414400 0\<rparr>" by code_simp
  have c: "canonicalCalendarTimezone (\<lambda>_. None) ''UTC'' = Inr (''UTC'', timeUTC)"
    "canonicalCalendarTimezone (\<lambda>_. None) '''' = Inr (''UTC'', timeUTC)"
    by (simp_all add: canonicalCalendarTimezone_def)
  have z: "zone_ok timeUTC" by (rule fixed_zone_ok [OF fixed_zone_UTC])
  have y: "time_Year timeUTC (timeUnix 1751328000 0) \<le> 9999" "time_Year timeUTC (timeUnix 1751329000 0) \<le> 9999"
    by code_simp+
  show ?thesis using calendar_key_unique [OF a c(1) b c(2) z z y] by simp
qed

lemma floorDivision_Inl: "floorDivision v d = Inl x \<longleftrightarrow> d = 0 \<and> x = GoPanic"
  by (auto simp: floorDivision_def Let_def)

lemma calendarCivilDayBounds_Inl: "calendarCivilDayBounds S k loc = Inl x \<Longrightarrow> x = ErrInvalidInput"
  by (auto simp: calendarCivilDayBounds_def Let_def split: if_splits)

lemma calendarBounds_no_panic:
  assumes "spec_ok spec"
  shows "calendarBounds now spec loc \<noteq> Inl GoPanic"
proof -
  let ?a = "spec_amount spec"
  have a: "0 < ?a" "?a \<le> max_int64" using assms by (simp_all add: spec_ok_def)
  have q: "quot64 max_int64 60 = 153722867280912930" "quot64 max_int64 3600 = 2562047788015215"
    "quot64 max_int64 7 = 1317624576693539401" by code_simp+
  have m: "c \<in> {7, 60, 3600} \<Longrightarrow> \<not> ?a > quot64 max_int64 c \<Longrightarrow> mul64 ?a c \<noteq> 0" for c
    using a by (auto simp: q go_arith)
  have "calendarFixedWindow now spec loc \<noteq> Inl GoPanic"
    using m [of 60] m [of 3600]
    by (auto simp: calendarFixedWindow_def Let_def go_result floorDivision_Inl split: if_splits)
  moreover have "calendarDayWindow now ?a loc \<noteq> Inl GoPanic"
    using a by (auto simp: calendarDayWindow_def go_result floorDivision_Inl dest: calendarCivilDayBounds_Inl)
  moreover have "calendarWeekWindow now ?a loc \<noteq> Inl GoPanic"
    using m [of 7]
    by (auto simp: calendarWeekWindow_def Let_def go_result floorDivision_Inl dest: calendarCivilDayBounds_Inl split: if_splits)
  moreover have "calendarMonthWindowIn now ?a loc \<noteq> Inl GoPanic"
    using a by (auto simp: calendarMonthWindowIn_def Let_def go_result floorDivision_Inl split: if_splits)
  ultimately show ?thesis by (simp add: calendarBounds_def)
qed



section \<open>Existence\<close>

definition unitSeconds :: "string \<Rightarrow> int" where
  "unitSeconds u =
     (if u = ''m'' then 60 else if u = ''h'' then 3600 else if u = ''d'' then 86400
      else if u = ''w'' then 604800 else 2678400)"

lemma parseCalendarSpec_unit:
  "parseCalendarSpec raw = Inr spec \<Longrightarrow> spec_unit spec \<in> {''m'', ''h'', ''d'', ''w'', ''mo''}"
  by (auto simp: parseCalendarSpec_def calendarWindowPattern_def Let_def split: option.splits if_splits)

text \<open>What a window of a fixed-offset location is, once its block of cells is in range.\<close>

definition window_result :: "calendarSpec \<Rightarrow> gotime \<Rightarrow> quota_error + gotime \<times> gotime \<Rightarrow> bool" where
  "window_result spec now r \<longleftrightarrow>
     (\<exists>s e. r = Inr (GoTime s 0, GoTime e 0) \<and> s \<le> gt_sec now \<and> gt_sec now < e \<and>
       (spec_unit spec \<noteq> ''mo'' \<longrightarrow> e = s + spec_amount spec * unitSeconds (spec_unit spec)))"

lemma middle_years:
  assumes "1971 \<le> time_Year loc now" "time_Year loc now \<le> 8999" "fixed_zone loc off"
  defines "n \<equiv> (gt_sec now + off) div 86400"
  shows "719527 \<le> n" "n \<le> 3286816" "86400 * n \<le> gt_sec now + off" "gt_sec now + off < 86400 * n + 86400"
proof -
  have y: "1971 \<le> yearOf n" "\<not> 9000 \<le> yearOf n" using assms by (simp_all add: time_Year_def localDays_fixed n_def)
  have "daysBeforeYear 1971 = 719527" "daysBeforeYear 9000 = 3286817" by code_simp+
  then show "719527 \<le> n" "n \<le> 3286816" using y by (simp_all add: yearOf_ge_iff)
  show "86400 * n \<le> gt_sec now + off" "gt_sec now + off < 86400 * n + 86400"
    using div_bounds [of 86400 "gt_sec now + off"] by (simp_all add: n_def)
qed

lemma calendarBounds_civil_total:
  assumes z: "fixed_zone loc off" and sp: "spec_ok spec" and u: "spec_unit spec \<in> {''d'', ''w'', ''mo''}"
    and y: "1971 \<le> time_Year loc now" "time_Year loc now \<le> 8999" and now: "civil_ok loc now"
    and a: "spec_amount spec * unitSeconds (spec_unit spec) \<le> 30000000000"
  shows "window_result spec now (calendarBounds now spec loc)"
proof -
  let ?k = "spec_amount spec"
  have k: "0 < ?k" "?k \<le> max_int64" "0 < 7 * ?k" using sp by (simp_all add: spec_ok_def)
  note yo = civil_ok_years [OF z now]
  note n = middle_years [OF y z]
  consider "spec_unit spec = ''d''" | "spec_unit spec = ''w''" | "spec_unit spec = ''mo''" using u by auto
  then show ?thesis
  proof cases
    case 1
    define b where "b = days.block 0 off ?k (gt_sec now)"
    have "0 \<le> b" using n k by (simp add: b_def days.block_def dayCell_def pos_imp_zdiv_nonneg_iff)
    moreover have "b \<le> 2567654" using days.block_bounds [OF k(1), of 0 off "gt_sec now"] n by (simp add: b_def dayCell_def)
    ultimately have "calendarBounds now spec loc = Inr (GoTime (dayBoundary 0 off b) 0, GoTime (dayBoundary 0 off (b + ?k)) 0)"
      using 1 a by (simp add: calendarBounds_def calendarDayWindow_fixed [OF z yo k(1,2)] unitSeconds_def flip: b_def)
    then show ?thesis
      using days.block_contains [OF k(1), where first = 0 and off = off and t = "gt_sec now"] 1
      by (simp add: window_result_def unitSeconds_def dayBoundary_def flip: b_def)
  next
    case 2
    define b where "b = days.block 4 off (7 * ?k) (gt_sec now)"
    have "0 \<le> b" using n k by (simp add: b_def days.block_def dayCell_def pos_imp_zdiv_nonneg_iff)
    moreover have "b \<le> 2567654" using days.block_bounds [OF k(3), of 4 off "gt_sec now"] n by (simp add: b_def dayCell_def)
    ultimately have "calendarBounds now spec loc = Inr (GoTime (dayBoundary 4 off b) 0, GoTime (dayBoundary 4 off (b + 7 * ?k)) 0)"
      using 2 a by (simp add: calendarBounds_def calendarWeekWindow_fixed [OF z yo k(1,2)] unitSeconds_def flip: b_def)
    then show ?thesis
      using days.block_contains [OF k(3), where first = 4 and off = off and t = "gt_sec now"] 2
      by (simp add: window_result_def unitSeconds_def dayBoundary_def flip: b_def)
  next
    case 3
    define b where "b = months.block off ?k (gt_sec now)"
    have c: "0 \<le> monthCell off (gt_sec now)" "monthCell off (gt_sec now) \<le> 107987"
      using y monthOf_bounds [of "localDays loc now"] localDays_fixed [OF z, of now]
      by (simp_all add: monthCell_def monthIndex_def time_Year_def)
    have "0 \<le> b" using c k by (simp add: b_def months.block_def pos_imp_zdiv_nonneg_iff)
    moreover have "b \<le> 107987" using months.block_bounds [OF k(1), of off "gt_sec now"] c by (simp add: b_def)
    ultimately have "calendarBounds now spec loc = Inr (GoTime (monthBoundary off b) 0, GoTime (monthBoundary off (b + ?k)) 0)"
      using 3 a by (simp add: calendarBounds_def calendarMonthWindow_fixed [OF z yo k(1,2)] unitSeconds_def flip: b_def)
    then show ?thesis
      using months.block_contains [OF k(1), where off = off and t = "gt_sec now"] 3
      by (simp add: window_result_def flip: b_def)
  qed
qed

lemma calendarFixedWindow_total:
  assumes z: "fixed_zone loc off" and sp: "spec_ok spec" and u: "spec_unit spec \<in> {''m'', ''h''}"
    and y: "1971 \<le> time_Year loc now" "time_Year loc now \<le> 8999" and now: "civil_ok loc now"
    and a: "spec_amount spec * unitSeconds (spec_unit spec) \<le> 30000000000"
  shows "window_result spec now (calendarBounds now spec loc)"
proof -
  have zo: "zone_ok loc" by (rule fixed_zone_ok [OF z])
  have off: "- 89999 \<le> off" "off \<le> 93599" using z by (simp_all add: fixed_zone_def)
  define A where "A = calendarAnchor loc"
  define k where "k = spanSeconds spec"
  have k: "0 < k" "k \<le> 30000000000" "k = spec_amount spec * unitSeconds (spec_unit spec)"
    using u a sp by (auto simp: k_def spanSeconds_def unitSeconds_def spec_ok_def)
  have am: "0 < spec_amount spec" "spec_amount spec \<le> max_int64" using sp by (simp_all add: spec_ok_def)
  have "dateDays 1970 1 1 = 719162" by code_simp
  then have A: "A = - off"
    using timeDate_fixed [OF z, of 1970 1 1] off by (simp add: A_def calendarAnchor_def days_ok_def unixOf_def go_arith)
  note n = middle_years [OF y z] and nb = civil_ok_bounds [OF zo now]
  have un: "unixOf now = gt_sec now - unixToInternal" using nb by (simp add: unixOf_def go_arith)
  define b where "b = seconds.block A k (unixOf now)"
  have "0 \<le> unixOf now - A" using n un A by linarith
  then have b0: "0 \<le> b"
    unfolding b_def seconds.block_def using k(1) by (simp add: pos_imp_zdiv_nonneg_iff)
  have bc: "A + b \<le> unixOf now" "unixOf now < A + b + k"
    using seconds.block_contains [OF k(1), where anchor = A and t = "unixOf now"] by (simp_all add: b_def add.assoc)
  have t: "timeUnix (A + b) 0 = GoTime (A + b + unixToInternal) 0" "timeUnix (A + b + k) 0 = GoTime (A + b + k + unixToInternal) 0"
    using b0 A off bc un n k by (simp_all add: timeUnix_def go_arith)
  have ys: "1 \<le> time_Year loc (GoTime (A + b + unixToInternal) 0)"
    using b0 A by (simp add: time_Year_def yearOf_ge_1 localDays_fixed [OF z] pos_imp_zdiv_nonneg_iff)
  have "(A + b + k + unixToInternal + off) div 86400 \<le> 86400 * 3652058 div 86400"
    using bc un n k by (intro zdiv_mono1) simp_all
  then have ye: "time_Year loc (GoTime (A + b + k + unixToInternal) 0) \<le> 9999"
    by (simp add: time_Year_def yearOf_le_9999 localDays_fixed [OF z])
  have eqn: "calendarFixedWindow now spec loc =
      (if k \<le> max_int64 \<and> min_int64 \<le> A + b \<and> A + b + k \<le> max_int64 \<and>
        1 \<le> time_Year loc (timeUnix (A + b) 0) \<and> time_Year loc (timeUnix (A + b + k) 0) \<le> 9999
     then Inr (timeUnix (A + b) 0, timeUnix (A + b + k) 0) else Inl ErrInvalidInput)"
    unfolding A_def b_def k_def using nb un by (intro calendarFixedWindow_eq [OF zo am]) simp_all
  have c: "k \<le> max_int64" "min_int64 \<le> A + b" "A + b + k \<le> max_int64" using b0 A off bc un n k by simp_all
  have "calendarFixedWindow now spec loc = Inr (timeUnix (A + b) 0, timeUnix (A + b + k) 0)"
    unfolding eqn t using c ys ye by simp
  then have "calendarBounds now spec loc = Inr (GoTime (A + b + unixToInternal) 0, GoTime (A + b + k + unixToInternal) 0)"
    using u by (auto simp: calendarBounds_def t)
  then show ?thesis
    unfolding window_result_def k(3) [symmetric] using bc un by simp
qed



section \<open>Lists of windows\<close>

lemma calendarWindowIn_contains:
  "calendarWindowIn LL now raw tz = Inr p \<Longrightarrow> period_start p \<le> now \<and> now < period_end p"
  by (auto simp: calendarWindowIn_iff)

fun chained :: "gotime \<Rightarrow> (gotime \<times> gotime) list \<Rightarrow> gotime \<Rightarrow> bool" where
  "chained cursor [] end \<longleftrightarrow> end \<le> cursor"
| "chained cursor ((s, e) # ps) end \<longleftrightarrow> s \<le> cursor \<and> cursor < e \<and> cursor < end \<and> chained e ps end"

text \<open>
  C14.  The windows listed for an interval cover it without a gap.  Walking through the
  list from the start of the interval, each window contains the instant reached so far,
  which is still inside the interval, and its end is the next instant; after the last
  window the end of the interval is reached.  The list has at most \<open>maximum\<close> windows.
\<close>

theorem calendar_periods_cover:
  assumes "CalendarPeriods LL window tz start end maximum = Inr periods"
  shows "periods \<noteq> [] \<and> int (length periods) \<le> maximum \<and> chained start periods end"
proof -
  have st: "start < end" "1 \<le> maximum" and l: "calendarPeriodsLoop LL window tz end (nat maximum) start = Inr periods"
    using assms by (auto simp: CalendarPeriods_def split: if_splits)
  have "calendarPeriodsLoop LL window tz end k cursor = Inr ps \<Longrightarrow> length ps \<le> k \<and> chained cursor ps end" for k cursor ps
  proof (induction k arbitrary: cursor ps)
    case (Suc k)
    then show ?case
      by (auto simp: go_result not_less split: if_splits dest: calendarWindowIn_contains)
  qed (auto simp: go_result split: if_splits)
  from this [OF l] have "length periods \<le> nat maximum" "chained start periods end" by auto
  moreover have "periods \<noteq> []" using st(1) calculation(2) by (cases periods) auto
  ultimately show ?thesis using st(2) by auto
qed

theorem calendar_periods_cover_witness:
  "[(timeUnix 1751328000 0, timeUnix 1754006400 0), (timeUnix 1754006400 0, timeUnix 1756684800 0)] \<noteq> [] \<and>
   int (length [(timeUnix 1751328000 0, timeUnix 1754006400 0), (timeUnix 1754006400 0, timeUnix 1756684800 0)]) \<le> 2 \<and>
   chained (timeUnix 1752000000 0)
     [(timeUnix 1751328000 0, timeUnix 1754006400 0), (timeUnix 1754006400 0, timeUnix 1756684800 0)]
     (timeUnix 1755000000 0)"
  by (rule calendar_periods_cover [of "\<lambda>_. None" "''1mo''" "''UTC''"]) code_simp

section \<open>A midnight that does not exist\<close>

text \<open>
  Havana's clocks around March 8, 2026: the offset of -5 hours, in force since November
  2, 2025, is followed at midnight (05:00 UTC) by the offset of -4 hours.
\<close>

definition havana2026 :: location where
  "havana2026 = \<lparr>loc_name = ''America/Havana'', loc_lookup = (\<lambda>u.
     if u < 1772946000 then (- 18000, 1762059600, 1772946000)
     else (- 14400, 1772946000, 1793509200))\<rparr>"

definition havanaDatabase :: "string \<Rightarrow> location option" where
  "havanaDatabase name = (if name = ''America/Havana'' then Some havana2026 else None)"


end
