(* ===== verification/Go_Json.thy ===== *)
theory Go_Json
  imports Go_Text
begin

text \<open>
  The encoding of JSON scalars and scalar arrays by Go's \<open>encoding/json\<close>: string escaping with
  HTML escaping (the default of \<open>json.Marshal\<close>), the literal form of \<open>json.Number\<close> and the
  validity test that guards it.  The encoding of a value, followed by a comma, a closing bracket
  or the end of the text, determines the value.
\<close>

datatype json_value =
    JString string
  | JBool bool
  | JNumber string
  | JArray "json_value list"
  | JOther

definition hexDigit :: "nat \<Rightarrow> char" where
  "hexDigit n = (if n < 10 then char_of (48 + n) else char_of (87 + n))"

definition htmlSafe :: "char \<Rightarrow> bool" where
  "htmlSafe c \<longleftrightarrow>
     32 \<le> byte_of c \<and> c \<noteq> CHR 0x22 \<and> c \<noteq> CHR 0x5C \<and> c \<noteq> CHR 0x3C \<and> c \<noteq> CHR 0x3E \<and> c \<noteq> CHR 0x26"

definition shortEscape :: "char \<Rightarrow> char option" where
  "shortEscape c =
     (if c = CHR 0x22 \<or> c = CHR 0x5C then Some c
      else if c = CHR 0x08 then Some (CHR ''b'')
      else if c = CHR 0x0C then Some (CHR ''f'')
      else if c = CHR 0x0A then Some (CHR ''n'')
      else if c = CHR 0x0D then Some (CHR ''r'')
      else if c = CHR 0x09 then Some (CHR ''t'')
      else None)"

definition escapeByte :: "char \<Rightarrow> string" where
  "escapeByte c =
     (if htmlSafe c then [c]
      else case shortEscape c of
        Some e \<Rightarrow> [CHR 0x5C, e]
      | None \<Rightarrow> [CHR 0x5C, CHR ''u'', CHR ''0'', CHR ''0'', hexDigit (byte_of c div 16), hexDigit (byte_of c mod 16)])"

text \<open>The line and paragraph separators \<open>U+2028\<close> and \<open>U+2029\<close> are written as escapes.\<close>

definition lineSeparator :: "string \<Rightarrow> char option" where
  "lineSeparator s =
     (if take 3 s = [CHR 0xE2, CHR 0x80, CHR 0xA8] then Some (CHR ''8'')
      else if take 3 s = [CHR 0xE2, CHR 0x80, CHR 0xA9] then Some (CHR ''9'')
      else None)"

fun jsonEscape :: "string \<Rightarrow> string" where
  "jsonEscape [] = []"
| "jsonEscape (c # cs) =
     (case lineSeparator (c # cs) of
        Some d \<Rightarrow> [CHR 0x5C, CHR ''u'', CHR ''2'', CHR ''0'', CHR ''2'', d] @ jsonEscape (drop 2 cs)
      | None \<Rightarrow> escapeByte c @ jsonEscape cs)"

definition stripMinus :: "string \<Rightarrow> string" where
  "stripMinus s = (case s of c # cs \<Rightarrow> if c = CHR ''-'' then cs else s | [] \<Rightarrow> [])"

definition skipFraction :: "string \<Rightarrow> string" where
  "skipFraction s =
     (case s of p # d # rest \<Rightarrow> if p = CHR ''.'' \<and> is_digit d then dropWhile is_digit rest else s | _ \<Rightarrow> s)"

text \<open>The exponent; \<open>None\<close> is the early rejection of a sign with nothing behind it.\<close>

definition skipExponent :: "string \<Rightarrow> string option" where
  "skipExponent s =
     (case s of
        e # c # rest \<Rightarrow>
          if e = CHR ''e'' \<or> e = CHR ''E'' then
            (if c = CHR ''+'' \<or> c = CHR ''-'' then (if rest = [] then None else Some (dropWhile is_digit rest))
             else Some (dropWhile is_digit (c # rest)))
          else Some s
      | _ \<Rightarrow> Some s)"

definition isValidNumber :: "string \<Rightarrow> bool" where
  "isValidNumber s =
     (case stripMinus s of
        [] \<Rightarrow> False
      | c # cs \<Rightarrow>
          if c = CHR ''0'' then skipExponent (skipFraction cs) = Some []
          else if CHR ''1'' \<le> c \<and> c \<le> CHR ''9'' then skipExponent (skipFraction (dropWhile is_digit cs)) = Some []
          else False)"

fun json_Marshal :: "json_value \<Rightarrow> string option"
  and json_MarshalItems :: "json_value list \<Rightarrow> string option" where
  "json_Marshal (JString s) = Some (CHR 0x22 # jsonEscape s @ [CHR 0x22])"
| "json_Marshal (JBool b) = Some (if b then ''true'' else ''false'')"
| "json_Marshal (JNumber n) =
     (if n = [] then Some ''0'' else if isValidNumber n then Some n else None)"
| "json_Marshal (JArray items) =
     map_option (\<lambda>s. CHR ''['' # s @ '']'') (json_MarshalItems items)"
| "json_Marshal JOther = None"
| "json_MarshalItems [] = Some []"
| "json_MarshalItems (v # vs) =
     (case json_Marshal v of
        None \<Rightarrow> None
      | Some s \<Rightarrow> map_option (\<lambda>t. s @ (if vs = [] then [] else CHR '','' # t)) (json_MarshalItems vs))"

text \<open>The scalars for which the encoding is a prefix code, and what may follow one of them.\<close>

definition number_char :: "char \<Rightarrow> bool" where
  "number_char c \<longleftrightarrow> is_digit c \<or> c = CHR ''-'' \<or> c = CHR ''.''"

definition json_scalar :: "json_value \<Rightarrow> bool" where
  "json_scalar v =
     (case v of
        JString _ \<Rightarrow> True
      | JBool _ \<Rightarrow> True
      | JNumber n \<Rightarrow> n \<noteq> [] \<and> list_all number_char n
      | _ \<Rightarrow> False)"

definition json_delim :: "string \<Rightarrow> bool" where
  "json_delim r \<longleftrightarrow> r = [] \<or> hd r = CHR '','' \<or> hd r = CHR '']''"

section \<open>Lemmas\<close>

lemma hexDigit_inject: "m < 16 \<Longrightarrow> n < 16 \<Longrightarrow> hexDigit m = hexDigit n \<longleftrightarrow> m = n"
proof -
  assume a: "m < 16" "n < 16"
  have "hexDigit m = hexDigit n \<Longrightarrow> of_char (hexDigit m) = (of_char (hexDigit n) :: nat)" by simp
  then show ?thesis using a by (auto simp: hexDigit_def split: if_splits)
qed

lemma byte_of_hex:
  "byte_of c div 16 = byte_of d div 16 \<Longrightarrow> byte_of c mod 16 = byte_of d mod 16 \<Longrightarrow> c = d"
  by (metis byte_of_inject div_mult_mod_eq)

lemma byte_of_hi: "byte_of c div 16 < 16"
  using byte_of_bound [of c] by simp

lemma shortEscape_neq: "shortEscape c \<noteq> Some (CHR ''u'')"
  by (simp add: shortEscape_def)

lemma shortEscape_inject: "shortEscape c = Some e \<Longrightarrow> shortEscape d = Some e \<Longrightarrow> c = d"
  unfolding shortEscape_def by (auto split: if_splits)

lemma htmlSafe_neq: "htmlSafe c \<Longrightarrow> c \<noteq> CHR 0x5C \<and> c \<noteq> CHR 0x22"
  by (simp add: htmlSafe_def)

lemma escapeByte_cases:
  obtains (plain) "escapeByte c = [c]" "c \<noteq> CHR 0x5C" "c \<noteq> CHR 0x22"
  | (short) e where "escapeByte c = [CHR 0x5C, e]" "shortEscape c = Some e" "e \<noteq> CHR ''u''"
  | (long) "escapeByte c = [CHR 0x5C, CHR ''u'', CHR ''0'', CHR ''0'', hexDigit (byte_of c div 16), hexDigit (byte_of c mod 16)]"
  using shortEscape_neq [of c] htmlSafe_neq [of c]
  by (cases "htmlSafe c"; cases "shortEscape c") (auto simp: escapeByte_def)

lemma escapeByte_prefix:
  assumes "escapeByte c @ x = escapeByte d @ y"
  shows "c = d \<and> x = y"
  using assms byte_of_hi [of c] byte_of_hi [of d] shortEscape_inject [of c _ d] byte_of_hex [of c d]
  by (cases c rule: escapeByte_cases; cases d rule: escapeByte_cases) (simp_all add: hexDigit_inject)

lemma escapeByte_not_quote: "escapeByte c @ x \<noteq> CHR 0x22 # y"
  by (cases c rule: escapeByte_cases) simp_all

lemma escapeByte_not_separator:
  "escapeByte c @ x \<noteq> CHR 0x5C # CHR ''u'' # CHR ''2'' # y"
  by (cases c rule: escapeByte_cases) simp_all

lemma lineSeparator_SomeD:
  assumes "lineSeparator s = Some d"
  shows "s = CHR 0xE2 # CHR 0x80 # (if d = CHR ''8'' then CHR 0xA8 else CHR 0xA9) # drop 3 s"
proof -
  obtain t where t: "take 3 s = t" "s = t @ drop 3 s" by (metis append_take_drop_id)
  show ?thesis using assms t(2) unfolding lineSeparator_def t(1) by (auto split: if_splits)
qed

lemma jsonEscape_prefix:
  "jsonEscape s @ CHR 0x22 # x = jsonEscape t @ CHR 0x22 # y \<Longrightarrow> s = t \<and> x = y"
proof (induction s arbitrary: t rule: jsonEscape.induct)
  case 1
  then show ?case
    by (cases t) (auto simp: escapeByte_not_quote [symmetric] split: option.splits)
next
  case (2 c cs)
  show ?case
  proof (cases t)
    case Nil
    then show ?thesis using "2.prems" by (auto simp: escapeByte_not_quote split: option.splits)
  next
    case (Cons c' cs')
    show ?thesis
    proof (cases "lineSeparator (c # cs)")
      case None
      then show ?thesis
        using "2.prems" "2.IH"(1) [OF None, of cs'] Cons escapeByte_not_separator [of c]
        by (auto dest!: escapeByte_prefix split: option.splits)
    next
      case (Some d)
      obtain d' where d': "lineSeparator (c' # cs') = Some d'" "d' = d"
        and e: "jsonEscape (drop 2 cs) @ CHR 0x22 # x = jsonEscape (drop 2 cs') @ CHR 0x22 # y"
        using "2.prems" Some Cons escapeByte_not_separator [of c', symmetric]
        by (auto split: option.splits)
      have "drop 2 cs = drop 2 cs' \<and> x = y" by (rule "2.IH"(2) [OF Some e])
      then show ?thesis
        using lineSeparator_SomeD [OF Some] lineSeparator_SomeD [OF d'(1)] d'(2) Cons by (simp add: eval_nat_numeral)
    qed
  qed
qed

lemma span_inject:
  "list_all P a \<Longrightarrow> list_all P b \<Longrightarrow> x = [] \<or> \<not> P (hd x) \<Longrightarrow> y = [] \<or> \<not> P (hd y) \<Longrightarrow>
   a @ x = b @ y \<Longrightarrow> a = b \<and> x = y"
proof (induction a arbitrary: b)
  case Nil
  then show ?case by (cases b) auto
next
  case (Cons c a)
  then show ?case by (cases b) auto
qed

lemma number_char_delim: "json_delim x \<Longrightarrow> x = [] \<or> \<not> number_char (hd x)"
  by (auto simp: json_delim_def number_char_def is_digit_def)

lemma number_char_neq: "number_char c \<Longrightarrow> c \<noteq> CHR 0x22 \<and> c \<noteq> CHR ''t'' \<and> c \<noteq> CHR ''f'' \<and> c \<noteq> CHR '']''"
  by (auto simp: number_char_def is_digit_def)

lemma json_Marshal_number:
  "json_scalar (JNumber n) \<Longrightarrow> json_Marshal (JNumber n) = Some s \<Longrightarrow>
   s = n \<and> list_all number_char n \<and> s \<noteq> [] \<and> number_char (hd s)"
  by (cases n) (auto simp: json_scalar_def split: if_splits)

lemma json_Marshal_scalar_cases:
  assumes "json_scalar v" "json_Marshal v = Some s"
  obtains (str) a where "v = JString a" "s = CHR 0x22 # jsonEscape a @ [CHR 0x22]"
  | (yes) "v = JBool True" "s = ''true''"
  | (no) "v = JBool False" "s = ''false''"
  | (num) c cs where "v = JNumber (c # cs)" "s = c # cs" "number_char c" "list_all number_char cs"
      "c \<noteq> CHR 0x22" "c \<noteq> CHR ''t''" "c \<noteq> CHR ''f''"
proof (cases v)
  case (JNumber n)
  then obtain c cs where "n = c # cs" "s = n" "number_char c" "list_all number_char cs"
    using json_Marshal_number [of n s] assms by (cases n) auto
  then show ?thesis using num [of c cs] number_char_neq [of c] JNumber by auto
next
  case (JBool b)
  then show ?thesis using yes no assms by (cases b) simp_all
qed (use assms str in \<open>simp_all add: json_scalar_def\<close>)

lemma json_Marshal_scalar_prefix:
  assumes v: "json_scalar v" "json_Marshal v = Some s" and w: "json_scalar w" "json_Marshal w = Some t"
    and d: "json_delim x" "json_delim y" and e: "s @ x = t @ y"
  shows "v = w \<and> x = y"
  using v
proof (cases rule: json_Marshal_scalar_cases)
  case (str a)
  from w show ?thesis
    by (cases rule: json_Marshal_scalar_cases) (use e str jsonEscape_prefix [of a x] in simp_all)
next
  case yes
  from w show ?thesis by (cases rule: json_Marshal_scalar_cases) (use e yes in simp_all)
next
  case no
  from w show ?thesis by (cases rule: json_Marshal_scalar_cases) (use e no in simp_all)
next
  case (num c cs)
  from w show ?thesis
    by (cases rule: json_Marshal_scalar_cases)
      (use e num span_inject [of number_char cs _ x y] number_char_delim [OF d(1)] number_char_delim [OF d(2)] in simp_all)
qed

lemma number_char_bracket: "\<not> number_char (CHR '']'') \<and> \<not> number_char (CHR ''['')"
  by (simp add: number_char_def is_digit_def)

lemma json_Marshal_scalar_first:
  assumes "json_scalar v" "json_Marshal v = Some s"
  shows "s \<noteq> [] \<and> hd s \<noteq> CHR '']'' \<and> hd s \<noteq> CHR ''['' "
  using assms by (cases rule: json_Marshal_scalar_cases) (use number_char_bracket in auto)

lemma json_MarshalItems_prefix:
  "list_all json_scalar vs \<Longrightarrow> list_all json_scalar ws \<Longrightarrow>
   json_MarshalItems vs = Some s \<Longrightarrow> json_MarshalItems ws = Some t \<Longrightarrow>
   s @ CHR '']'' # x = t @ CHR '']'' # y \<Longrightarrow> vs = ws \<and> x = y"
proof (induction vs arbitrary: ws s t)
  case Nil
  then show ?case
    by (cases ws) (auto dest!: json_Marshal_scalar_first split: option.splits simp: Cons_eq_append_conv)
next
  case (Cons v vs)
  obtain a s' where a: "json_Marshal v = Some a" "json_MarshalItems vs = Some s'"
    and s: "s = a @ (if vs = [] then [] else CHR '','' # s')"
    using Cons.prems(3) by (auto split: option.splits)
  have av: "a \<noteq> []" "hd a \<noteq> CHR '']''" using json_Marshal_scalar_first a(1) Cons.prems(1) by auto
  show ?case
  proof (cases ws)
    case Nil
    then show ?thesis using Cons.prems(4,5) s av by (cases a) auto
  next
    case (Cons w ws')
    obtain b t' where b: "json_Marshal w = Some b" "json_MarshalItems ws' = Some t'"
      and t: "t = b @ (if ws' = [] then [] else CHR '','' # t')"
      using Cons.prems(4) Cons by (auto split: option.splits)
    have e: "a @ ((if vs = [] then [] else CHR '','' # s') @ CHR '']'' # x)
        = b @ ((if ws' = [] then [] else CHR '','' # t') @ CHR '']'' # y)"
      using Cons.prems(5) s t by simp
    have "v = w \<and> (if vs = [] then [] else CHR '','' # s') @ CHR '']'' # x
        = (if ws' = [] then [] else CHR '','' # t') @ CHR '']'' # y"
      by (rule json_Marshal_scalar_prefix [OF _ a(1) _ b(1) _ _ e]) (use Cons.prems(1,2) Cons in \<open>auto simp: json_delim_def\<close>)
    then show ?thesis
      using Cons.IH [of ws' s' t'] Cons.prems(1,2) Cons a(2) b(2) by (auto split: if_splits)
  qed
qed

text \<open>An accepted claim value is a scalar or an array of scalars; its encoding identifies it.\<close>

definition json_flat :: "json_value \<Rightarrow> bool" where
  "json_flat v = (case v of JArray vs \<Rightarrow> list_all json_scalar vs | _ \<Rightarrow> json_scalar v)"

lemma json_Marshal_inject:
  assumes "json_flat v" "json_flat w" "json_Marshal v = Some s" "json_Marshal w = Some s"
  shows "v = w"
proof -
  have arr: "v = w" if "v = JArray vs" "json_Marshal v = Some s" "json_Marshal w = Some s" "json_flat v" "json_flat w"
    for v w :: json_value and vs and s
  proof (cases w)
    case (JArray ws)
    then show ?thesis
      using that json_MarshalItems_prefix [of vs ws _ _ "[]" "[]"] by (auto simp: json_flat_def)
  qed (use that json_Marshal_scalar_first [of w s] in \<open>auto simp: json_flat_def split: if_splits\<close>)
  show ?thesis
  proof (cases "(\<exists>vs. v = JArray vs) \<or> (\<exists>vs. w = JArray vs)")
    case True
    then show ?thesis using arr [of v _ s w] arr [of w _ s v] assms by auto
  next
    case False
    then have "json_scalar v" "json_scalar w" using assms(1,2) by (auto simp: json_flat_def split: json_value.splits)
    then show ?thesis
      using json_Marshal_scalar_prefix [of v s w s "[]" "[]"] assms(3,4) by (simp add: json_delim_def)
  qed
qed

end
