(* ===== verification/Limit_Scope.thy ===== *)
theory Limit_Scope
  imports Go_Json Sha256
begin

text \<open>
  The closed quota-scope vocabulary (\<open>src/internal/limitscope/scope.go\<close>): the canonical order of
  the dimensions of a scope, the selectors of normalized claims, and the digests that stand for
  claim values outside the policy boundary.  A claim value is a JSON scalar or an array of
  scalars; every other Go value is \<open>JOther\<close>, a missing map entry included.
\<close>

section \<open>Dimensions\<close>

definition NormalizedClaimPrefix :: string where
  "NormalizedClaimPrefix = ''normalized_claim:''"

definition fixedOrder :: "string list" where
  "fixedOrder =
     [''organization'', ''application'', ''environment'', ''user'', ''installation'',
      ''installation_family'', ''client_component'', ''component_definition'', ''component_kind'',
      ''trust_source'', ''feature'', ''route'', ''upstream'', ''model'', ''platform'']"

definition claim_name_rest :: "char \<Rightarrow> bool" where
  "claim_name_rest c \<longleftrightarrow> is_lower c \<or> is_digit c \<or> c = CHR ''_''"

definition normalizedClaimNamePattern :: "string \<Rightarrow> bool" where
  "normalizedClaimNamePattern s \<longleftrightarrow> head_tail_match is_lower claim_name_rest 0 62 s"

definition NormalizedClaimName :: "string \<Rightarrow> string \<times> bool" where
  "NormalizedClaimName dimension =
     (if \<not> hasPrefix dimension NormalizedClaimPrefix then ([], False)
      else let name = drop (length NormalizedClaimPrefix) dimension
           in (name, normalizedClaimNamePattern name))"

text \<open>The first loop of \<open>CanonicalDimensions\<close>: the dimensions seen and the claim selector.\<close>

fun scanDimensions :: "string list \<Rightarrow> string list \<Rightarrow> string \<Rightarrow> (string list \<times> string) option" where
  "scanDimensions [] seen claimSelector = Some (seen, claimSelector)"
| "scanDimensions (dimension # rest) seen claimSelector =
     (if dimension \<in> set seen then None
      else if dimension \<in> set fixedOrder then scanDimensions rest (dimension # seen) claimSelector
      else if \<not> snd (NormalizedClaimName dimension) \<or> claimSelector \<noteq> [] then None
      else scanDimensions rest (dimension # seen) dimension)"

definition CanonicalDimensions :: "string list \<Rightarrow> string list option" where
  "CanonicalDimensions input =
     (if length input = 0 \<or> 16 < length input then None
      else case scanDimensions input [] [] of
        None \<Rightarrow> None
      | Some (seen, claimSelector) \<Rightarrow>
          Some (filter (\<lambda>dimension. dimension \<in> set seen) fixedOrder @
                (if claimSelector \<noteq> [] then [claimSelector] else [])))"

definition ScopeType :: "string list \<Rightarrow> string" where
  "ScopeType dimensions =
     (case dimensions of
        [dimension] \<Rightarrow> if snd (NormalizedClaimName dimension) then ''normalized_claim'' else dimension
      | _ \<Rightarrow> ''composite'')"

section \<open>Claim digests\<close>

definition canonicalClaimNumberPattern :: "string \<Rightarrow> bool" where
  "canonicalClaimNumberPattern s =
     (let (whole, fraction, dotted) = cutAt (CHR ''.'') (stripMinus s) in
      (whole = ''0'' \<or> whole \<noteq> [] \<and> CHR ''1'' \<le> hd whole \<and> hd whole \<le> CHR ''9'' \<and> list_all is_digit whole) \<and>
      (dotted \<longrightarrow> fraction \<noteq> [] \<and> list_all is_digit fraction \<and> last fraction \<noteq> CHR ''0''))"

fun canonicalClaimValue :: "json_value \<Rightarrow> json_value option"
  and canonicalClaimItems :: "json_value list \<Rightarrow> json_value list option" where
  "canonicalClaimValue (JString s) =
     (if utf8_ValidString s \<and> length s \<le> 2048 \<and> CHR 0x00 \<notin> set s then Some (JString s) else None)"
| "canonicalClaimValue (JBool b) = Some (JBool b)"
| "canonicalClaimValue (JNumber raw) =
     (if length raw = 0 \<or> 64 < length raw \<or> raw = ''-0'' \<or> \<not> canonicalClaimNumberPattern raw then None
      else if json_Marshal (JNumber raw) = None then None
      else Some (JNumber raw))"
| "canonicalClaimValue (JArray items) =
     (if 64 < length items then None else map_option JArray (canonicalClaimItems items))"
| "canonicalClaimValue JOther = None"
| "canonicalClaimItems [] = Some []"
| "canonicalClaimItems (item # items) =
     (case canonicalClaimValue item of
        None \<Rightarrow> None
      | Some (JArray _) \<Rightarrow> None
      | Some JOther \<Rightarrow> None
      | Some canonical \<Rightarrow> map_option (Cons canonical) (canonicalClaimItems items))"

definition normalizedClaimDigestDomain :: "word8 list" where
  "normalizedClaimDigestDomain = string_bytes (''latchway/quota-normalized-claim/v1'' @ [CHR 0x00])"

text \<open>What \<open>ClaimDigest\<close> writes to the hash behind the domain: the presence mark and the encoding.\<close>

definition claimEncoding :: "json_value \<Rightarrow> bool \<Rightarrow> (string \<times> string) option" where
  "claimEncoding value present =
     (if \<not> present then Some (''0'', ''missing'')
      else case canonicalClaimValue value of
        None \<Rightarrow> None
      | Some canonical \<Rightarrow>
          (case json_Marshal canonical of
             None \<Rightarrow> None
           | Some encoded \<Rightarrow>
               if length encoded = 0 \<or> 16384 < length encoded then None else Some (''1'', encoded)))"

definition claimPreimage :: "string \<Rightarrow> json_value \<Rightarrow> bool \<Rightarrow> word8 list option" where
  "claimPreimage name value present =
     (if \<not> normalizedClaimNamePattern name then None
      else map_option
        (\<lambda>(presence, encoded). normalizedClaimDigestDomain @ lengthPrefixed [name, presence, encoded])
        (claimEncoding value present))"

definition ClaimDigest :: "string \<Rightarrow> json_value \<Rightarrow> bool \<Rightarrow> string option" where
  "ClaimDigest name value present =
     map_option (\<lambda>preimage. base64url (sha256 preimage)) (claimPreimage name value present)"

text \<open>The selectors of the claim dimensions, in the order of the input.\<close>

definition claimSelectors :: "string list \<Rightarrow> string list" where
  "claimSelectors dimensions =
     map (\<lambda>dimension. fst (NormalizedClaimName dimension))
       (filter (\<lambda>dimension. snd (NormalizedClaimName dimension)) dimensions)"

definition claimOf :: "(string \<rightharpoonup> json_value) \<Rightarrow> string \<Rightarrow> json_value \<times> bool" where
  "claimOf claims name = (case claims name of None \<Rightarrow> (JOther, False) | Some value \<Rightarrow> (value, True))"

fun digestSelectors ::
  "string list \<Rightarrow> (string \<rightharpoonup> json_value) \<Rightarrow> (string \<rightharpoonup> string) \<Rightarrow> (string \<rightharpoonup> string) option" where
  "digestSelectors [] claims result = Some result"
| "digestSelectors (name # names) claims result =
     (case ClaimDigest name (fst (claimOf claims name)) (snd (claimOf claims name)) of
        None \<Rightarrow> None
      | Some digest \<Rightarrow> digestSelectors names claims (result(name \<mapsto> digest)))"

definition ClaimDigests :: "string list \<Rightarrow> (string \<rightharpoonup> json_value) \<Rightarrow> (string \<rightharpoonup> string) option" where
  "ClaimDigests dimensions claims = digestSelectors (sort (claimSelectors dimensions)) claims Map.empty"

definition ValidClaimDigest :: "string \<Rightarrow> bool" where
  "ValidClaimDigest value \<longleftrightarrow> digestPattern value"

section \<open>Dimensions: lemmas\<close>

definition claimDims :: "string list \<Rightarrow> string list" where
  "claimDims xs = filter (\<lambda>d. d \<notin> set fixedOrder) xs"

lemma claimDims_simps [simp]:
  "claimDims [] = []"
  "claimDims (d # ds) = (if d \<in> set fixedOrder then claimDims ds else d # claimDims ds)"
  by (simp_all add: claimDims_def)

lemma NormalizedClaimName_nonempty: "snd (NormalizedClaimName d) \<Longrightarrow> d \<noteq> []"
  by (auto simp: NormalizedClaimName_def hasPrefix_def NormalizedClaimPrefix_def)

lemma scanDimensions_eq:
  "scanDimensions xs seen sel =
     (if distinct xs \<and> set xs \<inter> set seen = {} \<and> list_all (\<lambda>d. snd (NormalizedClaimName d)) (claimDims xs) \<and>
         (claimDims xs = [] \<or> sel = [] \<and> length (claimDims xs) = 1)
      then Some (rev xs @ seen, if claimDims xs = [] then sel else hd (claimDims xs))
      else None)"
proof (induction xs arbitrary: seen sel)
  case (Cons d xs)
  then show ?case using NormalizedClaimName_nonempty [of d] by auto
qed simp

lemma claimDims_same_set:
  assumes "set xs = set ys" "claimDims xs = [] \<or> length (claimDims xs) = 1" "claimDims ys = [] \<or> length (claimDims ys) = 1"
  shows "claimDims xs = claimDims ys"
proof -
  have "set (claimDims xs) = set (claimDims ys)" using assms(1) by (auto simp: claimDims_def)
  then show ?thesis using assms(2,3) by (auto simp: length_Suc_conv)
qed

lemma CanonicalDimensions_Some:
  "CanonicalDimensions xs = Some ys \<longleftrightarrow>
     xs \<noteq> [] \<and> length xs \<le> 16 \<and> distinct xs \<and> list_all (\<lambda>d. snd (NormalizedClaimName d)) (claimDims xs) \<and>
     (claimDims xs = [] \<or> length (claimDims xs) = 1) \<and>
     ys = filter (\<lambda>d. d \<in> set xs) fixedOrder @ claimDims xs"
proof -
  have "claimDims xs = [] \<or> length (claimDims xs) = 1 \<Longrightarrow>
      list_all (\<lambda>d. snd (NormalizedClaimName d)) (claimDims xs) \<Longrightarrow>
      (if (if claimDims xs = [] then [] else hd (claimDims xs)) \<noteq> [] then [if claimDims xs = [] then [] else hd (claimDims xs)] else []) = claimDims xs"
    using NormalizedClaimName_nonempty by (auto simp: length_Suc_conv)
  then show ?thesis unfolding CanonicalDimensions_def scanDimensions_eq by auto
qed

lemma fixedOrder_distinct: "distinct fixedOrder"
  by code_simp

lemma canonical_set: "set (filter (\<lambda>d. d \<in> set xs) fixedOrder @ claimDims xs) = set xs"
  by (auto simp: claimDims_def)

lemma canonical_distinct: "distinct xs \<Longrightarrow> distinct (filter (\<lambda>d. d \<in> set xs) fixedOrder @ claimDims xs)"
  using fixedOrder_distinct by (auto simp: claimDims_def)

lemma claimDims_canonical: "claimDims (filter (\<lambda>d. d \<in> set xs) fixedOrder @ claimDims xs) = claimDims xs"
  by (simp add: claimDims_def filter_empty_conv)

lemma canonical_length:
  assumes "distinct xs"
  shows "length (filter (\<lambda>d. d \<in> set xs) fixedOrder @ claimDims xs) = length xs"
  using distinct_card [OF canonical_distinct [OF assms]] distinct_card [OF assms] unfolding canonical_set by linarith

text \<open>
  C23. The canonical order of a scope is a normal form: two accepted inputs have the same canonical
  scope exactly when they name the same dimensions, whatever their order; the result contains
  each input dimension once, has at most sixteen of them and is its own canonical scope.
\<close>

theorem canonical_dimensions_normal_form:
  assumes "CanonicalDimensions xs = Some zs" "CanonicalDimensions ys = Some ws"
  shows "(zs = ws \<longleftrightarrow> set xs = set ys) \<and> set zs = set xs \<and> distinct zs \<and> length zs \<le> 16 \<and>
    CanonicalDimensions zs = Some zs"
proof -
  note x = assms(1) [unfolded CanonicalDimensions_Some] and y = assms(2) [unfolded CanonicalDimensions_Some]
  have z: "set zs = set xs" "distinct zs" "length zs = length xs" "claimDims zs = claimDims xs"
    using x canonical_set [of xs] canonical_distinct [of xs] canonical_length [of xs] claimDims_canonical [of xs]
    by simp_all
  have w: "set ws = set ys" using y canonical_set [of ys] by simp
  have "zs = ws" if "set xs = set ys"
    using x y that claimDims_same_set [of xs ys] by simp
  moreover have "CanonicalDimensions zs = Some zs"
    unfolding CanonicalDimensions_Some using x z by auto
  ultimately show ?thesis using z w x by auto
qed

theorem canonical_dimensions_normal_form_witness:
  "CanonicalDimensions [''model'', ''normalized_claim:plan'', ''user''] = Some [''user'', ''model'', ''normalized_claim:plan'']
   \<and> CanonicalDimensions [''user'', ''model'', ''normalized_claim:plan''] = Some [''user'', ''model'', ''normalized_claim:plan'']"
proof -
  have "CanonicalDimensions [''model'', ''normalized_claim:plan'', ''user''] = Some [''user'', ''model'', ''normalized_claim:plan'']"
    by code_simp
  with canonical_dimensions_normal_form [OF this this] show ?thesis by simp
qed

section \<open>Claim digests: lemmas\<close>

lemma cutAt_join: "cutAt sep s = (a, b, found) \<Longrightarrow> s = (if found then a @ sep # b else a)"
  by (induction s arbitrary: a b) (auto split: if_splits prod.splits)

lemma digits_number_char: "list_all is_digit s \<Longrightarrow> list_all number_char s"
  by (auto simp: list_all_iff number_char_def)

lemma stripMinus_number_char: "list_all number_char (stripMinus s) \<Longrightarrow> list_all number_char s"
  by (cases s) (auto simp: stripMinus_def number_char_def split: if_splits)

lemma claimNumber_chars:
  assumes "canonicalClaimNumberPattern s"
  shows "list_all number_char s"
proof -
  obtain a b f where c: "cutAt (CHR ''.'') (stripMinus s) = (a, b, f)" by (metis prod_cases3)
  have "list_all number_char a" "f \<Longrightarrow> list_all number_char b"
    using assms digits_number_char [of a] digits_number_char [of b]
    by (auto simp: canonicalClaimNumberPattern_def c number_char_def is_digit_def)
  then have "list_all number_char (stripMinus s)"
    using cutAt_join [OF c] by (auto simp: number_char_def split: if_splits)
  then show ?thesis by (rule stripMinus_number_char)
qed

lemma canonicalClaimScalar:
  "canonicalClaimValue v = Some w \<Longrightarrow> \<forall>items. v \<noteq> JArray items \<Longrightarrow> w = v \<and> json_scalar v"
  by (cases v) (auto simp: json_scalar_def claimNumber_chars split: if_splits)

lemma canonicalClaimItems_Some:
  "canonicalClaimItems vs = Some ws \<Longrightarrow> ws = vs \<and> list_all json_scalar vs"
proof (induction vs arbitrary: ws)
  case (Cons v vs)
  then obtain w where w: "canonicalClaimValue v = Some w" "\<forall>items. w \<noteq> JArray items"
    and ws: "map_option (Cons w) (canonicalClaimItems vs) = Some ws"
    by (auto split: option.splits json_value.splits)
  have "\<forall>items. v \<noteq> JArray items" using w by (auto split: if_splits)
  then have "w = v \<and> json_scalar v" using canonicalClaimScalar w(1) by blast
  then show ?case using ws Cons.IH by auto
qed simp

lemma canonicalClaimValue_Some: "canonicalClaimValue v = Some w \<Longrightarrow> w = v \<and> json_flat v"
proof (cases v)
  case (JArray items)
  then show "canonicalClaimValue v = Some w \<Longrightarrow> ?thesis"
    using canonicalClaimItems_Some by (auto simp: json_flat_def split: if_splits)
qed (use canonicalClaimScalar [of v w] in \<open>auto simp: json_flat_def\<close>)

lemma claimEncoding_Some:
  "claimEncoding v p = Some (m, e) \<longleftrightarrow>
     (if p then m = ''1'' \<and> canonicalClaimValue v = Some v \<and> json_Marshal v = Some e \<and> e \<noteq> [] \<and> length e \<le> 16384
      else m = ''0'' \<and> e = ''missing'')"
  by (auto simp: claimEncoding_def dest: canonicalClaimValue_Some split: option.splits)

lemma claimEncoding_inject:
  assumes "claimEncoding v p = Some (m, e)" "claimEncoding w q = Some (m, e)"
  shows "p = q \<and> (p \<longrightarrow> v = w)"
  using assms unfolding claimEncoding_Some
  by (auto dest!: canonicalClaimValue_Some dest: json_Marshal_inject split: if_splits)

lemma claimParts_ok:
  "normalizedClaimNamePattern n \<Longrightarrow> claimEncoding v p = Some (m, e) \<Longrightarrow> list_all part_ok [n, m, e]"
  unfolding claimEncoding_Some by (cases n) (auto simp: normalizedClaimNamePattern_def part_ok_def split: if_splits)

lemma claimPreimage_inject:
  assumes "claimPreimage n v p = Some x" "claimPreimage k w q = Some x"
  shows "n = k \<and> p = q \<and> (p \<longrightarrow> v = w)"
proof -
  obtain m e m' e' where
    1: "normalizedClaimNamePattern n" "claimEncoding v p = Some (m, e)"
      "x = normalizedClaimDigestDomain @ lengthPrefixed [n, m, e]" and
    2: "normalizedClaimNamePattern k" "claimEncoding w q = Some (m', e')"
      "x = normalizedClaimDigestDomain @ lengthPrefixed [k, m', e']"
    using assms by (auto simp: claimPreimage_def split: if_splits)
  have "[n, m, e] = [k, m', e']"
    using lengthPrefixed_inject [OF claimParts_ok [OF 1(1,2)] claimParts_ok [OF 2(1,2)]] 1(3) 2(3) by simp
  then show ?thesis using claimEncoding_inject 1(2) 2(2) by auto
qed

text \<open>
  C24. A claim digest has the stored form of a digest, and it identifies the claim: if two accepted
  claims have the same digest and their hash inputs are not a collision of SHA-256, then they
  have the same name and presence and, when present, the same value.  In particular a missing
  claim never shares a scope with a present one.
\<close>

theorem claim_digest_identity:
  assumes "claimPreimage n v p = Some x" "claimPreimage k w q = Some y"
    and no_collision: "sha256 x = sha256 y \<Longrightarrow> x = y"
  shows "(ClaimDigest n v p = ClaimDigest k w q \<longleftrightarrow> n = k \<and> p = q \<and> (p \<longrightarrow> v = w)) \<and>
    list_all ValidClaimDigest [the (ClaimDigest n v p), the (ClaimDigest k w q)]"
proof -
  have d: "ClaimDigest n v p = Some (base64url (sha256 x))" "ClaimDigest k w q = Some (base64url (sha256 y))"
    using assms(1,2) by (simp_all add: ClaimDigest_def)
  have "ClaimDigest n v p = ClaimDigest k w q \<Longrightarrow> x = y"
    using d base64url_inject [of "sha256 x" "sha256 y"] no_collision by simp
  moreover have "x = y" if "n = k \<and> p = q \<and> (p \<longrightarrow> v = w)"
  proof -
    have "claimEncoding v p = claimEncoding w q" using that by (simp add: claimEncoding_def)
    then have "claimPreimage n v p = claimPreimage k w q" using that by (simp add: claimPreimage_def)
    then show ?thesis using assms(1,2) by simp
  qed
  moreover have "x = y \<Longrightarrow> n = k \<and> p = q \<and> (p \<longrightarrow> v = w)"
    using claimPreimage_inject [of n v p x k w q] assms(1,2) by simp
  moreover have "list_all ValidClaimDigest [the (ClaimDigest n v p), the (ClaimDigest k w q)]"
    using d by (simp add: ValidClaimDigest_def base64url_digest)
  ultimately show ?thesis using d by metis
qed

theorem claim_digest_identity_witness:
  "ClaimDigest ''plan'' (JString ''pro'') False = ClaimDigest ''plan'' JOther False \<and>
   ValidClaimDigest (the (ClaimDigest ''plan'' JOther False))"
proof -
  define x where "x = normalizedClaimDigestDomain @ lengthPrefixed [''plan'', ''0'', ''missing'']"
  have n: "normalizedClaimNamePattern ''plan''" by code_simp
  have x: "claimPreimage ''plan'' (JString ''pro'') False = Some x" "claimPreimage ''plan'' JOther False = Some x"
    by (simp_all add: claimPreimage_def claimEncoding_def n x_def)
  show ?thesis using claim_digest_identity [OF x] by simp
qed

lemma hasPrefix_iff: "hasPrefix d p \<longleftrightarrow> (\<exists>r. d = p @ r)"
  by (metis append_eq_conv_conj append_take_drop_id hasPrefix_def)

lemma NormalizedClaimName_iff:
  "snd (NormalizedClaimName d) \<and> fst (NormalizedClaimName d) = n \<longleftrightarrow>
      d = NormalizedClaimPrefix @ n \<and> normalizedClaimNamePattern n"
proof (cases "hasPrefix d NormalizedClaimPrefix")
  case True
  then obtain r where "d = NormalizedClaimPrefix @ r" unfolding hasPrefix_iff by blast
  then show ?thesis using True by (auto simp: NormalizedClaimName_def)
next
  case False
  then have "d \<noteq> NormalizedClaimPrefix @ n" unfolding hasPrefix_iff by blast
  then show ?thesis using False by (simp add: NormalizedClaimName_def)
qed

lemma claimSelectors_set:
  "set (claimSelectors ds) = {n. NormalizedClaimPrefix @ n \<in> set ds \<and> normalizedClaimNamePattern n}"
proof (rule set_eqI)
  fix n
  have "n \<in> set (claimSelectors ds) \<longleftrightarrow> (\<exists>d\<in>set ds. snd (NormalizedClaimName d) \<and> fst (NormalizedClaimName d) = n)"
    by (auto simp: claimSelectors_def)
  then show "n \<in> set (claimSelectors ds) \<longleftrightarrow> n \<in> {n. NormalizedClaimPrefix @ n \<in> set ds \<and> normalizedClaimNamePattern n}"
    unfolding NormalizedClaimName_iff by simp
qed

lemma digestSelectors_eq:
  "digestSelectors names claims result =
     (if \<forall>n\<in>set names. ClaimDigest n (fst (claimOf claims n)) (snd (claimOf claims n)) \<noteq> None
      then Some (\<lambda>n. if n \<in> set names then ClaimDigest n (fst (claimOf claims n)) (snd (claimOf claims n)) else result n)
      else None)"
  by (induction names arbitrary: result) (auto split: option.splits)

text \<open>
  C25. \<open>ClaimDigests\<close> returns a digest for exactly the claims that the scope selects, the digest
  of the claim's value or of its absence, and no entry for any other claim of the user; it fails
  exactly when one of the selected claims has no digest.  The order of the dimensions has no
  influence.
\<close>

theorem claim_digests_selected:
  "ClaimDigests ds claims =
     (let selected = {n. NormalizedClaimPrefix @ n \<in> set ds \<and> normalizedClaimNamePattern n};
          digest = \<lambda>n. ClaimDigest n (fst (claimOf claims n)) (snd (claimOf claims n))
      in if {n \<in> selected. digest n = None} = {} then Some (digest |` selected) else None)"
  unfolding ClaimDigests_def digestSelectors_eq set_sort claimSelectors_set Let_def
  by (auto simp: restrict_map_def fun_eq_iff)

end
