(* ===== verification/Limit_Metric.thy ===== *)
theory Limit_Metric
  imports Latchway_Prelude
begin

text \<open>
  The closed registry of policy metrics (\<open>src/internal/limitmetric/registry.go\<close>).  A metric may be
  registered without an algorithm, which keeps it visible and unenforceable.
\<close>

record metric_definition =
  md_Name :: string
  md_Algorithms :: "string list"

definition metric_entry :: "string \<Rightarrow> string list \<Rightarrow> metric_definition" where
  "metric_entry name algorithms = \<lparr>md_Name = name, md_Algorithms = algorithms\<rparr>"

definition metric_definitions :: "metric_definition list" where
  "metric_definitions =
     [metric_entry ''logical_requests'' [''calendar'', ''token_bucket''],
      metric_entry ''upstream_attempts'' [''calendar'', ''token_bucket'', ''per_request''],
      metric_entry ''input_tokens'' [''calendar'', ''token_bucket'', ''per_request''],
      metric_entry ''output_tokens'' [''calendar'', ''token_bucket'', ''per_request''],
      metric_entry ''total_tokens'' [''calendar'', ''token_bucket'', ''per_request''],
      metric_entry ''reasoning_tokens'' [],
      metric_entry ''cached_input_tokens'' [],
      metric_entry ''cache_write_tokens'' [],
      metric_entry ''cost_nano_usd'' [''calendar''],
      metric_entry ''concurrent_requests'' [''concurrency''],
      metric_entry ''concurrent_streams'' [''concurrency''],
      metric_entry ''request_bytes'' [''per_request''],
      metric_entry ''response_bytes'' [],
      metric_entry ''image_units'' [''per_request''],
      metric_entry ''audio_seconds'' [],
      metric_entry ''tool_calls'' [''per_request'']]"

text \<open>\<open>definitionsByName\<close>: the map filled in the order of the list.\<close>

definition definitionsByName :: "string \<rightharpoonup> metric_definition" where
  "definitionsByName = foldl (\<lambda>m d. m(md_Name d \<mapsto> d)) Map.empty metric_definitions"

definition Lookup :: "string \<Rightarrow> metric_definition option" where
  "Lookup name = definitionsByName name"

definition SupportsEnforcement :: "string \<Rightarrow> string \<Rightarrow> bool" where
  "SupportsEnforcement name algorithm =
     (case definitionsByName name of None \<Rightarrow> False | Some d \<Rightarrow> algorithm \<in> set (md_Algorithms d))"

text \<open>The names of the list are distinct, so the map is the list read by name.\<close>

lemma foldl_update_distinct:
  "distinct (map f ds) \<Longrightarrow>
   foldl (\<lambda>m d. m(f d \<mapsto> d)) m ds k = (case find (\<lambda>d. f d = k) ds of None \<Rightarrow> m k | Some d \<Rightarrow> Some d)"
proof (induction ds arbitrary: m)
  case (Cons d ds)
  have "find (\<lambda>d'. f d' = f d) ds = None" using Cons.prems by (metis (mono_tags, lifting) distinct.simps(2) find_None_iff imageI list.set_map list.simps(9))
  then show ?case using Cons by auto
qed simp

lemma find_unique:
  "distinct (map f ds) \<Longrightarrow> (\<exists>d. find (\<lambda>d. f d = k) ds = Some d \<and> P d) \<longleftrightarrow> list_ex (\<lambda>d. f d = k \<and> P d) ds"
  by (induction ds) (auto simp: list_ex_iff rev_image_eqI)

lemma metric_names_distinct: "distinct (map md_Name metric_definitions)"
  by code_simp

lemma definitionsByName_eq: "definitionsByName name = find (\<lambda>d. md_Name d = name) metric_definitions"
  unfolding definitionsByName_def foldl_update_distinct [OF metric_names_distinct] by (simp split: option.splits)

lemma SupportsEnforcement_iff:
  "SupportsEnforcement name algorithm \<longleftrightarrow>
     list_ex (\<lambda>d. md_Name d = name \<and> algorithm \<in> set (md_Algorithms d)) metric_definitions"
  unfolding SupportsEnforcement_def definitionsByName_eq find_unique [OF metric_names_distinct, symmetric]
  by (simp split: option.splits)

end
