(* ===== verification/Quota_Rules.thy ===== *)
theory Quota_Rules
  imports Token_Bucket Calendar Limit_Scope Limit_Metric "HOL-Library.Product_Lexorder" "HOL-Library.Multiset"
begin

text \<open>
  Limit rules (\<open>src/internal/quota/model.go\<close>, \<open>projection.go\<close>): their validation, their durable
  identities (the rule key and the scope key, which name a bucket), their canonical order, and
  the request-local bounds that no bucket state can satisfy.

  \<open>prepareRules\<close> is one loop of the source; here \<open>ruleShape\<close> is its \<open>switch\<close>, \<open>bindReservations\<close>
  the consistency checks on reserved units, \<open>ruleTimezone\<close> the calendar checks, and \<open>prepareRule\<close>
  one iteration.  The time zone database is the parameter \<open>LoadLocation\<close>, as in \<open>Calendar\<close>.
\<close>

section \<open>Digests\<close>

definition canonicalPreimage :: "string \<Rightarrow> string list \<Rightarrow> word8 list" where
  "canonicalPreimage domain parts = string_bytes domain @ lengthPrefixed parts"

definition canonicalDigestBytes :: "string \<Rightarrow> string list \<Rightarrow> word8 list" where
  "canonicalDigestBytes domain parts = sha256 (canonicalPreimage domain parts)"

definition canonicalDigest :: "string \<Rightarrow> string list \<Rightarrow> string" where
  "canonicalDigest domain parts = base64url (canonicalDigestBytes domain parts)"

definition ruleDigestDomain :: string where
  "ruleDigestDomain = ''latchway/quota-rule/v1'' @ [CHR 0x00]"

definition scopeDigestDomain :: string where
  "scopeDigestDomain = ''latchway/quota-scope/v1'' @ [CHR 0x00]"

section \<open>Rules\<close>

record quota_rule =
  rule_Metric :: string
  rule_Algorithm :: string
  rule_Scope :: "string list"
  rule_Window :: string
  rule_Timezone :: string
  rule_Maximum :: int
  rule_PerRequestMaximum :: int
  rule_ReservedUnits :: int
  rule_Capacity :: int
  rule_RefillNumerator :: int
  rule_RefillDenominator :: int
  rule_CostRetryTreatment :: string
  rule_Hard :: bool

record preparedRule = quota_rule +
  scopeDimensions :: "string list"
  scopeType :: string
  ruleKey :: string
  scopeKey :: string
  stateful :: bool

datatype rulePreparationMode = reserveRulePreparation | snapshotRulePreparation

definition ActualAttemptsCostRetryTreatment :: string where
  "ActualAttemptsCostRetryTreatment = ''actual_attempts''"

definition InitialAttemptOnlyCostRetryTreatment :: string where
  "InitialAttemptOnlyCostRetryTreatment = ''initial_attempt_only''"

definition isConcurrencyMetric :: "string \<Rightarrow> bool" where
  "isConcurrencyMetric metric \<longleftrightarrow> metric = ConcurrentRequestsMetric \<or> metric = ConcurrentStreamsMetric"

definition isStatefulMetric :: "string \<Rightarrow> bool" where
  "isStatefulMetric metric \<longleftrightarrow>
     metric = LogicalRequestsMetric \<or> metric = UpstreamAttemptsMetric \<or> metric = InputTokensMetric \<or>
     metric = OutputTokensMetric \<or> metric = TotalTokensMetric \<or> metric = CostNanoUSDMetric \<or>
     isConcurrencyMetric metric"

definition isStatefulRule :: "string \<Rightarrow> string \<Rightarrow> bool" where
  "isStatefulRule metric algorithm \<longleftrightarrow>
     algorithm = CalendarAlgorithm \<and>
       (metric = LogicalRequestsMetric \<or> metric = UpstreamAttemptsMetric \<or> metric = InputTokensMetric \<or>
        metric = OutputTokensMetric \<or> metric = TotalTokensMetric \<or> metric = CostNanoUSDMetric) \<or>
     algorithm = TokenBucketAlgorithm \<and>
       (metric = LogicalRequestsMetric \<or> metric = UpstreamAttemptsMetric \<or> metric = InputTokensMetric \<or>
        metric = OutputTokensMetric \<or> metric = TotalTokensMetric) \<or>
     algorithm = ConcurrencyAlgorithm \<and> isConcurrencyMetric metric"

text \<open>The zero value of the bucket fields, and the window of rules without one.\<close>

definition noBucketFields :: "quota_rule \<Rightarrow> bool" where
  "noBucketFields rule \<longleftrightarrow>
     rule_Capacity rule = 0 \<and> rule_RefillNumerator rule = 0 \<and> rule_RefillDenominator rule = 0"

definition bucketPolicyOk :: "quota_rule \<Rightarrow> bool" where
  "bucketPolicyOk rule \<longleftrightarrow>
     is_ok (validateTokenBucketPolicy (rule_Capacity rule) (rule_RefillNumerator rule) (rule_RefillDenominator rule))"

definition isTokenMetric :: "string \<Rightarrow> bool" where
  "isTokenMetric metric \<longleftrightarrow>
     metric = InputTokensMetric \<or> metric = OutputTokensMetric \<or> metric = TotalTokensMetric"

definition isRequestMeasurementMetric :: "string \<Rightarrow> bool" where
  "isRequestMeasurementMetric metric \<longleftrightarrow> metric \<in> set [RequestBytesMetric, ImageUnitsMetric, ToolCallsMetric]"

definition requestOrAttempt :: "string \<Rightarrow> bool" where
  "requestOrAttempt metric \<longleftrightarrow> metric = LogicalRequestsMetric \<or> metric = UpstreamAttemptsMetric"

definition costTreatment :: "quota_rule \<Rightarrow> string" where
  "costTreatment rule =
     (if rule_CostRetryTreatment rule = [] then ActualAttemptsCostRetryTreatment
      else rule_CostRetryTreatment rule)"

text \<open>
  The \<open>switch\<close> on metric and algorithm: the statefulness of an accepted rule and its canonical
  cost treatment, or \<open>None\<close> for the invalid-input return.
\<close>

definition ruleShape :: "rulePreparationMode \<Rightarrow> string list \<Rightarrow> quota_rule \<Rightarrow> (bool \<times> string) option" where
  "ruleShape mode dimensions rule =
     (let metric = rule_Metric rule; algorithm = rule_Algorithm rule; reserved = rule_ReservedUnits rule;
          tokenReserved = (if mode = snapshotRulePreparation then reserved = 0 else 0 < reserved);
          unitsReserved = (if mode = snapshotRulePreparation then reserved = 0 else 0 \<le> reserved);
          keep = rule_CostRetryTreatment rule
      in
      if requestOrAttempt metric \<and> algorithm = CalendarAlgorithm then
        (if rule_Maximum rule \<le> 0 \<or> rule_PerRequestMaximum rule \<noteq> 0 \<or> reserved \<noteq> 0 \<or> \<not> noBucketFields rule
         then None else Some (True, keep))
      else if requestOrAttempt metric \<and> algorithm = TokenBucketAlgorithm then
        (if rule_Window rule \<noteq> [] \<or> rule_Maximum rule \<noteq> 0 \<or> rule_PerRequestMaximum rule \<noteq> 0 \<or> reserved \<noteq> 0 \<or>
            \<not> bucketPolicyOk rule
         then None else Some (True, keep))
      else if metric = UpstreamAttemptsMetric \<and> algorithm = PerRequestAlgorithm then
        (if rule_Window rule \<noteq> [] \<or> rule_Maximum rule \<noteq> 0 \<or> rule_PerRequestMaximum rule \<le> 0 \<or> reserved \<noteq> 0 \<or>
            \<not> noBucketFields rule
         then None else Some (False, keep))
      else if isTokenMetric metric \<and> algorithm = TokenBucketAlgorithm then
        (if rule_Window rule \<noteq> [] \<or> rule_Maximum rule \<noteq> 0 \<or> rule_PerRequestMaximum rule \<noteq> 0 \<or> \<not> tokenReserved \<or>
            \<not> bucketPolicyOk rule
         then None else Some (True, keep))
      else if metric = OutputTokensMetric \<and> algorithm = CalendarAlgorithm then
        (if rule_Maximum rule \<le> 0 \<or> rule_PerRequestMaximum rule \<noteq> 0 \<or> \<not> tokenReserved \<or> \<not> noBucketFields rule
         then None else Some (True, keep))
      else if isTokenMetric metric \<and> algorithm = PerRequestAlgorithm then
        (if rule_Window rule \<noteq> [] \<or> rule_Maximum rule \<noteq> 0 \<or> rule_PerRequestMaximum rule \<le> 0 \<or> \<not> tokenReserved \<or>
            \<not> noBucketFields rule
         then None else Some (False, keep))
      else if isRequestMeasurementMetric metric \<and> algorithm = PerRequestAlgorithm then
        (if rule_Window rule \<noteq> [] \<or> rule_Maximum rule \<noteq> 0 \<or> rule_PerRequestMaximum rule \<le> 0 \<or> \<not> unitsReserved \<or>
            \<not> noBucketFields rule
         then None else Some (False, keep))
      else if (metric = InputTokensMetric \<or> metric = TotalTokensMetric) \<and> algorithm = CalendarAlgorithm then
        (if rule_Maximum rule \<le> 0 \<or> rule_PerRequestMaximum rule \<noteq> 0 \<or> \<not> tokenReserved \<or> \<not> noBucketFields rule
         then None else Some (True, keep))
      else if metric = CostNanoUSDMetric \<and> algorithm = CalendarAlgorithm then
        (let treatment = costTreatment rule in
         if rule_Maximum rule \<le> 0 \<or> rule_PerRequestMaximum rule \<noteq> 0 \<or> \<not> unitsReserved \<or> \<not> noBucketFields rule \<or>
            treatment \<noteq> ActualAttemptsCostRetryTreatment \<and> treatment \<noteq> InitialAttemptOnlyCostRetryTreatment \<or>
            treatment = InitialAttemptOnlyCostRetryTreatment \<and> ''user'' \<notin> set dimensions
         then None else Some (True, treatment))
      else if isConcurrencyMetric metric \<and> algorithm = ConcurrencyAlgorithm then
        (if rule_Window rule \<noteq> [] \<or> rule_Maximum rule \<le> 0 \<or> rule_PerRequestMaximum rule \<noteq> 0 \<or> reserved \<noteq> 0 \<or>
            \<not> noBucketFields rule
         then None else Some (True, keep))
      else None)"

section \<open>Reserved units across the rules of a request\<close>

record reservationBinding =
  tokenReservations :: "string \<rightharpoonup> int"
  requestReservations :: "string \<rightharpoonup> int"
  costReservation :: "int option"
  requiresOrganizationCostAccounting :: bool
  hasOrganizationCostAccounting :: bool

definition emptyBinding :: reservationBinding where
  "emptyBinding =
     \<lparr>tokenReservations = Map.empty, requestReservations = Map.empty, costReservation = None,
      requiresOrganizationCostAccounting = False, hasOrganizationCostAccounting = False\<rparr>"

text \<open>The cost case records which accounting an opt-in cost treatment needs.\<close>

definition bindCostAccounting ::
  "string list \<Rightarrow> quota_rule \<Rightarrow> string \<Rightarrow> reservationBinding \<Rightarrow> reservationBinding" where
  "bindCostAccounting dimensions rule treatment b =
     (if \<not> (rule_Metric rule = CostNanoUSDMetric \<and> rule_Algorithm rule = CalendarAlgorithm) then b
      else if treatment = InitialAttemptOnlyCostRetryTreatment then b\<lparr>requiresOrganizationCostAccounting := True\<rparr>
      else if ''organization'' \<in> set dimensions \<and> ''user'' \<notin> set dimensions
      then b\<lparr>hasOrganizationCostAccounting := True\<rparr>
      else b)"

definition bindUnits :: "(string \<rightharpoonup> int) \<Rightarrow> string \<Rightarrow> int \<Rightarrow> (string \<rightharpoonup> int) option" where
  "bindUnits reservations metric units =
     (case reservations metric of
        None \<Rightarrow> Some (reservations(metric \<mapsto> units))
      | Some reservation \<Rightarrow> if reservation \<noteq> units then None else Some (reservations(metric \<mapsto> units)))"

definition bindReservations ::
  "rulePreparationMode \<Rightarrow> quota_rule \<Rightarrow> reservationBinding \<Rightarrow> reservationBinding option" where
  "bindReservations mode rule b =
     (if mode \<noteq> reserveRulePreparation then Some b
      else if isTokenMetric (rule_Metric rule) then
        map_option (\<lambda>m. b\<lparr>tokenReservations := m\<rparr>) (bindUnits (tokenReservations b) (rule_Metric rule) (rule_ReservedUnits rule))
      else if rule_Metric rule = CostNanoUSDMetric then
        (case costReservation b of
           None \<Rightarrow> Some (b\<lparr>costReservation := Some (rule_ReservedUnits rule)\<rparr>)
         | Some reservation \<Rightarrow> if reservation \<noteq> rule_ReservedUnits rule then None else Some b)
      else if isRequestMeasurementMetric (rule_Metric rule) then
        map_option (\<lambda>m. b\<lparr>requestReservations := m\<rparr>) (bindUnits (requestReservations b) (rule_Metric rule) (rule_ReservedUnits rule))
      else Some b)"

definition validTokenReservationRelationship :: "(string \<rightharpoonup> int) \<Rightarrow> bool" where
  "validTokenReservationRelationship reservations =
     (case reservations TotalTokensMetric of
        None \<Rightarrow> True
      | Some total_units \<Rightarrow>
          (case (reservations InputTokensMetric, reservations OutputTokensMetric) of
             (Some inp, Some out) \<Rightarrow>
               if total_units < inp \<or> total_units < out then False
               else inp \<le> sub64 max_int64 out \<and> total_units = add64 inp out
           | (Some inp, None) \<Rightarrow> \<not> total_units < inp
           | (None, Some out) \<Rightarrow> \<not> total_units < out
           | (None, None) \<Rightarrow> True))"

section \<open>Preparation\<close>

definition canonicalScopeDimensions :: "string list \<Rightarrow> quota_error + string list" where
  "canonicalScopeDimensions inp =
     (case CanonicalDimensions inp of None \<Rightarrow> Inl ErrInvalidInput | Some result \<Rightarrow> Inr result)"

text \<open>The window and time zone of a stateful calendar rule; \<open>[]\<close> for every other rule.\<close>

definition ruleTimezone :: "(string \<Rightarrow> location option) \<Rightarrow> quota_rule \<Rightarrow> bool \<Rightarrow> string option" where
  "ruleTimezone LoadLocation rule isStateful =
     (let timezone =
        (if isStateful \<and> rule_Algorithm rule = CalendarAlgorithm then
           (case parseCalendarSpec (rule_Window rule) of
              Inl _ \<Rightarrow> None
            | Inr _ \<Rightarrow>
                (case canonicalCalendarTimezone LoadLocation (rule_Timezone rule) of
                   Inl _ \<Rightarrow> None
                 | Inr (timezone, _) \<Rightarrow> Some timezone))
         else Some [])
      in case timezone of
        None \<Rightarrow> None
      | Some timezone \<Rightarrow>
          if \<not> isStateful \<and> rule_Window rule \<noteq> [] \<or> rule_Algorithm rule \<noteq> CalendarAlgorithm \<and> rule_Timezone rule \<noteq> []
          then None else Some timezone)"

definition ruleParts :: "string \<Rightarrow> string \<Rightarrow> string \<Rightarrow> string \<Rightarrow> string list \<Rightarrow> string list" where
  "ruleParts metric algorithm window timezone dimensions =
     [metric, algorithm, window] @ (if timezone \<noteq> [] \<and> timezone \<noteq> ''UTC'' then [timezone] else []) @ dimensions"

definition scopeParts :: "(string \<rightharpoonup> string) \<Rightarrow> string list \<Rightarrow> string list" where
  "scopeParts values dimensions = concat (map (\<lambda>dimension. [dimension, go_get values dimension]) dimensions)"

definition preparedRuleOf ::
  "(string \<rightharpoonup> string) \<Rightarrow> string list \<Rightarrow> string \<Rightarrow> string \<Rightarrow> bool \<Rightarrow> quota_rule \<Rightarrow> preparedRule" where
  "preparedRuleOf values dimensions treatment timezone isStateful rule =
     \<lparr>rule_Metric = rule_Metric rule, rule_Algorithm = rule_Algorithm rule, rule_Scope = dimensions,
      rule_Window = rule_Window rule, rule_Timezone = timezone, rule_Maximum = rule_Maximum rule,
      rule_PerRequestMaximum = rule_PerRequestMaximum rule, rule_ReservedUnits = rule_ReservedUnits rule,
      rule_Capacity = rule_Capacity rule, rule_RefillNumerator = rule_RefillNumerator rule,
      rule_RefillDenominator = rule_RefillDenominator rule, rule_CostRetryTreatment = treatment,
      rule_Hard = rule_Hard rule, scopeDimensions = dimensions, scopeType = ScopeType dimensions,
      ruleKey = canonicalDigest ruleDigestDomain
        (ruleParts (rule_Metric rule) (rule_Algorithm rule) (rule_Window rule) timezone dimensions),
      scopeKey = canonicalDigest scopeDigestDomain (scopeParts values dimensions),
      stateful = isStateful\<rparr>"

definition prepareRule ::
  "(string \<Rightarrow> location option) \<Rightarrow> (string \<rightharpoonup> string) \<Rightarrow> rulePreparationMode \<Rightarrow> quota_rule \<Rightarrow> reservationBinding
     \<Rightarrow> quota_error + preparedRule \<times> reservationBinding" where
  "prepareRule LoadLocation values mode rule b =
     (case canonicalScopeDimensions (rule_Scope rule) of
        Inl _ \<Rightarrow> Inl ErrInvalidInput
      | Inr dimensions \<Rightarrow>
          if \<not> rule_Hard rule then Inl ErrInvalidInput
          else if list_ex (\<lambda>dimension. go_get values dimension = []) dimensions then Inl ErrInvalidInput
          else (case ruleShape mode dimensions rule of
            None \<Rightarrow> Inl ErrInvalidInput
          | Some (isStateful, treatment) \<Rightarrow>
              if rule_Metric rule \<noteq> CostNanoUSDMetric \<and> treatment \<noteq> [] then Inl ErrInvalidInput
              else (case bindReservations mode rule (bindCostAccounting dimensions rule treatment b) of
                None \<Rightarrow> Inl ErrInvalidInput
              | Some b' \<Rightarrow>
                  (case ruleTimezone LoadLocation rule isStateful of
                     None \<Rightarrow> Inl ErrInvalidInput
                   | Some timezone \<Rightarrow>
                       Inr (preparedRuleOf values dimensions treatment timezone isStateful rule, b')))))"

fun prepareRuleList ::
  "(string \<Rightarrow> location option) \<Rightarrow> (string \<rightharpoonup> string) \<Rightarrow> rulePreparationMode \<Rightarrow> quota_rule list \<Rightarrow> reservationBinding
     \<Rightarrow> quota_error + preparedRule list \<times> reservationBinding" where
  "prepareRuleList LoadLocation values mode [] b = Inr ([], b)"
| "prepareRuleList LoadLocation values mode (rule # rules) b =
     andThen (prepareRule LoadLocation values mode rule b) (\<lambda>(prepared, b').
     andThen (prepareRuleList LoadLocation values mode rules b') (\<lambda>(rest, b'').
     Inr (prepared # rest, b'')))"

definition ruleSortKey :: "preparedRule \<Rightarrow> string \<times> string" where
  "ruleSortKey rule = (ruleKey rule, scopeKey rule)"

fun adjacentDuplicate :: "preparedRule list \<Rightarrow> bool" where
  "adjacentDuplicate (left # right # rules) =
     (ruleKey left = ruleKey right \<and> scopeKey left = scopeKey right \<or> adjacentDuplicate (right # rules))"
| "adjacentDuplicate _ = False"

definition prepareRules ::
  "(string \<Rightarrow> location option) \<Rightarrow> quota_rule list \<Rightarrow> (string \<rightharpoonup> string) \<Rightarrow> rulePreparationMode
     \<Rightarrow> quota_error + preparedRule list" where
  "prepareRules LoadLocation inp values mode =
     (if length inp < 1 \<or> 128 < length inp then Inl ErrInvalidInput
      else andThen (prepareRuleList LoadLocation values mode inp emptyBinding) (\<lambda>(preparedRules, b).
        if \<not> validTokenReservationRelationship (tokenReservations b) then Inl ErrInvalidInput
        else if requiresOrganizationCostAccounting b \<and> \<not> hasOrganizationCostAccounting b then Inl ErrInvalidInput
        else let sorted_rules = sort_key ruleSortKey preparedRules in
          if adjacentDuplicate sorted_rules then Inl ErrInvalidInput else Inr sorted_rules))"

section \<open>Units and request-local bounds\<close>

definition ProjectedReservationUnits :: "'a quota_rule_scheme \<Rightarrow> bool \<Rightarrow> int \<times> bool" where
  "ProjectedReservationUnits rule streaming =
     (if rule_Metric rule = ConcurrentStreamsMetric \<and> \<not> streaming then (0, False)
      else if rule_Metric rule = LogicalRequestsMetric \<or> rule_Metric rule = UpstreamAttemptsMetric \<or>
              isConcurrencyMetric (rule_Metric rule)
      then (1, True)
      else (rule_ReservedUnits rule, True))"

definition exceedsRequestBound :: "int \<Rightarrow> preparedRule \<Rightarrow> bool" where
  "exceedsRequestBound attemptNumber rule =
     (if rule_Algorithm rule = PerRequestAlgorithm then
        (if rule_Metric rule = UpstreamAttemptsMetric then attemptNumber else rule_ReservedUnits rule)
          > rule_PerRequestMaximum rule
      else if rule_Algorithm rule = TokenBucketAlgorithm then
        rule_Metric rule \<noteq> LogicalRequestsMetric \<and> fst (ProjectedReservationUnits rule False) > rule_Capacity rule
      else False)"

definition requestBoundExceededRulesAtAttempt :: "preparedRule list \<Rightarrow> int \<Rightarrow> preparedRule list" where
  "requestBoundExceededRulesAtAttempt rules attemptNumber = filter (exceedsRequestBound attemptNumber) rules"

definition requestBoundExceededRules :: "preparedRule list \<Rightarrow> preparedRule list" where
  "requestBoundExceededRules rules = requestBoundExceededRulesAtAttempt rules 1"

record exceededError =
  exc_logicalRequestID :: string
  exc_retryAt :: gotime
  exc_maximum :: int
  exc_used :: int
  exc_reserved :: int
  exc_metric :: string
  exc_requestBound :: bool

definition boundMaximum :: "preparedRule \<Rightarrow> int" where
  "boundMaximum rule =
     (if rule_Algorithm rule = TokenBucketAlgorithm then rule_Capacity rule else rule_PerRequestMaximum rule)"

definition tighterBound :: "preparedRule \<Rightarrow> preparedRule \<Rightarrow> preparedRule" where
  "tighterBound selected candidate =
     (if boundMaximum candidate < boundMaximum selected \<or>
         boundMaximum candidate = boundMaximum selected \<and>
           (ruleKey candidate < ruleKey selected \<or>
            ruleKey candidate = ruleKey selected \<and> scopeKey candidate < scopeKey selected)
      then candidate else selected)"

definition requestBoundExceededError :: "string \<Rightarrow> preparedRule list \<Rightarrow> quota_error + exceededError" where
  "requestBoundExceededError logicalRequestID exceeded =
     (case exceeded of
        [] \<Rightarrow> Inl GoPanic
      | first # rest \<Rightarrow>
          let selected = foldl tighterBound first rest in
          Inr \<lparr>exc_logicalRequestID = logicalRequestID, exc_retryAt = GoTime 0 0, exc_maximum = boundMaximum selected,
               exc_used = 0, exc_reserved = 0, exc_metric = rule_Metric selected, exc_requestBound = True\<rparr>)"

definition clonePreparedRules :: "preparedRule list \<Rightarrow> quota_rule list" where
  "clonePreparedRules preparedRules = map quota_rule.truncate preparedRules"

definition allowedPlatformValues :: "string list" where
  "allowedPlatformValues =
     [''ios'', ''android'', ''web'', ''react_native_ios'', ''react_native_android'', ''watchos'', ''node'']"

text \<open>Go maps of claim digests are association lists with distinct keys; their order is that of an
  iteration.\<close>

fun addClaimDigests :: "(string \<times> string) list \<Rightarrow> (string \<rightharpoonup> string) \<Rightarrow> quota_error + (string \<rightharpoonup> string)" where
  "addClaimDigests [] result = Inr result"
| "addClaimDigests ((name, digest) # rest) result =
     (let dimension = NormalizedClaimPrefix @ name; (parsed, ok) = NormalizedClaimName dimension in
      if \<not> ok \<or> parsed \<noteq> name \<or> \<not> ValidClaimDigest digest then Inl ErrInvalidInput
      else addClaimDigests rest (result(dimension \<mapsto> digest)))"

definition quotaScopeValues ::
  "(string \<rightharpoonup> string) \<Rightarrow> string \<Rightarrow> (string \<times> string) list \<Rightarrow> quota_error + (string \<rightharpoonup> string)" where
  "quotaScopeValues fixed platform claimDigests =
     (if 128 < length claimDigests then Inl ErrInvalidInput
      else if platform \<noteq> [] \<and> platform \<notin> set allowedPlatformValues then Inl ErrInvalidInput
      else addClaimDigests claimDigests (if platform \<noteq> [] then fixed(''platform'' \<mapsto> platform) else fixed))"

section \<open>Lemmas: shape of a prepared rule\<close>

lemmas metric_class_defs =
  isConcurrencyMetric_def isTokenMetric_def isRequestMeasurementMetric_def requestOrAttempt_def

lemma ruleShape_stateful:
  assumes "ruleShape mode dims rule = Some (s, t)"
  shows "s \<longleftrightarrow> isStatefulRule (rule_Metric rule) (rule_Algorithm rule)"
proof -
  have "\<And>m a. rule_Metric rule = m \<Longrightarrow> rule_Algorithm rule = a \<Longrightarrow>
      a \<in> {CalendarAlgorithm, TokenBucketAlgorithm, PerRequestAlgorithm, ConcurrencyAlgorithm}"
    using assms unfolding ruleShape_def Let_def by (auto split: if_splits)
  then consider "rule_Algorithm rule = CalendarAlgorithm" | "rule_Algorithm rule = TokenBucketAlgorithm"
    | "rule_Algorithm rule = PerRequestAlgorithm" | "rule_Algorithm rule = ConcurrencyAlgorithm" by auto
  then show ?thesis
    by cases (use assms in \<open>auto simp: ruleShape_def isStatefulRule_def metric_class_defs Let_def split: if_splits\<close>)
qed

definition enforceablePairs :: "(string \<times> string) list" where
  "enforceablePairs =
     concat (map (\<lambda>d. map (\<lambda>a. (md_Name d, a)) (md_Algorithms d)) metric_definitions)"

lemma SupportsEnforcement_pairs: "SupportsEnforcement m a \<longleftrightarrow> (m, a) \<in> set enforceablePairs"
  unfolding SupportsEnforcement_iff enforceablePairs_def by (auto simp: list_ex_iff)

lemma enforceablePairs_eq:
  "enforceablePairs =
     [(LogicalRequestsMetric, CalendarAlgorithm), (LogicalRequestsMetric, TokenBucketAlgorithm),
      (UpstreamAttemptsMetric, CalendarAlgorithm), (UpstreamAttemptsMetric, TokenBucketAlgorithm),
      (UpstreamAttemptsMetric, PerRequestAlgorithm),
      (InputTokensMetric, CalendarAlgorithm), (InputTokensMetric, TokenBucketAlgorithm), (InputTokensMetric, PerRequestAlgorithm),
      (OutputTokensMetric, CalendarAlgorithm), (OutputTokensMetric, TokenBucketAlgorithm), (OutputTokensMetric, PerRequestAlgorithm),
      (TotalTokensMetric, CalendarAlgorithm), (TotalTokensMetric, TokenBucketAlgorithm), (TotalTokensMetric, PerRequestAlgorithm),
      (CostNanoUSDMetric, CalendarAlgorithm),
      (ConcurrentRequestsMetric, ConcurrencyAlgorithm), (ConcurrentStreamsMetric, ConcurrencyAlgorithm),
      (RequestBytesMetric, PerRequestAlgorithm), (ImageUnitsMetric, PerRequestAlgorithm), (ToolCallsMetric, PerRequestAlgorithm)]"
  by code_simp

lemma ruleShape_supported:
  assumes "ruleShape mode dims rule \<noteq> None"
  shows "SupportsEnforcement (rule_Metric rule) (rule_Algorithm rule)"
  using assms unfolding SupportsEnforcement_pairs enforceablePairs_eq ruleShape_def metric_class_defs Let_def
  by (auto split: if_splits)

text \<open>A minimal rule of each registered kind.\<close>

definition sampleRule :: "string \<Rightarrow> string \<Rightarrow> quota_rule" where
  "sampleRule metric algorithm =
     \<lparr>rule_Metric = metric, rule_Algorithm = algorithm, rule_Scope = [''user''],
      rule_Window = (if algorithm = CalendarAlgorithm then ''1d'' else []), rule_Timezone = [],
      rule_Maximum = (if algorithm = CalendarAlgorithm \<or> algorithm = ConcurrencyAlgorithm then 10 else 0),
      rule_PerRequestMaximum = (if algorithm = PerRequestAlgorithm then 10 else 0),
      rule_ReservedUnits = (if isTokenMetric metric then 1 else 0),
      rule_Capacity = (if algorithm = TokenBucketAlgorithm then 10 else 0),
      rule_RefillNumerator = (if algorithm = TokenBucketAlgorithm then 1 else 0),
      rule_RefillDenominator = (if algorithm = TokenBucketAlgorithm then 1 else 0),
      rule_CostRetryTreatment = [], rule_Hard = True\<rparr>"

lemma sampleRules_accepted:
  "list_all (\<lambda>(m, a). ruleShape reserveRulePreparation [''user''] (sampleRule m a) \<noteq> None) enforceablePairs"
  by code_simp

text \<open>
  C20. The quota package and the metric registry agree: the rule switch accepts some rule of a
  metric and an algorithm exactly when the registry declares the pair enforceable, and it
  classifies an accepted rule as stateful exactly when \<open>isStatefulRule\<close> does.
\<close>

theorem rule_registry_agreement:
  "((\<exists>mode dims rule. rule_Metric rule = m \<and> rule_Algorithm rule = a \<and> ruleShape mode dims rule \<noteq> None)
      \<longleftrightarrow> SupportsEnforcement m a) \<and>
   {(s, rule). \<exists>mode dims t. ruleShape mode dims rule = Some (s, t)}
      \<subseteq> {(s, rule). s = isStatefulRule (rule_Metric rule) (rule_Algorithm rule)}"
proof -
  have "\<exists>mode dims rule. rule_Metric rule = m \<and> rule_Algorithm rule = a \<and> ruleShape mode dims rule \<noteq> None"
    if "SupportsEnforcement m a"
  proof -
    have "rule_Metric (sampleRule m a) = m" "rule_Algorithm (sampleRule m a) = a" by (simp_all add: sampleRule_def)
    moreover have "ruleShape reserveRulePreparation [''user''] (sampleRule m a) \<noteq> None"
      using sampleRules_accepted that unfolding SupportsEnforcement_pairs list_all_iff by blast
    ultimately show ?thesis by blast
  qed
  then show ?thesis using ruleShape_supported ruleShape_stateful by fast
qed

section \<open>Lemmas: canonical order\<close>

lemma canonicalDigest_pattern: "digestPattern (canonicalDigest domain parts)"
  by (simp add: canonicalDigest_def canonicalDigestBytes_def base64url_digest)

definition rule_wf :: "(string \<rightharpoonup> string) \<Rightarrow> preparedRule \<Rightarrow> bool" where
  "rule_wf values p \<longleftrightarrow>
     rule_Hard p \<and> CanonicalDimensions (rule_Scope p) = Some (rule_Scope p) \<and> scopeDimensions p = rule_Scope p \<and>
     list_all (\<lambda>d. go_get values d \<noteq> []) (rule_Scope p) \<and>
     SupportsEnforcement (rule_Metric p) (rule_Algorithm p) \<and>
     stateful p = isStatefulRule (rule_Metric p) (rule_Algorithm p) \<and>
     digestPattern (ruleKey p) \<and> digestPattern (scopeKey p)"

lemma CanonicalDimensions_idem: "CanonicalDimensions xs = Some ys \<Longrightarrow> CanonicalDimensions ys = Some ys"
  unfolding CanonicalDimensions_Some
  using canonical_distinct [of xs] canonical_length [of xs] claimDims_canonical [of xs] canonical_set [of xs] by auto

lemma prepareRule_wf:
  assumes "prepareRule LL values mode rule b = Inr (p, b')"
  shows "rule_wf values p"
proof -
  obtain dims s t tz where d: "CanonicalDimensions (rule_Scope rule) = Some dims" "rule_Hard rule"
    "\<not> list_ex (\<lambda>d. go_get values d = []) dims" "ruleShape mode dims rule = Some (s, t)"
    and p: "p = preparedRuleOf values dims t tz s rule"
    using assms unfolding prepareRule_def canonicalScopeDimensions_def
    by (auto split: option.splits if_splits sum.splits prod.splits)
  have "SupportsEnforcement (rule_Metric rule) (rule_Algorithm rule)"
    using ruleShape_supported [of mode dims rule] d(4) by simp
  then show ?thesis
    using d CanonicalDimensions_idem [OF d(1)] ruleShape_stateful [OF d(4)]
    by (auto simp: rule_wf_def p preparedRuleOf_def canonicalDigest_pattern list_ex_iff list_all_iff)
qed

lemma prepareRuleList_wf:
  "prepareRuleList LL values mode rules b = Inr (ps, b') \<Longrightarrow> list_all (rule_wf values) ps \<and> length ps = length rules"
  by (induction rules arbitrary: b ps b') (auto simp: go_result dest: prepareRule_wf)

lemma adjacentDuplicate_sorted:
  "sorted (map ruleSortKey ps) \<Longrightarrow> adjacentDuplicate ps \<longleftrightarrow> \<not> distinct (map ruleSortKey ps)"
proof (induction ps rule: adjacentDuplicate.induct)
  case (1 p q ps)
  have "ruleSortKey p \<in> set (map ruleSortKey (q # ps)) \<longleftrightarrow> ruleSortKey p = ruleSortKey q"
    using "1.prems" by (fastforce simp: image_iff)
  then show ?case using 1 by (auto simp: ruleSortKey_def)
qed auto

lemma prepareRules_Inr:
  "prepareRules LL inp values mode = Inr out \<longleftrightarrow>
     1 \<le> length inp \<and> length inp \<le> 128 \<and>
     (\<exists>ps b. prepareRuleList LL values mode inp emptyBinding = Inr (ps, b) \<and>
        validTokenReservationRelationship (tokenReservations b) \<and>
        (requiresOrganizationCostAccounting b \<longrightarrow> hasOrganizationCostAccounting b) \<and>
        distinct (map ruleSortKey (sort_key ruleSortKey ps)) \<and> out = sort_key ruleSortKey ps)"
  unfolding prepareRules_def
  by (auto simp: go_result Let_def adjacentDuplicate_sorted not_less Suc_le_eq split: if_splits)

text \<open>
  C18. The rules of an accepted request are in canonical form: as many as were configured, at
  least one and at most 128, strictly increasing by rule key and scope key (so no bucket is
  named twice), and each hard, enforceable, correctly classified, over a canonical scope all of
  whose dimensions have a value, with keys in the stored form of a digest.
\<close>

theorem prepare_rules_canonical:
  assumes "prepareRules LL inp values mode = Inr out"
  shows "sorted_wrt (<) (map ruleSortKey out) \<and> length out = length inp \<and> 1 \<le> length out \<and> length out \<le> 128 \<and>
    list_all (rule_wf values) out"
proof -
  obtain ps b where ps: "prepareRuleList LL values mode inp emptyBinding = Inr (ps, b)"
    and out: "out = sort_key ruleSortKey ps" and d: "distinct (map ruleSortKey out)"
    and len: "1 \<le> length inp" "length inp \<le> 128"
    using assms unfolding prepareRules_Inr by blast
  have "sorted_wrt (<) (map ruleSortKey out)"
    using d out by (simp add: strict_sorted_iff)
  then show ?thesis using prepareRuleList_wf [OF ps] out len by (simp add: list_all_iff)
qed

section \<open>Lemmas: the order of the input\<close>

text \<open>One iteration is a local part, which does not read the binding, and a step of the binding.\<close>

definition ruleLocal ::
  "(string \<Rightarrow> location option) \<Rightarrow> (string \<rightharpoonup> string) \<Rightarrow> rulePreparationMode \<Rightarrow> quota_rule
     \<Rightarrow> (preparedRule \<times> string list \<times> string) option" where
  "ruleLocal LL values mode rule =
     (case CanonicalDimensions (rule_Scope rule) of
        None \<Rightarrow> None
      | Some dims \<Rightarrow>
          if \<not> rule_Hard rule \<or> list_ex (\<lambda>d. go_get values d = []) dims then None
          else (case ruleShape mode dims rule of
            None \<Rightarrow> None
          | Some (s, t) \<Rightarrow>
              if rule_Metric rule \<noteq> CostNanoUSDMetric \<and> t \<noteq> [] then None
              else map_option (\<lambda>tz. (preparedRuleOf values dims t tz s rule, dims, t)) (ruleTimezone LL rule s)))"

definition bindStep :: "rulePreparationMode \<Rightarrow> quota_rule \<Rightarrow> string list \<Rightarrow> string \<Rightarrow> reservationBinding \<Rightarrow> reservationBinding option" where
  "bindStep mode rule dims t b = bindReservations mode rule (bindCostAccounting dims rule t b)"

definition ruleStep ::
  "(string \<Rightarrow> location option) \<Rightarrow> (string \<rightharpoonup> string) \<Rightarrow> rulePreparationMode \<Rightarrow> quota_rule
     \<Rightarrow> (preparedRule multiset \<times> reservationBinding) option \<Rightarrow> (preparedRule multiset \<times> reservationBinding) option" where
  "ruleStep LL values mode rule st =
     (case st of
        None \<Rightarrow> None
      | Some (ps, b) \<Rightarrow>
          (case ruleLocal LL values mode rule of
             None \<Rightarrow> None
           | Some (p, dims, t) \<Rightarrow> map_option (\<lambda>b'. (add_mset p ps, b')) (bindStep mode rule dims t b)))"

lemma prepareRule_local:
  "prepareRule LL values mode rule b =
     (case ruleLocal LL values mode rule of
        None \<Rightarrow> Inl ErrInvalidInput
      | Some (p, dims, t) \<Rightarrow>
          (case bindStep mode rule dims t b of None \<Rightarrow> Inl ErrInvalidInput | Some b' \<Rightarrow> Inr (p, b')))"
  unfolding prepareRule_def ruleLocal_def bindStep_def canonicalScopeDimensions_def
  by (auto split: option.splits if_splits)

lemma bindUnits_comm:
  "Option.bind (bindUnits m k x) (\<lambda>m. bindUnits m l y) = Option.bind (bindUnits m l y) (\<lambda>m. bindUnits m k x)"
  by (cases "k = l"; cases "m k"; cases "m l") (auto simp: bindUnits_def fun_upd_twist split: option.splits)

lemma map_bind_comm:
  assumes "Option.bind x f = Option.bind y g"
  shows "Option.bind x (\<lambda>m. map_option h (f m)) = Option.bind y (\<lambda>m. map_option h (g m))"
  using arg_cong [OF assms, of "map_option h"] by (simp add: map_option_bind comp_def)

text \<open>The slot of the binding that a rule writes.\<close>

lemma bindReservations_token:
  "isTokenMetric (rule_Metric r) \<Longrightarrow>
   bindReservations reserveRulePreparation r b =
     map_option (\<lambda>m. b\<lparr>tokenReservations := m\<rparr>) (bindUnits (tokenReservations b) (rule_Metric r) (rule_ReservedUnits r))"
  by (simp add: bindReservations_def)

lemma bindReservations_request:
  "isRequestMeasurementMetric (rule_Metric r) \<Longrightarrow>
   bindReservations reserveRulePreparation r b =
     map_option (\<lambda>m. b\<lparr>requestReservations := m\<rparr>) (bindUnits (requestReservations b) (rule_Metric r) (rule_ReservedUnits r))"
  by (auto simp: bindReservations_def isRequestMeasurementMetric_def isTokenMetric_def)

lemma bindReservations_cost_slot:
  "rule_Metric r = CostNanoUSDMetric \<Longrightarrow>
   bindReservations reserveRulePreparation r b =
     (if costReservation b \<in> {None, Some (rule_ReservedUnits r)}
      then Some (b\<lparr>costReservation := Some (rule_ReservedUnits r)\<rparr>) else None)"
  by (cases b) (simp add: bindReservations_def isTokenMetric_def split: option.splits)

lemma bindReservations_none:
  "\<not> isTokenMetric (rule_Metric r) \<Longrightarrow> \<not> isRequestMeasurementMetric (rule_Metric r) \<Longrightarrow> rule_Metric r \<noteq> CostNanoUSDMetric \<Longrightarrow>
   bindReservations mode r b = Some b"
  by (simp add: bindReservations_def)

lemmas bind_slots = bindReservations_token bindReservations_request bindReservations_cost_slot bindReservations_none

lemma map_option_bind_map:
  "Option.bind (map_option f x) g = Option.bind x (\<lambda>m. g (f m))"
  by (cases x) simp_all

lemma metric_slot_cases:
  obtains (token) "isTokenMetric m" "\<not> isRequestMeasurementMetric m" "m \<noteq> CostNanoUSDMetric"
  | (request) "isRequestMeasurementMetric m" "\<not> isTokenMetric m" "m \<noteq> CostNanoUSDMetric"
  | (cost) "m = CostNanoUSDMetric" "\<not> isTokenMetric m" "\<not> isRequestMeasurementMetric m"
  | (none) "\<not> isTokenMetric m" "\<not> isRequestMeasurementMetric m" "m \<noteq> CostNanoUSDMetric"
proof -
  have "isTokenMetric m \<Longrightarrow> \<not> isRequestMeasurementMetric m" "isTokenMetric m \<Longrightarrow> m \<noteq> CostNanoUSDMetric"
    "isRequestMeasurementMetric m \<Longrightarrow> m \<noteq> CostNanoUSDMetric"
    by (auto simp: isTokenMetric_def isRequestMeasurementMetric_def)
  then show ?thesis using that by blast
qed

lemma bindReservations_comm:
  "Option.bind (bindReservations mode r b) (bindReservations mode r') = Option.bind (bindReservations mode r' b) (bindReservations mode r)"
proof (cases mode)
  case reserveRulePreparation
  obtain T R C x y where b: "b = \<lparr>tokenReservations = T, requestReservations = R, costReservation = C,
      requiresOrganizationCostAccounting = x, hasOrganizationCostAccounting = y\<rparr>" by (cases b)
  note simps = bind_slots map_option_bind_map b reserveRulePreparation
  note tt = map_bind_comm [OF bindUnits_comm [of T "rule_Metric r" "rule_ReservedUnits r" "rule_Metric r'" "rule_ReservedUnits r'"]]
  note qq = map_bind_comm [OF bindUnits_comm [of R "rule_Metric r" "rule_ReservedUnits r" "rule_Metric r'" "rule_ReservedUnits r'"]]
  have swap: "Option.bind (bindUnits T k m) (\<lambda>t. map_option (f t) (bindUnits R l n)) =
      Option.bind (bindUnits R l n) (\<lambda>u. map_option (\<lambda>t. f t u) (bindUnits T k m))" for k l m n and f :: "_ \<Rightarrow> _ \<Rightarrow> reservationBinding"
    by (cases "bindUnits T k m"; cases "bindUnits R l n") simp_all
  have swap': "Option.bind (bindUnits M k m) (\<lambda>t. if P then Some (f t) else None) =
      (if P then map_option f (bindUnits M k m) else None)" for M k m P and f :: "_ \<Rightarrow> reservationBinding"
    by (cases "bindUnits M k m") simp_all
  have some: "Option.bind x (\<lambda>t. Some (f t)) = map_option f x" for x :: "'y option" and f :: "'y \<Rightarrow> reservationBinding"
    by (cases x) simp_all
  show ?thesis
  proof (cases "rule_Metric r" rule: metric_slot_cases)
    case token
    then show ?thesis by (cases "rule_Metric r'" rule: metric_slot_cases) (simp_all add: simps tt swap swap' some)
  next
    case request
    then show ?thesis by (cases "rule_Metric r'" rule: metric_slot_cases) (simp_all add: simps qq swap [symmetric] swap' some)
  next
    case cost
    then show ?thesis by (cases "rule_Metric r'" rule: metric_slot_cases) (auto simp add: simps swap' some)
  next
    case none
    then show ?thesis
      by (cases "bindReservations reserveRulePreparation r' b") (simp_all add: simps)
  qed
qed (simp add: bindReservations_def)

lemma bindCostAccounting_comm:
  "bindCostAccounting d r t (bindCostAccounting d' r' t' b) = bindCostAccounting d' r' t' (bindCostAccounting d r t b)"
  by (cases b) (simp add: bindCostAccounting_def)

lemma bindCostAccounting_fields [simp]:
  "tokenReservations (bindCostAccounting d r t b) = tokenReservations b"
  "requestReservations (bindCostAccounting d r t b) = requestReservations b"
  "costReservation (bindCostAccounting d r t b) = costReservation b"
  "bindCostAccounting d r t (b\<lparr>tokenReservations := m\<rparr>) = (bindCostAccounting d r t b)\<lparr>tokenReservations := m\<rparr>"
  "bindCostAccounting d r t (b\<lparr>requestReservations := m\<rparr>) = (bindCostAccounting d r t b)\<lparr>requestReservations := m\<rparr>"
  "bindCostAccounting d r t (b\<lparr>costReservation := c\<rparr>) = (bindCostAccounting d r t b)\<lparr>costReservation := c\<rparr>"
  by (cases b; simp add: bindCostAccounting_def)+

lemma bindReservations_cost:
  "bindReservations mode r (bindCostAccounting d' r' t' b) = map_option (bindCostAccounting d' r' t') (bindReservations mode r b)"
  by (simp add: bindReservations_def option.map_comp comp_def split: option.splits)

lemma bindStep_comm:
  "Option.bind (bindStep mode r d t b) (bindStep mode r' d' t') = Option.bind (bindStep mode r' d' t' b) (bindStep mode r d t)"
proof -
  have e: "Option.bind (bindStep mode r d t b) (bindStep mode r' d' t')
     = Option.bind (bindReservations mode r (bindCostAccounting d' r' t' (bindCostAccounting d r t b))) (bindReservations mode r')"
    for r d t r' d' t'
    unfolding bindStep_def bindReservations_cost [of mode r d' r' t' "bindCostAccounting d r t b"]
    by (cases "bindReservations mode r (bindCostAccounting d r t b)") simp_all
  show ?thesis unfolding e bindCostAccounting_comm [of d r t d' r' t'] by (rule bindReservations_comm)
qed

lemma ruleStep_simps [simp]:
  "ruleStep LL values mode rule None = None"
  "ruleLocal LL values mode rule = None \<Longrightarrow> ruleStep LL values mode rule st = None"
  "ruleLocal LL values mode rule = Some (p, dims, t) \<Longrightarrow>
     ruleStep LL values mode rule (Some (ps, b)) = map_option (\<lambda>b'. (add_mset p ps, b')) (bindStep mode rule dims t b)"
  by (simp_all add: ruleStep_def split: option.splits)

lemma ruleStep_comm: "ruleStep LL values mode r \<circ> ruleStep LL values mode r' = ruleStep LL values mode r' \<circ> ruleStep LL values mode r"
proof (rule ext)
  fix st
  show "(ruleStep LL values mode r \<circ> ruleStep LL values mode r') st = (ruleStep LL values mode r' \<circ> ruleStep LL values mode r) st"
  proof (cases st)
    case (Some s)
    obtain P b where st: "st = Some (P, b)" using Some by (cases s) simp
    show ?thesis
    proof (cases "ruleLocal LL values mode r = None \<or> ruleLocal LL values mode r' = None")
      case False
      then obtain p d t p' d' t' where l: "ruleLocal LL values mode r = Some (p, d, t)" "ruleLocal LL values mode r' = Some (p', d', t')"
        by (metis option.exhaust prod_cases3)
      have "(ruleStep LL values mode r1 \<circ> ruleStep LL values mode r2) st
          = map_option (\<lambda>b'. (add_mset p1 (add_mset p2 P), b')) (Option.bind (bindStep mode r2 d2 t2 b) (bindStep mode r1 d1 t1))"
        if "ruleLocal LL values mode r1 = Some (p1, d1, t1)" "ruleLocal LL values mode r2 = Some (p2, d2, t2)"
        for r1 r2 p1 p2 d1 d2 t1 t2
        using that by (cases "bindStep mode r2 d2 t2 b") (simp_all add: st)
      note this [OF l] this [OF l(2,1)]
      then show ?thesis using bindStep_comm [of mode r d t b r' d' t'] by (simp add: add_mset_commute)
    qed auto
  qed simp
qed

lemma fold_ruleStep_None [simp]: "fold (ruleStep LL values mode) rules None = None"
  by (induction rules) simp_all

lemma prepareRuleList_fold:
  "(case prepareRuleList LL values mode rules b of Inl _ \<Rightarrow> None | Inr (ps, b') \<Rightarrow> Some (mset ps + P, b'))
     = fold (ruleStep LL values mode) rules (Some (P, b))"
proof (induction rules arbitrary: b P)
  case (Cons r rules)
  show ?case
  proof (cases "ruleLocal LL values mode r")
    case None
    then show ?thesis by (simp add: prepareRule_local andThen_def)
  next
    case (Some l)
    obtain p d t where l: "ruleLocal LL values mode r = Some (p, d, t)" using Some by (cases l) simp
    show ?thesis
    proof (cases "bindStep mode r d t b")
      case None
      then show ?thesis using l by (simp add: prepareRule_local andThen_def)
    next
      case (Some b')
      show ?thesis
        using Cons.IH [where b = b' and P = "add_mset p P"] l Some
        by (cases "prepareRuleList LL values mode rules b'") (auto simp: prepareRule_local andThen_def)
    qed
  qed
qed simp

lemma prepareRuleList_error: "prepareRuleList LL values mode rules b = Inl e \<Longrightarrow> e = ErrInvalidInput"
  by (induction rules arbitrary: b) (auto simp: prepareRule_local go_result split: option.splits)

lemma prepareRuleList_order:
  assumes "mset xs = mset ys" "prepareRuleList LL values mode xs b = Inr (ps, b')"
  shows "\<exists>qs. prepareRuleList LL values mode ys b = Inr (qs, b') \<and> mset qs = mset ps"
proof -
  have "fold (ruleStep LL values mode) xs = fold (ruleStep LL values mode) ys"
    by (rule fold_multiset_equiv) (use ruleStep_comm assms(1) in auto)
  then show ?thesis
    using prepareRuleList_fold [of "{#}" LL "values" mode xs b] prepareRuleList_fold [of "{#}" LL "values" mode ys b, symmetric] assms(2)
    by (cases "prepareRuleList LL values mode ys b") auto
qed

lemma sort_rules_unique:
  assumes "mset ps = mset qs" "distinct (map ruleSortKey (sort_key ruleSortKey ps))"
  shows "sort_key ruleSortKey ps = sort_key ruleSortKey qs"
proof (rule sort_key_inj_key_eq)
  show "mset ps = mset (sort_key ruleSortKey qs)" using assms(1) by simp
  show "inj_on ruleSortKey (set ps)" using assms(2) by (simp add: distinct_map)
qed simp

lemma prepareRules_order_Inr:
  assumes "mset xs = mset ys" "prepareRules LL xs values mode = Inr out"
  shows "prepareRules LL ys values mode = Inr out"
proof -
  obtain ps b where ps: "prepareRuleList LL values mode xs emptyBinding = Inr (ps, b)"
    and b: "validTokenReservationRelationship (tokenReservations b)"
      "requiresOrganizationCostAccounting b \<longrightarrow> hasOrganizationCostAccounting b"
    and d: "distinct (map ruleSortKey (sort_key ruleSortKey ps))" "out = sort_key ruleSortKey ps"
    and len: "1 \<le> length xs" "length xs \<le> 128"
    using assms(2) unfolding prepareRules_Inr by blast
  obtain qs where qs: "prepareRuleList LL values mode ys emptyBinding = Inr (qs, b)" "mset qs = mset ps"
    using prepareRuleList_order [OF assms(1) ps] by blast
  have "length ys = length xs" using assms(1) by (metis size_mset)
  then show ?thesis
    unfolding prepareRules_Inr using qs(1) b d len sort_rules_unique [OF qs(2) [symmetric] d(1)] by auto
qed

lemma prepareRules_error: "prepareRules LL xs values mode = Inl e \<Longrightarrow> e = ErrInvalidInput"
  unfolding prepareRules_def by (auto simp: go_result Let_def dest: prepareRuleList_error split: if_splits)

text \<open>
  C19. The order in which a policy lists its rules has no influence: any two permutations of the
  same rules are prepared to the same canonical rules or rejected with the same error.
\<close>

theorem prepare_rules_order:
  assumes "mset xs = mset ys"
  shows "prepareRules LL xs values mode = prepareRules LL ys values mode"
proof (cases "prepareRules LL xs values mode")
  case (Inr out)
  then show ?thesis using prepareRules_order_Inr [OF assms] by simp
next
  case (Inl e)
  then show ?thesis
    using prepareRules_order_Inr [OF assms [symmetric], of LL "values" mode] prepareRules_error [OF Inl]
      prepareRules_error [of LL ys "values" mode]
    by (cases "prepareRules LL ys values mode") auto
qed

section \<open>Lemmas: the identity of a bucket\<close>

text \<open>What the keys of a prepared rule are digests of.\<close>

definition ruleKeyParts :: "preparedRule \<Rightarrow> string list" where
  "ruleKeyParts p = ruleParts (rule_Metric p) (rule_Algorithm p) (rule_Window p) (rule_Timezone p) (rule_Scope p)"

definition scopeKeyParts :: "(string \<rightharpoonup> string) \<Rightarrow> preparedRule \<Rightarrow> string list" where
  "scopeKeyParts values p = scopeParts values (rule_Scope p)"

definition timezone_wf :: "(string \<Rightarrow> location option) \<Rightarrow> preparedRule \<Rightarrow> bool" where
  "timezone_wf LL p \<longleftrightarrow>
     (if rule_Algorithm p = CalendarAlgorithm
      then rule_Timezone p = ''UTC'' \<or>
           rule_Timezone p \<noteq> [] \<and> LL (rule_Timezone p) \<noteq> None \<and> CHR '':'' \<notin> set (rule_Timezone p) \<and> length (rule_Timezone p) \<le> 64
      else rule_Timezone p = [])"

lemma canonicalCalendarTimezone_cases:
  "canonicalCalendarTimezone LL raw = Inr (tz, loc) \<Longrightarrow>
   tz = ''UTC'' \<or> tz \<noteq> [] \<and> LL tz \<noteq> None \<and> CHR '':'' \<notin> set tz \<and> length tz \<le> 64"
  using canonicalCalendarTimezone_name [of LL raw tz loc]
  by (auto simp: canonicalCalendarTimezone_def split: if_splits option.splits)

lemma ruleTimezone_wf:
  assumes "ruleTimezone LL rule s = Some tz" "s \<longleftrightarrow> isStatefulRule (rule_Metric rule) (rule_Algorithm rule)"
    "SupportsEnforcement (rule_Metric rule) (rule_Algorithm rule)"
  shows "if rule_Algorithm rule = CalendarAlgorithm
      then tz = ''UTC'' \<or> tz \<noteq> [] \<and> LL tz \<noteq> None \<and> CHR '':'' \<notin> set tz \<and> length tz \<le> 64
      else tz = []"
    and "rule_Algorithm rule = CalendarAlgorithm \<Longrightarrow> is_ok (parseCalendarSpec (rule_Window rule))"
proof -
  have s: "s" if "rule_Algorithm rule = CalendarAlgorithm"
    using assms(2,3) that unfolding SupportsEnforcement_pairs enforceablePairs_eq isStatefulRule_def by auto
  show "if rule_Algorithm rule = CalendarAlgorithm
      then tz = ''UTC'' \<or> tz \<noteq> [] \<and> LL tz \<noteq> None \<and> CHR '':'' \<notin> set tz \<and> length tz \<le> 64
      else tz = []"
    using assms(1) s canonicalCalendarTimezone_cases [of LL "rule_Timezone rule" tz]
    by (auto simp: ruleTimezone_def Let_def split: if_splits option.splits sum.splits)
  show "rule_Algorithm rule = CalendarAlgorithm \<Longrightarrow> is_ok (parseCalendarSpec (rule_Window rule))"
    using assms(1) s by (auto simp: ruleTimezone_def Let_def split: if_splits option.splits sum.splits)
qed

definition key_wf :: "(string \<Rightarrow> location option) \<Rightarrow> (string \<rightharpoonup> string) \<Rightarrow> preparedRule \<Rightarrow> bool" where
  "key_wf LL values p \<longleftrightarrow>
     timezone_wf LL p \<and> length (rule_Window p) \<le> 21 \<and> SupportsEnforcement (rule_Metric p) (rule_Algorithm p) \<and>
     CanonicalDimensions (rule_Scope p) = Some (rule_Scope p) \<and>
     ruleKey p = canonicalDigest ruleDigestDomain (ruleKeyParts p) \<and>
     scopeKey p = canonicalDigest scopeDigestDomain (scopeKeyParts values p)"

lemma ruleShape_window:
  "ruleShape mode dims rule \<noteq> None \<Longrightarrow> rule_Algorithm rule \<noteq> CalendarAlgorithm \<Longrightarrow> rule_Window rule = []"
  by (auto simp: ruleShape_def Let_def split: if_splits)

lemma prepareRule_key_wf:
  assumes "prepareRule LL values mode rule b = Inr (p, b')"
  shows "key_wf LL values p"
proof -
  obtain dims s t tz where d: "CanonicalDimensions (rule_Scope rule) = Some dims"
    "ruleShape mode dims rule = Some (s, t)" "ruleTimezone LL rule s = Some tz"
    and p: "p = preparedRuleOf values dims t tz s rule"
    using assms unfolding prepareRule_def canonicalScopeDimensions_def
    by (auto split: option.splits if_splits sum.splits prod.splits)
  have s: "SupportsEnforcement (rule_Metric rule) (rule_Algorithm rule)"
    using ruleShape_supported [of mode dims rule] d(2) by simp
  note tz = ruleTimezone_wf [OF d(3) ruleShape_stateful [OF d(2)] s]
  have "length (rule_Window rule) \<le> 21"
    using tz(2) ruleShape_window [of mode dims rule] d(2) parseCalendarSpec_raw(2) by (force simp: is_ok_iff)
  then show ?thesis
    using s tz(1) CanonicalDimensions_idem [OF d(1)]
    by (auto simp: key_wf_def timezone_wf_def p preparedRuleOf_def ruleKeyParts_def scopeKeyParts_def split: if_splits)
qed

lemma prepareRuleList_key_wf:
  "prepareRuleList LL values mode rules b = Inr (ps, b') \<Longrightarrow> p \<in> set ps \<Longrightarrow> key_wf LL values p"
  by (induction rules arbitrary: b ps b') (auto simp: go_result dest: prepareRule_key_wf)

lemma prepareRules_key_wf:
  "prepareRules LL inp values mode = Inr out \<Longrightarrow> p \<in> set out \<Longrightarrow> key_wf LL values p"
  by (auto simp: prepareRules_Inr dest: prepareRuleList_key_wf)

lemma canonicalDimension_form:
  assumes "CanonicalDimensions ds = Some ds" "d \<in> set ds"
  shows "d \<in> set fixedOrder \<or> (CHR '':'' \<in> set d \<and> length d \<le> 80)"
proof -
  have "snd (NormalizedClaimName d)" if "d \<notin> set fixedOrder"
    using assms that unfolding CanonicalDimensions_Some by (auto simp: claimDims_def list_all_iff)
  moreover have "CHR '':'' \<in> set d \<and> length d \<le> 80" if n: "snd (NormalizedClaimName d)"
  proof -
    obtain n where d: "d = NormalizedClaimPrefix @ n" "normalizedClaimNamePattern n"
      using NormalizedClaimName_iff n by blast
    have "length n \<le> 63" using d(2) by (cases n) (auto simp: normalizedClaimNamePattern_def)
    then show ?thesis by (simp add: d(1) NormalizedClaimPrefix_def)
  qed
  ultimately show ?thesis by blast
qed

lemma fixedOrder_short: "list_all (\<lambda>d. length d \<le> 80) fixedOrder"
  by code_simp

lemma enforceable_short: "list_all (\<lambda>(m, a). length m \<le> 80 \<and> length a \<le> 80) enforceablePairs"
  by code_simp

lemma ruleKeyParts_ok:
  assumes "key_wf LL values p"
  shows "list_all part_ok (ruleKeyParts p)"
proof -
  have "\<forall>d\<in>set (rule_Scope p). length d \<le> 80"
    using assms canonicalDimension_form fixedOrder_short by (auto simp: key_wf_def list_all_iff)
  moreover have "length (rule_Metric p) \<le> 80" "length (rule_Algorithm p) \<le> 80"
    using assms enforceable_short by (auto simp: key_wf_def SupportsEnforcement_pairs list_all_iff)
  moreover have "length (rule_Timezone p) \<le> 64" "length (rule_Window p) \<le> 21"
    using assms by (auto simp: key_wf_def timezone_wf_def split: if_splits)
  ultimately show ?thesis
    by (auto simp: ruleKeyParts_def ruleParts_def part_ok_def list_all_iff)
qed

lemma canonicalDigest_inject:
  assumes "list_all part_ok ps" "list_all part_ok qs"
    "sha256 (canonicalPreimage domain ps) = sha256 (canonicalPreimage domain qs) \<Longrightarrow>
      canonicalPreimage domain ps = canonicalPreimage domain qs"
  shows "canonicalDigest domain ps = canonicalDigest domain qs \<longleftrightarrow> ps = qs"
  using assms base64url_inject [of "sha256 (canonicalPreimage domain ps)" "sha256 (canonicalPreimage domain qs)"]
  by (auto simp: canonicalDigest_def canonicalDigestBytes_def canonicalPreimage_def lengthPrefixed_inject)

lemma ruleKeyParts_inject:
  assumes "key_wf LL values p" "key_wf LL values' q" "\<forall>d. d \<in> set fixedOrder \<longrightarrow> LL d = None"
  shows "ruleKeyParts p = ruleKeyParts q \<longleftrightarrow>
    rule_Metric p = rule_Metric q \<and> rule_Algorithm p = rule_Algorithm q \<and> rule_Window p = rule_Window q \<and>
    rule_Timezone p = rule_Timezone q \<and> rule_Scope p = rule_Scope q"
proof -
  have not_dim: "rule_Timezone x \<notin> set (rule_Scope y)"
    if "key_wf LL v x" "key_wf LL w y" "rule_Timezone x \<noteq> []" "rule_Timezone x \<noteq> ''UTC''" for x y v w
    using that canonicalDimension_form [of "rule_Scope y" "rule_Timezone x"] assms(3)
    by (auto simp: key_wf_def timezone_wf_def split: if_splits)
  have tz: "rule_Timezone p = [] \<longleftrightarrow> rule_Timezone q = []" if "rule_Algorithm p = rule_Algorithm q"
    using assms(1,2) that by (auto simp: key_wf_def timezone_wf_def split: if_splits)
  show ?thesis
    using not_dim [OF assms(1,2)] not_dim [OF assms(2,1)] tz
    by (auto simp: ruleKeyParts_def ruleParts_def) (metis list.set_intros(1))+
qed

lemma scopeParts_inject:
  "scopeParts v ds = scopeParts w es \<longleftrightarrow> ds = es \<and> (\<forall>d\<in>set ds. go_get v d = go_get w d)"
proof (induction ds arbitrary: es)
  case Nil
  then show ?case by (cases es) (auto simp: scopeParts_def)
next
  case (Cons d ds)
  then show ?case by (cases es) (auto simp: scopeParts_def)
qed


lemma prepareRules_single:
  assumes "ruleLocal LL values mode rule = Some (p, dims, t)" "bindStep mode rule dims t emptyBinding = Some b"
    "validTokenReservationRelationship (tokenReservations b)" "\<not> requiresOrganizationCostAccounting b"
  shows "prepareRules LL [rule] values mode = Inr [p]"
  unfolding prepareRules_def using assms by (simp add: prepareRule_local)

text \<open>A concrete request: one daily rule on logical requests per user.\<close>

definition sampleValues :: "string \<rightharpoonup> string" where
  "sampleValues = [''user'' \<mapsto> ''usr_1'']"

definition dailyRule :: "string \<Rightarrow> quota_rule" where
  "dailyRule timezone = (sampleRule LogicalRequestsMetric CalendarAlgorithm)\<lparr>rule_Timezone := timezone\<rparr>"

definition dailyPrepared :: "(string \<rightharpoonup> string) \<Rightarrow> preparedRule" where
  "dailyPrepared values = preparedRuleOf values [''user''] [] ''UTC'' True (dailyRule [])"

lemma userScope: "CanonicalDimensions [''user''] = Some [''user'']"
  by code_simp

lemma dailyRule_accepted:
  assumes "tz = [] \<or> tz = ''UTC''" "go_get values ''user'' \<noteq> []"
  shows "prepareRules LL [dailyRule tz] values reserveRulePreparation = Inr [dailyPrepared values]"
proof (rule prepareRules_single)
  have shape: "list_all (\<lambda>tz. ruleShape reserveRulePreparation [''user''] (dailyRule tz) = Some (True, [])) [[], ''UTC'']"
    by code_simp
  have spec: "is_ok (parseCalendarSpec ''1d'')" by code_simp
  have z: "ruleTimezone LL (dailyRule tz) True = Some ''UTC''"
    using assms(1) spec
    by (auto simp: ruleTimezone_def canonicalCalendarTimezone_def dailyRule_def sampleRule_def is_ok_iff)
  show "ruleLocal LL values reserveRulePreparation (dailyRule tz) = Some (dailyPrepared values, [''user''], [])"
    using z shape assms userScope
    by (auto simp: ruleLocal_def dailyPrepared_def preparedRuleOf_def dailyRule_def sampleRule_def)
  show "bindStep reserveRulePreparation (dailyRule tz) [''user''] [] emptyBinding = Some emptyBinding"
    by (simp add: bindStep_def bindCostAccounting_def bindReservations_def dailyRule_def sampleRule_def metric_class_defs)
qed (simp_all add: validTokenReservationRelationship_def emptyBinding_def)

lemma sampleValues_user: "go_get sampleValues ''user'' \<noteq> []"
  by (simp add: sampleValues_def)

theorem prepare_rules_canonical_witness:
  "rule_wf sampleValues (dailyPrepared sampleValues) \<and> sorted_wrt (<) (map ruleSortKey [dailyPrepared sampleValues])"
  using prepare_rules_canonical [OF dailyRule_accepted [of "''UTC''", OF _ sampleValues_user, where LL = "\<lambda>_. None"]] by simp

theorem prepare_rules_order_witness:
  "prepareRules (\<lambda>_. None) [dailyRule [], sampleRule ConcurrentRequestsMetric ConcurrencyAlgorithm] sampleValues reserveRulePreparation =
   prepareRules (\<lambda>_. None) [sampleRule ConcurrentRequestsMetric ConcurrencyAlgorithm, dailyRule []] sampleValues reserveRulePreparation"
  by (rule prepare_rules_order) simp


end
