(* ===== verification/Ident.thy ===== *)
theory Ident
  imports Go_Time
begin

text \<open>
  Opaque identifiers (\<open>src/internal/id/id.go\<close>): the ULID encoding of a 128-bit payload
  in Crockford's base 32, its parser, and the generator that keeps identifiers in
  increasing order.  A byte is an \<open>8 word\<close> and the bit loops of the source are folds.
  The clock and the outcome of reading the entropy source are arguments of the
  generator's step.
\<close>

unbundle bit_operations_syntax

section \<open>Model\<close>

datatype id_error =
    ErrInvalidPrefix
  | ErrInvalidID
  | ErrTimestampOutOfRange
  | ErrEntropyExhausted
  | ErrEntropyRead

type_synonym byte = "8 word"

abbreviation payloadLength :: nat where
  "payloadLength \<equiv> 26"

abbreviation maxTimestamp :: int where
  "maxTimestamp \<equiv> 281474976710655"

definition crockfordAlphabet :: string where
  "crockfordAlphabet = ''0123456789ABCDEFGHJKMNPQRSTVWXYZ''"

definition crockfordValue :: "char \<Rightarrow> byte option" where
  "crockfordValue character =
     map_option word_of_nat (List.find (\<lambda>i. crockfordAlphabet ! i = character) [0..<length crockfordAlphabet])"

definition isCrockford :: "char \<Rightarrow> bool" where
  "isCrockford character \<longleftrightarrow> crockfordValue character \<noteq> None"

definition validatePrefix :: "string \<Rightarrow> bool" where
  "validatePrefix value \<longleftrightarrow>
     2 \<le> length value \<and> length value \<le> 16 \<and>
     list_all (\<lambda>i. is_lower (value ! i) \<or> i \<noteq> 0 \<and> is_digit (value ! i)) [0..<length value]"

text \<open>One bit of the inner loop of \<open>encodePayload\<close>, its digits, and the whole payload.\<close>

definition encodeBit :: "byte list \<Rightarrow> nat \<Rightarrow> nat \<Rightarrow> byte \<Rightarrow> byte" where
  "encodeBit raw encodedIndex bitIndex digit =
     (let conceptualBit = encodedIndex * 5 + bitIndex in
      if conceptualBit < 2 then digit
      else
        let rawBit = conceptualBit - 2;
            b = drop_bit (7 - rawBit mod 8) (raw ! (rawBit div 8)) AND 1 in
        digit OR push_bit (4 - bitIndex) b)"

definition encodeDigit :: "byte list \<Rightarrow> nat \<Rightarrow> byte" where
  "encodeDigit raw encodedIndex = fold (encodeBit raw encodedIndex) [0..<5] 0"

definition encodePayload :: "byte list \<Rightarrow> string" where
  "encodePayload raw = map (\<lambda>i. crockfordAlphabet ! unat (encodeDigit raw i)) [0..<payloadLength]"

definition decodeBit :: "nat \<Rightarrow> byte \<Rightarrow> nat \<Rightarrow> byte list \<Rightarrow> byte list" where
  "decodeBit encodedIndex digit bitIndex raw =
     (let conceptualBit = encodedIndex * 5 + bitIndex in
      if conceptualBit < 2 then raw
      else
        let rawBit = conceptualBit - 2;
            b = drop_bit (4 - bitIndex) digit AND 1 in
        raw[rawBit div 8 := raw ! (rawBit div 8) OR push_bit (7 - rawBit mod 8) b])"

fun decodeLoop :: "nat \<Rightarrow> string \<Rightarrow> byte list \<Rightarrow> id_error + byte list" where
  "decodeLoop encodedIndex [] raw = Inr raw"
| "decodeLoop encodedIndex (c # cs) raw =
     (case crockfordValue c of
        None \<Rightarrow> Inl ErrInvalidID
      | Some digit \<Rightarrow>
          if encodedIndex = 0 \<and> 7 < digit then Inl ErrInvalidID
          else decodeLoop (Suc encodedIndex) cs (fold (decodeBit encodedIndex digit) [0..<5] raw))"

definition decodePayload :: "string \<Rightarrow> id_error + byte list" where
  "decodePayload encoded =
     (if length encoded \<noteq> payloadLength then Inl ErrInvalidID else decodeLoop 0 encoded (replicate 16 0))"

text \<open>\<open>strings.Cut(value, "_")\<close>.\<close>

fun cutUnderscore :: "string \<Rightarrow> (string \<times> string) option" where
  "cutUnderscore [] = None"
| "cutUnderscore (c # cs) =
     (if c = CHR ''_'' then Some ([], cs)
      else map_option (\<lambda>(before, after). (c # before, after)) (cutUnderscore cs))"

definition timestampOf :: "byte list \<Rightarrow> 64 word" where
  "timestampOf raw =
     push_bit 40 (ucast (raw ! 0)) OR push_bit 32 (ucast (raw ! 1)) OR push_bit 24 (ucast (raw ! 2)) OR
     push_bit 16 (ucast (raw ! 3)) OR push_bit 8 (ucast (raw ! 4)) OR ucast (raw ! 5)"

definition unixMilliTime :: "int \<Rightarrow> gotime" where
  "unixMilliTime ms = timeUnix (ms div 1000) (ms mod 1000 * 1000000)"

record parsed_id =
  parsed_prefix :: string
  parsed_timestamp :: gotime

definition parse_id :: "string \<Rightarrow> id_error + parsed_id" where
  "parse_id value =
     (case cutUnderscore value of
        None \<Rightarrow> Inl ErrInvalidID
      | Some (prefix, payload) \<Rightarrow>
          if CHR ''_'' \<in> set payload then Inl ErrInvalidID
          else if \<not> validatePrefix prefix then Inl ErrInvalidID
          else if length payload \<noteq> payloadLength then Inl ErrInvalidID
          else if \<not> list_all isCrockford payload then Inl ErrInvalidID
          else case decodePayload payload of
              Inl _ \<Rightarrow> Inl ErrInvalidID
            | Inr raw \<Rightarrow>
                if encodePayload raw \<noteq> payload then Inl ErrInvalidID
                else Inr \<lparr>parsed_prefix = prefix, parsed_timestamp = unixMilliTime (uint (timestampOf raw))\<rparr>)"

definition validate_id :: "string \<Rightarrow> string \<Rightarrow> id_error + unit" where
  "validate_id value expected =
     (if \<not> validatePrefix expected then Inl ErrInvalidPrefix
      else case parse_id value of
          Inl e \<Rightarrow> Inl e
        | Inr p \<Rightarrow> if parsed_prefix p \<noteq> expected then Inl ErrInvalidID else Inr ())"

text \<open>\<open>increment\<close> adds one to a big-endian number in place: the new bytes, and whether it did
  not wrap around.\<close>

fun incrementRev :: "byte list \<Rightarrow> byte list \<times> bool" where
  "incrementRev [] = ([], False)"
| "incrementRev (b # bs) =
     (if b + 1 \<noteq> 0 then ((b + 1) # bs, True)
      else let (bs', ok) = incrementRev bs in ((b + 1) # bs', ok))"

definition increment :: "byte list \<Rightarrow> byte list \<times> bool" where
  "increment value = (let (r, ok) = incrementRev (rev value) in (rev r, ok))"

record id_generator =
  gen_initialized :: bool
  gen_lastMillis :: "64 word"
  gen_entropy :: "byte list"

text \<open>The outcome of \<open>io.ReadFull(g.random, g.entropy[:])\<close>: ten bytes, or an error after the
  bytes that were read before it.\<close>

datatype entropy_read = ReadFull "byte list" | ReadFailed "byte list"

definition unixMilli :: "gotime \<Rightarrow> int" where
  "unixMilli t = add64 (mul64 (unixOf t) 1000) (gt_nsec t div 1000000)"

definition payloadBytes :: "64 word \<Rightarrow> byte list \<Rightarrow> byte list" where
  "payloadBytes lastMillis entropy =
     [ucast (drop_bit 40 lastMillis), ucast (drop_bit 32 lastMillis), ucast (drop_bit 24 lastMillis),
      ucast (drop_bit 16 lastMillis), ucast (drop_bit 8 lastMillis), ucast lastMillis] @ entropy"

definition newID ::
  "id_generator \<Rightarrow> string \<Rightarrow> gotime \<Rightarrow> entropy_read \<Rightarrow> (id_error + string) \<times> id_generator" where
  "newID g prefix now random =
     (if \<not> validatePrefix prefix then (Inl ErrInvalidPrefix, g)
      else
        let millis = unixMilli now in
        if millis < 0 \<or> maxTimestamp < millis then (Inl ErrTimestampOutOfRange, g)
        else
          let observed = word_of_int millis;
              finish = (\<lambda>g. (Inr (prefix @ ''_'' @ encodePayload (payloadBytes (gen_lastMillis g) (gen_entropy g))), g)) in
          if \<not> gen_initialized g \<or> gen_lastMillis g < observed then
            (case random of
               ReadFailed bytes \<Rightarrow>
                 (Inl ErrEntropyRead, g\<lparr>gen_entropy := bytes @ drop (length bytes) (gen_entropy g)\<rparr>)
             | ReadFull bytes \<Rightarrow>
                 finish (g\<lparr>gen_entropy := bytes, gen_lastMillis := observed, gen_initialized := True\<rparr>))
          else
            let (entropy, ok) = increment (gen_entropy g); g' = g\<lparr>gen_entropy := entropy\<rparr> in
            if \<not> ok then (Inl ErrEntropyExhausted, g') else finish g')"

section \<open>Bit strings\<close>

definition bval :: "bool list \<Rightarrow> int" where
  "bval bs = foldl (\<lambda>v b. 2 * v + of_bool b) 0 bs"

lemma bval_Nil [simp]: "bval [] = 0"
  by (simp add: bval_def)

lemma bval_snoc [simp]: "bval (bs @ [b]) = 2 * bval bs + of_bool b"
  by (simp add: bval_def)

lemma bval_bounds: "0 \<le> bval bs \<and> bval bs < 2 ^ length bs"
  by (induction bs rule: rev_induct) auto

lemma bval_Cons: "bval (b # bs) = of_bool b * 2 ^ length bs + bval bs"
proof (induction bs rule: rev_induct)
  case Nil
  then show ?case by (simp add: bval_def)
next
  case (snoc c bs)
  have "bval (b # bs @ [c]) = 2 * bval (b # bs) + of_bool c" using bval_snoc [of "b # bs" c] by simp
  then show ?case using snoc by simp
qed

lemma bval_less_iff: "length as = length bs \<Longrightarrow> as < bs \<longleftrightarrow> bval as < bval bs"
proof (induction as bs rule: list_induct2)
  case (Cons a as b bs)
  then show ?case using bval_bounds [of as] bval_bounds [of bs] by (cases a; cases b) (auto simp: bval_Cons)
qed simp

lemma bval_rev: "bval (rev bs) = horner_sum of_bool 2 bs"
  by (induction bs) simp_all

definition byteBits :: "byte \<Rightarrow> bool list" where
  "byteBits w = map (\<lambda>j. bit w (7 - j)) [0..<8]"

definition digitBits :: "byte \<Rightarrow> bool list" where
  "digitBits d = map (\<lambda>j. bit d (4 - j)) [0..<5]"

definition payloadBits :: "byte list \<Rightarrow> bool list" where
  "payloadBits raw = [False, False] @ concat (map byteBits raw)"

lemma upt_bits: "[0..<5] = [0, 1, 2, 3, 4 :: nat]" "[0..<8] = [0, 1, 2, 3, 4, 5, 6, 7 :: nat]"
  by (simp_all add: upt_rec)

lemma byteBits_rev: "byteBits w = rev (map (bit (uint w)) [0..<8])"
  by (simp add: byteBits_def upt_bits bit_uint_iff)

lemma digitBits_rev: "digitBits w = rev (map (bit (uint w)) [0..<5])"
  by (simp add: digitBits_def upt_bits bit_uint_iff)

lemma bval_byteBits: "bval (byteBits w) = uint w"
  unfolding byteBits_rev bval_rev horner_sum_bit_eq_take_bit
  using uint_bounded [of w] by (simp add: take_bit_int_eq_self_iff)

lemma bval_digitBits: "w < 32 \<Longrightarrow> bval (digitBits w) = uint w"
  unfolding digitBits_rev bval_rev horner_sum_bit_eq_take_bit
  by (simp add: take_bit_int_eq_self_iff word_less_def)

lemma length_bits [simp]: "length (byteBits w) = 8" "length (digitBits w) = 5"
  by (simp_all add: byteBits_def digitBits_def)

lemma byteBits_less: "byteBits a < byteBits b \<longleftrightarrow> a < b"
  by (simp add: bval_less_iff bval_byteBits word_less_def)

lemma digitBits_less: "a < 32 \<Longrightarrow> b < 32 \<Longrightarrow> digitBits a < digitBits b \<longleftrightarrow> a < b"
  by (simp add: bval_less_iff bval_digitBits word_less_def)

text \<open>Lexicographic order of lists of blocks of equal length.\<close>

lemma append_less_iff:
  fixes a b x y :: "'a :: linorder list"
  shows "length a = length b \<Longrightarrow> a @ x < b @ y \<longleftrightarrow> a < b \<or> a = b \<and> x < y"
  by (induction a b rule: list_induct2) auto

lemma concat_less_iff:
  fixes f :: "'a :: linorder \<Rightarrow> 'b :: linorder list"
  assumes "length xs = length ys" "\<And>x. length (f x) = k"
    and "\<And>x y. x \<in> S \<Longrightarrow> y \<in> S \<Longrightarrow> f x < f y \<longleftrightarrow> x < y" "set xs \<subseteq> S" "set ys \<subseteq> S"
  shows "concat (map f xs) < concat (map f ys) \<longleftrightarrow> xs < ys"
  using assms(1,4,5)
proof (induction xs ys rule: list_induct2)
  case (Cons x xs y ys)
  have "f x < f y \<longleftrightarrow> x < y" "f y < f x \<longleftrightarrow> y < x" using Cons.prems assms(3) by simp_all
  then show ?case
    using Cons append_less_iff [of "f x" "f y" "concat (map f xs)" "concat (map f ys)"] assms(2)
    by (cases x y rule: linorder_cases) auto
qed simp

lemma nth_concat_blocks:
  assumes "\<And>x. length (f x) = k" "i < k * length xs"
  shows "concat (map f xs) ! i = f (xs ! (i div k)) ! (i mod k)"
  using assms(2)
proof (induction xs arbitrary: i)
  case (Cons x xs)
  show ?case
  proof (cases "i < k")
    case True
    then show ?thesis by (simp add: nth_append assms(1))
  next
    case False
    then have "0 < k" "k \<le> i" using Cons.prems by (cases "k = 0", auto)
    then have "i div k = Suc ((i - k) div k)" "i mod k = (i - k) mod k"
      by (simp_all add: le_div_geq le_mod_geq)
    then show ?thesis using False Cons by (simp add: nth_append assms(1))
  qed
qed simp

lemma length_concat_blocks: "(\<And>x. length (f x) = k) \<Longrightarrow> length (concat (map f xs)) = k * length xs"
  by (induction xs) simp_all

section \<open>The encoding\<close>

lemma length_payloadBits: "length (payloadBits raw) = 2 + 8 * length raw"
  by (simp add: payloadBits_def length_concat_blocks [where k = 8])

lemma payloadBits_nth:
  assumes "length raw = 16" "c < 130"
  shows "payloadBits raw ! c \<longleftrightarrow> 2 \<le> c \<and> bit (raw ! ((c - 2) div 8)) (7 - (c - 2) mod 8)"
proof -
  have "c = 0 \<or> c = 1 \<or> 2 \<le> c" by linarith
  then show ?thesis
    using assms nth_concat_blocks [of byteBits 8 "c - 2" raw]
    by (auto simp: payloadBits_def nth_append byteBits_def numeral_2_eq_2)
qed

lemma encodeBit_bit:
  assumes "length raw = 16" "i < 26" "b < 5" "j < 8"
  shows "bit (encodeBit raw i b d) j \<longleftrightarrow> bit d j \<or> j = 4 - b \<and> payloadBits raw ! (5 * i + b)"
proof -
  have "5 * i + b < 130" using assms by simp
  from payloadBits_nth [OF assms(1) this] show ?thesis
    using assms(3,4)
    by (auto simp: encodeBit_def Let_def bit_simps mult.commute not_less)
qed

lemma encodeDigit_bit:
  assumes "length raw = 16" "i < 26"
  shows "bit (encodeDigit raw i) j \<longleftrightarrow> j < 5 \<and> payloadBits raw ! (5 * i + (4 - j))"
proof (cases "j < 8")
  case True
  have "j = 0 \<or> j = 1 \<or> j = 2 \<or> j = 3 \<or> j = 4 \<or> 5 \<le> j" by linarith
  then show ?thesis
    using True by (auto simp: encodeDigit_def upt_bits encodeBit_bit [OF assms])
next
  case False
  then show ?thesis using bit_imp_le_length [of "encodeDigit raw i" j] by auto
qed

lemma uint_lessI_bits:
  fixes w :: byte
  assumes "\<And>j. bit w j \<Longrightarrow> j < k"
  shows "uint w < 2 ^ k"
proof -
  have "take_bit k w = w" by (rule bit_eqI) (auto simp: bit_simps dest: assms)
  then have "take_bit k (uint w) = uint w" by (metis unsigned_take_bit_eq)
  then show ?thesis using take_bit_int_less_exp [of k "uint w"] by simp
qed

lemma encodeDigit_less: "length raw = 16 \<Longrightarrow> i < 26 \<Longrightarrow> encodeDigit raw i < 32"
  using uint_lessI_bits [of "encodeDigit raw i" 5] by (auto simp: encodeDigit_bit word_less_def)

lemma encodeDigit_first: "length raw = 16 \<Longrightarrow> encodeDigit raw 0 \<le> 7"
proof -
  assume r: "length raw = 16"
  have "bit (encodeDigit raw 0) j \<Longrightarrow> j < 3" for j
    using r by (auto simp: encodeDigit_bit payloadBits_nth)
  then have "uint (encodeDigit raw 0) < 2 ^ 3" by (rule uint_lessI_bits)
  then show ?thesis by (simp add: word_le_def)
qed

definition payloadDigits :: "byte list \<Rightarrow> byte list" where
  "payloadDigits raw = map (encodeDigit raw) [0..<26]"

lemma payloadDigits_bits:
  assumes "length raw = 16"
  shows "concat (map digitBits (payloadDigits raw)) = payloadBits raw"
proof (rule nth_equalityI)
  show "length (concat (map digitBits (payloadDigits raw))) = length (payloadBits raw)"
    using assms by (simp add: length_concat_blocks [where k = 5] length_payloadBits payloadDigits_def)
  fix c assume "c < length (concat (map digitBits (payloadDigits raw)))"
  then have c: "c < 130" by (simp add: length_concat_blocks [where k = 5] payloadDigits_def)
  have "c div 5 < 26" "c mod 5 < 5" "5 * (c div 5) + c mod 5 = c" "4 - c mod 5 < 5" using c by auto
  then show "concat (map digitBits (payloadDigits raw)) ! c = payloadBits raw ! c"
    using nth_concat_blocks [of digitBits 5 c "payloadDigits raw"] c assms
    by (simp add: payloadDigits_def digitBits_def encodeDigit_bit)
qed

lemma payloadDigits_less:
  assumes "length raw = 16" "length raw' = 16"
  shows "payloadDigits raw < payloadDigits raw' \<longleftrightarrow> raw < raw'"
proof -
  have "set (payloadDigits r) \<subseteq> {d. d < 32}" if "length r = 16" for r
    using that encodeDigit_less by (auto simp: payloadDigits_def)
  then have "payloadDigits raw < payloadDigits raw' \<longleftrightarrow> payloadBits raw < payloadBits raw'"
    using assms concat_less_iff [of "payloadDigits raw" "payloadDigits raw'" digitBits 5 "{d. d < 32}"]
    by (simp add: payloadDigits_bits digitBits_less) (simp add: payloadDigits_def)
  also have "\<dots> \<longleftrightarrow> raw < raw'"
    using assms concat_less_iff [of raw raw' byteBits 8 UNIV] by (simp add: payloadBits_def byteBits_less)
  finally show ?thesis .
qed

lemma crockford_less:
  assumes "i < 32" "j < 32"
  shows "crockfordAlphabet ! i < crockfordAlphabet ! j \<longleftrightarrow> i < j"
proof -
  have s: "sorted_wrt (<) crockfordAlphabet" "length crockfordAlphabet = 32" by code_simp+
  have "crockfordAlphabet ! a < crockfordAlphabet ! b" if "a < b" "b < 32" for a b
    using s that sorted_wrt_nth_less by metis
  then show ?thesis using assms by (cases i j rule: linorder_cases) (auto dest: less_asym)
qed

lemma map_less_iff:
  fixes f :: "'a :: linorder \<Rightarrow> 'b :: linorder"
  assumes "length xs = length ys" "\<And>x y. x \<in> S \<Longrightarrow> y \<in> S \<Longrightarrow> f x < f y \<longleftrightarrow> x < y" "set xs \<subseteq> S" "set ys \<subseteq> S"
  shows "map f xs < map f ys \<longleftrightarrow> xs < ys"
  using concat_less_iff [of xs ys "\<lambda>x. [f x]" 1 S] assms by (simp add: concat_map_singleton)

lemma encodePayload_digits: "encodePayload raw = map (\<lambda>d. crockfordAlphabet ! unat d) (payloadDigits raw)"
  by (simp add: encodePayload_def payloadDigits_def)

lemma length_encodePayload [simp]: "length (encodePayload raw) = 26"
  by (simp add: encodePayload_def)

lemma encodePayload_less:
  assumes "length raw = 16" "length raw' = 16"
  shows "encodePayload raw < encodePayload raw' \<longleftrightarrow> raw < raw'"
proof -
  have S: "set (payloadDigits r) \<subseteq> {d. d < 32}" if "length r = 16" for r
    using that encodeDigit_less by (auto simp: payloadDigits_def)
  have m: "(\<lambda>d. crockfordAlphabet ! unat d) x < (\<lambda>d. crockfordAlphabet ! unat d) y \<longleftrightarrow> x < y"
    if "x < 32" "y < 32" for x y :: byte
    using that crockford_less [of "unat x" "unat y"] by (simp add: word_less_nat_alt)
  show ?thesis
    unfolding encodePayload_digits
    using map_less_iff [of "payloadDigits raw" "payloadDigits raw'" "{d. d < 32}" "\<lambda>d. crockfordAlphabet ! unat d"]
      S assms m payloadDigits_less [OF assms] by (simp add: payloadDigits_def)
qed

lemma encodePayload_inject:
  assumes "length raw = 16" "length raw' = 16"
  shows "encodePayload raw = encodePayload raw' \<longleftrightarrow> raw = raw'"
  using encodePayload_less [OF assms] encodePayload_less [OF assms(2,1)] by (cases raw raw' rule: linorder_cases) auto

section \<open>Decoding\<close>

lemma crockfordValue_alphabet:
  assumes "d < 32"
  shows "crockfordValue (crockfordAlphabet ! unat d) = Some d"
proof -
  have l: "length crockfordAlphabet = 32" by code_simp
  have n: "unat d < 32" using assms by (simp add: word_less_nat_alt)
  have "crockfordAlphabet ! i = crockfordAlphabet ! unat d \<longleftrightarrow> i = unat d" if "i < 32" for i
    using crockford_less [OF that n] crockford_less [OF n that] by (cases i "unat d" rule: linorder_cases) auto
  then have "List.find (\<lambda>i. crockfordAlphabet ! i = crockfordAlphabet ! unat d) [0..<32] = Some (unat d)"
    using n by (auto simp: find_Some_iff)
  then show ?thesis by (simp add: crockfordValue_def l)
qed

definition decoded :: "bool list \<Rightarrow> nat \<Rightarrow> byte list \<Rightarrow> bool" where
  "decoded B n raw \<longleftrightarrow> length raw = 16 \<and>
     (\<forall>k<16. \<forall>m<8. bit (raw ! k) m \<longleftrightarrow> 8 * k + (7 - m) + 2 < n \<and> B ! (8 * k + (7 - m) + 2))"

lemma byte_index:
  "m < 8 \<Longrightarrow> (8 * k + 7 - m) div 8 = k" "m < 8 \<Longrightarrow> 7 - (8 * k + 7 - m) mod 8 = m" for m k :: nat
proof -
  assume m: "m < 8"
  then have e: "8 * k + 7 - m = (7 - m) + k * 8" and l: "7 - m < 8" by linarith+
  show "(8 * k + 7 - m) div 8 = k" unfolding e using l by simp
  show "7 - (8 * k + 7 - m) mod 8 = m" unfolding e mod_mult_self1 mod_less [OF l] using m by simp
qed

lemma decodeBit_decoded:
  assumes "decoded B (5 * i + b) raw" "b < 5" "i < 26" "bit d (4 - b) \<longleftrightarrow> B ! (5 * i + b)"
  shows "decoded B (5 * i + Suc b) (decodeBit i d b raw)"
proof (cases "5 * i + b < 2")
  case True
  then show ?thesis using assms(1) by (auto simp: decodeBit_def decoded_def mult.commute)
next
  case False
  define r where "r = 5 * i + b - 2"
  have r: "5 * i + b = r + 2" "r < 128" using False assms(2,3) by (simp_all add: r_def)
  have rk: "r div 8 < 16" "r mod 8 < 8" "8 * (r div 8) + r mod 8 = r" using r(2) by auto
  have e: "decodeBit i d b raw = raw[r div 8 := raw ! (r div 8) OR push_bit (7 - r mod 8) (drop_bit (4 - b) d AND 1)]"
    using False r by (simp add: decodeBit_def Let_def mult.commute)
  have len: "length raw = 16" using assms(1) by (simp add: decoded_def)
  have old: "bit (raw ! k) m \<longleftrightarrow> 8 * k + (7 - m) + 2 < r + 2 \<and> B ! (8 * k + (7 - m) + 2)" if "k < 16" "m < 8" for k m
    using assms(1) that r(1) by (simp add: decoded_def)
  have "bit (decodeBit i d b raw ! k) m \<longleftrightarrow> 8 * k + (7 - m) + 2 < Suc (r + 2) \<and> B ! (8 * k + (7 - m) + 2)"
    if km: "k < 16" "m < 8" for k m
  proof (cases "8 * k + (7 - m) = r")
    case True
    then have "k = r div 8" "m = 7 - r mod 8" using byte_index [OF km(2), of k] by simp_all
    then show ?thesis
      using e len rk old [OF km] assms(4) r(1) km True by (simp add: bit_simps)
  next
    case ne: False
    have "bit (decodeBit i d b raw ! k) m \<longleftrightarrow> bit (raw ! k) m"
    proof (cases "k = r div 8")
      case True
      then have "m \<noteq> 7 - r mod 8" using ne km rk by auto
      then show ?thesis using True e len rk km by (auto simp: bit_simps)
    next
      case False
      then show ?thesis using e by simp
    qed
    then show ?thesis using old [OF km] ne by (simp add: less_Suc_eq)
  qed
  then show ?thesis using e len r(1) by (simp add: decoded_def)
qed

lemma decodeDigit_decoded:
  assumes "decoded B (5 * i) raw" "i < 26" "\<And>b. b < 5 \<Longrightarrow> bit d (4 - b) \<longleftrightarrow> B ! (5 * i + b)"
  shows "decoded B (5 * Suc i) (fold (decodeBit i d) [0..<5] raw)"
proof -
  have "b \<le> 5 \<Longrightarrow> decoded B (5 * i + b) (fold (decodeBit i d) [0..<b] raw)" for b
  proof (induction b)
    case (Suc b)
    then show ?case using decodeBit_decoded [of B i b _ d] assms(2,3) by simp
  qed (use assms(1) in simp)
  from this [of 5] show ?thesis by (simp add: add.commute)
qed

lemma decodeLoop_decoded:
  assumes "length r = 16"
  shows "i \<le> 26 \<Longrightarrow> decoded (payloadBits r) (5 * i) raw \<Longrightarrow>
    \<exists>raw'. decodeLoop i (drop i (encodePayload r)) raw = Inr raw' \<and> decoded (payloadBits r) 130 raw'"
proof (induction "26 - i" arbitrary: i raw)
  case 0
  then show ?case by simp
next
  case (Suc n)
  then have i: "i < 26" by simp
  have d: "encodeDigit r i < 32" using encodeDigit_less assms i by simp
  have e: "drop i (encodePayload r) = crockfordAlphabet ! unat (encodeDigit r i) # drop (Suc i) (encodePayload r)"
    using i Cons_nth_drop_Suc [of i "encodePayload r"] by (simp add: encodePayload_def)
  have f: "\<not> (i = 0 \<and> 7 < encodeDigit r i)" using encodeDigit_first [OF assms] by auto
  have "decoded (payloadBits r) (5 * Suc i) (fold (decodeBit i (encodeDigit r i)) [0..<5] raw)"
    using Suc.prems i assms by (intro decodeDigit_decoded) (auto simp: encodeDigit_bit)
  moreover have "n = 26 - Suc i" "Suc i \<le> 26" using Suc i by auto
  ultimately show ?case using Suc.hyps(1) [of "Suc i"] by (simp add: e crockfordValue_alphabet [OF d] f)
qed

lemma decode_encode:
  assumes "length raw = 16"
  shows "decodePayload (encodePayload raw) = Inr raw"
proof -
  have "decoded (payloadBits raw) (5 * 0) (replicate 16 0)" by (simp add: decoded_def)
  from decodeLoop_decoded [OF assms _ this] obtain raw' where
    d: "decodeLoop 0 (encodePayload raw) (replicate 16 0) = Inr raw'" and r: "decoded (payloadBits raw) 130 raw'" by auto
  have "raw' = raw"
  proof (rule nth_equalityI)
    show "length raw' = length raw" using r assms by (simp add: decoded_def)
    fix k assume "k < length raw'"
    then have k: "k < 16" using r by (simp add: decoded_def)
    show "raw' ! k = raw ! k"
    proof (rule bit_word_eqI)
      fix m assume m: "m < LENGTH(8)"
      have "8 * k + (7 - m) + 2 < 130" using k by simp
      then show "bit (raw' ! k) m = bit (raw ! k) m"
        using r k m assms byte_index [of m k] by (simp add: decoded_def payloadBits_nth)
    qed
  qed
  then show ?thesis using d by (simp add: decodePayload_def)
qed

lemma encodePayload_crockford:
  assumes "length raw = 16"
  shows "list_all isCrockford (encodePayload raw)" "CHR ''_'' \<notin> set (encodePayload raw)"
proof -
  have c: "crockfordValue (crockfordAlphabet ! unat (encodeDigit raw i)) \<noteq> None" if "i < 26" for i
    using crockfordValue_alphabet encodeDigit_less [OF assms that] by simp
  then show l: "list_all isCrockford (encodePayload raw)"
    by (auto simp: list_all_iff encodePayload_def isCrockford_def)
  have "crockfordValue CHR ''_'' = None" by code_simp
  then show "CHR ''_'' \<notin> set (encodePayload raw)" using l by (auto simp: list_all_iff isCrockford_def)
qed

section \<open>Parsing what was generated\<close>

lemma validatePrefix_chars: "validatePrefix p \<Longrightarrow> CHR ''_'' \<notin> set p"
proof -
  assume "validatePrefix p"
  then have "is_lower (p ! i) \<or> is_digit (p ! i)" if "i < length p" for i
    using that by (auto simp: validatePrefix_def list_all_iff)
  moreover have "\<not> is_lower CHR ''_''" "\<not> is_digit CHR ''_''" by code_simp+
  ultimately show ?thesis by (metis in_set_conv_nth)
qed

lemma cutUnderscore_append: "CHR ''_'' \<notin> set p \<Longrightarrow> cutUnderscore (p @ CHR ''_'' # s) = Some (p, s)"
  by (induction p) auto

lemma cutUnderscore_Some: "cutUnderscore v = Some (p, s) \<Longrightarrow> v = p @ CHR ''_'' # s \<and> CHR ''_'' \<notin> set p"
  by (induction v arbitrary: p) (auto split: if_splits)

lemma length_payloadBytes: "length entropy = 10 \<Longrightarrow> length (payloadBytes ms entropy) = 16"
  by (simp add: payloadBytes_def)

lemma timestampOf_payloadBytes:
  assumes "uint ms \<le> maxTimestamp"
  shows "timestampOf (payloadBytes ms entropy) = ms"
proof (rule bit_word_eqI)
  fix n assume "n < LENGTH(64)"
  have "uint ms < 2 ^ 48" using assms by simp
  then have "take_bit 48 (uint ms) = uint ms" by (simp add: take_bit_int_eq_self_iff)
  then have "take_bit 48 ms = ms" by (metis unsigned_take_bit_eq unsigned_word_eqI)
  then have "bit ms n \<Longrightarrow> n < 48" by (metis bit_take_bit_iff)
  moreover have "n < 8 \<or> 8 \<le> n \<and> n < 16 \<or> 16 \<le> n \<and> n < 24 \<or> 24 \<le> n \<and> n < 32 \<or> 32 \<le> n \<and> n < 40 \<or>
      40 \<le> n \<and> n < 48 \<or> 48 \<le> n" by linarith
  ultimately show "bit (timestampOf (payloadBytes ms entropy)) n = bit ms n"
    unfolding timestampOf_def payloadBytes_def
    by (elim disjE conjE) (simp_all add: bit_simps less_diff_conv2, blast)
qed

lemma parse_id_generated:
  assumes "validatePrefix prefix" "length entropy = 10" "uint ms \<le> maxTimestamp"
  shows "parse_id (prefix @ ''_'' @ encodePayload (payloadBytes ms entropy)) =
    Inr \<lparr>parsed_prefix = prefix, parsed_timestamp = unixMilliTime (uint ms)\<rparr>"
  using assms(1) validatePrefix_chars [OF assms(1)] encodePayload_crockford [OF length_payloadBytes [OF assms(2)]]
    decode_encode [OF length_payloadBytes [OF assms(2)]]
  by (simp add: parse_id_def cutUnderscore_append timestampOf_payloadBytes [OF assms(3)])

section \<open>The generator\<close>

lemma incrementRev_length: "length (fst (incrementRev bs)) = length bs"
  by (induction bs) (auto simp: Let_def split: prod.splits)

lemma increment_length: "length (fst (increment bs)) = length bs"
  using incrementRev_length [of "rev bs"] by (cases "incrementRev (rev bs)") (simp add: increment_def)

lemma incrementRev_Nil_iff [simp]: "fst (incrementRev bs) = [] \<longleftrightarrow> bs = []"
  using incrementRev_length [of bs] by (cases bs) auto

lemma incrementRev_less:
  "incrementRev bs = (bs', True) \<Longrightarrow> rev bs < rev bs'"
proof (induction bs arbitrary: bs')
  case (Cons b bs)
  show ?case
  proof (cases "b + 1 = 0")
    case True
    then obtain cs where cs: "incrementRev bs = (cs, True)" "bs' = 0 # cs"
      using Cons.prems by (auto simp: Let_def split: prod.splits if_splits)
    have "length (rev bs) = length (rev cs)" using incrementRev_length [of bs] cs(1) by simp
    then show ?thesis using Cons.IH [OF cs(1)] cs(2) append_less_iff [of "rev bs" "rev cs" "[b]" "[0]"] by simp
  next
    case False
    then have "unat (b + 1) = Suc (unat b)" by (metis unatSuc add.commute)
    then have "b < b + 1" by (simp add: word_less_nat_alt)
    then show ?thesis using False Cons.prems append_less_iff [of "rev bs" "rev bs" "[b]" "[b + 1]"] by auto
  qed
qed simp

lemma increment_less: "increment bs = (bs', True) \<Longrightarrow> bs < bs'"
  using incrementRev_less [of "rev bs"] by (auto simp: increment_def Let_def split: prod.splits)

definition gen_ok :: "id_generator \<Rightarrow> bool" where
  "gen_ok g \<longleftrightarrow> length (gen_entropy g) = 10 \<and> uint (gen_lastMillis g) \<le> maxTimestamp"

definition read_ok :: "entropy_read \<Rightarrow> bool" where
  "read_ok r = (case r of ReadFull bytes \<Rightarrow> length bytes = 10 | ReadFailed bytes \<Rightarrow> length bytes < 10)"

definition gen_payload :: "id_generator \<Rightarrow> byte list" where
  "gen_payload g = payloadBytes (gen_lastMillis g) (gen_entropy g)"

definition timeBytes :: "64 word \<Rightarrow> byte list" where
  "timeBytes m = map (\<lambda>k. ucast (drop_bit (40 - 8 * k) m)) [0..<6]"

lemma payloadBytes_split: "payloadBytes m e = timeBytes m @ e"
  by (simp add: payloadBytes_def timeBytes_def upt_rec)

lemma timeBytes_bits: "concat (map byteBits (timeBytes m)) = rev (map (bit m) [0..<48])"
proof (rule nth_equalityI)
  show "length (concat (map byteBits (timeBytes m))) = length (rev (map (bit m) [0..<48]))"
    by (simp add: length_concat_blocks [where k = 8] timeBytes_def)
  fix i assume "i < length (concat (map byteBits (timeBytes m)))"
  then have i: "i < 48" by (simp add: length_concat_blocks [where k = 8] timeBytes_def)
  have d: "i div 8 < 6" "i mod 8 < 8" "i = 8 * (i div 8) + i mod 8" using i by auto
  then have e: "40 - 8 * (i div 8) + (7 - i mod 8) = 47 - i" "7 - i mod 8 < 8" by linarith+
  have "concat (map byteBits (timeBytes m)) ! i = bit m (47 - i)"
    using nth_concat_blocks [of byteBits 8 i "timeBytes m"] i d(1,2) e
    by (simp add: timeBytes_def byteBits_def bit_simps)
  then show "concat (map byteBits (timeBytes m)) ! i = rev (map (bit m) [0..<48]) ! i"
    using i by (simp add: rev_nth)
qed

lemma timeBytes_less:
  assumes "uint m \<le> maxTimestamp" "uint m' \<le> maxTimestamp"
  shows "timeBytes m < timeBytes m' \<longleftrightarrow> m < m'"
proof -
  have b: "bval (concat (map byteBits (timeBytes m))) = uint m" if "uint m \<le> maxTimestamp" for m :: "64 word"
  proof -
    have "map (bit m) [0..<48] = map (bit (uint m)) [0..<48]" by (simp add: bit_uint_iff)
    then show ?thesis
      unfolding timeBytes_bits bval_rev using that
      by (simp only: horner_sum_bit_eq_take_bit) (simp add: take_bit_int_eq_self_iff)
  qed
  have "timeBytes m < timeBytes m' \<longleftrightarrow> concat (map byteBits (timeBytes m)) < concat (map byteBits (timeBytes m'))"
    using concat_less_iff [of "timeBytes m" "timeBytes m'" byteBits 8 UNIV]
    by (simp add: timeBytes_def byteBits_less)
  also have "\<dots> \<longleftrightarrow> uint m < uint m'"
  proof -
    have "length (concat (map byteBits (timeBytes m))) = length (concat (map byteBits (timeBytes m')))"
      by (simp add: timeBytes_bits)
    from bval_less_iff [OF this] show ?thesis using b [OF assms(1)] b [OF assms(2)] by simp
  qed
  finally show ?thesis by (simp add: word_less_def)
qed

lemma payloadBytes_less:
  assumes "uint m \<le> maxTimestamp" "uint m' \<le> maxTimestamp" "m < m' \<or> m = m' \<and> e < e'"
  shows "payloadBytes m e < payloadBytes m' e'"
  unfolding payloadBytes_split
  using append_less_iff [of "timeBytes m" "timeBytes m'" e e'] timeBytes_less [OF assms(1,2)] assms(3)
  by (auto simp: timeBytes_def)

lemma word_of_millis: "0 \<le> i \<Longrightarrow> i \<le> maxTimestamp \<Longrightarrow> uint (word_of_int i :: 64 word) = i"
  by (simp add: uint_word_of_int_eq take_bit_int_eq_self_iff)

text \<open>What one successful call does: the identifier is the prefix and the payload of the new
  state, and that payload is larger than the one before, unless it is the first.\<close>

lemma newID_step:
  assumes "newID g prefix now r = (Inr v, g')" "gen_ok g" "read_ok r"
  shows "v = prefix @ ''_'' @ encodePayload (gen_payload g') \<and> validatePrefix prefix \<and> gen_ok g' \<and>
    gen_initialized g' \<and> (gen_initialized g \<longrightarrow> gen_payload g < gen_payload g')"
proof -
  define ms where "ms = unixMilli now"
  define w :: "64 word" where "w = word_of_int ms"
  have p: "validatePrefix prefix" and m: "0 \<le> ms" "ms \<le> maxTimestamp"
    using assms(1) by (auto simp: newID_def Let_def ms_def split: if_splits)
  have w: "uint w = ms" unfolding w_def using m by (rule word_of_millis)
  show ?thesis
  proof (cases "\<not> gen_initialized g \<or> gen_lastMillis g < w")
    case True
    then obtain bytes where b: "r = ReadFull bytes"
      and e: "g' = g\<lparr>gen_entropy := bytes, gen_lastMillis := w, gen_initialized := True\<rparr>"
        "v = prefix @ ''_'' @ encodePayload (payloadBytes w bytes)"
      using assms(1) p m by (auto simp: newID_def Let_def w_def simp flip: ms_def split: entropy_read.splits if_splits)
    have "gen_initialized g \<Longrightarrow> payloadBytes (gen_lastMillis g) (gen_entropy g) < payloadBytes w bytes"
      using True assms(2) w m by (intro payloadBytes_less) (auto simp: gen_ok_def)
    then show ?thesis using e p b assms(3) w m by (auto simp: gen_payload_def gen_ok_def read_ok_def)
  next
    case False
    obtain es ok where inc: "increment (gen_entropy g) = (es, ok)" by (cases "increment (gen_entropy g)")
    have e: "ok" "g' = g\<lparr>gen_entropy := es\<rparr>" "v = prefix @ ''_'' @ encodePayload (payloadBytes (gen_lastMillis g) es)"
      using assms(1) p m False inc by (auto simp: newID_def Let_def w_def simp flip: ms_def split: if_splits)
    have "gen_entropy g < es" using increment_less inc e(1) by simp
    then have "payloadBytes (gen_lastMillis g) (gen_entropy g) < payloadBytes (gen_lastMillis g) es"
      using assms(2) by (intro payloadBytes_less) (auto simp: gen_ok_def)
    moreover have "length es = 10" using increment_length [of "gen_entropy g"] inc assms(2) by (simp add: gen_ok_def)
    ultimately show ?thesis using e p assms(2) False by (auto simp: gen_payload_def gen_ok_def)
  qed
qed

text \<open>A failed call that does not disturb the order of later identifiers: every failure but a
  failed read of entropy and the exhaustion of a millisecond.\<close>

lemma newID_rejected:
  assumes "newID g prefix now r = (Inl err, g')" "err \<noteq> ErrEntropyRead" "err \<noteq> ErrEntropyExhausted"
  shows "g' = g"
  using assms by (auto simp: newID_def Let_def split: if_splits prod.splits entropy_read.splits)

lemma newID_ok:
  assumes "gen_ok g" "read_ok r"
  shows "gen_ok (snd (newID g prefix now r))"
proof -
  obtain res g' where n: "newID g prefix now r = (res, g')" by (cases "newID g prefix now r")
  show ?thesis
  proof (cases res)
    case (Inr v)
    then show ?thesis using newID_step [of g prefix now r v g'] n assms by simp
  next
    case (Inl e)
    obtain es ok where inc: "increment (gen_entropy g) = (es, ok)" by (cases "increment (gen_entropy g)")
    then have "length es = length (gen_entropy g)" using increment_length [of "gen_entropy g"] by simp
    then show ?thesis
      using n Inl assms inc
      by (auto simp: newID_def Let_def gen_ok_def read_ok_def split: if_splits prod.splits entropy_read.splits)
  qed
qed

text \<open>A run of the generator: the calls in order, with the clock and the entropy of each.\<close>

fun newIDs :: "id_generator \<Rightarrow> string \<Rightarrow> (gotime \<times> entropy_read) list \<Rightarrow> (id_error + string) list" where
  "newIDs g prefix [] = []"
| "newIDs g prefix ((now, r) # calls) =
     (let (res, g') = newID g prefix now r in res # newIDs g' prefix calls)"

fun oks :: "('e + 'a) list \<Rightarrow> 'a list" where
  "oks [] = []"
| "oks (Inl e # rs) = oks rs"
| "oks (Inr x # rs) = x # oks rs"

lemma newIDs_above:
  assumes "gen_ok g" "gen_initialized g" "list_all (\<lambda>(now, r). read_ok r) calls"
    and "Inl ErrEntropyRead \<notin> set (newIDs g prefix calls)" "Inl ErrEntropyExhausted \<notin> set (newIDs g prefix calls)"
  shows "sorted_wrt (<) ((prefix @ ''_'' @ encodePayload (gen_payload g)) # oks (newIDs g prefix calls))"
  using assms
proof (induction calls arbitrary: g)
  case (Cons c calls)
  obtain now r where c: "c = (now, r)" by (cases c)
  obtain res g' where n: "newID g prefix now r = (res, g')" by (cases "newID g prefix now r")
  have r: "read_ok r" using Cons.prems c by simp
  have ok: "gen_ok g'" using newID_ok [OF Cons.prems(1) r, of prefix now] n by simp
  show ?case
  proof (cases res)
    case (Inl e)
    then have "g' = g" using newID_rejected n Cons.prems(4,5) c by auto
    then show ?thesis using Cons n c Inl by simp
  next
    case (Inr v)
    note st = newID_step [OF n [unfolded Inr] Cons.prems(1) r]
    have "length (gen_payload g) = 16" "length (gen_payload g') = 16"
      using Cons.prems(1) ok by (simp_all add: gen_payload_def gen_ok_def length_payloadBytes)
    then have "encodePayload (gen_payload g) < encodePayload (gen_payload g')"
      using st Cons.prems(2) by (simp add: encodePayload_less)
    then have "prefix @ ''_'' @ encodePayload (gen_payload g) < v"
      using st append_less_iff [of "prefix @ ''_''" "prefix @ ''_''"] by simp
    moreover have "sorted_wrt (<) (v # oks (newIDs g' prefix calls))"
      using Cons.IH [of g'] st ok Cons.prems(3-5) n c Inr by simp
    ultimately show ?thesis using n c Inr by (auto intro: less_trans)
  qed
qed simp

section \<open>Properties\<close>

text \<open>
  C26.  The identifiers a generator hands out under one prefix strictly increase in the
  byte order of their text, and are therefore distinct: across calls in one millisecond,
  across clock regressions and across refused calls, as long as no read of entropy fails
  and no millisecond runs out of entropy.
\<close>

theorem id_monotone:
  assumes "gen_ok g" "list_all (\<lambda>(now, r). read_ok r) calls"
    and "Inl ErrEntropyRead \<notin> set (newIDs g prefix calls)" "Inl ErrEntropyExhausted \<notin> set (newIDs g prefix calls)"
  shows "sorted_wrt (<) (oks (newIDs g prefix calls))"
  using assms
proof (induction calls arbitrary: g)
  case (Cons c calls)
  obtain now r where c: "c = (now, r)" by (cases c)
  obtain res g' where n: "newID g prefix now r = (res, g')" by (cases "newID g prefix now r")
  have r: "read_ok r" using Cons.prems c by simp
  have ok: "gen_ok g'" using newID_ok [OF Cons.prems(1) r, of prefix now] n by simp
  show ?case
  proof (cases res)
    case (Inl e)
    then show ?thesis using Cons n c ok by simp
  next
    case (Inr v)
    note st = newID_step [OF n [unfolded Inr] Cons.prems(1) r]
    then show ?thesis using newIDs_above [of g' calls prefix] ok Cons.prems n c Inr by simp
  qed
qed simp

definition ex_generator :: id_generator where
  "ex_generator = \<lparr>gen_initialized = False, gen_lastMillis = 0, gen_entropy = replicate 10 0\<rparr>"

definition ex_calls :: "(gotime \<times> entropy_read) list" where
  "ex_calls = [(timeUnix 1700000000 0, ReadFull [0, 0, 0, 0, 0, 0, 0, 0, 3, 255]),
     (timeUnix 1600000000 0, ReadFull (replicate 10 7))]"

theorem id_monotone_witness:
  "sorted_wrt (<) (oks (newIDs ex_generator ''req'' ex_calls)) \<and>
   oks (newIDs ex_generator ''req'' ex_calls) =
     [''req_01HF7YAT0000000000000000ZZ'', ''req_01HF7YAT000000000000000100'']"
proof (rule conjI)
  show "sorted_wrt (<) (oks (newIDs ex_generator ''req'' ex_calls))"
    by (rule id_monotone) code_simp+
qed code_simp

text \<open>
  C27.  Generated identifiers are canonical: whatever the generator returns for a prefix
  parses back to that prefix and to the millisecond the generator used, and passes
  validation for that prefix.
\<close>

theorem id_roundtrip:
  assumes "newID g prefix now r = (Inr v, g')" "gen_ok g" "read_ok r"
  shows "parse_id v = Inr \<lparr>parsed_prefix = prefix, parsed_timestamp = unixMilliTime (uint (gen_lastMillis g'))\<rparr> \<and>
    validate_id v prefix = Inr ()"
proof -
  note st = newID_step [OF assms]
  have "parse_id v = Inr \<lparr>parsed_prefix = prefix, parsed_timestamp = unixMilliTime (uint (gen_lastMillis g'))\<rparr>"
    using st parse_id_generated [of prefix "gen_entropy g'" "gen_lastMillis g'"] by (simp add: gen_payload_def gen_ok_def)
  then show ?thesis using st by (simp add: validate_id_def)
qed

theorem id_roundtrip_witness:
  "parse_id ''req_01HF7YAT0000000000000000ZZ'' =
     Inr \<lparr>parsed_prefix = ''req'', parsed_timestamp = unixMilliTime (uint (1700000000000 :: 64 word))\<rparr> \<and>
   validate_id ''req_01HF7YAT0000000000000000ZZ'' ''req'' = Inr ()"
proof -
  have "newID ex_generator ''req'' (timeUnix 1700000000 0) (ReadFull [0, 0, 0, 0, 0, 0, 0, 0, 3, 255]) =
      (Inr ''req_01HF7YAT0000000000000000ZZ'',
       \<lparr>gen_initialized = True, gen_lastMillis = 1700000000000, gen_entropy = [0, 0, 0, 0, 0, 0, 0, 0, 3, 255]\<rparr>)"
    by code_simp
  moreover have "gen_ok ex_generator" "read_ok (ReadFull [0, 0, 0, 0, 0, 0, 0, 0, 3, 255])" by code_simp+
  ultimately show ?thesis using id_roundtrip by fastforce
qed

end
