(* ===== verification/Framework_Compat.thy ===== *)
theory Framework_Compat
  imports Go_Text
begin

text \<open>
  The bounded projection of the framework registry
  (\<open>src/internal/frameworkcompat/registry.go\<close>): known identifiers, their owning SDK, and the
  acceptance of one SemVer 2.0.0 version.
\<close>

definition framework_ids :: "string list" where
  "framework_ids =
     [''android-okhttp'', ''foundation-models'', ''langchain-js'', ''macpaw-openai'', ''openai-js'',
      ''react-native-fetch'', ''swift-openai'', ''vercel-ai-sdk'']"

definition framework_Known :: "string \<Rightarrow> bool" where
  "framework_Known framework \<longleftrightarrow> framework \<in> set framework_ids"

definition framework_Compatible :: "string \<Rightarrow> string \<Rightarrow> bool" where
  "framework_Compatible sdk framework =
     (if sdk = ''ios'' then framework \<in> set [''foundation-models'', ''macpaw-openai'', ''swift-openai'']
      else if sdk = ''android'' then framework = ''android-okhttp''
      else if sdk = ''javascript'' then framework \<in> set [''langchain-js'', ''openai-js'', ''vercel-ai-sdk'']
      else if sdk = ''react-native'' then framework = ''react-native-fetch''
      else False)"

text \<open>The scan of one identifier: whether every byte is allowed, and whether all are digits.\<close>

fun scanIdentifier :: "string \<Rightarrow> bool \<Rightarrow> bool option" where
  "scanIdentifier [] numeric = Some numeric"
| "scanIdentifier (character # rest) numeric =
     (if is_digit character then scanIdentifier rest numeric
      else if \<not> is_upper character \<and> \<not> is_lower character \<and> character \<noteq> CHR ''-'' then None
      else scanIdentifier rest False)"

definition validIdentifier :: "bool \<Rightarrow> string \<Rightarrow> bool" where
  "validIdentifier rejectNumericLeadingZero identifier =
     (if identifier = [] then False
      else case scanIdentifier identifier True of
        None \<Rightarrow> False
      | Some numeric \<Rightarrow>
          \<not> (rejectNumericLeadingZero \<and> numeric \<and> 1 < length identifier \<and> hd identifier = CHR ''0''))"

definition validIdentifiers :: "string \<Rightarrow> bool \<Rightarrow> bool" where
  "validIdentifiers value rejectNumericLeadingZero =
     (value \<noteq> [] \<and> list_all (validIdentifier rejectNumericLeadingZero) (splitAt (CHR ''.'') value))"

definition validNumericIdentifier :: "string \<Rightarrow> bool" where
  "validNumericIdentifier value =
     (\<not> (value = [] \<or> 1 < length value \<and> hd value = CHR ''0'') \<and> list_all is_digit value)"

definition ValidVersion :: "string \<Rightarrow> bool" where
  "ValidVersion value =
     (if value = [] \<or> 128 < length value then False
      else let (version, build, hasBuild) = cutAt (CHR ''+'') value in
        if hasBuild \<and> \<not> validIdentifiers build False then False
        else let (core, prerelease, hasPrerelease) = cutAt (CHR ''-'') version in
          if hasPrerelease \<and> \<not> validIdentifiers prerelease True then False
          else let parts = splitAt (CHR ''.'') core in
            if length parts \<noteq> 3 then False else list_all validNumericIdentifier parts)"

lemma Compatible_Known: "framework_Compatible sdk framework \<Longrightarrow> framework_Known framework"
  by (auto simp: framework_Compatible_def framework_Known_def framework_ids_def split: if_splits)

end
