(* ===== verification/Quota_Request.thy ===== *)
theory Quota_Request
  imports Quota_Rules Ident Framework_Compat
begin

text \<open>
  One quota request (\<open>src/internal/quota/model.go\<close>, the decision stages of \<open>lifecycle.go\<close> and the
  input breakdown of \<open>src/internal/protocol/input_accounting_breakdown.go\<close>): the trusted
  measurements it carries, its validation, and the fingerprint that binds every retry of it to
  the same decision.  A Go pointer that may be \<open>nil\<close> is an option; copying a value behind a
  pointer is the identity.  A \<open>[32]byte\<close> is a byte list; only its values matter.
\<close>

section \<open>Field patterns\<close>

definition ascii_alnum :: "char \<Rightarrow> bool" where
  "ascii_alnum c \<longleftrightarrow> is_upper c \<or> is_lower c \<or> is_digit c"

definition clientRequestPattern :: "string \<Rightarrow> bool" where
  "clientRequestPattern s =
     (case s of
        [] \<Rightarrow> False
      | c # cs \<Rightarrow> ascii_alnum c \<and>
          list_all (\<lambda>c. ascii_alnum c \<or> c = CHR ''.'' \<or> c = CHR ''_'' \<or> c = CHR '':'' \<or> c = CHR ''-'') cs)"

definition failureCodePattern :: "string \<Rightarrow> bool" where
  "failureCodePattern s \<longleftrightarrow> head_tail_match is_lower claim_name_rest 0 99 s"

definition allowedProtocolValues :: "string list" where
  "allowedProtocolValues =
     [''openai_responses'', ''openai_chat'', ''openai_embeddings'', ''anthropic_messages'', ''opaque_http'']"

definition validPhysicalModel :: "string \<Rightarrow> bool" where
  "validPhysicalModel value =
     (if length value = 0 \<or> 256 < length value then False
      else case utf8_decode value of
        None \<Rightarrow> False
      | Some runes \<Rightarrow> trimmedRunes runes \<and> \<not> list_ex rune_IsControl runes)"

definition validClientRequestID :: "string \<Rightarrow> bool" where
  "validClientRequestID value \<longleftrightarrow>
     \<not> (value \<noteq> [] \<and> (length value < 8 \<or> 128 < length value \<or> \<not> clientRequestPattern value))"

definition validID :: "string \<Rightarrow> string \<Rightarrow> bool" where
  "validID value prefix \<longleftrightarrow> is_ok (validate_id value prefix)"

definition validComponentAttribution :: "string \<Rightarrow> string \<Rightarrow> string \<Rightarrow> string \<Rightarrow> string \<Rightarrow> bool" where
  "validComponentAttribution familyID componentID definitionID kind trustSource =
     (if \<not> (familyID \<noteq> [] \<or> componentID \<noteq> [] \<or> definitionID \<noteq> [] \<or> kind \<noteq> [] \<or> trustSource \<noteq> []) then True
      else validID familyID ''fam'' \<and> validID componentID ''cmp'' \<and> identifierPattern definitionID \<and>
           identifierPattern kind \<and> identifierPattern trustSource)"

definition validFrameworkAttribution :: "string \<Rightarrow> string \<Rightarrow> bool" where
  "validFrameworkAttribution framework version =
     (if framework = [] \<or> version = [] then framework = [] \<and> version = []
      else if 64 < length framework \<or> 128 < length version \<or> \<not> framework_Known framework \<or> \<not> is_lower (hd framework)
      then False
      else if \<not> list_all (\<lambda>c. is_lower c \<or> is_digit c \<or> c = CHR ''-'') framework then False
      else ValidVersion version)"

definition validCallerSDK :: "string \<Rightarrow> bool" where
  "validCallerSDK value \<longleftrightarrow> value \<in> set [[], ''ios'', ''android'', ''react-native'', ''javascript'']"

section \<open>Trusted bindings\<close>

record inputAccountingBreakdown =
  br_Version :: int
  br_RewrittenRequestBytes :: int
  br_FramingUnitCount :: int
  br_MaximumFramingTokensPerRequest :: int
  br_MaximumFramingTokensPerUnit :: int
  br_ExpandedSchemaBytes :: int

text \<open>The loop that adds the components with an overflow check.\<close>

fun addBounded :: "int \<Rightarrow> int list \<Rightarrow> int option" where
  "addBounded bound [] = Some bound"
| "addBounded bound (component # rest) =
     (if bound > sub64 max_int64 component then None else addBounded (add64 bound component) rest)"

definition breakdownValidate :: "inputAccountingBreakdown \<Rightarrow> int \<Rightarrow> string \<Rightarrow> bool" where
  "breakdownValidate value inputBound protocolID \<longleftrightarrow>
     (if protocolID = ''openai_embeddings'' \<or> protocolID = ''anthropic_messages'' then br_ExpandedSchemaBytes value = 0
      else protocolID = ''openai_chat'' \<or> protocolID = ''openai_responses'') \<and>
     (if br_Version value \<noteq> 1 \<or> br_RewrittenRequestBytes value \<le> 0 \<or> br_RewrittenRequestBytes value > 104857600 \<or>
         br_FramingUnitCount value \<le> 0 \<or> br_FramingUnitCount value > 4096 \<or>
         br_ExpandedSchemaBytes value < 0 \<or> br_ExpandedSchemaBytes value > 4 * 1024 * 1024 \<or>
         br_MaximumFramingTokensPerRequest value < 0 \<or> br_MaximumFramingTokensPerUnit value < 0 \<or>
         br_MaximumFramingTokensPerUnit value > quot64 max_int64 (br_FramingUnitCount value)
      then False
      else case addBounded (br_RewrittenRequestBytes value)
          [br_MaximumFramingTokensPerRequest value,
           mul64 (br_FramingUnitCount value) (br_MaximumFramingTokensPerUnit value), br_ExpandedSchemaBytes value] of
        None \<Rightarrow> False
      | Some bound \<Rightarrow> inputBound = bound)"

record inputPreflightBinding =
  pf_Method :: string
  pf_Protocol :: string
  pf_ProfileID :: string
  pf_ProfileDigest :: "word8 list"
  pf_RewrittenBodySHA256 :: "word8 list"
  pf_PhysicalModel :: string
  pf_InputTokenBound :: int
  pf_OutputTokenBound :: int
  pf_TotalTokenBound :: int
  pf_Breakdown :: "inputAccountingBreakdown option"

record requestMeasurementBinding =
  rm_Protocol :: string
  rm_RewrittenBodySHA256 :: "word8 list"
  rm_RequestBytes :: int
  rm_ImageUnits :: int
  rm_ToolCalls :: int
  rm_ImageUnitsKnown :: bool
  rm_ToolCallsKnown :: bool

definition zeroDigest :: "word8 list" where
  "zeroDigest = replicate 32 0"

definition UTF8ByteBPEDeclaredFramingV1 :: string where
  "UTF8ByteBPEDeclaredFramingV1 = ''utf8_byte_bpe_declared_framing_v1''"

definition trustedInputProtocolUsesOutput :: "string \<Rightarrow> bool \<times> bool" where
  "trustedInputProtocolUsesOutput protocol =
     (if protocol \<in> set [''openai_responses'', ''openai_chat'', ''anthropic_messages''] then (True, True)
      else if protocol = ''openai_embeddings'' then (False, True)
      else (False, False))"

definition validInputPreflightBinding :: "inputPreflightBinding \<Rightarrow> string \<Rightarrow> string \<Rightarrow> bool" where
  "validInputPreflightBinding b requestProtocol physicalModel =
     (let (usesOutput, supportedProtocol) = trustedInputProtocolUsesOutput (pf_Protocol b);
          validOutput = (if usesOutput then pf_OutputTokenBound b > 0 else pf_OutputTokenBound b = 0)
      in supportedProtocol \<and> pf_Method b = UTF8ByteBPEDeclaredFramingV1 \<and>
         pf_Protocol b = requestProtocol \<and> identifierPattern (pf_ProfileID b) \<and>
         pf_ProfileDigest b \<noteq> zeroDigest \<and> pf_RewrittenBodySHA256 b \<noteq> zeroDigest \<and>
         validPhysicalModel (pf_PhysicalModel b) \<and> pf_PhysicalModel b = physicalModel \<and>
         pf_InputTokenBound b > 0 \<and> validOutput \<and>
         pf_InputTokenBound b \<le> sub64 max_int64 (pf_OutputTokenBound b) \<and>
         pf_TotalTokenBound b = add64 (pf_InputTokenBound b) (pf_OutputTokenBound b) \<and>
         (case pf_Breakdown b of
            None \<Rightarrow> True
          | Some breakdown \<Rightarrow> breakdownValidate breakdown (pf_InputTokenBound b) (pf_Protocol b)))"

definition validRequestMeasurementBinding :: "requestMeasurementBinding \<Rightarrow> string \<Rightarrow> bool" where
  "validRequestMeasurementBinding b requestProtocol =
     (let structuredProtocol =
            rm_Protocol b \<in> set [''openai_responses'', ''openai_chat'', ''openai_embeddings'', ''anthropic_messages'']
      in rm_Protocol b = requestProtocol \<and> rm_Protocol b \<in> set allowedProtocolValues \<and>
         rm_RewrittenBodySHA256 b \<noteq> zeroDigest \<and> rm_RequestBytes b \<ge> 0 \<and> rm_RequestBytes b \<le> 104857600 \<and>
         rm_ImageUnits b \<ge> 0 \<and> rm_ImageUnits b \<le> 1000000 \<and> rm_ToolCalls b \<ge> 0 \<and> rm_ToolCalls b \<le> 1000000 \<and>
         (rm_ImageUnitsKnown b \<or> rm_ImageUnits b = 0) \<and> (rm_ToolCallsKnown b \<or> rm_ToolCalls b = 0) \<and>
         (\<not> rm_ImageUnitsKnown b \<and> \<not> rm_ToolCallsKnown b \<or> structuredProtocol))"

text \<open>The measured or bounded units that a rule of a metric must reserve; \<open>None\<close> for other metrics.\<close>

definition measuredUnits :: "requestMeasurementBinding \<Rightarrow> string \<Rightarrow> int option" where
  "measuredUnits b metric =
     (if metric = RequestBytesMetric then Some (rm_RequestBytes b)
      else if metric = ImageUnitsMetric then Some (rm_ImageUnits b)
      else if metric = ToolCallsMetric then Some (rm_ToolCalls b)
      else None)"

definition preflightUnits :: "inputPreflightBinding \<Rightarrow> string \<Rightarrow> int option" where
  "preflightUnits b metric =
     (if metric = InputTokensMetric then Some (pf_InputTokenBound b)
      else if metric = OutputTokensMetric then Some (pf_OutputTokenBound b)
      else if metric = TotalTokensMetric then Some (pf_TotalTokenBound b)
      else None)"

definition unitsAgree :: "(string \<Rightarrow> int option) \<Rightarrow> preparedRule \<Rightarrow> bool" where
  "unitsAgree expected rule =
     (case expected (rule_Metric rule) of None \<Rightarrow> True | Some units \<Rightarrow> rule_ReservedUnits rule = units)"

definition prepareRequestMeasurements ::
  "requestMeasurementBinding option \<Rightarrow> string \<Rightarrow> preparedRule list \<Rightarrow> quota_error + requestMeasurementBinding option" where
  "prepareRequestMeasurements inp requestProtocol rules =
     (let requiresBytes = list_ex (\<lambda>rule. rule_Metric rule = RequestBytesMetric) rules;
          requiresImages = list_ex (\<lambda>rule. rule_Metric rule = ImageUnitsMetric) rules;
          requiresTools = list_ex (\<lambda>rule. rule_Metric rule = ToolCallsMetric) rules
      in
      if \<not> requiresBytes \<and> \<not> requiresImages \<and> \<not> requiresTools then
        (if inp \<noteq> None then Inl ErrInvalidInput else Inr None)
      else case inp of
        None \<Rightarrow> Inl ErrInvalidInput
      | Some b \<Rightarrow>
          if \<not> validRequestMeasurementBinding b requestProtocol \<or>
             requiresImages \<and> \<not> rm_ImageUnitsKnown b \<or> requiresTools \<and> \<not> rm_ToolCallsKnown b
          then Inl ErrInvalidInput
          else if \<not> list_all (unitsAgree (measuredUnits b)) rules then Inl ErrInvalidInput
          else Inr (Some b))"

definition prepareInputPreflight ::
  "inputPreflightBinding option \<Rightarrow> string \<Rightarrow> string \<Rightarrow> preparedRule list \<Rightarrow> quota_error + inputPreflightBinding option" where
  "prepareInputPreflight inp protocol physicalModel rules =
     (let requiresBinding =
            list_ex (\<lambda>rule. rule_Metric rule = InputTokensMetric \<or> rule_Metric rule = TotalTokensMetric) rules
      in case inp of
        None \<Rightarrow> if requiresBinding then Inl ErrInvalidInput else Inr None
      | Some b \<Rightarrow>
          if \<not> validInputPreflightBinding b protocol physicalModel then Inl ErrInvalidInput
          else if \<not> list_all (unitsAgree (preflightUnits b)) rules then Inl ErrInvalidInput
          else Inr (Some b))"

section \<open>Decision stages\<close>

record DecisionStage =
  ds_Stage :: string
  ds_Outcome :: string
  ds_FailureCode :: string
  ds_StartedAt :: gotime
  ds_CompletedAt :: gotime
  ds_PolicyRuleKey :: string
  ds_LimitPlanKey :: string
  ds_LimitRuleKey :: string
  ds_LimitMetric :: string
  ds_LimitAlgorithm :: string
  ds_LimitMaximum :: int
  ds_HasLimitMaximum :: bool
  ds_RouteKey :: string
  ds_UpstreamKey :: string
  ds_ModelKey :: string
  ds_PhysicalModel :: string

definition allowedDecisionStages :: "string list" where
  "allowedDecisionStages =
     [''identity_verified'', ''client_trust_verified'', ''client_context_validated'', ''configuration_loaded'',
      ''request_inspected'', ''policy_evaluated'', ''route_selected'', ''quota_rule_evaluated'', ''quota_reserved'',
      ''lifecycle_recovered'']"

definition allowedDecisionOutcomes :: "string list" where
  "allowedDecisionOutcomes = [''succeeded'', ''denied'', ''failed'', ''cancelled'']"

definition decisionMetricPattern :: "string \<Rightarrow> bool" where
  "decisionMetricPattern s \<longleftrightarrow> head_tail_match is_lower claim_name_rest 0 63 s"

definition prepareDecisionStage :: "DecisionStage \<Rightarrow> quota_error + DecisionStage" where
  "prepareDecisionStage stage =
     (if ds_Stage stage \<notin> set allowedDecisionStages \<or> ds_Outcome stage \<notin> set allowedDecisionOutcomes \<or>
         isZero (ds_StartedAt stage) \<or> isZero (ds_CompletedAt stage) \<or>
         ds_CompletedAt stage < ds_StartedAt stage \<or>
         (ds_Outcome stage = ''succeeded'') \<noteq> (ds_FailureCode stage = []) \<or>
         ds_FailureCode stage \<noteq> [] \<and> \<not> failureCodePattern (ds_FailureCode stage)
      then Inl ErrInvalidInput
      else if ds_PolicyRuleKey stage \<noteq> [] \<and> \<not> identifierPattern (ds_PolicyRuleKey stage) \<and>
              \<not> digestPattern (ds_PolicyRuleKey stage) \<or>
              ds_PolicyRuleKey stage \<noteq> [] \<and> ds_Stage stage \<noteq> ''policy_evaluated'' \<or>
              ds_LimitPlanKey stage \<noteq> [] \<and>
                (\<not> identifierPattern (ds_LimitPlanKey stage) \<or>
                 ds_Stage stage \<notin> set [''policy_evaluated'', ''route_selected'', ''quota_rule_evaluated'', ''quota_reserved''])
      then Inl ErrInvalidInput
      else let limitPresent = ds_LimitRuleKey stage \<noteq> [] \<or> ds_LimitMetric stage \<noteq> [] \<or>
                 ds_LimitAlgorithm stage \<noteq> [] \<or> ds_HasLimitMaximum stage
      in if limitPresent \<and>
           (\<not> digestPattern (ds_LimitRuleKey stage) \<or> \<not> decisionMetricPattern (ds_LimitMetric stage) \<or>
            ds_LimitAlgorithm stage \<notin> set [CalendarAlgorithm, TokenBucketAlgorithm, PerRequestAlgorithm, ConcurrencyAlgorithm] \<or>
            \<not> ds_HasLimitMaximum stage \<or> ds_LimitMaximum stage < 0 \<or> ds_Stage stage \<noteq> ''quota_rule_evaluated'')
      then Inl ErrInvalidInput
      else let routePresent = ds_RouteKey stage \<noteq> [] \<or> ds_UpstreamKey stage \<noteq> [] \<or>
                 ds_ModelKey stage \<noteq> [] \<or> ds_PhysicalModel stage \<noteq> []
      in if routePresent \<and>
           (\<not> identifierPattern (ds_RouteKey stage) \<or> \<not> identifierPattern (ds_UpstreamKey stage) \<or>
            \<not> identifierPattern (ds_ModelKey stage) \<or> \<not> validPhysicalModel (ds_PhysicalModel stage) \<or>
            ds_Stage stage \<notin> set [''route_selected'', ''quota_reserved''])
      then Inl ErrInvalidInput
      else Inr stage)"

text \<open>The loop over the stages; only the last may have an outcome other than success, and only
  where a terminal stage is allowed.\<close>

fun prepareStageList :: "DecisionStage list \<Rightarrow> bool \<Rightarrow> quota_error + DecisionStage list" where
  "prepareStageList [] allowTerminal = Inr []"
| "prepareStageList (stage # rest) allowTerminal =
     andThen (prepareDecisionStage stage) (\<lambda>value.
       if ds_Outcome value \<noteq> ''succeeded'' \<and> (\<not> allowTerminal \<or> rest \<noteq> []) then Inl ErrInvalidInput
       else andThen (prepareStageList rest allowTerminal) (\<lambda>prepared. Inr (value # prepared)))"

definition prepareDecisionStages :: "DecisionStage list \<Rightarrow> bool \<Rightarrow> quota_error + DecisionStage list" where
  "prepareDecisionStages stages allowTerminal =
     (if 256 < length stages then Inl ErrInvalidInput else prepareStageList stages allowTerminal)"

section \<open>Requests\<close>

record pricingSelection =
  sel_CatalogID :: string
  sel_Currency :: string

record selectedPricing =
  sp_source :: string
  sp_currency :: string
  sp_revision :: string

record reserveInput =
  in_LogicalRequestID :: string
  in_OrganizationID :: string
  in_ApplicationID :: string
  in_EnvironmentID :: string
  in_ApplicationUserID :: string
  in_InstallationID :: string
  in_InstallationFamilyID :: string
  in_ClientComponentID :: string
  in_ComponentDefinitionID :: string
  in_ComponentKind :: string
  in_TrustSource :: string
  in_SessionGrantID :: string
  in_ConfigRevisionID :: string
  in_Platform :: string
  in_NormalizedClaimDigests :: "(string \<times> string) list"
  in_FeatureKey :: string
  in_Protocol :: string
  in_ClientRequestID :: string
  in_Framework :: string
  in_FrameworkVersion :: string
  in_CallerSDK :: string
  in_LimitPlanKey :: string
  in_RouteKey :: string
  in_UpstreamKey :: string
  in_ModelKey :: string
  in_PhysicalModel :: string
  in_Pricing :: pricingSelection
  in_InputPreflight :: "inputPreflightBinding option"
  in_RequestMeasurements :: "requestMeasurementBinding option"
  in_Streaming :: bool
  in_DecisionStages :: "DecisionStage list"
  in_Rules :: "quota_rule list"

record preparedRequest = reserveInput +
  prepared_rules :: "preparedRule list"

definition requestScopeValues :: "reserveInput \<Rightarrow> (string \<rightharpoonup> string)" where
  "requestScopeValues inp =
     [''organization'' \<mapsto> in_OrganizationID inp, ''application'' \<mapsto> in_ApplicationID inp,
      ''environment'' \<mapsto> in_EnvironmentID inp, ''user'' \<mapsto> in_ApplicationUserID inp,
      ''installation'' \<mapsto> in_InstallationID inp, ''installation_family'' \<mapsto> in_InstallationFamilyID inp,
      ''client_component'' \<mapsto> in_ClientComponentID inp, ''component_definition'' \<mapsto> in_ComponentDefinitionID inp,
      ''component_kind'' \<mapsto> in_ComponentKind inp, ''trust_source'' \<mapsto> in_TrustSource inp,
      ''feature'' \<mapsto> in_FeatureKey inp, ''route'' \<mapsto> in_RouteKey inp, ''upstream'' \<mapsto> in_UpstreamKey inp,
      ''model'' \<mapsto> in_ModelKey inp]"

text \<open>The identity, attribution, field and pricing checks that precede the rules.\<close>

definition requestFieldsOk :: "reserveInput \<Rightarrow> bool" where
  "requestFieldsOk inp =
     (if \<not> validID (in_LogicalRequestID inp) ''req'' \<or> \<not> validID (in_OrganizationID inp) ''org'' \<or>
         \<not> validID (in_ApplicationID inp) ''app'' \<or> \<not> validID (in_EnvironmentID inp) ''env'' \<or>
         \<not> validID (in_ApplicationUserID inp) ''usr'' \<or> \<not> validID (in_InstallationID inp) ''ins'' \<or>
         \<not> validID (in_SessionGrantID inp) ''sgr'' \<or> \<not> validID (in_ConfigRevisionID inp) ''rev''
      then False
      else if \<not> validComponentAttribution (in_InstallationFamilyID inp) (in_ClientComponentID inp)
                  (in_ComponentDefinitionID inp) (in_ComponentKind inp) (in_TrustSource inp) \<or>
              \<not> validFrameworkAttribution (in_Framework inp) (in_FrameworkVersion inp) \<or>
              \<not> validCallerSDK (in_CallerSDK inp)
      then False
      else if \<not> list_all identifierPattern
                  [in_FeatureKey inp, in_LimitPlanKey inp, in_RouteKey inp, in_UpstreamKey inp, in_ModelKey inp]
      then False
      else if in_Protocol inp \<notin> set allowedProtocolValues \<or> \<not> validPhysicalModel (in_PhysicalModel inp) \<or>
              \<not> validClientRequestID (in_ClientRequestID inp) \<or>
              length (in_Rules inp) < 1 \<or> 128 < length (in_Rules inp)
      then False
      else if sel_CatalogID (in_Pricing inp) = [] \<and> sel_Currency (in_Pricing inp) = [] then True
      else identifierPattern (sel_CatalogID (in_Pricing inp)) \<and> sel_Currency (in_Pricing inp) = ''USD'')"

definition bodiesAgree :: "inputPreflightBinding option \<Rightarrow> requestMeasurementBinding option \<Rightarrow> bool" where
  "bodiesAgree preflight measurements =
     (case (preflight, measurements) of
        (Some p, Some m) \<Rightarrow> pf_RewrittenBodySHA256 p = rm_RewrittenBodySHA256 m
      | _ \<Rightarrow> True)"

definition preparedRequestOf ::
  "reserveInput \<Rightarrow> preparedRule list \<Rightarrow> inputPreflightBinding option \<Rightarrow> requestMeasurementBinding option
     \<Rightarrow> DecisionStage list \<Rightarrow> preparedRequest" where
  "preparedRequestOf inp rules preflight measurements stages =
     reserveInput.extend
       (inp\<lparr>in_InputPreflight := preflight, in_RequestMeasurements := measurements, in_DecisionStages := stages,
            in_Rules := clonePreparedRules rules\<rparr>)
       (preparedRequest.fields rules)"

definition prepareRequest :: "(string \<Rightarrow> location option) \<Rightarrow> reserveInput \<Rightarrow> quota_error + preparedRequest" where
  "prepareRequest LoadLocation inp =
     (if \<not> requestFieldsOk inp then Inl ErrInvalidInput
      else
        andThen (quotaScopeValues (requestScopeValues inp) (in_Platform inp) (in_NormalizedClaimDigests inp)) (\<lambda>scope.
        andThen (prepareRules LoadLocation (in_Rules inp) scope reserveRulePreparation) (\<lambda>rules.
        if list_ex (\<lambda>rule. rule_Metric rule = CostNanoUSDMetric \<and> sel_CatalogID (in_Pricing inp) = []) rules
        then Inl ErrInvalidInput
        else
          andThen (prepareInputPreflight (in_InputPreflight inp) (in_Protocol inp) (in_PhysicalModel inp) rules) (\<lambda>preflight.
          case prepareRequestMeasurements (in_RequestMeasurements inp) (in_Protocol inp) rules of
            Inl _ \<Rightarrow> Inl ErrInvalidInput
          | Inr measurements \<Rightarrow>
              if \<not> bodiesAgree preflight measurements then Inl ErrInvalidInput
              else andThen (prepareDecisionStages (in_DecisionStages inp) False) (\<lambda>stages.
                Inr (preparedRequestOf inp rules preflight measurements stages))))))"

definition pricingForRequest :: "'a reserveInput_scheme \<Rightarrow> selectedPricing" where
  "pricingForRequest prepared =
     (if sel_CatalogID (in_Pricing prepared) = [] then \<lparr>sp_source = [], sp_currency = [], sp_revision = []\<rparr>
      else \<lparr>sp_source = sel_CatalogID (in_Pricing prepared), sp_currency = ''USD'',
            sp_revision = in_ConfigRevisionID prepared\<rparr>)"

definition pricingPresent :: "selectedPricing \<Rightarrow> bool" where
  "pricingPresent pricing \<longleftrightarrow> sp_source pricing \<noteq> [] \<or> sp_currency pricing \<noteq> [] \<or> sp_revision pricing \<noteq> []"

definition pricingValidate :: "selectedPricing \<Rightarrow> quota_error + unit" where
  "pricingValidate pricing =
     (if \<not> pricingPresent pricing then Inr ()
      else if \<not> identifierPattern (sp_source pricing) \<or> sp_currency pricing \<noteq> ''USD'' \<or> \<not> validID (sp_revision pricing) ''rev''
      then Inl ErrInvalidInput else Inr ())"

section \<open>Fingerprints\<close>

definition nulDomain :: "string \<Rightarrow> string" where
  "nulDomain s = s @ [CHR 0x00]"

definition requestDigestDomain :: string where
  "requestDigestDomain = nulDomain ''latchway/quota-request/v1''"

definition componentAttributionDomain :: string where
  "componentAttributionDomain = nulDomain ''latchway/quota-component-attribution/v1''"

definition frameworkAttributionDomain :: string where
  "frameworkAttributionDomain = nulDomain ''latchway/quota-framework-attribution/v1''"

definition inputPreflightBindingDomain :: string where
  "inputPreflightBindingDomain = nulDomain ''latchway/quota-input-preflight-binding/v2''"

definition requestMeasurementBindingDomain :: string where
  "requestMeasurementBindingDomain = nulDomain ''latchway/quota-request-measurement-binding/v1''"

definition reservationPricingBindingDomain :: string where
  "reservationPricingBindingDomain = nulDomain ''latchway/quota-reservation-pricing/v1''"

definition formatBool :: "bool \<Rightarrow> string" where
  "formatBool b = (if b then ''true'' else ''false'')"

definition identityFingerprint :: "'a reserveInput_scheme \<Rightarrow> string list" where
  "identityFingerprint r =
     [in_LogicalRequestID r, in_OrganizationID r, in_ApplicationID r, in_EnvironmentID r, in_ApplicationUserID r,
      in_InstallationID r, in_SessionGrantID r, in_ConfigRevisionID r, in_FeatureKey r, in_Protocol r,
      in_ClientRequestID r, in_LimitPlanKey r, in_RouteKey r, in_UpstreamKey r, in_ModelKey r, in_PhysicalModel r]"

definition attributionFingerprint :: "'a reserveInput_scheme \<Rightarrow> string list" where
  "attributionFingerprint r =
     (if in_InstallationFamilyID r \<noteq> [] then
        [componentAttributionDomain, in_InstallationFamilyID r, in_ClientComponentID r,
         in_ComponentDefinitionID r, in_ComponentKind r, in_TrustSource r] else []) @
     (if in_Framework r \<noteq> [] then [frameworkAttributionDomain, in_Framework r, in_FrameworkVersion r] else []) @
     (if in_CallerSDK r \<noteq> [] then [''latchway/caller-sdk/v1'', in_CallerSDK r] else [])"

definition ruleFingerprint :: "preparedRule \<Rightarrow> string list" where
  "ruleFingerprint rule =
     [ruleKey rule, scopeKey rule, formatInt (rule_Maximum rule)] @
     (if rule_CostRetryTreatment rule = InitialAttemptOnlyCostRetryTreatment
      then [''cost_retry_treatment'', rule_CostRetryTreatment rule] else []) @
     (if rule_Algorithm rule = TokenBucketAlgorithm
      then [formatInt (rule_Capacity rule), formatInt (rule_RefillNumerator rule), formatInt (rule_RefillDenominator rule)]
      else []) @
     (if rule_Metric rule = UpstreamAttemptsMetric \<or> rule_Metric rule = InputTokensMetric \<or>
         rule_Metric rule = OutputTokensMetric \<or> rule_Metric rule = TotalTokensMetric \<or>
         rule_Metric rule = CostNanoUSDMetric \<or> rule_Metric rule = RequestBytesMetric \<or>
         rule_Metric rule = ImageUnitsMetric \<or> rule_Metric rule = ToolCallsMetric
      then [formatInt (rule_PerRequestMaximum rule), formatInt (rule_ReservedUnits rule)] else [])"

definition preflightFingerprint :: "inputPreflightBinding option \<Rightarrow> string list" where
  "preflightFingerprint p =
     (case p of
        None \<Rightarrow> []
      | Some b \<Rightarrow>
          [inputPreflightBindingDomain, pf_Method b, pf_Protocol b, pf_ProfileID b, base64url (pf_ProfileDigest b),
           base64url (pf_RewrittenBodySHA256 b), pf_PhysicalModel b, formatInt (pf_InputTokenBound b),
           formatInt (pf_OutputTokenBound b), formatInt (pf_TotalTokenBound b)])"

definition measurementFingerprint :: "requestMeasurementBinding option \<Rightarrow> string list" where
  "measurementFingerprint m =
     (case m of
        None \<Rightarrow> []
      | Some b \<Rightarrow>
          [requestMeasurementBindingDomain, rm_Protocol b, base64url (rm_RewrittenBodySHA256 b),
           formatInt (rm_RequestBytes b), formatInt (rm_ImageUnits b), formatBool (rm_ImageUnitsKnown b),
           formatInt (rm_ToolCalls b), formatBool (rm_ToolCallsKnown b)])"

definition fingerprintParts :: "preparedRequest \<Rightarrow> string list" where
  "fingerprintParts r =
     identityFingerprint r @ attributionFingerprint r @
     concat (map ruleFingerprint (prepared_rules r)) @
     (if list_ex (\<lambda>rule. rule_Metric rule = ConcurrentStreamsMetric) (prepared_rules r)
      then [formatBool (in_Streaming r)] else []) @
     (if sel_CatalogID (in_Pricing r) \<noteq> [] then [sel_CatalogID (in_Pricing r)] else []) @
     preflightFingerprint (in_InputPreflight r) @ measurementFingerprint (in_RequestMeasurements r)"

definition requestFingerprint :: "preparedRequest \<Rightarrow> string" where
  "requestFingerprint prepared = canonicalDigest requestDigestDomain (fingerprintParts prepared)"

definition reservationIdempotencyKey :: "string \<Rightarrow> selectedPricing \<Rightarrow> bool \<Rightarrow> string" where
  "reservationIdempotencyKey fingerprint pricing bindHardCostPricing =
     (if \<not> bindHardCostPricing then fingerprint
      else canonicalDigest reservationPricingBindingDomain [fingerprint, sp_source pricing])"

definition hasHardCostReservation :: "preparedRule list \<Rightarrow> bool" where
  "hasHardCostReservation rules =
     list_ex (\<lambda>rule. rule_Metric rule = CostNanoUSDMetric \<and> rule_Algorithm rule = CalendarAlgorithm) rules"

section \<open>Lemmas: accepted requests\<close>

text \<open>The mutable terms of a rule, beside the identity that its keys carry.\<close>

definition ruleTerms :: "preparedRule \<Rightarrow> string \<times> string \<times> string \<times> int list" where
  "ruleTerms p =
     (ruleKey p, scopeKey p, rule_CostRetryTreatment p,
      [rule_Maximum p, rule_Capacity p, rule_RefillNumerator p, rule_RefillDenominator p,
       rule_PerRequestMaximum p, rule_ReservedUnits p])"

definition reservingMetric :: "string \<Rightarrow> bool" where
  "reservingMetric m \<longleftrightarrow>
     m = UpstreamAttemptsMetric \<or> m = InputTokensMetric \<or> m = OutputTokensMetric \<or> m = TotalTokensMetric \<or>
     m = CostNanoUSDMetric \<or> m = RequestBytesMetric \<or> m = ImageUnitsMetric \<or> m = ToolCallsMetric"

definition shape_wf :: "preparedRule \<Rightarrow> bool" where
  "shape_wf p \<longleftrightarrow>
     (rule_Algorithm p \<noteq> TokenBucketAlgorithm \<longrightarrow>
        rule_Capacity p = 0 \<and> rule_RefillNumerator p = 0 \<and> rule_RefillDenominator p = 0) \<and>
     (\<not> reservingMetric (rule_Metric p) \<longrightarrow> rule_PerRequestMaximum p = 0 \<and> rule_ReservedUnits p = 0) \<and>
     (if rule_Metric p = CostNanoUSDMetric
      then rule_CostRetryTreatment p \<in> {ActualAttemptsCostRetryTreatment, InitialAttemptOnlyCostRetryTreatment}
      else rule_CostRetryTreatment p = [])"

lemma ruleShape_bucket_fields:
  "ruleShape mode dims rule \<noteq> None \<Longrightarrow> rule_Algorithm rule \<noteq> TokenBucketAlgorithm \<Longrightarrow> noBucketFields rule"
  by (auto simp: ruleShape_def Let_def split: if_splits)

lemma ruleShape_reserving:
  "ruleShape mode dims rule \<noteq> None \<Longrightarrow> \<not> reservingMetric (rule_Metric rule) \<Longrightarrow>
   rule_PerRequestMaximum rule = 0 \<and> rule_ReservedUnits rule = 0"
  by (auto simp: ruleShape_def metric_class_defs reservingMetric_def Let_def split: if_splits)

lemma ruleShape_treatment:
  "ruleShape mode dims rule = Some (s, t) \<Longrightarrow> rule_Metric rule = CostNanoUSDMetric \<Longrightarrow>
   t \<in> {ActualAttemptsCostRetryTreatment, InitialAttemptOnlyCostRetryTreatment}"
  by (auto simp: ruleShape_def metric_class_defs Let_def split: if_splits)

lemma prepareRule_shape_wf:
  assumes "prepareRule LL values mode rule b = Inr (p, b')"
  shows "shape_wf p"
proof -
  obtain dims s t tz where d: "ruleShape mode dims rule = Some (s, t)"
    "rule_Metric rule \<noteq> CostNanoUSDMetric \<Longrightarrow> t = []"
    and p: "p = preparedRuleOf values dims t tz s rule"
    using assms unfolding prepareRule_def canonicalScopeDimensions_def
    by (auto split: option.splits if_splits sum.splits prod.splits)
  then show ?thesis
    using ruleShape_bucket_fields [of mode dims rule] ruleShape_reserving [of mode dims rule] ruleShape_treatment [OF d(1)]
    by (auto simp: shape_wf_def p preparedRuleOf_def noBucketFields_def)
qed

lemma prepareRules_shape_wf:
  assumes "prepareRules LL inp values mode = Inr out" "p \<in> set out"
  shows "shape_wf p"
proof -
  have "prepareRuleList LL values mode rules b = Inr (ps, b') \<Longrightarrow> p \<in> set ps \<Longrightarrow> shape_wf p" for rules b ps b'
    by (induction rules arbitrary: b ps b') (auto simp: go_result dest: prepareRule_shape_wf)
  then show ?thesis using assms by (auto simp: prepareRules_Inr)
qed

lemma prepareRequest_Inr:
  assumes "prepareRequest LL inp = Inr r"
  obtains scope rules preflight measurements stages where
    "requestFieldsOk inp"
    "quotaScopeValues (requestScopeValues inp) (in_Platform inp) (in_NormalizedClaimDigests inp) = Inr scope"
    "prepareRules LL (in_Rules inp) scope reserveRulePreparation = Inr rules"
    "\<not> list_ex (\<lambda>rule. rule_Metric rule = CostNanoUSDMetric \<and> sel_CatalogID (in_Pricing inp) = []) rules"
    "prepareInputPreflight (in_InputPreflight inp) (in_Protocol inp) (in_PhysicalModel inp) rules = Inr preflight"
    "prepareRequestMeasurements (in_RequestMeasurements inp) (in_Protocol inp) rules = Inr measurements"
    "bodiesAgree preflight measurements"
    "prepareDecisionStages (in_DecisionStages inp) False = Inr stages"
    "r = preparedRequestOf inp rules preflight measurements stages"
proof -
  have c: "(case x of Inl _ \<Rightarrow> Inl ErrInvalidInput | Inr m \<Rightarrow> f m) = Inr r \<longleftrightarrow> (\<exists>m. x = Inr m \<and> f m = Inr r)"
    for x :: "quota_error + requestMeasurementBinding option" and f
    by (cases x) auto
  show thesis
    using assms that unfolding prepareRequest_def by (auto simp: go_result c split: if_splits)
qed

lemma preparedRequestOf_fields [simp]:
  "prepared_rules (preparedRequestOf inp rules p m s) = rules"
  "in_InputPreflight (preparedRequestOf inp rules p m s) = p"
  "in_RequestMeasurements (preparedRequestOf inp rules p m s) = m"
  "in_DecisionStages (preparedRequestOf inp rules p m s) = s"
  "in_Rules (preparedRequestOf inp rules p m s) = clonePreparedRules rules"
  "in_Pricing (preparedRequestOf inp rules p m s) = in_Pricing inp"
  "in_Streaming (preparedRequestOf inp rules p m s) = in_Streaming inp"
  "identityFingerprint (preparedRequestOf inp rules p m s) = identityFingerprint inp"
  "attributionFingerprint (preparedRequestOf inp rules p m s) = attributionFingerprint inp"
  by (simp_all add: preparedRequestOf_def reserveInput.defs preparedRequest.defs identityFingerprint_def attributionFingerprint_def)

section \<open>Lemmas: what a fingerprint determines\<close>

text \<open>An optional block that starts with a marker which cannot start what follows.\<close>

lemma optional_block_inject:
  assumes "(if P then D # xs else []) @ t = (if Q then D # ys else []) @ u" "length xs = length ys"
    and "t = [] \<or> hd t \<noteq> D" "u = [] \<or> hd u \<noteq> D"
  shows "P = Q \<and> (P \<longrightarrow> xs = ys) \<and> t = u"
  using assms by (auto split: if_splits)

lemma formatInt_inject [simp]: "formatInt a = formatInt b \<longleftrightarrow> a = b"
proof -
  have "\<not> isDecimalDigit (CHR ''-'')" by code_simp
  then have h: "hd (formatNat n) \<noteq> CHR ''-''" for n
    using formatNat_digits [of n] by (cases "formatNat n") auto
  have "CHR ''-'' # formatNat m \<noteq> formatNat n" for m n using h [of n] by (metis list.sel(1))
  moreover have "formatNat n \<noteq> CHR ''-'' # formatNat m" for m n using h [of n] by (metis list.sel(1))
  ultimately show ?thesis by (auto simp: formatInt_def formatNat_inject)
qed

lemma formatInt_not_marker: "formatInt a \<noteq> ''cost_retry_treatment''"
proof -
  have "\<not> isDecimalDigit (CHR ''c'')" by code_simp
  then show ?thesis using formatNat_digits [of "nat a"] by (auto simp: formatInt_def)
qed

lemma formatBool_inject [simp]: "formatBool a = formatBool b \<longleftrightarrow> a = b"
  by (simp add: formatBool_def)

lemma digest_clean: "digestPattern s \<Longrightarrow> CHR 0x00 \<notin> set s \<and> CHR ''/'' \<notin> set s \<and> length s = 43"
proof -
  have "\<not> base64url_char (CHR 0x00)" "\<not> base64url_char (CHR ''/'')" by code_simp+
  then show "digestPattern s \<Longrightarrow> ?thesis" by (auto simp: digestPattern_def list_all_iff)
qed

lemma identifier_clean: "identifierPattern s \<Longrightarrow> CHR 0x00 \<notin> set s"
proof -
  have "\<not> is_lower (CHR 0x00)" "\<not> identifier_rest (CHR 0x00)" by code_simp+
  then show "identifierPattern s \<Longrightarrow> ?thesis"
    by (cases s) (auto simp: identifierPattern_def list_all_iff)
qed

lemma nulDomain_not_digest [simp]: "\<not> digestPattern (nulDomain s)"
  using digest_clean [of "nulDomain s"] by (auto simp: nulDomain_def)

lemmas fingerprint_domains =
  componentAttributionDomain_def frameworkAttributionDomain_def inputPreflightBindingDomain_def
  requestMeasurementBindingDomain_def

text \<open>What follows the rules never looks like two digests, the start of another rule.\<close>

definition no_rule_start :: "string list \<Rightarrow> bool" where
  "no_rule_start t = (case t of k # s # _ \<Rightarrow> \<not> (digestPattern k \<and> digestPattern s) | _ \<Rightarrow> True)"

definition fingerprintTail :: "preparedRequest \<Rightarrow> string list" where
  "fingerprintTail r =
     (if list_ex (\<lambda>rule. rule_Metric rule = ConcurrentStreamsMetric) (prepared_rules r)
      then [formatBool (in_Streaming r)] else []) @
     (if sel_CatalogID (in_Pricing r) \<noteq> [] then [sel_CatalogID (in_Pricing r)] else []) @
     preflightFingerprint (in_InputPreflight r) @ measurementFingerprint (in_RequestMeasurements r)"

lemma bindings_start:
  "preflightFingerprint p @ measurementFingerprint m = [] \<or>
   (\<exists>s rest. preflightFingerprint p @ measurementFingerprint m = nulDomain s # rest)"
  by (auto simp: preflightFingerprint_def measurementFingerprint_def fingerprint_domains split: option.splits)

lemma fingerprintTail_no_rule: "no_rule_start (fingerprintTail r)"
proof -
  have b: "\<not> digestPattern (formatBool x)" for x by (cases x) (simp_all add: formatBool_def digestPattern_def)
  show ?thesis
    using bindings_start [of "in_InputPreflight r" "in_RequestMeasurements r"] b
    by (auto simp: fingerprintTail_def no_rule_start_def split: list.splits)
qed

definition rules_separated :: "preparedRule \<Rightarrow> preparedRule \<Rightarrow> bool" where
  "rules_separated p q \<longleftrightarrow> (ruleKey p = ruleKey q \<longrightarrow> rule_Metric p = rule_Metric q \<and> rule_Algorithm p = rule_Algorithm q)"

lemma ruleFingerprint_inject:
  assumes "shape_wf p" "shape_wf q" "rules_separated p q" "ruleFingerprint p @ t = ruleFingerprint q @ u"
  shows "ruleTerms p = ruleTerms q \<and> t = u"
proof -
  have k: "ruleKey p = ruleKey q" "scopeKey p = scopeKey q" "rule_Maximum p = rule_Maximum q"
    using assms(4) by (simp_all add: ruleFingerprint_def)
  have m: "rule_Metric p = rule_Metric q" "rule_Algorithm p = rule_Algorithm q"
    using assms(3) k(1) by (simp_all add: rules_separated_def)
  have t: "rule_CostRetryTreatment p = rule_CostRetryTreatment q"
  proof (cases "rule_Metric p = CostNanoUSDMetric")
    case True
    show ?thesis
    proof (rule ccontr)
      assume ne: "rule_CostRetryTreatment p \<noteq> rule_CostRetryTreatment q"
      have "rule_CostRetryTreatment p = InitialAttemptOnlyCostRetryTreatment \<and> rule_CostRetryTreatment q \<noteq> InitialAttemptOnlyCostRetryTreatment \<or>
          rule_CostRetryTreatment q = InitialAttemptOnlyCostRetryTreatment \<and> rule_CostRetryTreatment p \<noteq> InitialAttemptOnlyCostRetryTreatment"
        using ne assms(1,2) True m by (auto simp: shape_wf_def)
      then show False
        using assms(4) True m formatInt_not_marker formatInt_not_marker [symmetric]
        by (auto simp: ruleFingerprint_def split: if_splits)
    qed
  next
    case False
    then show ?thesis using assms(1,2) m by (simp add: shape_wf_def)
  qed
  then show ?thesis
    using assms(1,2,4) k m by (auto simp: ruleFingerprint_def ruleTerms_def shape_wf_def reservingMetric_def split: if_splits)
qed

lemma ruleFingerprint_start:
  "ruleFingerprint p = ruleKey p # scopeKey p # drop 2 (ruleFingerprint p)"
  by (simp add: ruleFingerprint_def)

definition rule_keys_ok :: "preparedRule \<Rightarrow> bool" where
  "rule_keys_ok p \<longleftrightarrow> shape_wf p \<and> digestPattern (ruleKey p) \<and> digestPattern (scopeKey p)"

lemma rulesFingerprint_inject:
  assumes "list_all rule_keys_ok ps" "list_all rule_keys_ok qs" "\<forall>p\<in>set ps. \<forall>q\<in>set qs. rules_separated p q"
    and "no_rule_start t" "no_rule_start u"
    and "concat (map ruleFingerprint ps) @ t = concat (map ruleFingerprint qs) @ u"
  shows "map ruleTerms ps = map ruleTerms qs \<and> t = u"
  using assms
proof (induction ps arbitrary: qs)
  case Nil
  then show ?case
    using ruleFingerprint_start [of "hd qs"]
    by (cases qs) (auto simp: rule_keys_ok_def no_rule_start_def ruleFingerprint_def)
next
  case (Cons p ps)
  show ?case
  proof (cases qs)
    case Nil
    then show ?thesis using Cons.prems by (auto simp: rule_keys_ok_def no_rule_start_def ruleFingerprint_def)
  next
    case q: (Cons q qs')
    have e: "ruleFingerprint p @ (concat (map ruleFingerprint ps) @ t) = ruleFingerprint q @ (concat (map ruleFingerprint qs') @ u)"
      using Cons.prems(6) q by simp
    have "ruleTerms p = ruleTerms q \<and> concat (map ruleFingerprint ps) @ t = concat (map ruleFingerprint qs') @ u"
      by (rule ruleFingerprint_inject [OF _ _ _ e]) (use Cons.prems q in \<open>auto simp: rule_keys_ok_def\<close>)
    then show ?thesis using Cons.IH [of qs'] Cons.prems q by auto
  qed
qed

text \<open>What the Go types guarantee: a digest field has 32 bytes, and the bounds are \<open>int64\<close> values.\<close>

definition breakdown_typed :: "inputAccountingBreakdown \<Rightarrow> bool" where
  "breakdown_typed v \<longleftrightarrow> in64 (br_MaximumFramingTokensPerRequest v) \<and> in64 (br_MaximumFramingTokensPerUnit v)"

definition preflight_typed :: "inputPreflightBinding \<Rightarrow> bool" where
  "preflight_typed b \<longleftrightarrow>
     length (pf_ProfileDigest b) = 32 \<and> length (pf_RewrittenBodySHA256 b) = 32 \<and>
     in64 (pf_InputTokenBound b) \<and> in64 (pf_OutputTokenBound b) \<and>
     (case pf_Breakdown b of None \<Rightarrow> True | Some v \<Rightarrow> breakdown_typed v)"

definition bindings_typed :: "'a reserveInput_scheme \<Rightarrow> bool" where
  "bindings_typed r \<longleftrightarrow>
     (case in_InputPreflight r of None \<Rightarrow> True | Some b \<Rightarrow> preflight_typed b) \<and>
     (case in_RequestMeasurements r of None \<Rightarrow> True | Some b \<Rightarrow> length (rm_RewrittenBodySHA256 b) = 32)"

text \<open>The proof without its diagnostic breakdown, which the fingerprint does not cover.\<close>

definition provedBounds :: "inputPreflightBinding option \<Rightarrow> inputPreflightBinding option" where
  "provedBounds p = map_option (\<lambda>b. b\<lparr>pf_Breakdown := None\<rparr>) p"

lemma domains_distinct [simp]:
  "inputPreflightBindingDomain \<noteq> requestMeasurementBindingDomain"
  "requestMeasurementBindingDomain \<noteq> inputPreflightBindingDomain"
  "componentAttributionDomain \<noteq> frameworkAttributionDomain"
  "frameworkAttributionDomain \<noteq> componentAttributionDomain"
  "componentAttributionDomain \<noteq> ''latchway/caller-sdk/v1''"
  "frameworkAttributionDomain \<noteq> ''latchway/caller-sdk/v1''"
  "''latchway/caller-sdk/v1'' \<noteq> componentAttributionDomain"
  "''latchway/caller-sdk/v1'' \<noteq> frameworkAttributionDomain"
  by (simp_all add: fingerprint_domains nulDomain_def)

lemma bindings_inject:
  assumes "bindings_typed r" "bindings_typed r'"
    "preflightFingerprint (in_InputPreflight r) @ measurementFingerprint (in_RequestMeasurements r) =
     preflightFingerprint (in_InputPreflight r') @ measurementFingerprint (in_RequestMeasurements r')"
  shows "provedBounds (in_InputPreflight r) = provedBounds (in_InputPreflight r') \<and> in_RequestMeasurements r = in_RequestMeasurements r'"
proof -
  have m: "b = c" if "length (rm_RewrittenBodySHA256 b) = 32" "length (rm_RewrittenBodySHA256 c) = 32"
      "measurementFingerprint (Some b) = measurementFingerprint (Some c)" for b c :: requestMeasurementBinding
    using that base64url_inject [of "rm_RewrittenBodySHA256 b" "rm_RewrittenBodySHA256 c"]
    by (cases b; cases c) (simp add: measurementFingerprint_def)
  have p: "b\<lparr>pf_Breakdown := None\<rparr> = c\<lparr>pf_Breakdown := None\<rparr> \<and> x = y"
    if "length (pf_ProfileDigest b) = 32" "length (pf_ProfileDigest c) = 32"
      "length (pf_RewrittenBodySHA256 b) = 32" "length (pf_RewrittenBodySHA256 c) = 32"
      "preflightFingerprint (Some b) @ x = preflightFingerprint (Some c) @ y" for b c :: inputPreflightBinding and x y
    using that base64url_inject [of "pf_ProfileDigest b" "pf_ProfileDigest c"]
      base64url_inject [of "pf_RewrittenBodySHA256 b" "pf_RewrittenBodySHA256 c"]
    by (cases b; cases c) (simp add: preflightFingerprint_def)
  have n: "measurementFingerprint None = []" "preflightFingerprint None = []"
    by (simp_all add: measurementFingerprint_def preflightFingerprint_def)
  have clash: "preflightFingerprint (Some c) @ x \<noteq> measurementFingerprint y" for c x y
    by (cases y) (simp_all add: measurementFingerprint_def preflightFingerprint_def)
  have mm: "x = y" if "measurementFingerprint x = measurementFingerprint y"
      "case x of None \<Rightarrow> True | Some b \<Rightarrow> length (rm_RewrittenBodySHA256 b) = 32"
      "case y of None \<Rightarrow> True | Some b \<Rightarrow> length (rm_RewrittenBodySHA256 b) = 32" for x y
  proof -
    have "measurementFingerprint (Some b) \<noteq> []" for b by (simp add: measurementFingerprint_def)
    then show ?thesis using that m n(1) by (cases x; cases y) (auto dest: sym)
  qed
  show ?thesis
  proof (cases "in_InputPreflight r")
    case None
    show ?thesis
    proof (cases "in_InputPreflight r'")
      case None
      then show ?thesis using \<open>in_InputPreflight r = None\<close> assms mm by (simp add: n(2) bindings_typed_def)
    next
      case (Some c)
      then show ?thesis
        using \<open>in_InputPreflight r = None\<close> assms(3) clash [of c _ "in_RequestMeasurements r", symmetric] by (simp add: n(2))
    qed
  next
    case (Some b)
    show ?thesis
    proof (cases "in_InputPreflight r'")
      case None
      then show ?thesis using Some assms(3) clash [of b _ "in_RequestMeasurements r'"] by (simp add: n(2))
    next
      case c: (Some c)
      show ?thesis
        using p [of b c "measurementFingerprint (in_RequestMeasurements r)" "measurementFingerprint (in_RequestMeasurements r')"]
          mm assms Some c by (simp add: bindings_typed_def preflight_typed_def provedBounds_def)
    qed
  qed
qed

definition componentBlock :: "'a reserveInput_scheme \<Rightarrow> string list" where
  "componentBlock r =
     [in_InstallationFamilyID r, in_ClientComponentID r, in_ComponentDefinitionID r, in_ComponentKind r, in_TrustSource r]"

lemma attribution_blocks:
  "attributionFingerprint r =
     (if in_InstallationFamilyID r \<noteq> [] then componentAttributionDomain # componentBlock r else []) @
     (if in_Framework r \<noteq> [] then frameworkAttributionDomain # [in_Framework r, in_FrameworkVersion r] else []) @
     (if in_CallerSDK r \<noteq> [] then ''latchway/caller-sdk/v1'' # [in_CallerSDK r] else [])"
  by (simp add: attributionFingerprint_def componentBlock_def)

lemma digest_not_marker:
  assumes "digestPattern s"
  shows "s \<noteq> componentAttributionDomain" "s \<noteq> frameworkAttributionDomain" "s \<noteq> ''latchway/caller-sdk/v1''"
  using assms digest_clean [OF assms] by (auto simp: fingerprint_domains)

lemma attribution_inject:
  assumes "attributionFingerprint r @ t = attributionFingerprint r' @ u"
    and t: "t \<noteq> []" "digestPattern (hd t)" and u: "u \<noteq> []" "digestPattern (hd u)"
  shows "attributionFingerprint r = attributionFingerprint r' \<and> t = u"
proof -
  note dt = digest_not_marker [OF t(2)] and du = digest_not_marker [OF u(2)]
  let ?f = "\<lambda>r. if in_Framework r \<noteq> [] then frameworkAttributionDomain # [in_Framework r, in_FrameworkVersion r] else []"
  let ?s = "\<lambda>r. if in_CallerSDK r \<noteq> [] then ''latchway/caller-sdk/v1'' # [in_CallerSDK r] else []"
  have 1: "(in_InstallationFamilyID r \<noteq> []) = (in_InstallationFamilyID r' \<noteq> []) \<and>
      (in_InstallationFamilyID r \<noteq> [] \<longrightarrow> componentBlock r = componentBlock r') \<and>
      ?f r @ ?s r @ t = ?f r' @ ?s r' @ u"
    by (rule optional_block_inject [of _ componentAttributionDomain])
      (use assms(1) dt(1) du(1) t(1) u(1) in \<open>auto simp: attribution_blocks componentBlock_def\<close>)
  have 2: "(in_Framework r \<noteq> []) = (in_Framework r' \<noteq> []) \<and>
      (in_Framework r \<noteq> [] \<longrightarrow> [in_Framework r, in_FrameworkVersion r] = [in_Framework r', in_FrameworkVersion r']) \<and>
      ?s r @ t = ?s r' @ u"
    by (rule optional_block_inject [of _ frameworkAttributionDomain])
      (use 1 dt(2) du(2) t(1) u(1) in auto)
  have 3: "(in_CallerSDK r \<noteq> []) = (in_CallerSDK r' \<noteq> []) \<and> (in_CallerSDK r \<noteq> [] \<longrightarrow> [in_CallerSDK r] = [in_CallerSDK r']) \<and> t = u"
    by (rule optional_block_inject [of _ "''latchway/caller-sdk/v1''"])
      (use 2 dt(3) du(3) t(1) u(1) in auto)
  show ?thesis unfolding attribution_blocks using 1 2 3 by simp
qed

definition no_collision :: "word8 list \<Rightarrow> word8 list \<Rightarrow> bool" where
  "no_collision x y \<longleftrightarrow> (sha256 x = sha256 y \<longrightarrow> x = y)"

definition usesStreams :: "preparedRequest \<Rightarrow> bool" where
  "usesStreams r \<longleftrightarrow> list_ex (\<lambda>rule. rule_Metric rule = ConcurrentStreamsMetric) (prepared_rules r)"

lemma prepareRequest_rules:
  assumes "prepareRequest LL inp = Inr r"
  shows "list_all rule_keys_ok (prepared_rules r) \<and> prepared_rules r \<noteq> [] \<and>
    (\<exists>scope. \<forall>p\<in>set (prepared_rules r). key_wf LL scope p)"
proof -
  obtain scope rules pf m st where a: "prepareRules LL (in_Rules inp) scope reserveRulePreparation = Inr rules"
    "r = preparedRequestOf inp rules pf m st" using prepareRequest_Inr [OF assms] by metis
  have "length rules = length (in_Rules inp)" "1 \<le> length (in_Rules inp)"
    using prepareRuleList_wf a(1) by (auto simp: prepareRules_Inr)
  then show ?thesis
    using a prepareRules_shape_wf [OF a(1)] prepareRules_key_wf [OF a(1)] canonicalDigest_pattern
    by (auto simp: rule_keys_ok_def list_all_iff key_wf_def)
qed

lemma prepareRequest_catalog:
  assumes "prepareRequest LL inp = Inr r"
  shows "CHR 0x00 \<notin> set (sel_CatalogID (in_Pricing r))"
proof -
  obtain rules pf m st where "requestFieldsOk inp" "r = preparedRequestOf inp rules pf m st"
    using prepareRequest_Inr [OF assms] by metis
  then show ?thesis using identifier_clean by (auto simp: requestFieldsOk_def split: if_splits)
qed

lemma rules_separatedI:
  assumes "key_wf LL v p" "key_wf LL w q"
    "no_collision (canonicalPreimage ruleDigestDomain (ruleKeyParts p)) (canonicalPreimage ruleDigestDomain (ruleKeyParts q))"
  shows "rules_separated p q"
proof -
  have "ruleKey p = ruleKey q \<longleftrightarrow> ruleKeyParts p = ruleKeyParts q"
    using assms canonicalDigest_inject [OF ruleKeyParts_ok [OF assms(1)] ruleKeyParts_ok [OF assms(2)], of ruleDigestDomain]
    by (auto simp: key_wf_def no_collision_def)
  then show ?thesis by (auto simp: rules_separated_def ruleKeyParts_def ruleParts_def)
qed

lemma fingerprintParts_split:
  "fingerprintParts r =
     identityFingerprint r @ attributionFingerprint r @ concat (map ruleFingerprint (prepared_rules r)) @ fingerprintTail r"
  by (simp add: fingerprintParts_def fingerprintTail_def)

lemma catalog_inject:
  assumes "CHR 0x00 \<notin> set c" "CHR 0x00 \<notin> set c'" "x = [] \<or> (\<exists>s rest. x = nulDomain s # rest)" "y = [] \<or> (\<exists>s rest. y = nulDomain s # rest)"
    and "(if c \<noteq> [] then [c] else []) @ x = (if c' \<noteq> [] then [c'] else []) @ y"
  shows "c = c' \<and> x = y"
  using assms by (auto simp: nulDomain_def split: if_splits)

lemma ruleTerms_metrics:
  assumes "map ruleTerms ps = map ruleTerms qs" "\<forall>p\<in>set ps. \<forall>q\<in>set qs. rules_separated p q"
  shows "map ruleFingerprint ps = map ruleFingerprint qs \<and> map rule_Metric ps = map rule_Metric qs"
  using assms
proof (induction ps arbitrary: qs)
  case (Cons p ps)
  then obtain q qs' where q: "qs = q # qs'" "ruleTerms p = ruleTerms q" "map ruleTerms ps = map ruleTerms qs'" by auto
  have "rule_Metric p = rule_Metric q \<and> rule_Algorithm p = rule_Algorithm q"
    using Cons.prems(2) q by (auto simp: rules_separated_def ruleTerms_def)
  then show ?case using q Cons by (auto simp: ruleFingerprint_def ruleTerms_def)
qed auto

lemma usesStreams_metrics: "usesStreams r \<longleftrightarrow> ConcurrentStreamsMetric \<in> set (map rule_Metric (prepared_rules r))"
  unfolding usesStreams_def list_ex_iff set_map by (metis (mono_tags, lifting) image_iff)

lemma preflightFingerprint_proved: "preflightFingerprint (provedBounds p) = preflightFingerprint p"
  by (cases p) (simp_all add: preflightFingerprint_def provedBounds_def)

definition sameDecision :: "preparedRequest \<Rightarrow> preparedRequest \<Rightarrow> bool" where
  "sameDecision r r' \<longleftrightarrow>
     identityFingerprint r = identityFingerprint r' \<and> attributionFingerprint r = attributionFingerprint r' \<and>
     map ruleTerms (prepared_rules r) = map ruleTerms (prepared_rules r') \<and>
     (usesStreams r \<longrightarrow> in_Streaming r = in_Streaming r') \<and>
     sel_CatalogID (in_Pricing r) = sel_CatalogID (in_Pricing r') \<and>
     provedBounds (in_InputPreflight r) = provedBounds (in_InputPreflight r') \<and>
     in_RequestMeasurements r = in_RequestMeasurements r'"

lemma fingerprintParts_inject:
  assumes r: "prepareRequest LL inp = Inr r" "bindings_typed r" and r': "prepareRequest LL' inp' = Inr r'" "bindings_typed r'"
    and sep: "\<forall>p\<in>set (prepared_rules r). \<forall>q\<in>set (prepared_rules r'). rules_separated p q"
    and e: "fingerprintParts r = fingerprintParts r'"
  shows "sameDecision r r'"
proof -
  note w = prepareRequest_rules [OF r(1)] prepareRequest_rules [OF r'(1)]
  have st: "concat (map ruleFingerprint ps) @ t \<noteq> [] \<and> digestPattern (hd (concat (map ruleFingerprint ps) @ t))"
    if "list_all rule_keys_ok ps" "ps \<noteq> []" for ps t
    using that by (cases ps) (auto simp: rule_keys_ok_def ruleFingerprint_def)
  have i: "identityFingerprint r = identityFingerprint r'"
    "attributionFingerprint r @ concat (map ruleFingerprint (prepared_rules r)) @ fingerprintTail r =
     attributionFingerprint r' @ concat (map ruleFingerprint (prepared_rules r')) @ fingerprintTail r'"
    using e unfolding fingerprintParts_split by (auto simp: identityFingerprint_def)
  have a: "attributionFingerprint r = attributionFingerprint r' \<and>
      concat (map ruleFingerprint (prepared_rules r)) @ fingerprintTail r = concat (map ruleFingerprint (prepared_rules r')) @ fingerprintTail r'"
    by (rule attribution_inject [OF i(2)]) (use w st [of "prepared_rules r"] st [of "prepared_rules r'"] in blast)+
  have t: "map ruleTerms (prepared_rules r) = map ruleTerms (prepared_rules r') \<and> fingerprintTail r = fingerprintTail r'"
    by (rule rulesFingerprint_inject) (use w sep a fingerprintTail_no_rule in auto)
  have us: "usesStreams r = usesStreams r'"
    using ruleTerms_metrics [OF conjunct1 [OF t] sep] by (simp add: usesStreams_metrics)
  let ?c = "\<lambda>r. (if sel_CatalogID (in_Pricing r) \<noteq> [] then [sel_CatalogID (in_Pricing r)] else []) @
     preflightFingerprint (in_InputPreflight r) @ measurementFingerprint (in_RequestMeasurements r)"
  have c: "(usesStreams r \<longrightarrow> in_Streaming r = in_Streaming r') \<and> ?c r = ?c r'"
    using conjunct2 [OF t] us unfolding fingerprintTail_def usesStreams_def [symmetric] by (cases "usesStreams r") auto
  have "sel_CatalogID (in_Pricing r) = sel_CatalogID (in_Pricing r') \<and>
      preflightFingerprint (in_InputPreflight r) @ measurementFingerprint (in_RequestMeasurements r) =
      preflightFingerprint (in_InputPreflight r') @ measurementFingerprint (in_RequestMeasurements r')"
    by (rule catalog_inject [OF prepareRequest_catalog [OF r(1)] prepareRequest_catalog [OF r'(1)] bindings_start bindings_start conjunct2 [OF c]])
  then show ?thesis using bindings_inject [OF r(2) r'(2)] i a t c by (simp add: sameDecision_def)
qed

lemma fingerprintParts_same:
  assumes "sameDecision r r'" "\<forall>p\<in>set (prepared_rules r). \<forall>q\<in>set (prepared_rules r'). rules_separated p q"
  shows "fingerprintParts r = fingerprintParts r'"
proof -
  have t: "map ruleTerms (prepared_rules r) = map ruleTerms (prepared_rules r')" using assms(1) by (simp add: sameDecision_def)
  have us: "usesStreams r = usesStreams r'" "map ruleFingerprint (prepared_rules r) = map ruleFingerprint (prepared_rules r')"
    using ruleTerms_metrics [OF t assms(2)] by (simp_all add: usesStreams_metrics)
  have "preflightFingerprint (in_InputPreflight r) = preflightFingerprint (in_InputPreflight r')"
    using assms(1) preflightFingerprint_proved by (metis sameDecision_def)
  then show ?thesis
    using assms(1) us unfolding fingerprintParts_def usesStreams_def [symmetric] by (simp add: sameDecision_def)
qed


section \<open>A concrete request\<close>

definition sampleID :: "string \<Rightarrow> string" where
  "sampleID prefix = prefix @ ''_'' @ encodePayload (payloadBytes 0 (replicate 10 0))"

lemma sampleID_valid: "validatePrefix p \<Longrightarrow> validID (sampleID p) p"
  using parse_id_generated [of p "replicate 10 0" 0]
  by (simp add: validID_def validate_id_def sampleID_def)

definition sampleRequest :: "string \<Rightarrow> quota_rule list \<Rightarrow> inputPreflightBinding option \<Rightarrow> reserveInput" where
  "sampleRequest platform rules preflight =
     reserveInput.make (sampleID ''req'') (sampleID ''org'') (sampleID ''app'') (sampleID ''env'') (sampleID ''usr'')
       (sampleID ''ins'') [] [] [] [] [] (sampleID ''sgr'') (sampleID ''rev'') platform [] ''chat'' ''openai_chat'' []
       [] [] ''ios'' ''free'' ''default'' ''openai'' ''small'' ''gpt-mini'' \<lparr>sel_CatalogID = [], sel_Currency = []\<rparr>
       preflight None False [] rules"

lemma validPhysicalModel_sample: "validPhysicalModel ''gpt-mini''"
proof -
  have "utf8_decode ''gpt-mini'' = Some (map byte_of ''gpt-mini'')"
    by (rule utf8_ascii) (simp add: byte_of_def)
  then show ?thesis
    by (simp add: validPhysicalModel_def byte_of_def trimmedRunes_def rune_IsSpace_def rune_IsControl_def)
qed

lemma sampleRequest_fields:
  "rules \<noteq> [] \<Longrightarrow> length rules \<le> 128 \<Longrightarrow> requestFieldsOk (sampleRequest platform rules preflight)"
proof -
  have "list_all validatePrefix [''req'', ''org'', ''app'', ''env'', ''usr'', ''ins'', ''sgr'', ''rev'']"
    by code_simp
  then have i: "list_all (\<lambda>p. validID (sampleID p) p) [''req'', ''org'', ''app'', ''env'', ''usr'', ''ins'', ''sgr'', ''rev'']"
    using sampleID_valid by (simp add: list_all_iff)
  have k: "list_all identifierPattern [''chat'', ''free'', ''default'', ''openai'', ''small'']" by code_simp
  have m: "''openai_chat'' \<in> set allowedProtocolValues" "validCallerSDK ''ios''"
    by (simp_all add: allowedProtocolValues_def validCallerSDK_def)
  show "rules \<noteq> [] \<Longrightarrow> length rules \<le> 128 \<Longrightarrow> ?thesis"
    using i k m validPhysicalModel_sample unfolding requestFieldsOk_def sampleRequest_def
    by (simp add: validComponentAttribution_def validFrameworkAttribution_def validClientRequestID_def Suc_le_eq reserveInput.defs)
qed

definition sampleScope :: "string \<Rightarrow> (string \<rightharpoonup> string)" where
  "sampleScope platform =
     (if platform \<noteq> [] then (requestScopeValues (sampleRequest platform [] None))(''platform'' \<mapsto> platform)
      else requestScopeValues (sampleRequest platform [] None))"

lemma sampleScope_values:
  assumes "platform = [] \<or> platform = ''ios''"
  shows "quotaScopeValues (requestScopeValues (sampleRequest platform rules preflight)) platform [] = Inr (sampleScope platform)"
    and "go_get (sampleScope platform) ''user'' = sampleID ''usr''"
proof -
  have "requestScopeValues (sampleRequest platform rules preflight) = requestScopeValues (sampleRequest platform [] None)"
    by (simp add: requestScopeValues_def sampleRequest_def reserveInput.defs)
  then show "quotaScopeValues (requestScopeValues (sampleRequest platform rules preflight)) platform [] = Inr (sampleScope platform)"
    using assms by (auto simp: quotaScopeValues_def sampleScope_def allowedPlatformValues_def)
  show "go_get (sampleScope platform) ''user'' = sampleID ''usr''"
    by (simp add: sampleScope_def requestScopeValues_def sampleRequest_def reserveInput.defs go_get_def)
qed

lemma sampleID_nonempty: "sampleID p \<noteq> []"
  by (simp add: sampleID_def)

definition sampleAccepted :: "string \<Rightarrow> preparedRequest" where
  "sampleAccepted platform =
     preparedRequestOf (sampleRequest platform [dailyRule []] None) [dailyPrepared (sampleScope platform)] None None []"

lemma sampleRequest_accepted:
  assumes "platform = [] \<or> platform = ''ios''"
  shows "prepareRequest LL (sampleRequest platform [dailyRule []] None) = Inr (sampleAccepted platform)"
proof -
  have f: "requestFieldsOk (sampleRequest platform [dailyRule []] None)" by (rule sampleRequest_fields) simp_all
  have r: "prepareRules LL [dailyRule []] (sampleScope platform) reserveRulePreparation = Inr [dailyPrepared (sampleScope platform)]"
    by (rule dailyRule_accepted) (simp_all add: sampleScope_values [OF assms] sampleID_nonempty)
  have m: "rule_Metric (dailyPrepared v) = LogicalRequestsMetric" for v
    by (simp add: dailyPrepared_def preparedRuleOf_def dailyRule_def sampleRule_def)
  have s: "in_Platform (sampleRequest platform [dailyRule []] None) = platform" "in_NormalizedClaimDigests (sampleRequest platform [dailyRule []] None) = []"
    "in_Rules (sampleRequest platform [dailyRule []] None) = [dailyRule []]" "in_InputPreflight (sampleRequest platform [dailyRule []] None) = None"
    "in_RequestMeasurements (sampleRequest platform [dailyRule []] None) = None" "in_DecisionStages (sampleRequest platform [dailyRule []] None) = []"
    by (simp_all add: sampleRequest_def reserveInput.defs)
  show ?thesis
    unfolding prepareRequest_def s
    using f r sampleScope_values(1) [OF assms, of "[dailyRule []]" None]
    by (simp add: m prepareInputPreflight_def prepareRequestMeasurements_def bodiesAgree_def prepareDecisionStages_def sampleAccepted_def)
qed


section \<open>Reservations are the proved units\<close>

lemma addBounded_exact:
  "addBounded bound cs = Some x \<Longrightarrow> 0 \<le> bound \<Longrightarrow> bound \<le> max_int64 \<Longrightarrow> list_all (\<lambda>c. 0 \<le> c \<and> c \<le> max_int64) cs \<Longrightarrow>
   x = bound + sum_list cs \<and> bound \<le> x \<and> x \<le> max_int64"
proof (induction cs arbitrary: bound)
  case (Cons c cs)
  have c: "0 \<le> c" "c \<le> max_int64" using Cons.prems(4) by simp_all
  have s: "sub64 max_int64 c = max_int64 - c" using c by (intro sub64_exact) linarith+
  have le: "bound + c \<le> max_int64" using Cons.prems(1) s by (auto split: if_splits)
  have a: "add64 bound c = bound + c" using le c Cons.prems(2) by (intro add64_exact) linarith+
  have "x = (bound + c) + sum_list cs \<and> bound + c \<le> x \<and> x \<le> max_int64"
    using Cons.IH [of "bound + c"] Cons.prems le c s a by (auto split: if_splits)
  then show ?case using c by auto
qed simp

text \<open>
  C22. The diagnostic breakdown of an accepted input bound is exact: the bound is the body size
  plus the framing allowances plus the expanded schema, as integers, with no overflow.
\<close>

theorem breakdown_exact:
  assumes "breakdownValidate v bound protocolID" "breakdown_typed v"
  shows "bound = br_RewrittenRequestBytes v + br_MaximumFramingTokensPerRequest v +
      br_FramingUnitCount v * br_MaximumFramingTokensPerUnit v + br_ExpandedSchemaBytes v \<and>
    0 < bound \<and> bound \<le> max_int64"
proof -
  let ?n = "br_FramingUnitCount v" and ?u = "br_MaximumFramingTokensPerUnit v"
  have v: "0 < br_RewrittenRequestBytes v" "br_RewrittenRequestBytes v \<le> 104857600" "0 < ?n" "?n \<le> 4096"
    "0 \<le> br_ExpandedSchemaBytes v" "br_ExpandedSchemaBytes v \<le> 4194304" "0 \<le> br_MaximumFramingTokensPerRequest v" "0 \<le> ?u"
    "?u \<le> quot64 max_int64 ?n"
    and a: "addBounded (br_RewrittenRequestBytes v) [br_MaximumFramingTokensPerRequest v, mul64 ?n ?u, br_ExpandedSchemaBytes v] = Some bound"
    using assms(1) by (auto simp: breakdownValidate_def not_le not_less split: if_splits option.splits)
  have "?u * ?n \<le> max_int64" using v(3,9) by (simp add: go_arith le_div_iff_int)
  then have le: "0 \<le> ?n * ?u" "?n * ?u \<le> max_int64" using v(3,8) by (simp_all add: mult.commute)
  then have m: "mul64 ?n ?u = ?n * ?u" by (intro mul64_exact) linarith+
  have r: "br_MaximumFramingTokensPerRequest v \<le> max_int64" using assms(2) by (simp add: breakdown_typed_def in64_def)
  show ?thesis
    using addBounded_exact [OF a] v m le r by auto
qed

definition sampleBreakdown :: inputAccountingBreakdown where
  "sampleBreakdown =
     \<lparr>br_Version = 1, br_RewrittenRequestBytes = 5, br_FramingUnitCount = 2, br_MaximumFramingTokensPerRequest = 2,
      br_MaximumFramingTokensPerUnit = 2, br_ExpandedSchemaBytes = 0\<rparr>"

theorem breakdown_exact_witness:
  "breakdownValidate sampleBreakdown 11 ''openai_chat'' \<and>
   11 = br_RewrittenRequestBytes sampleBreakdown + br_MaximumFramingTokensPerRequest sampleBreakdown +
     br_FramingUnitCount sampleBreakdown * br_MaximumFramingTokensPerUnit sampleBreakdown + br_ExpandedSchemaBytes sampleBreakdown"
proof -
  have v: "breakdownValidate sampleBreakdown 11 ''openai_chat''" "breakdown_typed sampleBreakdown" by code_simp+
  show ?thesis using breakdown_exact [OF v] v(1) by blast
qed

lemma validInputPreflight_exact:
  assumes "validInputPreflightBinding b proto model" "preflight_typed b"
  shows "0 < pf_InputTokenBound b \<and> 0 \<le> pf_OutputTokenBound b \<and>
    pf_TotalTokenBound b = pf_InputTokenBound b + pf_OutputTokenBound b \<and> pf_TotalTokenBound b \<le> max_int64"
proof -
  have o: "0 \<le> pf_OutputTokenBound b" "pf_OutputTokenBound b \<le> max_int64"
    using assms by (auto simp: validInputPreflightBinding_def preflight_typed_def in64_def Let_def split: if_splits prod.splits)
  have "0 < pf_InputTokenBound b" "pf_InputTokenBound b \<le> sub64 max_int64 (pf_OutputTokenBound b)"
    "pf_TotalTokenBound b = add64 (pf_InputTokenBound b) (pf_OutputTokenBound b)"
    using assms(1) by (auto simp: validInputPreflightBinding_def Let_def split: prod.splits)
  then show ?thesis using o by (simp add: go_arith)
qed

definition reservationBounds :: "preparedRequest \<Rightarrow> string \<Rightarrow> int option" where
  "reservationBounds r metric =
     (if isTokenMetric metric then Option.bind (in_InputPreflight r) (\<lambda>b. preflightUnits b metric)
      else Option.bind (in_RequestMeasurements r) (\<lambda>b. measuredUnits b metric))"


text \<open>A request with one proved input bound.\<close>

definition samplePreflight :: inputPreflightBinding where
  "samplePreflight =
     \<lparr>pf_Method = UTF8ByteBPEDeclaredFramingV1, pf_Protocol = ''openai_chat'', pf_ProfileID = ''gpt'',
      pf_ProfileDigest = replicate 32 1, pf_RewrittenBodySHA256 = replicate 32 1, pf_PhysicalModel = ''gpt-mini'',
      pf_InputTokenBound = 1, pf_OutputTokenBound = 1, pf_TotalTokenBound = 2, pf_Breakdown = None\<rparr>"

definition inputRule :: quota_rule where
  "inputRule = sampleRule InputTokensMetric PerRequestAlgorithm"

definition inputPrepared :: preparedRule where
  "inputPrepared = preparedRuleOf (sampleScope []) [''user''] [] [] False inputRule"

definition sampleProved :: preparedRequest where
  "sampleProved = preparedRequestOf (sampleRequest [] [inputRule] (Some samplePreflight)) [inputPrepared] (Some samplePreflight) None []"

lemma samplePreflight_valid:
  "validInputPreflightBinding samplePreflight ''openai_chat'' ''gpt-mini''"
proof -
  have z: "replicate 32 (1 :: word8) \<noteq> zeroDigest" unfolding zeroDigest_def by (simp add: replicate_eq_replicate)
  have i: "identifierPattern ''gpt''" by code_simp
  have t: "sub64 max_int64 1 = max_int64 - 1" "add64 1 1 = 2" by (simp_all add: go_arith)
  show ?thesis
    using z i t validPhysicalModel_sample
    by (simp add: validInputPreflightBinding_def samplePreflight_def trustedInputProtocolUsesOutput_def)
qed

lemma inputRule_accepted:
  "prepareRules LL [inputRule] (sampleScope []) reserveRulePreparation = Inr [inputPrepared]"
proof (rule prepareRules_single)
  have shape: "ruleShape reserveRulePreparation [''user''] inputRule = Some (False, [])" by code_simp
  have z: "ruleTimezone LL inputRule False = Some []"
    by (simp add: ruleTimezone_def inputRule_def sampleRule_def)
  show "ruleLocal LL (sampleScope []) reserveRulePreparation inputRule = Some (inputPrepared, [''user''], [])"
    using z shape userScope sampleScope_values(2) [of "[]"] sampleID_nonempty
    by (simp add: ruleLocal_def inputPrepared_def preparedRuleOf_def inputRule_def sampleRule_def)
  show "bindStep reserveRulePreparation inputRule [''user''] [] emptyBinding = Some (emptyBinding\<lparr>tokenReservations := [InputTokensMetric \<mapsto> 1]\<rparr>)"
    by (simp add: bindStep_def bindCostAccounting_def bindReservations_def bindUnits_def emptyBinding_def inputRule_def sampleRule_def metric_class_defs)
qed (simp_all add: validTokenReservationRelationship_def emptyBinding_def)

lemma sampleProved_accepted: "prepareRequest LL (sampleRequest [] [inputRule] (Some samplePreflight)) = Inr sampleProved"
proof -
  let ?r = "sampleRequest [] [inputRule] (Some samplePreflight)"
  have f: "requestFieldsOk ?r" by (rule sampleRequest_fields) simp_all
  have m: "rule_Metric inputPrepared = InputTokensMetric" "rule_ReservedUnits inputPrepared = 1"
    by (simp_all add: inputPrepared_def preparedRuleOf_def inputRule_def sampleRule_def isTokenMetric_def)
  have b: "pf_InputTokenBound samplePreflight = 1" by (simp add: samplePreflight_def)
  have s: "in_Platform ?r = []" "in_NormalizedClaimDigests ?r = []" "in_Rules ?r = [inputRule]"
    "in_InputPreflight ?r = Some samplePreflight" "in_RequestMeasurements ?r = None" "in_DecisionStages ?r = []"
    "in_Protocol ?r = ''openai_chat''" "in_PhysicalModel ?r = ''gpt-mini''"
    by (simp_all add: sampleRequest_def reserveInput.defs)
  show ?thesis
    unfolding prepareRequest_def s
    using f inputRule_accepted [of LL] sampleScope_values(1) [of "[]" "[inputRule]" "Some samplePreflight"] samplePreflight_valid
    by (simp add: m b unitsAgree_def preflightUnits_def prepareInputPreflight_def prepareRequestMeasurements_def
        bodiesAgree_def prepareDecisionStages_def sampleProved_def)
qed


end
