(* ===== verification/Provider_Error.thy ===== *)
theory Provider_Error
  imports Upstream_Headers
begin

text \<open>
  The inspection of a provider's error response (\<open>src/internal/upstream/provider_error.go\<close>): which
  diagnostics of a failed upstream call may be kept, and when the response proves that the provider
  rejected the request before it generated anything.

  A JSON value is what \<open>jsonsafe.Decode\<close> returns, with an object as the list of its members; the
  result of the decoding is an argument of the inspection.  The reads of the response body are a
  list of what each call of the reader does.
\<close>

datatype any_value =
    AnyNil
  | AnyBool bool
  | AnyString string
  | AnyNumber string
  | AnyArray "any_value list"
  | AnyObject "(string \<times> any_value) list"

type_synonym json_object = "(string \<times> any_value) list"

datatype providerErrorMode = ProviderErrorModeNone | ProviderErrorModeOpenRouter | ProviderErrorModeOther nat

record providerErrorDiagnostics =
  pe_Category :: string
  pe_Parameter :: string
  pe_ProviderCode :: string
  pe_GenerationID :: string
  pe_RequestID :: string

definition emptyDiagnostics :: providerErrorDiagnostics where
  "emptyDiagnostics =
     \<lparr>pe_Category = [], pe_Parameter = [], pe_ProviderCode = [], pe_GenerationID = [], pe_RequestID = []\<rparr>"

definition knownProviderCategories :: "string list" where
  "knownProviderCategories =
     [''context_length_exceeded'', ''max_tokens_exceeded'', ''token_limit_exceeded'', ''string_too_long'',
      ''authentication'', ''permission_denied'', ''payment_required'', ''rate_limit_exceeded'',
      ''provider_overloaded'', ''provider_unavailable'', ''invalid_request'', ''invalid_prompt'', ''not_found'',
      ''precondition_failed'', ''payload_too_large'', ''unprocessable'', ''content_policy_violation'', ''refusal'',
      ''invalid_image'', ''image_too_large'', ''image_too_small'', ''unsupported_image_format'', ''image_not_found'',
      ''image_download_failed'', ''server'', ''timeout'', ''unmapped'']"

definition knownProviderCategory :: "string \<Rightarrow> bool" where
  "knownProviderCategory category \<longleftrightarrow> category \<in> set knownProviderCategories"

definition preGenerationInvalidCategory :: "string \<Rightarrow> bool" where
  "preGenerationInvalidCategory category \<longleftrightarrow>
     category \<in> set [''invalid_request'', ''invalid_prompt'', ''context_length_exceeded'', ''string_too_long'',
       ''invalid_image'', ''unsupported_image_format'']"

definition providerCodes :: "string list" where
  "providerCodes =
     [''invalid_request_error'', ''invalid_value'', ''invalid_argument'', ''unsupported_parameter'',
      ''unsupported_value'', ''missing_required_parameter'', ''string_above_max_length'', ''rate_limited'',
      ''insufficient_quota'', ''invalid_api_key'', ''authentication_error'', ''permission_error'', ''billing_error'',
      ''not_found_error'', ''rate_limit_error'', ''overloaded_error'', ''timeout_error'', ''api_error'',
      ''server_error'', ''image_content_policy_violation'']"

text \<open>The result of a map lookup of Go: a missing member reads as \<open>nil\<close>.\<close>

definition member :: "json_object \<Rightarrow> string \<Rightarrow> any_value" where
  "member obj key = (case map_of obj key of None \<Rightarrow> AnyNil | Some v \<Rightarrow> v)"

definition asString :: "any_value \<Rightarrow> string option" where
  "asString v = (case v of AnyString s \<Rightarrow> Some s | _ \<Rightarrow> None)"

definition safeProviderCode :: "any_value \<Rightarrow> string" where
  "safeProviderCode value =
     (case asString value of
        None \<Rightarrow> []
      | Some code \<Rightarrow>
          if 64 < length code then []
          else if knownProviderCategory code then code
          else if code \<in> set providerCodes then code
          else [])"

definition parameterNames :: "string list" where
  "parameterNames =
     [''messages'', ''input'', ''instructions'', ''tools'', ''tool_choice'', ''parallel_tool_calls'', ''functions'',
      ''function_call'', ''function'', ''name'', ''description'', ''parameters'', ''properties'', ''required'',
      ''additional_properties'', ''strict'', ''type'', ''role'', ''content'', ''text'', ''image_url'', ''url'',
      ''detail'', ''input_audio'', ''data'', ''format'', ''tool_calls'', ''tool_call_id'', ''id'', ''arguments'',
      ''result'', ''model'', ''stream'', ''stream_options'', ''include_usage'', ''max_tokens'',
      ''max_completion_tokens'', ''max_output_tokens'', ''temperature'', ''top_p'', ''top_k'', ''seed'', ''stop'',
      ''frequency_penalty'', ''presence_penalty'', ''repetition_penalty'', ''logprobs'', ''top_logprobs'',
      ''logit_bias'', ''response_format'', ''json_schema'', ''schema'', ''reasoning'', ''effort'', ''summary'',
      ''reasoning_effort'', ''verbosity'', ''metadata'', ''user'', ''store'', ''previous_response_id'',
      ''truncation'', ''modalities'', ''audio'', ''voice'', ''prediction'', ''service_tier'', ''n'',
      ''encoding_format'', ''dimensions'']"

text \<open>The pattern \<open>^[a-z_]+(\[[0-9]{1,6}\])?(\.([a-z_]+|[0-9]{1,6})(\[[0-9]{1,6}\])?)*$\<close>, component by
  component: no component contains a dot.\<close>

definition shortDigits :: "string \<Rightarrow> bool" where
  "shortDigits s \<longleftrightarrow> 1 \<le> length s \<and> length s \<le> 6 \<and> list_all is_digit s"

definition wordComponent :: "string \<Rightarrow> bool" where
  "wordComponent s \<longleftrightarrow> s \<noteq> [] \<and> list_all (\<lambda>c. is_lower c \<or> c = CHR ''_'') s"

definition indexedComponent :: "(string \<Rightarrow> bool) \<Rightarrow> string \<Rightarrow> bool" where
  "indexedComponent base s =
     (let (name, rest, indexed) = cutAt (CHR ''['') s in
      base name \<and> (indexed \<longrightarrow> rest \<noteq> [] \<and> last rest = CHR '']'' \<and> shortDigits (butlast rest)))"

definition providerParameterPattern :: "string \<Rightarrow> bool" where
  "providerParameterPattern s =
     (case splitAt (CHR ''.'') s of
        [] \<Rightarrow> False
      | first # rest \<Rightarrow>
          indexedComponent wordComponent first \<and>
          list_all (indexedComponent (\<lambda>b. wordComponent b \<or> shortDigits b)) rest)"

text \<open>\<open>strings.FieldsFunc\<close>: the maximal runs of bytes outside the class.\<close>

fun fieldsFunc :: "(char \<Rightarrow> bool) \<Rightarrow> string \<Rightarrow> string \<Rightarrow> string list" where
  "fieldsFunc sep [] run = (if run = [] then [] else [rev run])"
| "fieldsFunc sep (c # cs) run =
     (if sep c then (if run = [] then fieldsFunc sep cs [] else rev run # fieldsFunc sep cs [])
      else fieldsFunc sep cs (c # run))"

definition parameterSeparator :: "char \<Rightarrow> bool" where
  "parameterSeparator c \<longleftrightarrow> c = CHR ''.'' \<or> c = CHR ''['' \<or> c = CHR '']''"

definition safeProviderParameter :: "any_value \<Rightarrow> string" where
  "safeProviderParameter value =
     (case asString value of
        None \<Rightarrow> []
      | Some parameter \<Rightarrow>
          if length parameter = 0 \<or> 128 < length parameter \<or> \<not> providerParameterPattern parameter then []
          else if list_all (\<lambda>component. is_digit (hd component) \<or> component \<in> set parameterNames)
                    (fieldsFunc parameterSeparator parameter [])
          then parameter else [])"

definition providerIDChar :: "char \<Rightarrow> bool" where
  "providerIDChar c \<longleftrightarrow> is_lower c \<or> is_upper c \<or> is_digit c \<or> c = CHR ''-''"

definition validProviderID :: "string \<Rightarrow> string \<Rightarrow> bool" where
  "validProviderID value prefix =
     (if length value < length prefix + 6 \<or> 128 < length value \<or> \<not> hasPrefix value prefix then False
      else list_all providerIDChar (drop (length prefix) value))"

definition diagnosticsValidate :: "providerErrorDiagnostics \<Rightarrow> bool" where
  "diagnosticsValidate d =
     (if d = emptyDiagnostics then True
      else \<not> (pe_Category d \<noteq> ''unknown'' \<and> \<not> knownProviderCategory (pe_Category d) \<or>
              pe_Parameter d \<noteq> [] \<and> safeProviderParameter (AnyString (pe_Parameter d)) \<noteq> pe_Parameter d \<or>
              pe_ProviderCode d \<noteq> [] \<and> safeProviderCode (AnyString (pe_ProviderCode d)) \<noteq> pe_ProviderCode d \<or>
              pe_GenerationID d \<noteq> [] \<and> \<not> validProviderID (pe_GenerationID d) ''gen-'' \<or>
              pe_RequestID d \<noteq> [] \<and> \<not> validProviderID (pe_RequestID d) ''req-''))"

definition AllowsPreGenerationRejection :: "providerErrorDiagnostics \<Rightarrow> int \<Rightarrow> bool" where
  "AllowsPreGenerationRejection d status \<longleftrightarrow>
     diagnosticsValidate d \<and> status = 400 \<and> preGenerationInvalidCategory (pe_Category d)"

section \<open>The inspection\<close>

definition validProviderErrorMode :: "providerErrorMode \<Rightarrow> bool" where
  "validProviderErrorMode mode \<longleftrightarrow> mode = ProviderErrorModeNone \<or> mode = ProviderErrorModeOpenRouter"

fun providerCategory :: "string \<Rightarrow> json_object list \<Rightarrow> string \<times> bool" where
  "providerCategory category [] = (category, category \<noteq> [])"
| "providerCategory category (object # objects) =
     (case map_of object ''error_type'' of
        None \<Rightarrow> providerCategory category objects
      | Some value \<Rightarrow>
          case asString value of
            None \<Rightarrow> ([], False)
          | Some candidate \<Rightarrow>
              if \<not> knownProviderCategory candidate \<or> category \<noteq> [] \<and> category \<noteq> candidate then ([], False)
              else providerCategory candidate objects)"

definition rejectionCodeConsistent :: "string \<Rightarrow> any_value \<Rightarrow> bool" where
  "rejectionCodeConsistent category value =
     (case value of
        AnyNil \<Rightarrow> True
      | AnyNumber number \<Rightarrow> number = ''400''
      | AnyString code \<Rightarrow>
          if code \<in> set [''invalid_request'', ''invalid_prompt'', ''invalid_request_error'', ''invalid_value'', ''invalid_argument'',
               ''unsupported_parameter'', ''unsupported_value'', ''missing_required_parameter'', ''string_above_max_length'',
               ''context_length_exceeded'', ''string_too_long'', ''invalid_image'', ''unsupported_image_format'']
          then True
          else if code = ''server_error'' then
            category \<in> set [''invalid_prompt'', ''string_too_long'', ''invalid_image'', ''unsupported_image_format'']
          else False
      | _ \<Rightarrow> False)"

definition providerRejectionCodesConsistent :: "string \<Rightarrow> json_object \<Rightarrow> json_object \<Rightarrow> bool" where
  "providerRejectionCodesConsistent category envelope metadata =
     list_all (rejectionCodeConsistent category)
       [member envelope ''code'', member envelope ''type'', member metadata ''provider_code'']"

definition generationKeys :: "string list" where
  "generationKeys =
     [''usage'', ''choices'', ''output'', ''output_text'', ''content'', ''completion'', ''response'', ''status'',
      ''finish_reason'', ''native_finish_reason'', ''completed_at'', ''partial'', ''prompt_tokens'', ''completion_tokens'',
      ''input_tokens'', ''output_tokens'', ''total_tokens'', ''cost'']"

definition providerMayHaveGenerated :: "json_object list \<Rightarrow> bool" where
  "providerMayHaveGenerated objects =
     list_ex (\<lambda>object. list_ex (\<lambda>key. map_of object key \<noteq> None) generationKeys) objects"

definition conflictingProviderID :: string where
  "conflictingProviderID = ''!conflicting''"

definition combineProviderID :: "string \<Rightarrow> any_value \<Rightarrow> string \<Rightarrow> string" where
  "combineProviderID current value prefix =
     (if current = conflictingProviderID then current
      else let candidate = (case asString value of None \<Rightarrow> [] | Some s \<Rightarrow> s) in
        if \<not> validProviderID candidate prefix then current
        else if current \<noteq> [] \<and> current \<noteq> candidate then conflictingProviderID
        else candidate)"

definition providerHeaderID :: "header \<Rightarrow> string \<Rightarrow> string \<Rightarrow> string" where
  "providerHeaderID headers name prefix =
     (let values = headerValues headers name in
      if length values \<noteq> 1 \<or> \<not> validProviderID (values ! 0) prefix then []
      else if list_ex (\<lambda>connection. list_ex (\<lambda>token. EqualFold (TrimSpace token) name) (splitAt (CHR '','') connection))
                (headerValues headers ''Connection'')
      then [] else values ! 0)"

text \<open>One object's contribution to the two identifiers, in the order of the source.\<close>

definition combineObject :: "json_object \<Rightarrow> providerErrorDiagnostics \<Rightarrow> providerErrorDiagnostics" where
  "combineObject object d =
     (let g1 = combineProviderID (pe_GenerationID d) (member object ''id'') ''gen-'';
          g2 = combineProviderID g1 (member object ''generation_id'') ''gen-'';
          g3 = combineProviderID g2 (member object ''request_id'') ''gen-'' in
      d\<lparr>pe_GenerationID := g3, pe_RequestID := combineProviderID (pe_RequestID d) (member object ''request_id'') ''req-''\<rparr>)"

definition dropConflict :: "string \<Rightarrow> string" where
  "dropConflict current = (if current = conflictingProviderID then [] else current)"

definition asObject :: "any_value \<Rightarrow> json_object option" where
  "asObject v = (case v of AnyObject obj \<Rightarrow> Some obj | _ \<Rightarrow> None)"

text \<open>The part of the inspection behind the decoding of the body, on the document and its error
  envelope.\<close>

definition firstNonEmpty :: "string list \<Rightarrow> string" where
  "firstNonEmpty candidates = (case filter (\<lambda>s. s \<noteq> []) candidates of [] \<Rightarrow> [] | s # _ \<Rightarrow> s)"

definition inspectEnvelope ::
    "int \<Rightarrow> providerErrorDiagnostics \<Rightarrow> json_object \<Rightarrow> json_object \<Rightarrow> providerErrorDiagnostics \<times> bool" where
  "inspectEnvelope statusCode d document envelope =
     (let metadataValue = asObject (member envelope ''metadata'');
          metadata = (case metadataValue of None \<Rightarrow> [] | Some m \<Rightarrow> m);
          (category, unambiguous) = providerCategory [] [document, envelope, metadata];
          d = (if category \<noteq> [] then d\<lparr>pe_Category := category\<rparr> else d);
          d = d\<lparr>pe_Parameter := safeProviderParameter (member envelope ''param''),
                 pe_ProviderCode := firstNonEmpty
                   [safeProviderCode (member metadata ''provider_code''), safeProviderCode (member envelope ''code''),
                    safeProviderCode (member envelope ''type'')]\<rparr>;
          d = fold combineObject [document, envelope, metadata] d;
          d = d\<lparr>pe_GenerationID := dropConflict (pe_GenerationID d), pe_RequestID := dropConflict (pe_RequestID d)\<rparr>;
          confirmed = (statusCode = 400 \<and> unambiguous \<and> preGenerationInvalidCategory category \<and>
            \<not> providerMayHaveGenerated [document, envelope, metadata] \<and>
            providerRejectionCodesConsistent category envelope metadata);
          confirmed = (case map_of document ''type'' of
            None \<Rightarrow> confirmed | Some kind \<Rightarrow> if kind \<noteq> AnyString ''error'' then False else confirmed);
          confirmed = (case map_of envelope ''metadata'' of
            None \<Rightarrow> confirmed
          | Some value \<Rightarrow> if value \<noteq> AnyNil \<and> metadataValue = None then False else confirmed) in
      (d, confirmed))"

definition inspectProviderError ::
    "providerErrorMode \<Rightarrow> int \<Rightarrow> header \<Rightarrow> 'e option \<Rightarrow> any_value option \<Rightarrow>
     providerErrorDiagnostics \<times> bool \<times> 'e option" where
  "inspectProviderError mode statusCode headers readErr decoded =
     (case responseHeaders headers of
        Inl _ \<Rightarrow> (emptyDiagnostics, False, readErr)
      | Inr (filtered, eventStream) \<Rightarrow>
          if mode \<noteq> ProviderErrorModeOpenRouter then (emptyDiagnostics, False, readErr)
          else
            let d = emptyDiagnostics\<lparr>pe_Category := ''unknown'',
                      pe_GenerationID := providerHeaderID headers ''X-Generation-Id'' ''gen-'',
                      pe_RequestID := providerHeaderID headers ''X-Request-Id'' ''req-''\<rparr> in
            if readErr \<noteq> None \<or> eventStream then (d, False, readErr)
            else case ParseMediaType (headerGet filtered ''Content-Type'') of
              None \<Rightarrow> (d, False, None)
            | Some mediaType \<Rightarrow>
                if \<not> EqualFold mediaType ''application/json'' then (d, False, None)
                else case decoded of
                  None \<Rightarrow> (d, False, None)
                | Some value \<Rightarrow>
                    case asObject value of
                      None \<Rightarrow> (d, False, None)
                    | Some document \<Rightarrow>
                        case asObject (member document ''error'') of
                          None \<Rightarrow> (d, False, None)
                        | Some envelope \<Rightarrow>
                            if length envelope = 0 then (d, False, None)
                            else let (d, confirmed) = inspectEnvelope statusCode d document envelope in (d, confirmed, None))"

section \<open>Reading the body\<close>

datatype body_error = ReadTimeout | ReadWait | ReadFailed | ReadTooLarge

datatype read_end = ReadMore | ReadEOF | ReadError

text \<open>One turn of the loop: whether the deadline has passed, the error of the wait, and the bytes and the
  error that the reader returned; a buffer position that the reader did not write is zero.  A reader
  that claims more bytes than the buffer holds, or none
  without an error, breaks its contract.\<close>

record readTurn =
  rt_expired :: bool
  rt_waitErr :: bool
  rt_count :: int
  rt_data :: string
  rt_readErr :: read_end

fun readProviderError :: "int \<Rightarrow> string \<Rightarrow> readTurn list \<Rightarrow> (body_error + string) option" where
  "readProviderError limit got [] = None"
| "readProviderError limit got (turn # turns) =
     (if rt_expired turn then Some (Inl ReadTimeout)
      else if rt_waitErr turn then Some (Inl ReadWait)
      else if rt_count turn < 0 \<or> rt_count turn > (limit + 1) - int (length got) \<or>
              rt_count turn = 0 \<and> rt_readErr turn = ReadMore
      then Some (Inl ReadFailed)
      else let count = nat (rt_count turn); got = got @ take count (rt_data turn @ replicate count (CHR 0x00)) in
        if limit < int (length got) then Some (Inl ReadTooLarge)
        else if rt_readErr turn = ReadMore then readProviderError limit got turns
        else if rt_readErr turn \<noteq> ReadEOF then Some (Inl ReadFailed)
        else Some (Inr got))"

definition providerErrorLimit :: "int \<Rightarrow> int" where
  "providerErrorLimit maxBodyBytes = min 16384 maxBodyBytes"

section \<open>Lemmas\<close>

lemma preGeneration_known: "preGenerationInvalidCategory c \<Longrightarrow> knownProviderCategory c"
  by (auto simp: preGenerationInvalidCategory_def knownProviderCategory_def knownProviderCategories_def)

lemma safeProviderCode_idem: "safeProviderCode (AnyString (safeProviderCode v)) = safeProviderCode v"
  by (auto simp: safeProviderCode_def asString_def split: any_value.splits option.splits)

lemma safeProviderParameter_idem: "safeProviderParameter (AnyString (safeProviderParameter v)) = safeProviderParameter v"
  by (auto simp: safeProviderParameter_def asString_def split: any_value.splits option.splits)

lemma providerCategory_known:
  "providerCategory category objects = (result, ok) \<Longrightarrow> category = [] \<or> knownProviderCategory category \<Longrightarrow>
     (result = [] \<or> knownProviderCategory result) \<and> (ok \<longrightarrow> result \<noteq> [])"
  by (induction category objects rule: providerCategory.induct) (auto split: option.splits if_splits)

definition idState :: "string \<Rightarrow> string \<Rightarrow> bool" where
  "idState prefix current \<longleftrightarrow> current = [] \<or> current = conflictingProviderID \<or> validProviderID current prefix"

lemma combine_idState: "idState prefix current \<Longrightarrow> idState prefix (combineProviderID current value prefix)"
  by (auto simp: idState_def combineProviderID_def Let_def)

lemma combineObject_idState:
  assumes "idState ''gen-'' (pe_GenerationID d)" "idState ''req-'' (pe_RequestID d)"
  shows "idState ''gen-'' (pe_GenerationID (combineObject object d))" "idState ''req-'' (pe_RequestID (combineObject object d))"
    "pe_Category (combineObject object d) = pe_Category d" "pe_Parameter (combineObject object d) = pe_Parameter d"
    "pe_ProviderCode (combineObject object d) = pe_ProviderCode d"
  using assms by (simp_all add: combineObject_def Let_def combine_idState)

lemma fold_combineObject:
  "idState ''gen-'' (pe_GenerationID d) \<Longrightarrow> idState ''req-'' (pe_RequestID d) \<Longrightarrow>
     idState ''gen-'' (pe_GenerationID (fold combineObject objects d)) \<and>
     idState ''req-'' (pe_RequestID (fold combineObject objects d)) \<and>
     pe_Category (fold combineObject objects d) = pe_Category d \<and> pe_Parameter (fold combineObject objects d) = pe_Parameter d \<and>
     pe_ProviderCode (fold combineObject objects d) = pe_ProviderCode d"
  by (induction objects arbitrary: d) (simp_all add: combineObject_idState)

lemma dropConflict_valid: "idState prefix current \<Longrightarrow> dropConflict current = [] \<or> validProviderID (dropConflict current) prefix"
  by (auto simp: idState_def dropConflict_def)

lemma providerHeaderID_state: "providerHeaderID headers name prefix = [] \<or> validProviderID (providerHeaderID headers name prefix) prefix"
  by (simp add: providerHeaderID_def Let_def)

lemma firstNonEmpty_code:
  "firstNonEmpty (map safeProviderCode vs) = [] \<or> safeProviderCode (AnyString (firstNonEmpty (map safeProviderCode vs))) = firstNonEmpty (map safeProviderCode vs)"
  by (induction vs) (auto simp: firstNonEmpty_def safeProviderCode_idem)

lemma inspectEnvelope_safe:
  assumes "inspectEnvelope statusCode d document envelope = (d', confirmed)"
    "idState ''gen-'' (pe_GenerationID d)" "idState ''req-'' (pe_RequestID d)"
    "pe_Category d = ''unknown''"
  shows "diagnosticsValidate d' \<and> (confirmed \<longrightarrow> AllowsPreGenerationRejection d' statusCode)"
proof -
  define metadata where "metadata = (case asObject (member envelope ''metadata'') of None \<Rightarrow> [] | Some m \<Rightarrow> m)"
  obtain category unambiguous where c: "providerCategory [] [document, envelope, metadata] = (category, unambiguous)"
    by fastforce
  define d1 where "d1 = (if category \<noteq> [] then d\<lparr>pe_Category := category\<rparr> else d)
      \<lparr>pe_Parameter := safeProviderParameter (member envelope ''param''),
       pe_ProviderCode := firstNonEmpty (map safeProviderCode
         [member metadata ''provider_code'', member envelope ''code'', member envelope ''type''])\<rparr>"
  define d2 where "d2 = fold combineObject [document, envelope, metadata] d1"
  have "fst (inspectEnvelope statusCode d document envelope) =
      d2\<lparr>pe_GenerationID := dropConflict (pe_GenerationID d2), pe_RequestID := dropConflict (pe_RequestID d2)\<rparr>"
    unfolding inspectEnvelope_def Let_def metadata_def [symmetric] c prod.case fst_conv d2_def d1_def list.map ..
  then have d': "d' = d2\<lparr>pe_GenerationID := dropConflict (pe_GenerationID d2), pe_RequestID := dropConflict (pe_RequestID d2)\<rparr>"
    using assms(1) by simp
  have "snd (inspectEnvelope statusCode d document envelope) \<longrightarrow> statusCode = 400 \<and> preGenerationInvalidCategory category"
    unfolding inspectEnvelope_def Let_def metadata_def [symmetric] c prod.case snd_conv by (simp split: option.split) blast
  then have conf: "confirmed \<Longrightarrow> statusCode = 400 \<and> preGenerationInvalidCategory category"
    using assms(1) by simp
  have i: "idState ''gen-'' (pe_GenerationID d1)" "idState ''req-'' (pe_RequestID d1)"
    using assms(2,3) by (simp_all add: d1_def)
  note f = fold_combineObject [OF i, of "[document, envelope, metadata]", folded d2_def]
  have cat: "pe_Category d' = ''unknown'' \<or> knownProviderCategory (pe_Category d')"
    using providerCategory_known [OF c] assms(4) f by (auto simp: d' d1_def)
  have "pe_Parameter d' = [] \<or> safeProviderParameter (AnyString (pe_Parameter d')) = pe_Parameter d'"
    using f by (simp add: d' d1_def safeProviderParameter_idem)
  moreover have "pe_ProviderCode d' = [] \<or> safeProviderCode (AnyString (pe_ProviderCode d')) = pe_ProviderCode d'"
    using f firstNonEmpty_code [of "[member metadata ''provider_code'', member envelope ''code'', member envelope ''type'']"]
    by (simp add: d' d1_def)
  moreover have "pe_GenerationID d' = [] \<or> validProviderID (pe_GenerationID d') ''gen-''"
    "pe_RequestID d' = [] \<or> validProviderID (pe_RequestID d') ''req-''"
    using f dropConflict_valid by (auto simp: d')
  ultimately have v: "diagnosticsValidate d'" using cat by (auto simp: diagnosticsValidate_def)
  have "AllowsPreGenerationRejection d' statusCode" if "confirmed"
  proof -
    have "category \<noteq> []" using conf [OF that] by (auto simp: preGenerationInvalidCategory_def)
    then show ?thesis using v conf [OF that] f by (simp add: AllowsPreGenerationRejection_def d' d1_def)
  qed
  then show ?thesis using v by blast
qed


definition sampleRejection :: any_value where
  "sampleRejection =
     AnyObject [(''error'', AnyObject [(''code'', AnyNumber ''400''), (''param'', AnyString ''messages[0].content''),
       (''metadata'', AnyObject [(''error_type'', AnyString ''invalid_prompt''), (''request_id'', AnyString ''req-abcdef'')])])]"

definition sampleDiagnostics :: providerErrorDiagnostics where
  "sampleDiagnostics =
     \<lparr>pe_Category = ''invalid_prompt'', pe_Parameter = ''messages[0].content'', pe_ProviderCode = [], pe_GenerationID = [],
      pe_RequestID = ''req-abcdef''\<rparr>"


text \<open>
  The read of an error body is bounded: whatever the reader returns, a successful read has at most
  the configured number of bytes and never more than 16 KiB, and the loop returns as soon as the
  deadline has passed.
\<close>

theorem provider_error_bounded:
  assumes "readProviderError (providerErrorLimit maxBodyBytes) [] turns = Some (Inr body)"
  shows "int (length body) \<le> 16384 \<and> int (length body) \<le> maxBodyBytes \<and>
    \<not> (\<exists>turn rest. turns = turn # rest \<and> rt_expired turn)"
proof -
  have "int (length body) \<le> limit" if "readProviderError limit got turns = Some (Inr body)" for limit got
    using that by (induction limit got turns rule: readProviderError.induct) (auto simp: Let_def split: if_splits)
  from this [OF assms] have "int (length body) \<le> providerErrorLimit maxBodyBytes" .
  then show ?thesis using assms by (auto simp: providerErrorLimit_def min_def split: if_splits)
qed

theorem provider_error_bounded_witness:
  "readProviderError (providerErrorLimit 3) []
     [\<lparr>rt_expired = False, rt_waitErr = False, rt_count = 2, rt_data = ''ab'', rt_readErr = ReadMore\<rparr>,
      \<lparr>rt_expired = False, rt_waitErr = False, rt_count = 1, rt_data = ''c'', rt_readErr = ReadEOF\<rparr>] = Some (Inr ''abc'') \<and>
   int (length ''abc'') \<le> 3"
proof -
  have r: "readProviderError (providerErrorLimit 3) []
     [\<lparr>rt_expired = False, rt_waitErr = False, rt_count = 2, rt_data = ''ab'', rt_readErr = ReadMore\<rparr>,
      \<lparr>rt_expired = False, rt_waitErr = False, rt_count = 1, rt_data = ''c'', rt_readErr = ReadEOF\<rparr>] = Some (Inr ''abc'')"
    by code_simp
  then show ?thesis using provider_error_bounded [OF r] by blast
qed

end
