(* ===== verification/Quota_Outcome.thy ===== *)
theory Quota_Outcome
  imports Quota_Request Provider_Error
begin

text \<open>
  The trusted outcome of an upstream attempt (\<open>src/internal/quota/model.go\<close> and
  \<open>attempt_diagnostics.go\<close>): its validation, its normalisation against the selected pricing, and
  which settlement it selects.
\<close>

record usage =
  us_InputTokens :: int
  us_OutputTokens :: int
  us_TotalTokens :: int
  us_Known :: bool
  us_Provenance :: string

record cost =
  co_NanoUSD :: int
  co_Known :: bool
  co_Confidence :: string
  co_Currency :: string
  co_Source :: string

record attemptDiagnostics =
  ad_AccountingPolicy :: string
  ad_ProviderError :: providerErrorDiagnostics

record attemptOutcome =
  oc_Status :: string
  oc_HTTPStatus :: int
  oc_FailureCode :: string
  oc_Usage :: usage
  oc_Cost :: cost
  oc_Diagnostics :: "attemptDiagnostics option"

definition ProviderReportedProvenance :: string where
  "ProviderReportedProvenance = ''provider_reported''"

definition UnknownUsageProvenance :: string where
  "UnknownUsageProvenance = ''unknown''"

definition CalculatedCostConfidence :: string where
  "CalculatedCostConfidence = ''calculated''"

definition ProviderReportedCostConfidence :: string where
  "ProviderReportedCostConfidence = ''reported''"

definition UnknownCostConfidence :: string where
  "UnknownCostConfidence = ''unknown''"

definition ProviderRejectionAccountingV1 :: string where
  "ProviderRejectionAccountingV1 = ''provider_rejection_v1''"

definition ReportedUsageAccountingV1 :: string where
  "ReportedUsageAccountingV1 = ''reported_usage_v1''"

lemmas outcome_constants =
  ProviderReportedProvenance_def UnknownUsageProvenance_def CalculatedCostConfidence_def
  ProviderReportedCostConfidence_def UnknownCostConfidence_def ProviderRejectionAccountingV1_def
  ReportedUsageAccountingV1_def

definition usageValidate :: "usage \<Rightarrow> quota_error + unit" where
  "usageValidate u =
     (if \<not> us_Known u then
        (if us_InputTokens u \<noteq> 0 \<or> us_OutputTokens u \<noteq> 0 \<or> us_TotalTokens u \<noteq> 0 \<or>
            us_Provenance u \<noteq> [] \<and> us_Provenance u \<noteq> UnknownUsageProvenance
         then Inl ErrInvalidInput else Inr ())
      else if us_InputTokens u < 0 \<or> us_OutputTokens u < 0 \<or> us_TotalTokens u < 0 \<or>
              us_Provenance u \<noteq> ProviderReportedProvenance
      then Inl ErrInvalidInput
      else if us_InputTokens u > sub64 max_int64 (us_OutputTokens u) \<or>
              us_TotalTokens u \<noteq> add64 (us_InputTokens u) (us_OutputTokens u)
      then Inl ErrInvalidInput
      else Inr ())"

definition usageNormalized :: "usage \<Rightarrow> usage" where
  "usageNormalized u =
     (if \<not> us_Known u
      then \<lparr>us_InputTokens = 0, us_OutputTokens = 0, us_TotalTokens = 0, us_Known = False,
            us_Provenance = UnknownUsageProvenance\<rparr>
      else u)"

definition costValidate :: "cost \<Rightarrow> quota_error + unit" where
  "costValidate c =
     (if \<not> co_Known c then
        (if co_NanoUSD c \<noteq> 0 \<or> co_Currency c \<noteq> [] \<or> co_Source c \<noteq> [] \<or>
            co_Confidence c \<noteq> [] \<and> co_Confidence c \<noteq> UnknownCostConfidence
         then Inl ErrInvalidInput else Inr ())
      else if co_NanoUSD c < 0 then Inl ErrInvalidInput
      else if co_Confidence c = CalculatedCostConfidence then
        (if co_Currency c \<noteq> [] \<or> co_Source c \<noteq> [] then Inl ErrInvalidInput else Inr ())
      else if co_Confidence c = ProviderReportedCostConfidence then
        (if co_Currency c \<noteq> ''USD'' \<or> co_Source c \<noteq> ''openrouter_usage_cost'' then Inl ErrInvalidInput else Inr ())
      else Inl ErrInvalidInput)"

definition validateAttemptDiagnostics :: "attemptOutcome \<Rightarrow> quota_error + unit" where
  "validateAttemptDiagnostics outcome =
     (case oc_Diagnostics outcome of
        None \<Rightarrow> if oc_FailureCode outcome = ''upstream_request_rejected'' then Inl ErrInvalidInput else Inr ()
      | Some d \<Rightarrow>
          if oc_Status outcome = ''succeeded'' then Inl ErrInvalidInput
          else if \<not> diagnosticsValidate (ad_ProviderError d) then Inl ErrInvalidInput
          else if ad_AccountingPolicy d = [] then
            (if ad_ProviderError d = emptyDiagnostics \<or> oc_FailureCode outcome = ''upstream_request_rejected''
             then Inl ErrInvalidInput else Inr ())
          else if ad_AccountingPolicy d = ProviderRejectionAccountingV1 then
            (if oc_Status outcome \<noteq> ''failed'' \<or> oc_HTTPStatus outcome \<noteq> 400 \<or>
                oc_FailureCode outcome \<noteq> ''upstream_request_rejected'' \<or> us_Known (oc_Usage outcome) \<or>
                co_Known (oc_Cost outcome)
             then Inl ErrInvalidInput
             else if pe_Category (ad_ProviderError d) \<in>
                       set [''invalid_request'', ''invalid_prompt'', ''context_length_exceeded'', ''string_too_long'',
                            ''invalid_image'', ''unsupported_image_format'']
             then Inr () else Inl ErrInvalidInput)
          else if ad_AccountingPolicy d = ReportedUsageAccountingV1 then
            (if oc_Status outcome = ''succeeded'' \<or> \<not> us_Known (oc_Usage outcome) \<or>
                oc_FailureCode outcome = ''upstream_request_rejected''
             then Inl ErrInvalidInput else Inr ())
          else Inl ErrInvalidInput)"

definition outcomeValidate :: "attemptOutcome \<Rightarrow> quota_error + unit" where
  "outcomeValidate outcome =
     (if oc_Status outcome \<notin> set [''succeeded'', ''failed'', ''cancelled'', ''timed_out''] \<or>
         oc_HTTPStatus outcome \<noteq> 0 \<and> (oc_HTTPStatus outcome < 100 \<or> oc_HTTPStatus outcome > 599)
      then Inl ErrInvalidInput
      else if oc_Status outcome = ''succeeded'' \<and>
              (oc_FailureCode outcome \<noteq> [] \<or> oc_HTTPStatus outcome < 200 \<or> oc_HTTPStatus outcome > 299)
      then Inl ErrInvalidInput
      else if oc_Status outcome \<noteq> ''succeeded'' \<and> \<not> failureCodePattern (oc_FailureCode outcome)
      then Inl ErrInvalidInput
      else if \<not> is_ok (usageValidate (oc_Usage outcome)) \<or> \<not> is_ok (costValidate (oc_Cost outcome)) \<or>
              co_Known (oc_Cost outcome) \<and> co_Confidence (oc_Cost outcome) = CalculatedCostConfidence \<and>
                \<not> us_Known (oc_Usage outcome)
      then Inl ErrInvalidInput
      else if \<not> is_ok (validateAttemptDiagnostics outcome) then Inl ErrInvalidInput
      else Inr ())"

definition noCost :: "string \<Rightarrow> cost" where
  "noCost confidence =
     \<lparr>co_NanoUSD = 0, co_Known = False, co_Confidence = confidence, co_Currency = [], co_Source = []\<rparr>"

definition normalizeOutcomeForPricing :: "attemptOutcome \<Rightarrow> selectedPricing \<Rightarrow> quota_error + attemptOutcome" where
  "normalizeOutcomeForPricing outcome pricing =
     (if \<not> is_ok (outcomeValidate outcome) \<or> \<not> is_ok (pricingValidate pricing) then Inl ErrInvalidInput
      else let outcome = outcome\<lparr>oc_Usage := usageNormalized (oc_Usage outcome)\<rparr> in
        if \<not> pricingPresent pricing then
          (if co_Known (oc_Cost outcome) \<and> co_Confidence (oc_Cost outcome) \<noteq> ProviderReportedCostConfidence
           then Inl ErrInvalidInput
           else Inr (if \<not> co_Known (oc_Cost outcome) then outcome\<lparr>oc_Cost := noCost []\<rparr> else outcome))
        else Inr (if \<not> co_Known (oc_Cost outcome) then outcome\<lparr>oc_Cost := noCost UnknownCostConfidence\<rparr> else outcome))"

definition providerRejectedBeforeGeneration :: "attemptOutcome \<Rightarrow> bool" where
  "providerRejectedBeforeGeneration outcome =
     (case oc_Diagnostics outcome of
        None \<Rightarrow> False
      | Some d \<Rightarrow> ad_AccountingPolicy d = ProviderRejectionAccountingV1)"

definition usesReportedTokenSettlement :: "attemptOutcome \<Rightarrow> bool" where
  "usesReportedTokenSettlement outcome \<longleftrightarrow>
     us_Known (oc_Usage outcome) \<and>
     (oc_Status outcome = ''succeeded'' \<or>
      (case oc_Diagnostics outcome of
         None \<Rightarrow> False
       | Some d \<Rightarrow> ad_AccountingPolicy d = ReportedUsageAccountingV1))"

definition rejectedUsageProvenanceKey :: "string \<Rightarrow> string \<Rightarrow> string" where
  "rejectedUsageProvenanceKey attemptID metric = ''quota-attempt:'' @ attemptID @ '':rejected-'' @ metric"

definition sameAttemptDiagnostics :: "attemptDiagnostics option \<Rightarrow> attemptDiagnostics option \<Rightarrow> bool" where
  "sameAttemptDiagnostics left right =
     (case (left, right) of
        (Some l, Some r) \<Rightarrow> l = r
      | (None, None) \<Rightarrow> True
      | _ \<Rightarrow> False)"

text \<open>Sample outcomes: a lost connection without a measurement, and a prompt the provider rejected.\<close>

definition lostOutcome :: attemptOutcome where
  "lostOutcome = \<lparr>oc_Status = ''failed'', oc_HTTPStatus = 0, oc_FailureCode = ''upstream_unavailable'',
     oc_Usage = \<lparr>us_InputTokens = 0, us_OutputTokens = 0, us_TotalTokens = 0, us_Known = False, us_Provenance = []\<rparr>,
     oc_Cost = noCost UnknownCostConfidence, oc_Diagnostics = None\<rparr>"

definition lostResult :: attemptOutcome where
  "lostResult = lostOutcome\<lparr>oc_Usage := usageNormalized (oc_Usage lostOutcome), oc_Cost := noCost []\<rparr>"

definition rejectedDiagnostics :: attemptDiagnostics where
  "rejectedDiagnostics = \<lparr>ad_AccountingPolicy = ProviderRejectionAccountingV1,
     ad_ProviderError = emptyDiagnostics\<lparr>pe_Category := ''invalid_prompt''\<rparr>\<rparr>"

definition rejectedOutcome :: attemptOutcome where
  "rejectedOutcome = lostOutcome\<lparr>oc_HTTPStatus := 400, oc_FailureCode := ''upstream_request_rejected'',
     oc_Diagnostics := Some rejectedDiagnostics\<rparr>"

section \<open>Lemmas\<close>

definition usage_typed :: "usage \<Rightarrow> bool" where
  "usage_typed u \<longleftrightarrow> in64 (us_InputTokens u) \<and> in64 (us_OutputTokens u) \<and> in64 (us_TotalTokens u)"

lemma usageValidate_exact:
  assumes "usageValidate u = Inr ()" "us_Known u" "usage_typed u"
  shows "us_TotalTokens u = us_InputTokens u + us_OutputTokens u \<and> 0 \<le> us_InputTokens u \<and> 0 \<le> us_OutputTokens u"
proof -
  have "0 \<le> us_InputTokens u" "0 \<le> us_OutputTokens u" "us_InputTokens u \<le> sub64 max_int64 (us_OutputTokens u)"
    "us_TotalTokens u = add64 (us_InputTokens u) (us_OutputTokens u)"
    using assms(1,2) by (auto simp: usageValidate_def split: if_splits)
  then show ?thesis using assms(3) by (simp add: go_arith usage_typed_def in64_def)
qed

lemma usageValidate_normalized: "usageValidate u = Inr () \<Longrightarrow> usageValidate (usageNormalized u) = Inr ()"
  by (auto simp: usageValidate_def usageNormalized_def split: if_splits)

lemma usageNormalized_idem [simp]: "usageNormalized (usageNormalized u) = usageNormalized u"
  by (simp add: usageNormalized_def)

lemma usageNormalized_known [simp]: "us_Known (usageNormalized u) = us_Known u"
  by (simp add: usageNormalized_def)

lemma costValidate_none: "costValidate (noCost []) = Inr ()" "costValidate (noCost UnknownCostConfidence) = Inr ()"
  by (simp_all add: costValidate_def noCost_def)

text \<open>Replacing the measurements by normal forms keeps an outcome valid.\<close>

lemma outcomeValidate_normal:
  assumes "outcomeValidate outcome = Inr ()" "costValidate c = Inr ()"
    "c = oc_Cost outcome \<or> \<not> co_Known c \<and> \<not> co_Known (oc_Cost outcome)"
  shows "outcomeValidate (outcome\<lparr>oc_Usage := usageNormalized (oc_Usage outcome), oc_Cost := c\<rparr>) = Inr ()"
proof -
  have v: "oc_Status outcome \<in> set [''succeeded'', ''failed'', ''cancelled'', ''timed_out'']"
    "\<not> (oc_HTTPStatus outcome \<noteq> 0 \<and> (oc_HTTPStatus outcome < 100 \<or> oc_HTTPStatus outcome > 599))"
    "\<not> (oc_Status outcome = ''succeeded'' \<and> (oc_FailureCode outcome \<noteq> [] \<or> oc_HTTPStatus outcome < 200 \<or> oc_HTTPStatus outcome > 299))"
    "\<not> (oc_Status outcome \<noteq> ''succeeded'' \<and> \<not> failureCodePattern (oc_FailureCode outcome))"
    "usageValidate (oc_Usage outcome) = Inr ()"
    "\<not> (co_Known (oc_Cost outcome) \<and> co_Confidence (oc_Cost outcome) = CalculatedCostConfidence \<and> \<not> us_Known (oc_Usage outcome))"
    "validateAttemptDiagnostics outcome = Inr ()"
    using assms(1) by (auto simp: outcomeValidate_def is_ok_iff split: if_splits)
  let ?r = "outcome\<lparr>oc_Usage := usageNormalized (oc_Usage outcome), oc_Cost := c\<rparr>"
  have k: "co_Known c = co_Known (oc_Cost outcome)" using assms(3) by auto
  have "validateAttemptDiagnostics ?r = validateAttemptDiagnostics outcome"
    by (cases "oc_Diagnostics outcome") (simp_all add: validateAttemptDiagnostics_def k)
  moreover have "usageValidate (oc_Usage ?r) = Inr ()" using usageValidate_normalized [OF v(5)] by simp
  moreover have "\<not> (co_Known c \<and> co_Confidence c = CalculatedCostConfidence \<and> \<not> us_Known (usageNormalized (oc_Usage outcome)))"
    using v(6) assms(3) by auto
  ultimately show ?thesis using v assms(2) by (simp add: outcomeValidate_def)
qed

definition normalCost :: "selectedPricing \<Rightarrow> cost \<Rightarrow> cost" where
  "normalCost pricing c =
     (if co_Known c then c else noCost (if pricingPresent pricing then UnknownCostConfidence else []))"

lemma normalCost_idem [simp]: "normalCost pricing (normalCost pricing c) = normalCost pricing c"
  by (simp add: normalCost_def noCost_def)

lemma normalCost_known [simp]: "co_Known (normalCost pricing c) = co_Known c"
  by (simp add: normalCost_def noCost_def)

lemma normalizeOutcome_Inr:
  "normalizeOutcomeForPricing outcome pricing = Inr result \<longleftrightarrow>
     outcomeValidate outcome = Inr () \<and> pricingValidate pricing = Inr () \<and>
     (pricingPresent pricing \<or> \<not> co_Known (oc_Cost outcome) \<or> co_Confidence (oc_Cost outcome) = ProviderReportedCostConfidence) \<and>
     result = outcome\<lparr>oc_Usage := usageNormalized (oc_Usage outcome), oc_Cost := normalCost pricing (oc_Cost outcome)\<rparr>"
  by (cases outcome) (auto simp: normalizeOutcomeForPricing_def is_ok_iff normalCost_def Let_def split: if_splits)



text \<open>
  C40. The two settlement policies exclude each other: a valid outcome that the provider rejected
  before generating is a failed call with status 400 and a category that the upstream package
  accepts as a rejection; it reports neither usage nor cost and is never settled by reported
  usage.
\<close>

theorem rejection_excludes_reported_usage:
  assumes "outcomeValidate outcome = Inr ()" "oc_Diagnostics outcome = Some d" "providerRejectedBeforeGeneration outcome"
  shows "\<not> usesReportedTokenSettlement outcome \<and> oc_Status outcome = ''failed'' \<and>
    \<not> us_Known (oc_Usage outcome) \<and> \<not> co_Known (oc_Cost outcome) \<and>
    AllowsPreGenerationRejection (ad_ProviderError d) (oc_HTTPStatus outcome)"
proof -
  have "validateAttemptDiagnostics outcome = Inr ()"
    using assms(1) by (auto simp: outcomeValidate_def is_ok_iff split: if_splits)
  then show ?thesis
    using assms(2,3)
    by (auto simp: validateAttemptDiagnostics_def providerRejectedBeforeGeneration_def usesReportedTokenSettlement_def
        AllowsPreGenerationRejection_def preGenerationInvalidCategory_def outcome_constants split: if_splits)
qed

theorem rejection_excludes_reported_usage_witness:
  "outcomeValidate rejectedOutcome = Inr () \<and> providerRejectedBeforeGeneration rejectedOutcome \<and>
     \<not> usesReportedTokenSettlement rejectedOutcome"
proof -
  have v: "outcomeValidate rejectedOutcome = Inr ()" by code_simp
  have d: "oc_Diagnostics rejectedOutcome = Some rejectedDiagnostics" by (simp add: rejectedOutcome_def)
  have p: "providerRejectedBeforeGeneration rejectedOutcome" by code_simp
  show ?thesis using rejection_excludes_reported_usage [OF v d p] v p by simp
qed

end
