(* ===== verification/Quota_Plan.thy ===== *)
theory Quota_Plan
  imports Quota_Outcome
begin

text \<open>
  What one reservation intends to do (\<open>src/internal/quota/store.go\<close>, \<open>model.go\<close> and
  \<open>lifecycle.go\<close>): the planned buckets of a request, the identifiers they receive, the decision over
  locked buckets, the denial that is reported and the decision stages that record it.  Everything here
  is a function of values; the tables are in \<open>Quota_Tables\<close>.
\<close>

section \<open>Plans\<close>

definition validReservationEntryUnits :: "string \<Rightarrow> string \<Rightarrow> int \<Rightarrow> bool" where
  "validReservationEntryUnits metric algorithm units =
     (if \<not> isStatefulRule metric algorithm \<or> units < 0 then False
      else if metric = CostNanoUSDMetric then algorithm = CalendarAlgorithm
      else if units = 0 then False
      else if metric = LogicalRequestsMetric \<or> metric = UpstreamAttemptsMetric \<or> isConcurrencyMetric metric
      then units = 1
      else if algorithm = TokenBucketAlgorithm then units \<le> maximumTokenCapacity
      else True)"

text \<open>The columns that a locked bucket row is scanned into; a null column is \<open>None\<close>.\<close>

record lockedBucket =
  lb_id :: string
  lb_hardMaximum :: "int option"
  lb_used :: int
  lb_reserved :: int
  lb_available :: "int option"
  lb_refillNumerator :: "int option"
  lb_refillDenominator :: "int option"
  lb_refilledAt :: "gotime option"
  lb_version :: int
  lb_scopeType :: string
  lb_scopeDimensions :: "string list"

definition noLockedBucket :: lockedBucket where
  "noLockedBucket =
     \<lparr>lb_id = [], lb_hardMaximum = None, lb_used = 0, lb_reserved = 0, lb_available = None,
      lb_refillNumerator = None, lb_refillDenominator = None, lb_refilledAt = None, lb_version = 0,
      lb_scopeType = [], lb_scopeDimensions = []\<rparr>"

definition noTokenState :: tokenBucketState where
  "noTokenState = \<lparr>capacity = 0, balance = 0, numerator = 0, denominator = 0, refilledAt = GoTime 0 0\<rparr>"

record plannedBucket =
  pl_rule :: preparedRule
  pl_period :: calendarPeriod
  pl_reservedUnits :: int
  pl_bucketID :: string
  pl_entryID :: string
  pl_leaseID :: string
  pl_locked :: lockedBucket
  pl_tokenState :: tokenBucketState
  pl_retryAt :: gotime

definition openPeriod :: "string \<Rightarrow> calendarPeriod" where
  "openPeriod key = \<lparr>period_key = key, period_start = GoTime 0 0, period_end = GoTime 0 0\<rparr>"

definition newPlan :: "preparedRule \<Rightarrow> calendarPeriod \<Rightarrow> int \<Rightarrow> plannedBucket" where
  "newPlan rule period units =
     \<lparr>pl_rule = rule, pl_period = period, pl_reservedUnits = units, pl_bucketID = [], pl_entryID = [],
      pl_leaseID = [], pl_locked = noLockedBucket, pl_tokenState = noTokenState, pl_retryAt = GoTime 0 0\<rparr>"

definition planPeriod :: "(string \<Rightarrow> location option) \<Rightarrow> gotime \<Rightarrow> preparedRule \<Rightarrow> quota_error + calendarPeriod" where
  "planPeriod LoadLocation at rule =
     (if isConcurrencyMetric (rule_Metric rule) then Inr (openPeriod ''active'')
      else if rule_Algorithm rule = TokenBucketAlgorithm then Inr (openPeriod ''rolling'')
      else calendarWindowIn LoadLocation at (rule_Window rule) (rule_Timezone rule))"

fun planRules ::
    "(string \<Rightarrow> location option) \<Rightarrow> bool \<Rightarrow> gotime \<Rightarrow> preparedRule list \<Rightarrow> quota_error + plannedBucket list" where
  "planRules LoadLocation streaming at [] = Inr []"
| "planRules LoadLocation streaming at (rule # rules) =
     (if \<not> stateful rule then planRules LoadLocation streaming at rules
      else let (units, applicable) = ProjectedReservationUnits rule streaming in
        if \<not> applicable then planRules LoadLocation streaming at rules
        else andThen (planPeriod LoadLocation at rule) (\<lambda>period.
          if \<not> validReservationEntryUnits (rule_Metric rule) (rule_Algorithm rule) units then Inl ErrInvalidInput
          else andThen (planRules LoadLocation streaming at rules) (\<lambda>plans. Inr (newPlan rule period units # plans))))"

definition plannedBucketsAt ::
    "(string \<Rightarrow> location option) \<Rightarrow> preparedRequest \<Rightarrow> gotime \<Rightarrow> quota_error + plannedBucket list" where
  "plannedBucketsAt LoadLocation prepared at =
     (if length (prepared_rules prepared) < 1 \<or> 128 < length (prepared_rules prepared) then Inl ErrInvalidInput
      else planRules LoadLocation (in_Streaming prepared) at (prepared_rules prepared))"

definition concurrencyPlanCount :: "plannedBucket list \<Rightarrow> nat" where
  "concurrencyPlanCount plans = length (filter (\<lambda>plan. isConcurrencyMetric (rule_Metric (pl_rule plan))) plans)"

section \<open>Identifiers\<close>

text \<open>The identifier source is a configured function; its state is threaded through the calls.\<close>

type_synonym 'g identifierSource = "string \<Rightarrow> 'g \<Rightarrow> (quota_error + string) \<times> 'g"

record reserveIDs =
  ri_reservation :: string
  ri_buckets :: "string list"
  ri_entries :: "string list"
  ri_leases :: "string list"

fun generateIDs :: "'g identifierSource \<Rightarrow> string \<Rightarrow> nat \<Rightarrow> 'g \<Rightarrow> (quota_error + string list) \<times> 'g" where
  "generateIDs source prefix 0 g = (Inr [], g)"
| "generateIDs source prefix (Suc n) g =
     (case source prefix g of
        (Inl e, g) \<Rightarrow> (Inl e, g)
      | (Inr value, g) \<Rightarrow>
          case generateIDs source prefix n g of
            (Inl e, g) \<Rightarrow> (Inl e, g)
          | (Inr values, g) \<Rightarrow> (Inr (value # values), g))"

definition newReserveIDs :: "'g identifierSource \<Rightarrow> nat \<Rightarrow> nat \<Rightarrow> 'g \<Rightarrow> (quota_error + reserveIDs) \<times> 'g" where
  "newReserveIDs source ruleCount concurrencyCount g =
     (if 128 < ruleCount \<or> ruleCount < concurrencyCount then (Inl ErrInvalidInput, g)
      else case generateIDs source ''qbk'' ruleCount g of
        (Inl e, g) \<Rightarrow> (Inl e, g)
      | (Inr buckets, g) \<Rightarrow>
          (case source ''qrs'' g of
             (Inl e, g) \<Rightarrow> (Inl e, g)
           | (Inr reservationID, g) \<Rightarrow>
               (case generateIDs source ''qre'' ruleCount g of
                  (Inl e, g) \<Rightarrow> (Inl e, g)
                | (Inr entries, g) \<Rightarrow>
                    (case generateIDs source ''cls'' concurrencyCount g of
                       (Inl e, g) \<Rightarrow> (Inl e, g)
                     | (Inr leases, g) \<Rightarrow>
                         (Inr \<lparr>ri_reservation = reservationID, ri_buckets = buckets, ri_entries = entries,
                               ri_leases = leases\<rparr>, g)))))"

text \<open>Bucket and entry identifiers go to the plans in order; every concurrency plan takes the next lease
  identifier.\<close>

fun assignIDs :: "plannedBucket list \<Rightarrow> string list \<Rightarrow> string list \<Rightarrow> string list \<Rightarrow> plannedBucket list" where
  "assignIDs (plan # plans) (bucket # buckets) (entry # entries) leases =
     (if isConcurrencyMetric (rule_Metric (pl_rule plan)) then
        plan\<lparr>pl_bucketID := bucket, pl_entryID := entry, pl_leaseID := hd leases\<rparr>
          # assignIDs plans buckets entries (tl leases)
      else plan\<lparr>pl_bucketID := bucket, pl_entryID := entry\<rparr> # assignIDs plans buckets entries leases)"
| "assignIDs _ _ _ _ = []"

section \<open>The decision over locked buckets\<close>

definition tokenStateFromLockedBucket :: "lockedBucket \<Rightarrow> quota_error + tokenBucketState" where
  "tokenStateFromLockedBucket bucket =
     (case (lb_hardMaximum bucket, lb_available bucket, lb_refillNumerator bucket, lb_refillDenominator bucket,
            lb_refilledAt bucket) of
        (Some hardMaximum, Some available, Some refillNumerator, Some refillDenominator, Some at) \<Rightarrow>
          if lb_used bucket \<noteq> 0 \<or> lb_reserved bucket \<noteq> 0 \<or> lb_version bucket < 0 then Inl ErrInvalidState
          else let state = \<lparr>capacity = hardMaximum, balance = available, numerator = refillNumerator,
                            denominator = refillDenominator, refilledAt = at\<rparr> in
            if \<not> is_ok (validatePersistedTokenBucket state) then Inl ErrInvalidState else Inr state
      | _ \<Rightarrow> Inl ErrInvalidState)"

datatype planVerdict = Admitted | QuotaExceeded | ConcurrencyExceeded

text \<open>One turn of the decision loop: the plan with its reconciled token state, and the verdict.\<close>

definition decidePlan :: "gotime \<Rightarrow> plannedBucket \<Rightarrow> quota_error + plannedBucket \<times> planVerdict" where
  "decidePlan decisionAt plan =
     (let rule = pl_rule plan; bucket = pl_locked plan in
      if rule_Algorithm rule = TokenBucketAlgorithm then
        andThen (tokenStateFromLockedBucket bucket) (\<lambda>stored.
        andThen (reconcileTokenBucket stored (rule_Capacity rule) (rule_RefillNumerator rule)
                   (rule_RefillDenominator rule) decisionAt) (\<lambda>reconciled.
        andThen (tokenRetryAt reconciled (pl_reservedUnits plan) decisionAt) (\<lambda>retryAt.
        andThen (reserveTokenBalance reconciled (pl_reservedUnits plan)) (\<lambda>(_, accepted).
        Inr (plan\<lparr>pl_tokenState := reconciled, pl_retryAt := retryAt\<rparr>,
             if accepted then Admitted else QuotaExceeded)))))
      else if lb_hardMaximum bucket = None \<or> lb_used bucket < 0 \<or> lb_reserved bucket < 0 \<or>
              \<not> validReservationEntryUnits (rule_Metric rule) (rule_Algorithm rule) (pl_reservedUnits plan) \<or>
              lb_used bucket > sub64 max_int64 (lb_reserved bucket) \<or>
              isConcurrencyMetric (rule_Metric rule) \<and> lb_used bucket \<noteq> 0
      then Inl ErrInvalidState
      else let occupancy = add64 (lb_used bucket) (lb_reserved bucket) in
        if rule_Maximum rule < occupancy \<or> sub64 (rule_Maximum rule) occupancy < pl_reservedUnits plan
        then Inr (plan, if isConcurrencyMetric (rule_Metric rule) then ConcurrencyExceeded else QuotaExceeded)
        else Inr (plan, Admitted))"

fun decidePlans :: "gotime \<Rightarrow> plannedBucket list \<Rightarrow> quota_error + (plannedBucket \<times> planVerdict) list" where
  "decidePlans decisionAt [] = Inr []"
| "decidePlans decisionAt (plan # plans) =
     andThen (decidePlan decisionAt plan) (\<lambda>decided.
     andThen (decidePlans decisionAt plans) (\<lambda>rest. Inr (decided # rest)))"

definition planRetryAt :: "plannedBucket \<Rightarrow> gotime" where
  "planRetryAt plan =
     (if rule_Algorithm (pl_rule plan) = TokenBucketAlgorithm then pl_retryAt plan else period_end (pl_period plan))"

definition ruleBefore :: "plannedBucket \<Rightarrow> plannedBucket \<Rightarrow> bool" where
  "ruleBefore candidate current \<longleftrightarrow>
     ruleKey (pl_rule candidate) < ruleKey (pl_rule current) \<or>
     ruleKey (pl_rule candidate) = ruleKey (pl_rule current) \<and> scopeKey (pl_rule candidate) < scopeKey (pl_rule current)"

definition laterDenial :: "plannedBucket \<Rightarrow> plannedBucket \<Rightarrow> plannedBucket" where
  "laterDenial current candidate =
     (if planRetryAt current < planRetryAt candidate \<or>
         planRetryAt candidate = planRetryAt current \<and> ruleBefore candidate current
      then candidate else current)"

definition exceededErrorOf :: "string \<Rightarrow> plannedBucket \<Rightarrow> plannedBucket list \<Rightarrow> exceededError" where
  "exceededErrorOf logicalRequestID first rest =
     (let plan = foldl laterDenial first rest in
      if rule_Algorithm (pl_rule plan) = TokenBucketAlgorithm then
        \<lparr>exc_logicalRequestID = logicalRequestID, exc_retryAt = pl_retryAt plan, exc_maximum = rule_Capacity (pl_rule plan),
         exc_used = sub64 (rule_Capacity (pl_rule plan)) (quot64 (balance (pl_tokenState plan)) tokenBalanceScale),
         exc_reserved = 0, exc_metric = rule_Metric (pl_rule plan), exc_requestBound = False\<rparr>
      else
        \<lparr>exc_logicalRequestID = logicalRequestID, exc_retryAt = period_end (pl_period plan),
         exc_maximum = rule_Maximum (pl_rule plan), exc_used = lb_used (pl_locked plan),
         exc_reserved = lb_reserved (pl_locked plan), exc_metric = rule_Metric (pl_rule plan), exc_requestBound = False\<rparr>)"

record concurrencyExceededError =
  cxe_logicalRequestID :: string
  cxe_maximum :: int
  cxe_active :: int

definition concurrencyExceededErrorOf :: "string \<Rightarrow> plannedBucket \<Rightarrow> plannedBucket list \<Rightarrow> concurrencyExceededError" where
  "concurrencyExceededErrorOf logicalRequestID first rest =
     (let plan = foldl (\<lambda>current candidate. if ruleBefore candidate current then candidate else current) first rest in
      \<lparr>cxe_logicalRequestID = logicalRequestID, cxe_maximum = rule_Maximum (pl_rule plan),
       cxe_active = lb_reserved (pl_locked plan)\<rparr>)"

section \<open>The reservation handed to the caller\<close>

record reservationEntry =
  re_bucketID :: string
  re_entryID :: string
  re_leaseID :: string
  re_metric :: string
  re_algorithm :: string
  re_costRetryTreatment :: string
  re_reservedUnits :: int
  re_resetAt :: gotime

definition reservationEntries :: "plannedBucket list \<Rightarrow> reservationEntry list" where
  "reservationEntries plans =
     map (\<lambda>plan. \<lparr>re_bucketID = lb_id (pl_locked plan), re_entryID = pl_entryID plan, re_leaseID = pl_leaseID plan,
       re_metric = rule_Metric (pl_rule plan), re_algorithm = rule_Algorithm (pl_rule plan),
       re_costRetryTreatment = rule_CostRetryTreatment (pl_rule plan), re_reservedUnits = pl_reservedUnits plan,
       re_resetAt = period_end (pl_period plan)\<rparr>) plans"

definition maximumResetAt :: "reservationEntry list \<Rightarrow> gotime" where
  "maximumResetAt entries =
     foldl (\<lambda>maximum entry. if maximum < re_resetAt entry then re_resetAt entry else maximum) (GoTime 0 0) entries"

section \<open>Decision stages\<close>

definition decisionLimitMaximum :: "preparedRule \<Rightarrow> int" where
  "decisionLimitMaximum rule =
     (if rule_Algorithm rule = TokenBucketAlgorithm then rule_Capacity rule
      else if rule_Algorithm rule = PerRequestAlgorithm then rule_PerRequestMaximum rule
      else rule_Maximum rule)"

definition ruleStage :: "preparedRequest \<Rightarrow> gotime \<Rightarrow> gotime \<Rightarrow> string list \<Rightarrow> string \<Rightarrow> preparedRule \<Rightarrow> DecisionStage" where
  "ruleStage input startedAt completedAt deniedRuleKeys failureCode rule =
     (let denied = ruleKey rule \<in> set deniedRuleKeys in
      \<lparr>ds_Stage = ''quota_rule_evaluated'', ds_Outcome = (if denied then ''denied'' else ''succeeded''),
       ds_FailureCode = (if denied then failureCode else []), ds_StartedAt = startedAt, ds_CompletedAt = completedAt,
       ds_PolicyRuleKey = [], ds_LimitPlanKey = in_LimitPlanKey input, ds_LimitRuleKey = ruleKey rule,
       ds_LimitMetric = rule_Metric rule, ds_LimitAlgorithm = rule_Algorithm rule,
       ds_LimitMaximum = decisionLimitMaximum rule, ds_HasLimitMaximum = True, ds_RouteKey = [], ds_UpstreamKey = [],
       ds_ModelKey = [], ds_PhysicalModel = []\<rparr>)"

definition quotaDecisionStages ::
    "preparedRequest \<Rightarrow> gotime \<Rightarrow> gotime \<Rightarrow> string list \<Rightarrow> string list \<Rightarrow> string \<Rightarrow> DecisionStage list" where
  "quotaDecisionStages input startedAt completedAt evaluatedRuleKeys deniedRuleKeys failureCode =
     map (ruleStage input startedAt completedAt deniedRuleKeys failureCode)
       (filter (\<lambda>rule. ruleKey rule \<in> set evaluatedRuleKeys) (prepared_rules input)) @
     [\<lparr>ds_Stage = ''quota_reserved'', ds_Outcome = (if failureCode \<noteq> [] then ''denied'' else ''succeeded''),
       ds_FailureCode = failureCode, ds_StartedAt = startedAt, ds_CompletedAt = completedAt,
       ds_PolicyRuleKey = [], ds_LimitPlanKey = in_LimitPlanKey input, ds_LimitRuleKey = [],
       ds_LimitMetric = [], ds_LimitAlgorithm = [], ds_LimitMaximum = 0, ds_HasLimitMaximum = False,
       ds_RouteKey = in_RouteKey input, ds_UpstreamKey = in_UpstreamKey input,
       ds_ModelKey = in_ModelKey input, ds_PhysicalModel = in_PhysicalModel input\<rparr>]"

text \<open>Sets of rule keys are lists that are only tested for membership.\<close>

definition requestBoundEvaluatedRuleKeySet :: "preparedRule list \<Rightarrow> string list" where
  "requestBoundEvaluatedRuleKeySet rules =
     map ruleKey (filter (\<lambda>rule. rule_Algorithm rule = PerRequestAlgorithm \<or>
       rule_Algorithm rule = TokenBucketAlgorithm \<and> rule_Metric rule \<noteq> LogicalRequestsMetric) rules)"

definition evaluatedReservationRuleKeySet :: "preparedRule list \<Rightarrow> plannedBucket list \<Rightarrow> string list" where
  "evaluatedReservationRuleKeySet rules plans =
     requestBoundEvaluatedRuleKeySet rules @ map (\<lambda>plan. ruleKey (pl_rule plan)) plans"

definition deniedRuleKeySet :: "preparedRule list \<Rightarrow> string list" where
  "deniedRuleKeySet rules = map ruleKey rules"

definition deniedPlanRuleKeySet :: "(plannedBucket \<times> planVerdict) list \<Rightarrow> string list" where
  "deniedPlanRuleKeySet decided =
     map (\<lambda>(plan, _). ruleKey (pl_rule plan)) (filter (\<lambda>(_, verdict). verdict \<noteq> Admitted) decided)"

end
