(* ===== verification/Quota_Tables.thy ===== *)
theory Quota_Tables
  imports Quota_Plan
begin

text \<open>
  The PostgreSQL tables the quota store works on, as lists of rows, and one definition per SQL statement
  of a reservation.  A transaction is a function from the tables to new tables or an error; an error
  discards the transaction, so the tables stay as they were.  Rows are locked before they are read for a
  decision (\<open>SELECT ... FOR UPDATE\<close> in identifier order), so a transaction is one atomic step on the rows
  it touches.  Arithmetic on \<open>bigint\<close> columns does not wrap.  The columns \<open>created_at\<close> and \<open>updated_at\<close> of
  buckets, foreign keys to tables outside the quota package and failures of the connection, which end a
  transaction without a commit, are left out.
\<close>

section \<open>Rows\<close>

record bucketRow =
  bk_id :: string
  bk_organizationID :: string
  bk_applicationID :: string
  bk_environmentID :: string
  bk_limitPlanKey :: string
  bk_ruleKey :: string
  bk_metric :: string
  bk_scopeType :: string
  bk_scopeDimensions :: "string list"
  bk_scopeKey :: string
  bk_algorithm :: string
  bk_windowKey :: string
  bk_hardMaximum :: "int option"
  bk_usedUnits :: int
  bk_reservedUnits :: int
  bk_availableUnits :: "int option"
  bk_refillNumerator :: "int option"
  bk_refillDenominator :: "int option"
  bk_refilledAt :: "gotime option"
  bk_version :: int

record reservationRow =
  qr_id :: string
  qr_organizationID :: string
  qr_applicationID :: string
  qr_environmentID :: string
  qr_logicalRequestID :: string
  qr_idempotencyKey :: string
  qr_status :: string
  qr_createdAt :: gotime
  qr_expiresAt :: gotime
  qr_settledAt :: "gotime option"
  qr_releasedAt :: "gotime option"

record entryRow =
  qe_id :: string
  qe_organizationID :: string
  qe_applicationID :: string
  qe_environmentID :: string
  qe_reservationID :: string
  qe_bucketID :: string
  qe_originAttemptNumber :: int
  qe_initialReservedUnits :: int
  qe_reservedUnits :: int
  qe_settledUnits :: int
  qe_releasedUnits :: int
  qe_costRetryTreatment :: string

record leaseRow =
  cl_id :: string
  cl_organizationID :: string
  cl_applicationID :: string
  cl_environmentID :: string
  cl_bucketID :: string
  cl_logicalRequestID :: string
  cl_acquiredAt :: gotime
  cl_expiresAt :: gotime
  cl_releasedAt :: "gotime option"

record logicalRow =
  lr_id :: string
  lr_organizationID :: string
  lr_applicationID :: string
  lr_environmentID :: string
  lr_applicationUserID :: string
  lr_installationID :: string
  lr_installationFamilyID :: "string option"
  lr_clientComponentID :: "string option"
  lr_componentDefinitionID :: "string option"
  lr_componentKind :: "string option"
  lr_trustSource :: "string option"
  lr_sessionGrantID :: string
  lr_configRevisionID :: string
  lr_featureKey :: string
  lr_limitPlanKey :: string
  lr_routeKey :: "string option"
  lr_upstreamKey :: "string option"
  lr_modelKey :: "string option"
  lr_physicalModel :: "string option"
  lr_protocol :: string
  lr_clientRequestID :: "string option"
  lr_framework :: "string option"
  lr_frameworkVersion :: "string option"
  lr_callerSDK :: "string option"
  lr_fingerprint :: "string option"
  lr_status :: string
  lr_requestedAt :: gotime
  lr_dispatchedAt :: "gotime option"
  lr_completedAt :: "gotime option"
  lr_failureCode :: "string option"

record stageRow =
  st_organizationID :: string
  st_applicationID :: string
  st_environmentID :: string
  st_logicalRequestID :: string
  st_configRevisionID :: string
  st_number :: int
  st_stage :: DecisionStage

text \<open>What the code reads of an attempt is \<open>storedAttempt\<close>; the table has the tenant columns and the two
  columns that are only written besides.  The provider diagnostics, stored as a JSON document, are kept as
  the value they encode.\<close>

record storedAttempt =
  sa_id :: string
  sa_number :: int
  sa_routeKey :: string
  sa_upstreamKey :: string
  sa_physicalModel :: "string option"
  sa_modelKey :: "string option"
  sa_status :: string
  sa_firstByteAt :: "gotime option"
  sa_completedAt :: "gotime option"
  sa_httpStatus :: "int option"
  sa_failureCode :: "string option"
  sa_billedCost :: "int option"
  sa_currency :: "string option"
  sa_priceRevision :: "string option"
  sa_pricingSource :: "string option"
  sa_costConfidence :: "string option"
  sa_decisionBindingVersion :: int
  sa_decisionSHA256 :: "word8 list option"
  sa_perRequestOutputTokenBound :: "int option"
  sa_inputAccountingBindingVersion :: int
  sa_inputAccountingMethod :: "string option"
  sa_inputAccountingProfileID :: "string option"
  sa_inputAccountingProfileDigest :: "word8 list option"
  sa_rewrittenBodySHA256 :: "word8 list option"
  sa_inputTokenBound :: "int option"
  sa_outputTokenBound :: "int option"
  sa_totalTokenBound :: "int option"
  sa_requestMeasurementBindingVersion :: int
  sa_requestMeasurementSHA256 :: "word8 list option"
  sa_measuredRequestBytes :: "int option"
  sa_measuredImageUnits :: "int option"
  sa_measuredToolCalls :: "int option"

record attemptRow = storedAttempt +
  at_organizationID :: string
  at_applicationID :: string
  at_environmentID :: string
  at_logicalRequestID :: string
  at_startedAt :: gotime
  at_firstTokenAt :: "gotime option"
  at_inputAccountingBreakdown :: "inputAccountingBreakdown option"

record lockedAttemptQuotaEntry =
  aq_entryID :: string
  aq_bucketID :: string
  aq_metric :: string
  aq_allocated :: int
  aq_charged :: "int option"
  aq_released :: "int option"
  aq_settledAt :: "gotime option"

record attemptEntryRow = lockedAttemptQuotaEntry +
  ae_organizationID :: string
  ae_applicationID :: string
  ae_environmentID :: string
  ae_logicalRequestID :: string
  ae_attemptID :: string
  ae_reservationID :: string

record usageRow =
  ur_id :: string
  ur_organizationID :: string
  ur_applicationID :: string
  ur_environmentID :: string
  ur_logicalRequestID :: string
  ur_attemptID :: "string option"
  ur_metric :: string
  ur_units :: int
  ur_cost :: "int option"
  ur_currency :: "string option"
  ur_priceRevision :: "string option"
  ur_pricingSource :: "string option"
  ur_confidence :: string
  ur_provenance :: string
  ur_recordedAt :: gotime

record diagnosticsRow =
  dg_attemptID :: string
  dg_organizationID :: string
  dg_applicationID :: string
  dg_environmentID :: string
  dg_diagnostics :: attemptDiagnostics

record quotaDB =
  db_buckets :: "bucketRow list"
  db_reservations :: "reservationRow list"
  db_entries :: "entryRow list"
  db_leases :: "leaseRow list"
  db_logical :: "logicalRow list"
  db_stages :: "stageRow list"
  db_attempts :: "attemptRow list"
  db_attemptEntries :: "attemptEntryRow list"
  db_usage :: "usageRow list"
  db_diagnostics :: "diagnosticsRow list"

section \<open>Statements\<close>

text \<open>\<open>UPDATE\<close> with a check that exactly one row was affected, and \<open>INSERT\<close> into a table with unique keys.\<close>

definition sqlUpdate :: "('r \<Rightarrow> bool) \<Rightarrow> ('r \<Rightarrow> 'r) \<Rightarrow> 'r list \<Rightarrow> 'r list" where
  "sqlUpdate P f rows = map (\<lambda>row. if P row then f row else row) rows"

definition updateOne :: "('r \<Rightarrow> bool) \<Rightarrow> ('r \<Rightarrow> 'r) \<Rightarrow> 'r list \<Rightarrow> quota_error + 'r list" where
  "updateOne P f rows = (if length (filter P rows) \<noteq> 1 then Inl ErrInvalidState else Inr (sqlUpdate P f rows))"

definition insertRow :: "('r \<Rightarrow> bool) \<Rightarrow> 'r \<Rightarrow> 'r list \<Rightarrow> quota_error + 'r list" where
  "insertRow clash row rows = (if list_ex clash rows then Inl ErrInvalidState else Inr (rows @ [row]))"

definition nullableString :: "string \<Rightarrow> string option" where
  "nullableString s = (if s = [] then None else Some s)"

subsection \<open>Buckets\<close>

definition sameBucket :: "preparedRequest \<Rightarrow> plannedBucket \<Rightarrow> bucketRow \<Rightarrow> bool" where
  "sameBucket prepared plan row \<longleftrightarrow>
     bk_environmentID row = in_EnvironmentID prepared \<and> bk_limitPlanKey row = in_LimitPlanKey prepared \<and>
     bk_ruleKey row = ruleKey (pl_rule plan) \<and> bk_metric row = rule_Metric (pl_rule plan) \<and>
     bk_algorithm row = rule_Algorithm (pl_rule plan) \<and> bk_windowKey row = period_key (pl_period plan) \<and>
     bk_scopeKey row = scopeKey (pl_rule plan)"

definition newBucketRow :: "preparedRequest \<Rightarrow> plannedBucket \<Rightarrow> gotime \<Rightarrow> quota_error + bucketRow" where
  "newBucketRow prepared plan requestedAt =
     (let rule = pl_rule plan;
          row = \<lparr>bk_id = pl_bucketID plan, bk_organizationID = in_OrganizationID prepared,
            bk_applicationID = in_ApplicationID prepared, bk_environmentID = in_EnvironmentID prepared,
            bk_limitPlanKey = in_LimitPlanKey prepared, bk_ruleKey = ruleKey rule, bk_metric = rule_Metric rule,
            bk_scopeType = scopeType rule, bk_scopeDimensions = scopeDimensions rule, bk_scopeKey = scopeKey rule,
            bk_algorithm = rule_Algorithm rule, bk_windowKey = period_key (pl_period plan),
            bk_hardMaximum = Some (rule_Maximum rule), bk_usedUnits = 0, bk_reservedUnits = 0, bk_availableUnits = None,
            bk_refillNumerator = None, bk_refillDenominator = None, bk_refilledAt = None, bk_version = 0\<rparr> in
      if rule_Algorithm rule = TokenBucketAlgorithm then
        (case tokenCapacityBalance (rule_Capacity rule) of
           None \<Rightarrow> Inl ErrInvalidInput
         | Some maximumBalance \<Rightarrow>
             Inr (row\<lparr>bk_hardMaximum := Some (rule_Capacity rule), bk_availableUnits := Some maximumBalance,
               bk_refillNumerator := Some (rule_RefillNumerator rule),
               bk_refillDenominator := Some (rule_RefillDenominator rule), bk_refilledAt := Some requestedAt\<rparr>))
      else Inr row)"

text \<open>\<open>INSERT ... ON CONFLICT ON CONSTRAINT quota_buckets_identity_key DO NOTHING\<close>, once per plan.\<close>

definition materializeBucket :: "preparedRequest \<Rightarrow> plannedBucket \<Rightarrow> bucketRow \<Rightarrow> bucketRow list \<Rightarrow> quota_error + bucketRow list" where
  "materializeBucket prepared plan row rows =
     (if list_ex (sameBucket prepared plan) rows then Inr rows
      else insertRow (\<lambda>other. bk_id other = pl_bucketID plan) row rows)"

fun newBucketRows :: "preparedRequest \<Rightarrow> gotime \<Rightarrow> plannedBucket list \<Rightarrow> quota_error + (plannedBucket \<times> bucketRow) list" where
  "newBucketRows prepared requestedAt [] = Inr []"
| "newBucketRows prepared requestedAt (plan # plans) =
     andThen (newBucketRow prepared plan requestedAt) (\<lambda>row.
     andThen (newBucketRows prepared requestedAt plans) (\<lambda>rest. Inr ((plan, row) # rest)))"

fun materializeBuckets :: "preparedRequest \<Rightarrow> (plannedBucket \<times> bucketRow) list \<Rightarrow> bucketRow list \<Rightarrow> quota_error + bucketRow list" where
  "materializeBuckets prepared [] rows = Inr rows"
| "materializeBuckets prepared ((plan, row) # rest) rows =
     andThen (materializeBucket prepared plan row rows) (materializeBuckets prepared rest)"

definition materializePlannedBuckets ::
    "preparedRequest \<Rightarrow> plannedBucket list \<Rightarrow> gotime \<Rightarrow> quotaDB \<Rightarrow> quota_error + quotaDB" where
  "materializePlannedBuckets prepared plans requestedAt db =
     andThen (newBucketRows prepared requestedAt plans) (\<lambda>commands.
     andThen (materializeBuckets prepared commands (db_buckets db)) (\<lambda>rows. Inr (db\<lparr>db_buckets := rows\<rparr>)))"

fun findPlannedBucketIDs :: "preparedRequest \<Rightarrow> quotaDB \<Rightarrow> plannedBucket list \<Rightarrow> quota_error + plannedBucket list" where
  "findPlannedBucketIDs prepared db [] = Inr []"
| "findPlannedBucketIDs prepared db (plan # plans) =
     (case find (sameBucket prepared plan) (db_buckets db) of
        None \<Rightarrow> Inl ErrInvalidState
      | Some row \<Rightarrow>
          if \<not> validID (bk_id row) ''qbk'' then Inl ErrInvalidState
          else andThen (findPlannedBucketIDs prepared db plans) (\<lambda>rest. Inr (plan\<lparr>pl_bucketID := bk_id row\<rparr> # rest)))"

definition lockedBucketOf :: "bucketRow \<Rightarrow> lockedBucket" where
  "lockedBucketOf row =
     \<lparr>lb_id = bk_id row, lb_hardMaximum = bk_hardMaximum row, lb_used = bk_usedUnits row, lb_reserved = bk_reservedUnits row,
      lb_available = bk_availableUnits row, lb_refillNumerator = bk_refillNumerator row,
      lb_refillDenominator = bk_refillDenominator row, lb_refilledAt = bk_refilledAt row, lb_version = bk_version row,
      lb_scopeType = bk_scopeType row, lb_scopeDimensions = bk_scopeDimensions row\<rparr>"

definition scanLockedBucket :: "preparedRequest \<Rightarrow> plannedBucket \<Rightarrow> bucketRow option \<Rightarrow> quota_error + lockedBucket" where
  "scanLockedBucket prepared plan found =
     (case found of
        None \<Rightarrow> Inl ErrInvalidState
      | Some row \<Rightarrow>
          let result = lockedBucketOf row in
          if bk_organizationID row \<noteq> in_OrganizationID prepared \<or> bk_applicationID row \<noteq> in_ApplicationID prepared \<or>
             lb_id result \<noteq> pl_bucketID plan \<or> lb_scopeType result \<noteq> scopeType (pl_rule plan) \<or>
             lb_scopeDimensions result \<noteq> scopeDimensions (pl_rule plan) \<or> \<not> validID (lb_id result) ''qbk'' \<or>
             lb_version result < 0
          then Inl ErrInvalidState
          else if rule_Algorithm (pl_rule plan) = TokenBucketAlgorithm then
            andThen (tokenStateFromLockedBucket result) (\<lambda>_. Inr result)
          else if lb_available result \<noteq> None \<or> lb_refillNumerator result \<noteq> None \<or> lb_refillDenominator result \<noteq> None \<or>
                  lb_refilledAt result \<noteq> None
          then Inl ErrInvalidState
          else Inr result)"

fun lockPlannedBucketRows :: "preparedRequest \<Rightarrow> quotaDB \<Rightarrow> plannedBucket list \<Rightarrow> quota_error + plannedBucket list" where
  "lockPlannedBucketRows prepared db [] = Inr []"
| "lockPlannedBucketRows prepared db (plan # plans) =
     andThen (scanLockedBucket prepared plan
       (find (\<lambda>row. bk_id row = pl_bucketID plan \<and> sameBucket prepared plan row) (db_buckets db))) (\<lambda>bucket.
     andThen (lockPlannedBucketRows prepared db plans) (\<lambda>rest. Inr (plan\<lparr>pl_locked := bucket\<rparr> # rest)))"

fun adjacentSameBucket :: "plannedBucket list \<Rightarrow> bool" where
  "adjacentSameBucket (first # second # rest) \<longleftrightarrow>
     pl_bucketID first = pl_bucketID second \<or> adjacentSameBucket (second # rest)"
| "adjacentSameBucket _ \<longleftrightarrow> False"

definition lockPlannedBuckets :: "preparedRequest \<Rightarrow> quotaDB \<Rightarrow> plannedBucket list \<Rightarrow> quota_error + plannedBucket list" where
  "lockPlannedBuckets prepared db plans =
     (if 128 < length plans then Inl ErrInvalidInput
      else andThen (findPlannedBucketIDs prepared db plans) (\<lambda>plans.
        let plans = sort_key pl_bucketID plans in
        if adjacentSameBucket plans then Inl ErrInvalidState
        else lockPlannedBucketRows prepared db plans))"

end
