(* ===== verification/Request_Lifecycle.thy ===== *)
theory Request_Lifecycle
  imports Quota_Tables
begin

text \<open>
  The durable lifecycle of a logical request before its reservation
  (\<open>src/internal/quota/lifecycle.go\<close>): the row created after authentication, the append-only decision
  stages, the claim of the row by a reservation and the recovery of rows nobody advanced.
\<close>

section \<open>Decision stages\<close>

record authenticatedRequest =
  ar_organizationID :: string
  ar_applicationID :: string
  ar_environmentID :: string
  ar_logicalRequestID :: string
  ar_configRevisionID :: string

definition requestHandleForPrepared :: "preparedRequest \<Rightarrow> authenticatedRequest" where
  "requestHandleForPrepared input =
     \<lparr>ar_organizationID = in_OrganizationID input, ar_applicationID = in_ApplicationID input,
      ar_environmentID = in_EnvironmentID input, ar_logicalRequestID = in_LogicalRequestID input,
      ar_configRevisionID = in_ConfigRevisionID input\<rparr>"

abbreviation maximumDecisionStages :: int where
  "maximumDecisionStages \<equiv> 256"

definition stagesOf :: "string \<Rightarrow> stageRow list \<Rightarrow> stageRow list" where
  "stagesOf logicalRequestID rows = filter (\<lambda>row. st_logicalRequestID row = logicalRequestID) rows"

text \<open>\<open>COALESCE(max(stage_number), 0) + 1\<close>.\<close>

definition nextDecisionStage :: "string \<Rightarrow> stageRow list \<Rightarrow> int" where
  "nextDecisionStage logicalRequestID rows =
     (case map st_number (stagesOf logicalRequestID rows) of
        [] \<Rightarrow> 0
      | number # numbers \<Rightarrow> foldl max number numbers) + 1"

definition stageRowOf :: "authenticatedRequest \<Rightarrow> int \<Rightarrow> DecisionStage \<Rightarrow> stageRow" where
  "stageRowOf request number stage =
     \<lparr>st_organizationID = ar_organizationID request, st_applicationID = ar_applicationID request,
      st_environmentID = ar_environmentID request, st_logicalRequestID = ar_logicalRequestID request,
      st_configRevisionID = ar_configRevisionID request, st_number = number, st_stage = stage\<rparr>"

fun numberedStages :: "authenticatedRequest \<Rightarrow> int \<Rightarrow> DecisionStage list \<Rightarrow> stageRow list" where
  "numberedStages request next [] = []"
| "numberedStages request next (stage # stages) =
     stageRowOf request next stage # numberedStages request (next + 1) stages"

definition queueDecisionStages :: "authenticatedRequest \<Rightarrow> int \<Rightarrow> DecisionStage list \<Rightarrow> quota_error + stageRow list" where
  "queueDecisionStages request next stages =
     (if stages = [] then Inr []
      else if next < 1 \<or> next + int (length stages) - 1 > maximumDecisionStages then Inl ErrInvalidState
      else Inr (numberedStages request next stages))"

fun insertStages :: "stageRow list \<Rightarrow> stageRow list \<Rightarrow> quota_error + stageRow list" where
  "insertStages [] rows = Inr rows"
| "insertStages (new # news) rows =
     andThen (insertRow (\<lambda>row. st_logicalRequestID row = st_logicalRequestID new \<and> st_number row = st_number new) new rows)
       (insertStages news)"

definition appendDecisionStagesAt ::
    "authenticatedRequest \<Rightarrow> int \<Rightarrow> DecisionStage list \<Rightarrow> quotaDB \<Rightarrow> quota_error + quotaDB" where
  "appendDecisionStagesAt request next stages db =
     (if stages = [] then Inr db
      else andThen (queueDecisionStages request next stages) (\<lambda>queued.
           andThen (insertStages queued (db_stages db)) (\<lambda>rows. Inr (db\<lparr>db_stages := rows\<rparr>))))"

definition appendDecisionStages :: "authenticatedRequest \<Rightarrow> DecisionStage list \<Rightarrow> quotaDB \<Rightarrow> quota_error + quotaDB" where
  "appendDecisionStages request stages db =
     (if stages = [] then Inr db
      else appendDecisionStagesAt request (nextDecisionStage (ar_logicalRequestID request) (db_stages db)) stages db)"

definition planProvenanceExists :: "string \<Rightarrow> stageRow list \<Rightarrow> bool" where
  "planProvenanceExists logicalRequestID rows =
     list_ex (\<lambda>row. ds_LimitPlanKey (st_stage row) \<noteq> []) (stagesOf logicalRequestID rows)"

text \<open>The projection of a stage onto the logical row: the first plan and the first route are kept.\<close>

definition projectLimitPlan :: "authenticatedRequest \<Rightarrow> DecisionStage \<Rightarrow> quotaDB \<Rightarrow> quota_error + quotaDB" where
  "projectLimitPlan request stage db =
     (if ds_LimitPlanKey stage = [] then Inr db
      else andThen (updateOne
             (\<lambda>row. lr_id row = ar_logicalRequestID request \<and> lr_status row = ''authenticated'' \<and>
               (lr_limitPlanKey row = ds_LimitPlanKey stage \<or>
                lr_limitPlanKey row = ''legacy_unknown'' \<and> \<not> planProvenanceExists (lr_id row) (db_stages db)))
             (\<lambda>row. row\<lparr>lr_limitPlanKey := ds_LimitPlanKey stage\<rparr>) (db_logical db)) (\<lambda>rows.
           Inr (db\<lparr>db_logical := rows\<rparr>)))"

definition projectRoute :: "authenticatedRequest \<Rightarrow> DecisionStage \<Rightarrow> quotaDB \<Rightarrow> quota_error + quotaDB" where
  "projectRoute request stage db =
     (if ds_RouteKey stage = [] then Inr db
      else andThen (updateOne
             (\<lambda>row. lr_id row = ar_logicalRequestID request \<and> lr_status row = ''authenticated'' \<and>
               (lr_routeKey row = None \<or>
                lr_routeKey row = Some (ds_RouteKey stage) \<and> lr_upstreamKey row = Some (ds_UpstreamKey stage) \<and>
                lr_modelKey row = Some (ds_ModelKey stage) \<and> lr_physicalModel row = Some (ds_PhysicalModel stage)))
             (\<lambda>row. row\<lparr>lr_routeKey := Some (ds_RouteKey stage), lr_upstreamKey := Some (ds_UpstreamKey stage),
               lr_modelKey := Some (ds_ModelKey stage), lr_physicalModel := Some (ds_PhysicalModel stage)\<rparr>) (db_logical db)) (\<lambda>rows.
           Inr (db\<lparr>db_logical := rows\<rparr>)))"

definition projectDecisionStage :: "authenticatedRequest \<Rightarrow> DecisionStage \<Rightarrow> quotaDB \<Rightarrow> quota_error + quotaDB" where
  "projectDecisionStage request stage db =
     andThen (projectLimitPlan request stage db) (projectRoute request stage)"

fun projectDecisionStages :: "authenticatedRequest \<Rightarrow> DecisionStage list \<Rightarrow> quotaDB \<Rightarrow> quota_error + quotaDB" where
  "projectDecisionStages request [] db = Inr db"
| "projectDecisionStages request (stage # stages) db =
     andThen (projectDecisionStage request stage db) (projectDecisionStages request stages)"

section \<open>The authenticated request\<close>

record authenticatedInput =
  ai_LogicalRequestID :: string
  ai_OrganizationID :: string
  ai_ApplicationID :: string
  ai_EnvironmentID :: string
  ai_ApplicationUserID :: string
  ai_InstallationID :: string
  ai_InstallationFamilyID :: string
  ai_ClientComponentID :: string
  ai_ComponentDefinitionID :: string
  ai_ComponentKind :: string
  ai_TrustSource :: string
  ai_SessionGrantID :: string
  ai_ConfigRevisionID :: string
  ai_FeatureKey :: string
  ai_Protocol :: string
  ai_ClientRequestID :: string
  ai_Framework :: string
  ai_FrameworkVersion :: string
  ai_CallerSDK :: string

definition prepareAuthenticatedRequest :: "authenticatedInput \<Rightarrow> quota_error + authenticatedInput" where
  "prepareAuthenticatedRequest input =
     (if \<not> validID (ai_LogicalRequestID input) ''req'' \<or> \<not> validID (ai_OrganizationID input) ''org'' \<or>
         \<not> validID (ai_ApplicationID input) ''app'' \<or> \<not> validID (ai_EnvironmentID input) ''env'' \<or>
         \<not> validID (ai_ApplicationUserID input) ''usr'' \<or> \<not> validID (ai_InstallationID input) ''ins'' \<or>
         \<not> validID (ai_SessionGrantID input) ''sgr'' \<or> \<not> validID (ai_ConfigRevisionID input) ''rev'' \<or>
         \<not> validComponentAttribution (ai_InstallationFamilyID input) (ai_ClientComponentID input)
             (ai_ComponentDefinitionID input) (ai_ComponentKind input) (ai_TrustSource input) \<or>
         \<not> validFrameworkAttribution (ai_Framework input) (ai_FrameworkVersion input) \<or>
         \<not> validCallerSDK (ai_CallerSDK input) \<or> \<not> identifierPattern (ai_FeatureKey input) \<or>
         ai_Protocol input \<notin> set allowedProtocolValues \<or> \<not> validClientRequestID (ai_ClientRequestID input)
      then Inl ErrInvalidInput else Inr input)"

definition authenticatedRequestHandle :: "authenticatedInput \<Rightarrow> authenticatedRequest" where
  "authenticatedRequestHandle input =
     \<lparr>ar_organizationID = ai_OrganizationID input, ar_applicationID = ai_ApplicationID input,
      ar_environmentID = ai_EnvironmentID input, ar_logicalRequestID = ai_LogicalRequestID input,
      ar_configRevisionID = ai_ConfigRevisionID input\<rparr>"

definition authenticatedRow :: "authenticatedInput \<Rightarrow> gotime \<Rightarrow> logicalRow" where
  "authenticatedRow input now =
     \<lparr>lr_id = ai_LogicalRequestID input, lr_organizationID = ai_OrganizationID input,
      lr_applicationID = ai_ApplicationID input, lr_environmentID = ai_EnvironmentID input,
      lr_applicationUserID = ai_ApplicationUserID input, lr_installationID = ai_InstallationID input,
      lr_installationFamilyID = nullableString (ai_InstallationFamilyID input),
      lr_clientComponentID = nullableString (ai_ClientComponentID input),
      lr_componentDefinitionID = nullableString (ai_ComponentDefinitionID input),
      lr_componentKind = nullableString (ai_ComponentKind input), lr_trustSource = nullableString (ai_TrustSource input),
      lr_sessionGrantID = ai_SessionGrantID input, lr_configRevisionID = ai_ConfigRevisionID input,
      lr_featureKey = ai_FeatureKey input, lr_limitPlanKey = ''legacy_unknown'', lr_routeKey = None,
      lr_upstreamKey = None, lr_modelKey = None, lr_physicalModel = None, lr_protocol = ai_Protocol input,
      lr_clientRequestID = nullableString (ai_ClientRequestID input), lr_framework = nullableString (ai_Framework input),
      lr_frameworkVersion = nullableString (ai_FrameworkVersion input), lr_callerSDK = nullableString (ai_CallerSDK input),
      lr_fingerprint = None, lr_status = ''authenticated'', lr_requestedAt = now, lr_dispatchedAt = None, lr_completedAt = None,
      lr_failureCode = None\<rparr>"

definition logicalByID :: "string \<Rightarrow> quotaDB \<Rightarrow> logicalRow option" where
  "logicalByID logicalRequestID db = find (\<lambda>row. lr_id row = logicalRequestID) (db_logical db)"

definition nullableStringMatches :: "string option \<Rightarrow> string \<Rightarrow> bool" where
  "nullableStringMatches stored expected =
     (if expected = [] then stored = None else stored = Some expected)"

definition nullableSelectionMatches :: "string option \<Rightarrow> string \<Rightarrow> bool" where
  "nullableSelectionMatches stored expected \<longleftrightarrow> stored = None \<or> stored = Some expected"

definition validateExistingAuthenticatedRequest :: "authenticatedInput \<Rightarrow> quotaDB \<Rightarrow> quota_error + unit" where
  "validateExistingAuthenticatedRequest input db =
     (case logicalByID (ai_LogicalRequestID input) db of
        None \<Rightarrow> Inl ErrInvalidState
      | Some row \<Rightarrow>
          if lr_organizationID row \<noteq> ai_OrganizationID input \<or> lr_applicationID row \<noteq> ai_ApplicationID input \<or>
             lr_environmentID row \<noteq> ai_EnvironmentID input \<or> lr_applicationUserID row \<noteq> ai_ApplicationUserID input \<or>
             lr_installationID row \<noteq> ai_InstallationID input \<or> lr_sessionGrantID row \<noteq> ai_SessionGrantID input \<or>
             lr_configRevisionID row \<noteq> ai_ConfigRevisionID input \<or> lr_featureKey row \<noteq> ai_FeatureKey input \<or>
             lr_protocol row \<noteq> ai_Protocol input \<or>
             \<not> nullableStringMatches (lr_installationFamilyID row) (ai_InstallationFamilyID input) \<or>
             \<not> nullableStringMatches (lr_clientComponentID row) (ai_ClientComponentID input) \<or>
             \<not> nullableStringMatches (lr_componentDefinitionID row) (ai_ComponentDefinitionID input) \<or>
             \<not> nullableStringMatches (lr_componentKind row) (ai_ComponentKind input) \<or>
             \<not> nullableStringMatches (lr_trustSource row) (ai_TrustSource input) \<or>
             \<not> nullableStringMatches (lr_clientRequestID row) (ai_ClientRequestID input) \<or>
             \<not> nullableStringMatches (lr_framework row) (ai_Framework input) \<or>
             \<not> nullableStringMatches (lr_frameworkVersion row) (ai_FrameworkVersion input) \<or>
             \<not> nullableStringMatches (lr_callerSDK row) (ai_CallerSDK input)
          then Inl ErrInvalidInput else Inr ())"

definition BeginAuthenticatedRequest ::
    "authenticatedInput \<Rightarrow> gotime \<Rightarrow> quotaDB \<Rightarrow> quota_error + quotaDB \<times> authenticatedRequest" where
  "BeginAuthenticatedRequest input now db =
     andThen (prepareAuthenticatedRequest input) (\<lambda>prepared.
     if logicalByID (ai_LogicalRequestID prepared) db = None
     then Inr (db\<lparr>db_logical := db_logical db @ [authenticatedRow prepared now]\<rparr>, authenticatedRequestHandle prepared)
     else andThen (validateExistingAuthenticatedRequest prepared db) (\<lambda>_.
       Inr (db, authenticatedRequestHandle prepared)))"

definition validAuthenticatedRequestHandle :: "authenticatedRequest \<Rightarrow> bool" where
  "validAuthenticatedRequestHandle request \<longleftrightarrow>
     validID (ar_organizationID request) ''org'' \<and> validID (ar_applicationID request) ''app'' \<and>
     validID (ar_environmentID request) ''env'' \<and> validID (ar_logicalRequestID request) ''req'' \<and>
     validID (ar_configRevisionID request) ''rev''"

text \<open>\<open>GREATEST\<close> on timestamps is \<open>max\<close>.\<close>

definition closeLogical :: "string \<Rightarrow> string \<Rightarrow> string \<Rightarrow> string \<Rightarrow> gotime \<Rightarrow> quotaDB \<Rightarrow> quota_error + quotaDB" where
  "closeLogical logicalRequestID from status failureCode at db =
     andThen (updateOne (\<lambda>row. lr_id row = logicalRequestID \<and> lr_status row = from)
       (\<lambda>row. row\<lparr>lr_status := status, lr_completedAt := Some (max (lr_requestedAt row) at),
         lr_failureCode := Some failureCode\<rparr>) (db_logical db)) (\<lambda>rows.
     Inr (db\<lparr>db_logical := rows\<rparr>))"

definition RecordDecisionStages :: "authenticatedRequest \<Rightarrow> DecisionStage list \<Rightarrow> quotaDB \<Rightarrow> quota_error + quotaDB" where
  "RecordDecisionStages request stages db =
     (if \<not> validAuthenticatedRequestHandle request then Inl ErrInvalidInput
      else if stages = [] then Inl ErrInvalidInput
      else andThen (prepareDecisionStages stages True) (\<lambda>prepared.
        case find (\<lambda>row. lr_organizationID row = ar_organizationID request \<and> lr_applicationID row = ar_applicationID request \<and>
               lr_environmentID row = ar_environmentID request \<and> lr_id row = ar_logicalRequestID request) (db_logical db) of
          None \<Rightarrow> Inl ErrNotFound
        | Some row \<Rightarrow>
            let next = nextDecisionStage (ar_logicalRequestID request) (db_stages db) in
            if lr_configRevisionID row \<noteq> ar_configRevisionID request \<or> lr_status row \<noteq> ''authenticated''
            then Inl ErrInvalidState
            else
              andThen (projectDecisionStages request prepared db) (\<lambda>db.
              andThen (appendDecisionStagesAt request next prepared db) (\<lambda>db.
              let terminal = last prepared in
              if ds_Outcome terminal \<noteq> ''succeeded''
              then closeLogical (ar_logicalRequestID request) ''authenticated'' (ds_Outcome terminal)
                     (ds_FailureCode terminal) (ds_CompletedAt terminal) db
              else Inr db))))"

definition RecordDecisionStage :: "authenticatedRequest \<Rightarrow> DecisionStage \<Rightarrow> quotaDB \<Rightarrow> quota_error + quotaDB" where
  "RecordDecisionStage request stage db = RecordDecisionStages request [stage] db"

section \<open>The claim by a reservation\<close>

definition authenticatedRowMatches :: "preparedRequest \<Rightarrow> stageRow list \<Rightarrow> logicalRow \<Rightarrow> bool" where
  "authenticatedRowMatches input stages row \<longleftrightarrow>
     lr_organizationID row = in_OrganizationID input \<and> lr_applicationID row = in_ApplicationID input \<and>
     lr_environmentID row = in_EnvironmentID input \<and> lr_applicationUserID row = in_ApplicationUserID input \<and>
     lr_installationID row = in_InstallationID input \<and> lr_sessionGrantID row = in_SessionGrantID input \<and>
     lr_configRevisionID row = in_ConfigRevisionID input \<and> lr_featureKey row = in_FeatureKey input \<and>
     lr_protocol row = in_Protocol input \<and> lr_fingerprint row = None \<and>
     nullableStringMatches (lr_installationFamilyID row) (in_InstallationFamilyID input) \<and>
     nullableStringMatches (lr_clientComponentID row) (in_ClientComponentID input) \<and>
     nullableStringMatches (lr_componentDefinitionID row) (in_ComponentDefinitionID input) \<and>
     nullableStringMatches (lr_componentKind row) (in_ComponentKind input) \<and>
     nullableStringMatches (lr_trustSource row) (in_TrustSource input) \<and>
     nullableStringMatches (lr_clientRequestID row) (in_ClientRequestID input) \<and>
     nullableStringMatches (lr_framework row) (in_Framework input) \<and>
     nullableStringMatches (lr_frameworkVersion row) (in_FrameworkVersion input) \<and>
     nullableStringMatches (lr_callerSDK row) (in_CallerSDK input) \<and>
     (lr_limitPlanKey row = in_LimitPlanKey input \<or>
      lr_limitPlanKey row = ''legacy_unknown'' \<and> \<not> planProvenanceExists (lr_id row) stages) \<and>
     nullableSelectionMatches (lr_routeKey row) (in_RouteKey input) \<and>
     nullableSelectionMatches (lr_upstreamKey row) (in_UpstreamKey input) \<and>
     nullableSelectionMatches (lr_modelKey row) (in_ModelKey input) \<and>
     nullableSelectionMatches (lr_physicalModel row) (in_PhysicalModel input)"

definition claimAuthenticatedRequest :: "preparedRequest \<Rightarrow> string \<Rightarrow> quotaDB \<Rightarrow> quota_error + quotaDB \<times> bool" where
  "claimAuthenticatedRequest input fingerprint db =
     (case logicalByID (in_LogicalRequestID input) db of
        None \<Rightarrow> Inl ErrInvalidState
      | Some row \<Rightarrow>
          if lr_status row \<noteq> ''authenticated'' then Inr (db, False)
          else if \<not> authenticatedRowMatches input (db_stages db) row then Inl ErrInvalidInput
          else
            andThen (projectDecisionStages (requestHandleForPrepared input) (in_DecisionStages input) db) (\<lambda>db.
            andThen (appendDecisionStages (requestHandleForPrepared input) (in_DecisionStages input) db) (\<lambda>db.
            andThen (updateOne
              (\<lambda>row. lr_id row = in_LogicalRequestID input \<and> lr_status row = ''authenticated'' \<and> lr_fingerprint row = None)
              (\<lambda>row. row\<lparr>lr_limitPlanKey := in_LimitPlanKey input, lr_routeKey := Some (in_RouteKey input),
                lr_upstreamKey := Some (in_UpstreamKey input), lr_modelKey := Some (in_ModelKey input),
                lr_physicalModel := Some (in_PhysicalModel input), lr_fingerprint := Some fingerprint,
                lr_status := ''reserved''\<rparr>) (db_logical db)) (\<lambda>rows.
            Inr (db\<lparr>db_logical := rows\<rparr>, True)))))"

section \<open>Recovery\<close>

text \<open>
  One statement: the oldest stale rows that no other transaction holds, a recovery stage for each, and
  their closing.  \<open>held\<close> says which rows \<open>SKIP LOCKED\<close> passes over.  The table accepts stage numbers
  from 1 to 256; a row outside that range fails the statement, and with it the batch.
\<close>

definition recoveryStage :: "gotime \<Rightarrow> DecisionStage" where
  "recoveryStage now =
     \<lparr>ds_Stage = ''lifecycle_recovered'', ds_Outcome = ''failed'', ds_FailureCode = ''internal_error'',
      ds_StartedAt = now, ds_CompletedAt = now, ds_PolicyRuleKey = [], ds_LimitPlanKey = [], ds_LimitRuleKey = [],
      ds_LimitMetric = [], ds_LimitAlgorithm = [], ds_LimitMaximum = 0, ds_HasLimitMaximum = False,
      ds_RouteKey = [], ds_UpstreamKey = [], ds_ModelKey = [], ds_PhysicalModel = []\<rparr>"

definition staleBefore :: "gotime \<Rightarrow> gotime" where
  "staleBefore now = GoTime (gt_sec now - 86400) (gt_nsec now)"

definition recoveryCandidates :: "(string \<Rightarrow> bool) \<Rightarrow> nat \<Rightarrow> gotime \<Rightarrow> quotaDB \<Rightarrow> logicalRow list" where
  "recoveryCandidates held limit now db =
     take limit (sort_key (\<lambda>row. (lr_requestedAt row, lr_id row))
       (filter (\<lambda>row. lr_status row = ''authenticated'' \<and> lr_requestedAt row \<le> staleBefore now \<and> \<not> held (lr_id row))
         (db_logical db)))"

definition recoveryRow :: "gotime \<Rightarrow> stageRow list \<Rightarrow> logicalRow \<Rightarrow> stageRow" where
  "recoveryRow now stages row =
     \<lparr>st_organizationID = lr_organizationID row, st_applicationID = lr_applicationID row,
      st_environmentID = lr_environmentID row, st_logicalRequestID = lr_id row,
      st_configRevisionID = lr_configRevisionID row, st_number = nextDecisionStage (lr_id row) stages,
      st_stage = recoveryStage now\<rparr>"

definition RecoverStaleAuthenticatedRequestsBatch ::
    "(string \<Rightarrow> bool) \<Rightarrow> gotime \<Rightarrow> nat \<Rightarrow> quotaDB \<Rightarrow> quota_error + quotaDB \<times> nat" where
  "RecoverStaleAuthenticatedRequestsBatch held now limit db =
     (if limit < 1 \<or> 500 < limit then Inl ErrInvalidInput
      else let candidates = recoveryCandidates held limit now db;
               inserted = map (recoveryRow now (db_stages db)) candidates in
        if list_ex (\<lambda>row. st_number row < 1 \<or> st_number row > maximumDecisionStages) inserted then Inl ErrDependency
        else case insertStages inserted (db_stages db) of
          Inl _ \<Rightarrow> Inl ErrDependency
        | Inr stages \<Rightarrow>
          let recovered = (\<lambda>row. lr_status row = ''authenticated'' \<and>
                list_ex (\<lambda>new. st_organizationID new = lr_organizationID row \<and> st_applicationID new = lr_applicationID row \<and>
                  st_environmentID new = lr_environmentID row \<and> st_logicalRequestID new = lr_id row) inserted) in
          Inr (db\<lparr>db_stages := stages,
                  db_logical := sqlUpdate recovered
                    (\<lambda>row. row\<lparr>lr_status := ''failed'', lr_failureCode := Some ''internal_error'',
                      lr_completedAt := Some (max (lr_requestedAt row) now)\<rparr>) (db_logical db)\<rparr>,
               length (filter recovered (db_logical db))))"

end
