(* ===== verification/Quota_Reserve.thy ===== *)
theory Quota_Reserve
  imports Request_Lifecycle
begin

text \<open>
  \<open>Store.Reserve\<close> of \<open>src/internal/quota/store.go\<close>: one transaction that records the logical request and
  reserves the units of every applicable rule, or records the denial and reserves nothing.  The time zone
  database, the identifier source and the two clock readings are arguments; the replay of an already
  reserved request, which only reads, is the argument \<open>replay\<close>.
\<close>

record reservationRetryPlan =
  rp_applicationUserID :: string
  rp_installationID :: string
  rp_installationFamilyID :: string
  rp_clientComponentID :: string
  rp_componentDefinitionID :: string
  rp_componentKind :: string
  rp_trustSource :: string
  rp_sessionGrantID :: string
  rp_configRevisionID :: string
  rp_featureKey :: string
  rp_limitPlanKey :: string
  rp_platform :: string
  rp_claimDigests :: "(string \<times> string) list"
  rp_streaming :: bool
  rp_rules :: "quota_rule list"

definition retryPlanForRequest :: "preparedRequest \<Rightarrow> reservationRetryPlan" where
  "retryPlanForRequest prepared =
     \<lparr>rp_applicationUserID = in_ApplicationUserID prepared, rp_installationID = in_InstallationID prepared,
      rp_installationFamilyID = in_InstallationFamilyID prepared, rp_clientComponentID = in_ClientComponentID prepared,
      rp_componentDefinitionID = in_ComponentDefinitionID prepared, rp_componentKind = in_ComponentKind prepared,
      rp_trustSource = in_TrustSource prepared, rp_sessionGrantID = in_SessionGrantID prepared,
      rp_configRevisionID = in_ConfigRevisionID prepared, rp_featureKey = in_FeatureKey prepared,
      rp_limitPlanKey = in_LimitPlanKey prepared, rp_platform = in_Platform prepared,
      rp_claimDigests = in_NormalizedClaimDigests prepared, rp_streaming = in_Streaming prepared,
      rp_rules = in_Rules prepared\<rparr>"

record reservation =
  rv_organizationID :: string
  rv_applicationID :: string
  rv_environmentID :: string
  rv_logicalRequestID :: string
  rv_reservationID :: string
  rv_entries :: "reservationEntry list"
  rv_routeKey :: string
  rv_upstreamKey :: string
  rv_modelKey :: string
  rv_physicalModel :: string
  rv_protocol :: string
  rv_pricing :: selectedPricing
  rv_inputPreflight :: "inputPreflightBinding option"
  rv_requestMeasurements :: "requestMeasurementBinding option"
  rv_retryPlan :: "reservationRetryPlan option"
  rv_windowResetAt :: gotime
  rv_expiresAt :: gotime

datatype reserve_error =
    StoreError quota_error
  | LimitExceeded exceededError
  | ConcurrencyLimit concurrencyExceededError

section \<open>Statements\<close>

definition reservedRow :: "preparedRequest \<Rightarrow> string \<Rightarrow> gotime \<Rightarrow> logicalRow" where
  "reservedRow prepared fingerprint requestedAt =
     \<lparr>lr_id = in_LogicalRequestID prepared, lr_organizationID = in_OrganizationID prepared,
      lr_applicationID = in_ApplicationID prepared, lr_environmentID = in_EnvironmentID prepared,
      lr_applicationUserID = in_ApplicationUserID prepared, lr_installationID = in_InstallationID prepared,
      lr_installationFamilyID = nullableString (in_InstallationFamilyID prepared),
      lr_clientComponentID = nullableString (in_ClientComponentID prepared),
      lr_componentDefinitionID = nullableString (in_ComponentDefinitionID prepared),
      lr_componentKind = nullableString (in_ComponentKind prepared), lr_trustSource = nullableString (in_TrustSource prepared),
      lr_sessionGrantID = in_SessionGrantID prepared, lr_configRevisionID = in_ConfigRevisionID prepared,
      lr_featureKey = in_FeatureKey prepared, lr_limitPlanKey = in_LimitPlanKey prepared,
      lr_routeKey = Some (in_RouteKey prepared), lr_upstreamKey = Some (in_UpstreamKey prepared),
      lr_modelKey = Some (in_ModelKey prepared), lr_physicalModel = Some (in_PhysicalModel prepared),
      lr_protocol = in_Protocol prepared, lr_clientRequestID = nullableString (in_ClientRequestID prepared),
      lr_framework = nullableString (in_Framework prepared),
      lr_frameworkVersion = nullableString (in_FrameworkVersion prepared), lr_callerSDK = nullableString (in_CallerSDK prepared),
      lr_fingerprint = Some fingerprint, lr_status = ''reserved'', lr_requestedAt = requestedAt, lr_dispatchedAt = None, lr_completedAt = None,
      lr_failureCode = None\<rparr>"

text \<open>\<open>reserveCalendarBucketSQL\<close>: the units are added only when the row still holds the values the decision
  was made on and has room for them.\<close>

definition reserveGuard :: "plannedBucket \<Rightarrow> bucketRow \<Rightarrow> bool" where
  "reserveGuard plan row \<longleftrightarrow>
     (let maximum = rule_Maximum (pl_rule plan); units = pl_reservedUnits plan in
      bk_id row = lb_id (pl_locked plan) \<and> bk_usedUnits row = lb_used (pl_locked plan) \<and>
      bk_reservedUnits row = lb_reserved (pl_locked plan) \<and>
      (units > 0 \<or> units = 0 \<and> bk_metric row = CostNanoUSDMetric \<and> bk_algorithm row = CalendarAlgorithm) \<and>
      maximum \<ge> bk_usedUnits row \<and> units \<le> maximum - bk_usedUnits row - bk_reservedUnits row)"

definition reserveChange :: "plannedBucket \<Rightarrow> bucketRow \<Rightarrow> bucketRow" where
  "reserveChange plan row =
     row\<lparr>bk_hardMaximum := Some (rule_Maximum (pl_rule plan)),
         bk_reservedUnits := bk_reservedUnits row + pl_reservedUnits plan, bk_version := bk_version row + 1\<rparr>"

definition reserveCalendarBucket :: "plannedBucket \<Rightarrow> bucketRow list \<Rightarrow> quota_error + bucketRow list" where
  "reserveCalendarBucket plan rows = updateOne (reserveGuard plan) (reserveChange plan) rows"

text \<open>\<open>persistTokenBucketSQL\<close>: the new state replaces the one the decision was made on.\<close>

definition tokenGuard :: "lockedBucket \<Rightarrow> tokenBucketState \<Rightarrow> bucketRow \<Rightarrow> bool" where
  "tokenGuard bucket stored row \<longleftrightarrow>
     bk_id row = lb_id bucket \<and> bk_algorithm row = TokenBucketAlgorithm \<and> bk_usedUnits row = 0 \<and>
     bk_reservedUnits row = 0 \<and> bk_hardMaximum row = Some (capacity stored) \<and>
     bk_availableUnits row = Some (balance stored) \<and> bk_refillNumerator row = Some (numerator stored) \<and>
     bk_refillDenominator row = Some (denominator stored) \<and> bk_refilledAt row = Some (refilledAt stored) \<and>
     bk_version row = lb_version bucket"

definition tokenChange :: "tokenBucketState \<Rightarrow> bucketRow \<Rightarrow> bucketRow" where
  "tokenChange state row =
     row\<lparr>bk_hardMaximum := Some (capacity state), bk_availableUnits := Some (balance state),
         bk_refillNumerator := Some (numerator state), bk_refillDenominator := Some (denominator state),
         bk_refilledAt := Some (refilledAt state), bk_version := bk_version row + 1\<rparr>"

definition persistTokenBucket ::
    "lockedBucket \<Rightarrow> tokenBucketState \<Rightarrow> gotime \<Rightarrow> bucketRow list \<Rightarrow> quota_error + bucketRow list" where
  "persistTokenBucket bucket state now rows =
     (case tokenStateFromLockedBucket bucket of
        Inl _ \<Rightarrow> Inl ErrInvalidState
      | Inr stored \<Rightarrow>
          if \<not> is_ok (validatePersistedTokenBucket state) \<or> isZero now \<or> lb_version bucket = max_int64 then Inl ErrInvalidState
          else updateOne (tokenGuard bucket stored) (tokenChange state) rows)"

definition reserveBucket :: "gotime \<Rightarrow> plannedBucket \<Rightarrow> bucketRow list \<Rightarrow> quota_error + bucketRow list" where
  "reserveBucket decisionAt plan rows =
     (if rule_Algorithm (pl_rule plan) = TokenBucketAlgorithm then
        (case reserveTokenBalance (pl_tokenState plan) (pl_reservedUnits plan) of
           Inr (reservedState, True) \<Rightarrow> persistTokenBucket (pl_locked plan) reservedState decisionAt rows
         | _ \<Rightarrow> Inl ErrInvalidState)
      else reserveCalendarBucket plan rows)"

fun reserveBuckets :: "gotime \<Rightarrow> plannedBucket list \<Rightarrow> bucketRow list \<Rightarrow> quota_error + bucketRow list" where
  "reserveBuckets decisionAt [] rows = Inr rows"
| "reserveBuckets decisionAt (plan # plans) rows =
     andThen (reserveBucket decisionAt plan rows) (reserveBuckets decisionAt plans)"

definition leaseRowOf :: "preparedRequest \<Rightarrow> gotime \<Rightarrow> gotime \<Rightarrow> plannedBucket \<Rightarrow> leaseRow" where
  "leaseRowOf prepared decisionAt expiresAt plan =
     \<lparr>cl_id = pl_leaseID plan, cl_organizationID = in_OrganizationID prepared, cl_applicationID = in_ApplicationID prepared,
      cl_environmentID = in_EnvironmentID prepared, cl_bucketID = lb_id (pl_locked plan),
      cl_logicalRequestID = in_LogicalRequestID prepared, cl_acquiredAt = decisionAt, cl_expiresAt = expiresAt,
      cl_releasedAt = None\<rparr>"

fun insertLeases :: "leaseRow list \<Rightarrow> leaseRow list \<Rightarrow> quota_error + leaseRow list" where
  "insertLeases [] rows = Inr rows"
| "insertLeases (new # news) rows =
     andThen (insertRow (\<lambda>row. cl_id row = cl_id new \<or>
         cl_bucketID row = cl_bucketID new \<and> cl_logicalRequestID row = cl_logicalRequestID new) new rows)
       (insertLeases news)"

definition reservationRowOf :: "preparedRequest \<Rightarrow> string \<Rightarrow> string \<Rightarrow> gotime \<Rightarrow> gotime \<Rightarrow> reservationRow" where
  "reservationRowOf prepared reservationID reservationKey decisionAt expiresAt =
     \<lparr>qr_id = reservationID, qr_organizationID = in_OrganizationID prepared, qr_applicationID = in_ApplicationID prepared,
      qr_environmentID = in_EnvironmentID prepared, qr_logicalRequestID = in_LogicalRequestID prepared,
      qr_idempotencyKey = reservationKey, qr_status = ''pending'', qr_createdAt = decisionAt, qr_expiresAt = expiresAt,
      qr_settledAt = None, qr_releasedAt = None\<rparr>"

definition insertReservation :: "reservationRow \<Rightarrow> reservationRow list \<Rightarrow> quota_error + reservationRow list" where
  "insertReservation new rows =
     insertRow (\<lambda>row. qr_id row = qr_id new \<or> qr_logicalRequestID row = qr_logicalRequestID new \<or>
       qr_environmentID row = qr_environmentID new \<and> qr_idempotencyKey row = qr_idempotencyKey new) new rows"

definition entryRowOf :: "preparedRequest \<Rightarrow> string \<Rightarrow> plannedBucket \<Rightarrow> entryRow" where
  "entryRowOf prepared reservationID plan =
     \<lparr>qe_id = pl_entryID plan, qe_organizationID = in_OrganizationID prepared, qe_applicationID = in_ApplicationID prepared,
      qe_environmentID = in_EnvironmentID prepared, qe_reservationID = reservationID, qe_bucketID = lb_id (pl_locked plan),
      qe_originAttemptNumber = 1, qe_initialReservedUnits = pl_reservedUnits plan, qe_reservedUnits = pl_reservedUnits plan,
      qe_settledUnits = 0, qe_releasedUnits = 0, qe_costRetryTreatment = rule_CostRetryTreatment (pl_rule plan)\<rparr>"

fun insertEntries :: "entryRow list \<Rightarrow> entryRow list \<Rightarrow> quota_error + entryRow list" where
  "insertEntries [] rows = Inr rows"
| "insertEntries (new # news) rows =
     andThen (insertRow (\<lambda>row. qe_id row = qe_id new \<or>
         qe_reservationID row = qe_reservationID new \<and> qe_bucketID row = qe_bucketID new) new rows)
       (insertEntries news)"

section \<open>The transaction\<close>

definition persistAcceptedReservation ::
    "preparedRequest \<Rightarrow> plannedBucket list \<Rightarrow> string \<Rightarrow> string \<Rightarrow> gotime \<Rightarrow> gotime \<Rightarrow> int \<Rightarrow> DecisionStage list \<Rightarrow>
     quotaDB \<Rightarrow> quota_error + quotaDB" where
  "persistAcceptedReservation prepared plans reservationID reservationKey decisionAt expiresAt nextStage stages db =
     andThen (appendDecisionStagesAt (requestHandleForPrepared prepared) nextStage stages db) (\<lambda>db.
     andThen (reserveBuckets decisionAt plans (db_buckets db)) (\<lambda>buckets.
     andThen (insertLeases (map (leaseRowOf prepared decisionAt expiresAt)
         (filter (\<lambda>plan. isConcurrencyMetric (rule_Metric (pl_rule plan))) plans)) (db_leases db)) (\<lambda>leases.
     andThen (insertReservation (reservationRowOf prepared reservationID reservationKey decisionAt expiresAt)
         (db_reservations db)) (\<lambda>reservations.
     andThen (insertEntries (map (entryRowOf prepared reservationID) plans) (db_entries db)) (\<lambda>entries.
     Inr (db\<lparr>db_buckets := buckets, db_leases := leases, db_reservations := reservations, db_entries := entries\<rparr>))))))"

text \<open>A denial still stores the reconciled token states, and a changed maximum where the bucket's
  occupancy fits it.\<close>

definition refreshChange :: "int \<Rightarrow> bucketRow \<Rightarrow> bucketRow" where
  "refreshChange maximum row = row\<lparr>bk_hardMaximum := Some maximum, bk_version := bk_version row + 1\<rparr>"

definition refreshDenied :: "gotime \<Rightarrow> plannedBucket \<Rightarrow> bucketRow list \<Rightarrow> quota_error + bucketRow list" where
  "refreshDenied decisionAt plan rows =
     (let maximum = rule_Maximum (pl_rule plan); bucket = pl_locked plan in
      if rule_Algorithm (pl_rule plan) = TokenBucketAlgorithm
      then persistTokenBucket bucket (pl_tokenState plan) decisionAt rows
      else if maximum < add64 (lb_used bucket) (lb_reserved bucket) \<or> lb_hardMaximum bucket = Some maximum then Inr rows
      else updateOne (\<lambda>row. bk_id row = lb_id bucket) (refreshChange maximum) rows)"

fun refreshDeniedPlans :: "gotime \<Rightarrow> plannedBucket list \<Rightarrow> bucketRow list \<Rightarrow> quota_error + bucketRow list" where
  "refreshDeniedPlans decisionAt [] rows = Inr rows"
| "refreshDeniedPlans decisionAt (plan # plans) rows =
     andThen (refreshDenied decisionAt plan rows) (refreshDeniedPlans decisionAt plans)"

text \<open>The logical row: a new one, or the claim of the authenticated one.  \<open>None\<close> says that the request
  has been reserved before.\<close>

definition enterLogicalRequest :: "preparedRequest \<Rightarrow> string \<Rightarrow> gotime \<Rightarrow> quotaDB \<Rightarrow> quota_error + quotaDB option" where
  "enterLogicalRequest prepared fingerprint requestedAt db =
     (if logicalByID (in_LogicalRequestID prepared) db \<noteq> None then
        andThen (claimAuthenticatedRequest prepared fingerprint db) (\<lambda>(db, claimed).
        Inr (if claimed then Some db else None))
      else if in_DecisionStages prepared \<noteq> [] then Inl ErrInvalidState
      else Inr (Some (db\<lparr>db_logical := db_logical db @ [reservedRow prepared fingerprint requestedAt]\<rparr>)))"

definition denyRequestBounds :: "preparedRequest \<Rightarrow> gotime \<Rightarrow> gotime \<Rightarrow> quotaDB \<Rightarrow> quota_error + quotaDB \<times> exceededError" where
  "denyRequestBounds prepared requestedAt decisionAt db =
     (let exceeded = requestBoundExceededRules (prepared_rules prepared) in
      andThen (appendDecisionStages (requestHandleForPrepared prepared)
        (quotaDecisionStages prepared requestedAt decisionAt (requestBoundEvaluatedRuleKeySet (prepared_rules prepared))
          (deniedRuleKeySet exceeded) ''quota_exceeded'') db) (\<lambda>db.
      andThen (closeLogical (in_LogicalRequestID prepared) ''reserved'' ''denied'' ''quota_exceeded'' decisionAt db) (\<lambda>db.
      andThen (requestBoundExceededError (in_LogicalRequestID prepared) exceeded) (\<lambda>failure. Inr (db, failure)))))"

definition plansWith :: "planVerdict \<Rightarrow> (plannedBucket \<times> planVerdict) list \<Rightarrow> plannedBucket list" where
  "plansWith verdict decided = map fst (filter (\<lambda>(_, v). v = verdict) decided)"

definition denyPlans ::
    "preparedRequest \<Rightarrow> (plannedBucket \<times> planVerdict) list \<Rightarrow> gotime \<Rightarrow> gotime \<Rightarrow> int \<Rightarrow> quotaDB \<Rightarrow>
     quota_error + quotaDB \<times> reserve_error" where
  "denyPlans prepared decided requestedAt decisionAt nextStage db =
     (let plans = map fst decided;
          failureCode = (if plansWith QuotaExceeded decided \<noteq> [] then ''quota_exceeded'' else ''concurrency_exceeded'') in
      andThen (refreshDeniedPlans decisionAt plans (db_buckets db)) (\<lambda>buckets.
      andThen (appendDecisionStagesAt (requestHandleForPrepared prepared) nextStage
        (quotaDecisionStages prepared requestedAt decisionAt (evaluatedReservationRuleKeySet (prepared_rules prepared) plans)
          (deniedPlanRuleKeySet decided) failureCode) (db\<lparr>db_buckets := buckets\<rparr>)) (\<lambda>db.
      andThen (closeLogical (in_LogicalRequestID prepared) ''reserved'' ''denied'' failureCode decisionAt db) (\<lambda>db.
      case plansWith QuotaExceeded decided of
        first # rest \<Rightarrow> Inr (db, LimitExceeded (exceededErrorOf (in_LogicalRequestID prepared) first rest))
      | [] \<Rightarrow>
          case plansWith ConcurrencyExceeded decided of
            first # rest \<Rightarrow> Inr (db, ConcurrencyLimit (concurrencyExceededErrorOf (in_LogicalRequestID prepared) first rest))
          | [] \<Rightarrow> Inl GoPanic))))"

definition reservationOf :: "preparedRequest \<Rightarrow> plannedBucket list \<Rightarrow> string \<Rightarrow> gotime \<Rightarrow> reservation" where
  "reservationOf prepared plans reservationID expiresAt =
     (let entries = reservationEntries plans in
      \<lparr>rv_organizationID = in_OrganizationID prepared, rv_applicationID = in_ApplicationID prepared,
       rv_environmentID = in_EnvironmentID prepared, rv_logicalRequestID = in_LogicalRequestID prepared,
       rv_reservationID = reservationID, rv_entries = entries, rv_routeKey = in_RouteKey prepared,
       rv_upstreamKey = in_UpstreamKey prepared, rv_modelKey = in_ModelKey prepared,
       rv_physicalModel = in_PhysicalModel prepared, rv_protocol = in_Protocol prepared,
       rv_pricing = pricingForRequest prepared, rv_inputPreflight = in_InputPreflight prepared,
       rv_requestMeasurements = in_RequestMeasurements prepared, rv_retryPlan = Some (retryPlanForRequest prepared),
       rv_windowResetAt = maximumResetAt entries, rv_expiresAt = expiresAt\<rparr>)"

text \<open>The part behind the entry of the logical row, on prepared plans.  The result of a committed
  transaction is the new tables with the answer; \<open>Inl\<close> is a transaction that was rolled back.\<close>

definition reservePlans ::
    "'g identifierSource \<Rightarrow> int \<Rightarrow> gotime \<Rightarrow> gotime \<Rightarrow> preparedRequest \<Rightarrow> string \<Rightarrow> plannedBucket list \<Rightarrow> 'g \<Rightarrow> quotaDB \<Rightarrow>
     quota_error + quotaDB \<times> (reserve_error + reservation)" where
  "reservePlans source reservationTTL requestedAt decisionAt prepared reservationKey plans g db =
     andThen (fst (newReserveIDs source (length plans) (concurrencyPlanCount plans) g)) (\<lambda>identifiers.
     let plans = assignIDs plans (ri_buckets identifiers) (ri_entries identifiers) (ri_leases identifiers) in
     andThen (materializePlannedBuckets prepared plans requestedAt db) (\<lambda>db.
     andThen (lockPlannedBuckets prepared db plans) (\<lambda>plans.
     let nextStage = nextDecisionStage (in_LogicalRequestID prepared) (db_stages db);
         expiresAt = of_nanos (nanos decisionAt + reservationTTL) in
     if isZero decisionAt then Inl ErrInvalidState
     else if \<not> decisionAt < expiresAt then Inl ErrInvalidInput
     else
       andThen (decidePlans decisionAt plans) (\<lambda>decided.
       if list_ex (\<lambda>(_, verdict). verdict \<noteq> Admitted) decided then
         andThen (denyPlans prepared decided requestedAt decisionAt nextStage db) (\<lambda>(db, failure). Inr (db, Inl failure))
       else
         let plans = map fst decided in
         andThen (persistAcceptedReservation prepared plans (ri_reservation identifiers) reservationKey decisionAt expiresAt
             nextStage (quotaDecisionStages prepared requestedAt decisionAt
               (evaluatedReservationRuleKeySet (prepared_rules prepared) plans) [] []) db) (\<lambda>db.
         Inr (db, Inr (reservationOf prepared plans (ri_reservation identifiers) expiresAt)))))))"

definition Reserve ::
    "(string \<Rightarrow> location option) \<Rightarrow> 'g identifierSource \<Rightarrow> (quotaDB \<Rightarrow> preparedRequest \<Rightarrow> string \<Rightarrow> reserve_error + reservation) \<Rightarrow>
     int \<Rightarrow> gotime \<Rightarrow> gotime \<Rightarrow> reserveInput \<Rightarrow> 'g \<Rightarrow> quotaDB \<Rightarrow> quotaDB \<times> (reserve_error + reservation)" where
  "Reserve LoadLocation source replay reservationTTL requestedAt decisionAt input g db =
     (let outcome =
        andThen (prepareRequest LoadLocation input) (\<lambda>prepared.
        let fingerprint = requestFingerprint prepared;
            reservationKey = reservationIdempotencyKey fingerprint (pricingForRequest prepared)
              (hasHardCostReservation (prepared_rules prepared));
            exceeded = requestBoundExceededRules (prepared_rules prepared) in
        if isZero requestedAt then Inl ErrInvalidState
        else
          andThen (if exceeded = [] then plannedBucketsAt LoadLocation prepared requestedAt else Inr []) (\<lambda>plans.
          andThen (enterLogicalRequest prepared fingerprint requestedAt db) (\<lambda>entered.
          case entered of
            None \<Rightarrow> Inr (db, replay db prepared fingerprint)
          | Some entry \<Rightarrow>
              if exceeded \<noteq> [] then
                if isZero decisionAt then Inl ErrInvalidState
                else andThen (denyRequestBounds prepared requestedAt decisionAt entry) (\<lambda>(db, failure).
                  Inr (db, Inl (LimitExceeded failure)))
              else reservePlans source reservationTTL requestedAt decisionAt prepared reservationKey plans g entry))) in
      case outcome of
        Inl e \<Rightarrow> (db, Inl (StoreError e))
      | Inr result \<Rightarrow> result)"

end
