(* ===== verification/Quota_Ledger.thy ===== *)
theory Quota_Ledger
  imports Quota_Reserve
begin

text \<open>
  The accounting invariant of the quota tables and its preservation by a reservation: a calendar or
  concurrency bucket never holds more used and reserved units than its maximum, its reserved units are
  exactly the outstanding units of the reservation entries that name it, and its used units exactly the
  settled ones.
\<close>

section \<open>Keyed updates\<close>

text \<open>What a guarded \<open>UPDATE\<close> promises to its clients: the key of a row is never changed.\<close>

locale keyed_update =
  fixes key :: "'r \<Rightarrow> 'k" and guard :: "'r \<Rightarrow> bool" and change :: "'r \<Rightarrow> 'r"
  assumes key_kept: "key (change row) = key row"
begin

lemma updated_keys: "updateOne guard change rows = Inr rows' \<Longrightarrow> map key rows' = map key rows"
  by (auto simp: updateOne_def sqlUpdate_def key_kept split: if_splits)

lemma updated_rows:
  assumes "updateOne guard change rows = Inr rows'" "distinct (map key rows)"
  obtains row where "row \<in> set rows" "guard row"
    "\<And>row'. row' \<in> set rows' \<Longrightarrow> row' = change row \<or> row' \<in> set rows \<and> key row' \<noteq> key row"
proof -
  have one: "length (filter guard rows) = 1" and rows': "rows' = sqlUpdate guard change rows"
    using assms(1) by (auto simp: updateOne_def split: if_splits)
  obtain row where row: "filter guard rows = [row]"
    using one by (auto simp: length_Suc_conv)
  have mem: "row \<in> set rows" "guard row" and only: "\<And>r. r \<in> set rows \<Longrightarrow> guard r \<Longrightarrow> r = row"
    using arg_cong [OF row, of set] by auto
  show thesis
  proof (rule that [OF mem])
    fix row' assume "row' \<in> set rows'"
    then obtain r where r: "r \<in> set rows" "row' = (if guard r then change r else r)"
      by (auto simp: rows' sqlUpdate_def)
    show "row' = change row \<or> row' \<in> set rows \<and> key row' \<noteq> key row"
    proof (cases "guard r")
      case True
      then show ?thesis using r only by simp
    next
      case False
      then have "r \<noteq> row" using mem(2) by auto
      then have "key r \<noteq> key row" using assms(2) r(1) mem(1) by (auto simp: distinct_map inj_on_def)
      then show ?thesis using r False by simp
    qed
  qed
qed

end

interpretation reserve_update: keyed_update bk_id "reserveGuard plan" "reserveChange plan" for plan
  by unfold_locales (simp add: reserveChange_def)

interpretation token_update: keyed_update bk_id "tokenGuard bucket stored" "tokenChange state" for bucket stored state
  by unfold_locales (simp add: tokenChange_def)

interpretation refresh_update: keyed_update bk_id "\<lambda>row. bk_id row = bucketID" "refreshChange maximum" for bucketID maximum
  by unfold_locales (simp add: refreshChange_def)

section \<open>The invariant\<close>

definition outstanding :: "entryRow \<Rightarrow> int" where
  "outstanding entry = qe_reservedUnits entry - qe_settledUnits entry - qe_releasedUnits entry"

definition entry_ok :: "entryRow \<Rightarrow> bool" where
  "entry_ok entry \<longleftrightarrow> 0 \<le> qe_settledUnits entry \<and> 0 \<le> qe_releasedUnits entry \<and> 0 \<le> outstanding entry \<and>
     outstanding entry \<le> max_int64"

text \<open>Entries belong to the organization, application and environment of their bucket and of their reservation.\<close>

definition bucketTenant :: "bucketRow \<Rightarrow> string \<times> string \<times> string" where
  "bucketTenant row = (bk_organizationID row, bk_applicationID row, bk_environmentID row)"

definition entryTenant :: "entryRow \<Rightarrow> string \<times> string \<times> string" where
  "entryTenant entry = (qe_organizationID entry, qe_applicationID entry, qe_environmentID entry)"

definition requestTenant :: "preparedRequest \<Rightarrow> string \<times> string \<times> string" where
  "requestTenant prepared = (in_OrganizationID prepared, in_ApplicationID prepared, in_EnvironmentID prepared)"

definition entryTotal :: "(entryRow \<Rightarrow> int) \<Rightarrow> string \<Rightarrow> entryRow list \<Rightarrow> int" where
  "entryTotal units bucketID entries = (\<Sum>entry \<leftarrow> filter (\<lambda>entry. qe_bucketID entry = bucketID) entries. units entry)"

definition openLeases :: "string \<Rightarrow> leaseRow list \<Rightarrow> nat" where
  "openLeases bucketID leases = length (filter (\<lambda>lease. cl_bucketID lease = bucketID \<and> cl_releasedAt lease = None) leases)"

text \<open>\<open>extra\<close> are units that a running transaction has added to the buckets and not yet written as entries.\<close>

definition bucket_ok :: "entryRow list \<Rightarrow> (string \<Rightarrow> int) \<Rightarrow> bucketRow \<Rightarrow> bool" where
  "bucket_ok entries extra bucket \<longleftrightarrow>
     (if bk_algorithm bucket = TokenBucketAlgorithm then bk_usedUnits bucket = 0 \<and> bk_reservedUnits bucket = 0
      else bk_usedUnits bucket = entryTotal qe_settledUnits (bk_id bucket) entries \<and>
           bk_reservedUnits bucket = entryTotal outstanding (bk_id bucket) entries + extra (bk_id bucket) \<and>
           0 \<le> bk_usedUnits bucket \<and> 0 \<le> bk_reservedUnits bucket \<and>
           (\<exists>maximum. bk_hardMaximum bucket = Some maximum \<and> in64 maximum \<and>
              bk_usedUnits bucket + bk_reservedUnits bucket \<le> maximum))"

lemma bucket_ok_cong: "extra (bk_id bucket) = extra' (bk_id bucket) \<Longrightarrow> bucket_ok entries extra bucket \<longleftrightarrow> bucket_ok entries extra' bucket"
  by (simp add: bucket_ok_def)

lemma entryTotal_simps [simp]:
  "entryTotal units bucketID [] = 0"
  "entryTotal units bucketID (entry # entries) =
     (if qe_bucketID entry = bucketID then units entry else 0) + entryTotal units bucketID entries"
  "entryTotal units bucketID (entries @ entries') = entryTotal units bucketID entries + entryTotal units bucketID entries'"
  by (simp_all add: entryTotal_def)

lemma entryTotal_absent: "bucketID \<notin> set (map qe_bucketID entries) \<Longrightarrow> entryTotal units bucketID entries = 0"
  by (induction entries) auto

section \<open>The statements of a reservation\<close>

definition plannedUnits :: "plannedBucket list \<Rightarrow> string \<Rightarrow> int" where
  "plannedUnits plans bucketID =
     (\<Sum>plan \<leftarrow> filter (\<lambda>plan. lb_id (pl_locked plan) = bucketID) plans. pl_reservedUnits plan)"

lemma plannedUnits_simps [simp]:
  "plannedUnits [] bucketID = 0"
  "plannedUnits (plan # plans) bucketID =
     (if lb_id (pl_locked plan) = bucketID then pl_reservedUnits plan else 0) + plannedUnits plans bucketID"
  by (simp_all add: plannedUnits_def)

text \<open>A plan fits the rows when the bucket it has locked is one of its rule.\<close>

definition plan_fits :: "bucketRow list \<Rightarrow> plannedBucket \<Rightarrow> bool" where
  "plan_fits rows plan \<longleftrightarrow>
     (\<forall>row \<in> set rows. bk_id row = lb_id (pl_locked plan) \<longrightarrow>
        bk_algorithm row = rule_Algorithm (pl_rule plan) \<and> bk_metric row = rule_Metric (pl_rule plan)) \<and>
     0 \<le> pl_reservedUnits plan \<and> pl_reservedUnits plan \<le> max_int64 \<and> in64 (rule_Maximum (pl_rule plan)) \<and>
     (isConcurrencyMetric (rule_Metric (pl_rule plan)) \<longrightarrow> pl_reservedUnits plan = 1)"

lemma persistTokenBucket_rows:
  assumes "persistTokenBucket bucket state now rows = Inr rows'" "distinct (map bk_id rows)"
    "list_all (bucket_ok entries extra) rows"
  shows "map bk_id rows' = map bk_id rows \<and> list_all (bucket_ok entries extra) rows' \<and>
    (plan_fits rows plan \<longrightarrow> plan_fits rows' plan)"
proof -
  obtain stored where u: "updateOne (tokenGuard bucket stored) (tokenChange state) rows = Inr rows'"
    using assms(1) by (auto simp: persistTokenBucket_def split: sum.splits if_splits)
  obtain row where row: "row \<in> set rows" "tokenGuard bucket stored row"
    "\<And>row'. row' \<in> set rows' \<Longrightarrow> row' = tokenChange state row \<or> row' \<in> set rows \<and> bk_id row' \<noteq> bk_id row"
    using token_update.updated_rows [OF u assms(2)] by blast
  have "bucket_ok entries extra (tokenChange state row)"
    using row(2) by (simp add: bucket_ok_def tokenGuard_def tokenChange_def)
  then have "list_all (bucket_ok entries extra) rows'"
    using row(3) assms(3) by (force simp: list_all_iff)
  moreover have "plan_fits rows' plan" if "plan_fits rows plan"
    using that row(1,3) by (force simp: plan_fits_def tokenChange_def)
  ultimately show ?thesis using token_update.updated_keys [OF u] by simp
qed

lemma reserveBucket_rows:
  assumes "reserveBucket at plan rows = Inr rows'" "distinct (map bk_id rows)"
    "list_all (bucket_ok entries extra) rows" "plan_fits rows plan"
  shows "map bk_id rows' = map bk_id rows \<and>
    list_all (bucket_ok entries (\<lambda>bucketID. extra bucketID + plannedUnits [plan] bucketID)) rows' \<and>
    (plan_fits rows plan' \<longrightarrow> plan_fits rows' plan')"
proof (cases "rule_Algorithm (pl_rule plan) = TokenBucketAlgorithm")
  case True
  then obtain state where p: "persistTokenBucket (pl_locked plan) state at rows = Inr rows'"
    using assms(1) by (auto simp: reserveBucket_def split: sum.splits bool.splits prod.splits)
  have r: "map bk_id rows' = map bk_id rows" "list_all (bucket_ok entries extra) rows'"
    "plan_fits rows p \<longrightarrow> plan_fits rows' p" for p
    using persistTokenBucket_rows [OF p assms(2,3)] by auto
  have "bucket_ok entries (\<lambda>bucketID. extra bucketID + plannedUnits [plan] bucketID) row" if "row \<in> set rows'" for row
  proof -
    have "bk_id row = lb_id (pl_locked plan) \<longrightarrow> bk_algorithm row = TokenBucketAlgorithm"
      using r(3) [of plan] assms(4) that True by (simp add: plan_fits_def)
    moreover have "bucket_ok entries extra row" using r(2) that by (simp add: list_all_iff)
    ultimately show ?thesis by (auto simp: bucket_ok_def)
  qed
  then show ?thesis using r by (simp add: list_all_iff)
next
  case False
  then have u: "updateOne (reserveGuard plan) (reserveChange plan) rows = Inr rows'"
    using assms(1) by (simp add: reserveBucket_def reserveCalendarBucket_def)
  obtain row where row: "row \<in> set rows" "reserveGuard plan row"
    "\<And>row'. row' \<in> set rows' \<Longrightarrow> row' = reserveChange plan row \<or> row' \<in> set rows \<and> bk_id row' \<noteq> bk_id row"
    using reserve_update.updated_rows [OF u assms(2)] by blast
  have id: "bk_id row = lb_id (pl_locked plan)" using row(2) by (simp add: reserveGuard_def Let_def)
  have "bucket_ok entries extra row" "bk_algorithm row \<noteq> TokenBucketAlgorithm"
    using assms(3,4) row(1) False id by (auto simp: list_all_iff plan_fits_def)
  then have "bucket_ok entries (\<lambda>bucketID. extra bucketID + plannedUnits [plan] bucketID) (reserveChange plan row)"
    using row(2) assms(4) id by (auto simp: bucket_ok_def reserveChange_def reserveGuard_def plan_fits_def Let_def)
  moreover have "bucket_ok entries (\<lambda>bucketID. extra bucketID + plannedUnits [plan] bucketID) r"
    if "r \<in> set rows" "bk_id r \<noteq> bk_id row" for r
  proof -
    have "bucket_ok entries extra r" using assms(3) that(1) by (simp add: list_all_iff)
    then show ?thesis
      using bucket_ok_cong [of extra r "\<lambda>bucketID. extra bucketID + plannedUnits [plan] bucketID"] that(2) id by simp
  qed
  ultimately have "list_all (bucket_ok entries (\<lambda>bucketID. extra bucketID + plannedUnits [plan] bucketID)) rows'"
    using row(3) by (force simp: list_all_iff)
  moreover have "plan_fits rows' plan'" if "plan_fits rows plan'"
    using that row(1,3) by (force simp: plan_fits_def reserveChange_def)
  ultimately show ?thesis using reserve_update.updated_keys [OF u] by simp
qed

lemma reserveBuckets_rows:
  assumes "reserveBuckets at plans rows = Inr rows'" "distinct (map bk_id rows)"
    "list_all (bucket_ok entries extra) rows" "list_all (plan_fits rows) plans"
  shows "map bk_id rows' = map bk_id rows \<and>
    list_all (bucket_ok entries (\<lambda>bucketID. extra bucketID + plannedUnits plans bucketID)) rows'"
  using assms
proof (induction plans arbitrary: rows extra)
  case (Cons plan plans)
  obtain mid where mid: "reserveBucket at plan rows = Inr mid" "reserveBuckets at plans mid = Inr rows'"
    using Cons.prems(1) by (auto simp: go_result)
  have s: "map bk_id mid = map bk_id rows"
    "list_all (bucket_ok entries (\<lambda>bucketID. extra bucketID + plannedUnits [plan] bucketID)) mid"
    "plan_fits rows p \<longrightarrow> plan_fits mid p" for p
    using reserveBucket_rows [OF mid(1) Cons.prems(2,3)] Cons.prems(4) by auto
  have "list_all (plan_fits mid) plans" using s(3) Cons.prems(4) by (auto simp: list_all_iff)
  from Cons.IH [OF mid(2) _ s(2) this] s(1) Cons.prems(2) show ?case
    by (simp add: add.assoc)
qed simp

section \<open>Plans\<close>

definition rule_limit_ok :: "preparedRule \<Rightarrow> bool" where
  "rule_limit_ok rule \<longleftrightarrow>
     in64 (rule_Maximum rule) \<and> in64 (rule_ReservedUnits rule) \<and> (stateful rule \<and> rule_Algorithm rule \<noteq> TokenBucketAlgorithm \<longrightarrow> 0 < rule_Maximum rule)"

definition plan_ok :: "plannedBucket \<Rightarrow> bool" where
  "plan_ok plan \<longleftrightarrow>
     stateful (pl_rule plan) \<and> rule_limit_ok (pl_rule plan) \<and> 0 \<le> pl_reservedUnits plan \<and> pl_reservedUnits plan \<le> max_int64 \<and>
     (isConcurrencyMetric (rule_Metric (pl_rule plan)) \<longrightarrow>
        rule_Algorithm (pl_rule plan) \<noteq> TokenBucketAlgorithm \<and> pl_reservedUnits plan = 1)"

text \<open>What the later steps of a reservation keep of a plan.\<close>

definition planCore :: "plannedBucket \<Rightarrow> preparedRule \<times> int" where
  "planCore plan = (pl_rule plan, pl_reservedUnits plan)"

lemma plan_ok_core: "planCore plan = planCore plan' \<Longrightarrow> plan_ok plan \<longleftrightarrow> plan_ok plan'"
  by (simp add: planCore_def plan_ok_def)

lemma list_all_plan_ok_core: "set (map planCore plans') \<subseteq> set (map planCore plans) \<Longrightarrow> list_all plan_ok plans \<Longrightarrow> list_all plan_ok plans'"
  unfolding list_all_iff by (metis (no_types, lifting) image_iff image_set plan_ok_core subset_iff)

lemma validReservationEntryUnits_plan:
  assumes "validReservationEntryUnits metric algorithm units"
  shows "0 \<le> units \<and> (isConcurrencyMetric metric \<longrightarrow> algorithm \<noteq> TokenBucketAlgorithm \<and> units = 1)"
  using assms
  by (auto simp: validReservationEntryUnits_def isStatefulRule_def isConcurrencyMetric_def metrics_distinct
      metrics_distinct_rev algorithms_distinct algorithms_distinct_rev split: if_splits)

lemma projected_units:
  "ProjectedReservationUnits rule streaming = (units, applicable) \<Longrightarrow> in64 (rule_ReservedUnits rule) \<Longrightarrow> units \<le> max_int64"
  by (auto simp: ProjectedReservationUnits_def in64_def split: if_splits)

lemma planRules_ok:
  "planRules LL streaming at rules = Inr plans \<Longrightarrow> list_all rule_limit_ok rules \<Longrightarrow> list_all plan_ok plans"
proof (induction rules arbitrary: plans)
  case (Cons rule rules)
  obtain units applicable where units: "ProjectedReservationUnits rule streaming = (units, applicable)"
    by (cases "ProjectedReservationUnits rule streaming")
  have "units \<le> max_int64" using projected_units [OF units] Cons.prems(2) by (simp add: rule_limit_ok_def)
  then have ok: "plan_ok (newPlan rule period units)"
    if "stateful rule" "validReservationEntryUnits (rule_Metric rule) (rule_Algorithm rule) units" for period
    using that Cons.prems(2) validReservationEntryUnits_plan [OF that(2)] by (simp add: plan_ok_def newPlan_def)
  show ?case
    using Cons.prems Cons.IH ok units by (auto simp: go_result split: if_splits)
qed simp

lemma ruleShape_maximum:
  "ruleShape mode dims rule = Some (True, t) \<Longrightarrow> rule_Algorithm rule \<noteq> TokenBucketAlgorithm \<Longrightarrow> 0 < rule_Maximum rule"
  by (auto simp: ruleShape_def Let_def split: if_splits)

lemma prepareRule_limit:
  assumes "prepareRule LL values mode rule b = Inr (p, b')" "in64 (rule_Maximum rule)" "in64 (rule_ReservedUnits rule)"
  shows "rule_limit_ok p"
proof -
  obtain dims s t tz where "ruleShape mode dims rule = Some (s, t)" "p = preparedRuleOf values dims t tz s rule"
    using assms(1) unfolding prepareRule_def
    by (auto split: option.splits if_splits sum.splits prod.splits)
  then show ?thesis
    using assms(2,3) ruleShape_maximum [of mode dims rule t] by (auto simp: rule_limit_ok_def preparedRuleOf_def)
qed

definition limits_typed :: "quota_rule list \<Rightarrow> bool" where
  "limits_typed rules \<longleftrightarrow> list_all (\<lambda>rule. in64 (rule_Maximum rule) \<and> in64 (rule_ReservedUnits rule)) rules"

lemma prepareRequest_limits:
  assumes "prepareRequest LL input = Inr prepared" "limits_typed (in_Rules input)"
  shows "list_all rule_limit_ok (prepared_rules prepared)"
proof -
  obtain scope rules p m s where r: "prepareRules LL (in_Rules input) scope reserveRulePreparation = Inr rules"
    and prepared: "prepared = preparedRequestOf input rules p m s"
    by (rule prepareRequest_Inr [OF assms(1)]) blast
  have "prepareRuleList LL values mode rs b = Inr (ps, b') \<Longrightarrow> limits_typed rs \<Longrightarrow> list_all rule_limit_ok ps"
    for "values" mode rs b ps b'
    by (induction rs arbitrary: b ps b') (auto simp: go_result limits_typed_def dest: prepareRule_limit)
  then show ?thesis using r assms(2) by (auto simp: prepareRules_Inr prepared list_all_iff)
qed

lemma assignIDs_core: "set (map planCore (assignIDs plans buckets entries leases)) \<subseteq> set (map planCore plans)"
  by (induction plans buckets entries leases rule: assignIDs.induct) (auto simp: planCore_def)

lemma findPlannedBucketIDs_core: "findPlannedBucketIDs prepared db plans = Inr plans' \<Longrightarrow> map planCore plans' = map planCore plans"
  by (induction plans arbitrary: plans') (auto simp: go_result planCore_def split: option.splits if_splits)

text \<open>A locked plan holds the columns of a row of its rule.\<close>

definition plan_locked :: "preparedRequest \<Rightarrow> bucketRow list \<Rightarrow> plannedBucket \<Rightarrow> bool" where
  "plan_locked prepared rows plan \<longleftrightarrow>
     (\<exists>row \<in> set rows. pl_locked plan = lockedBucketOf row \<and> bucketTenant row = requestTenant prepared \<and> bk_algorithm row = rule_Algorithm (pl_rule plan) \<and>
        bk_metric row = rule_Metric (pl_rule plan))"

lemma scanLockedBucket_Inr:
  "scanLockedBucket prepared plan found = Inr bucket \<Longrightarrow>
     \<exists>row. found = Some row \<and> bucket = lockedBucketOf row \<and> bk_organizationID row = in_OrganizationID prepared \<and>
       bk_applicationID row = in_ApplicationID prepared"
  by (auto simp: scanLockedBucket_def Let_def go_result split: option.splits if_splits)

lemma lockPlannedBucketRows_Inr:
  "lockPlannedBucketRows prepared db plans = Inr plans' \<Longrightarrow>
     map planCore plans' = map planCore plans \<and> list_all (plan_locked prepared (db_buckets db)) plans'"
proof (induction plans arbitrary: plans')
  case (Cons plan plans)
  let ?P = "\<lambda>row. bk_id row = pl_bucketID plan \<and> sameBucket prepared plan row"
  obtain bucket rest where b: "scanLockedBucket prepared plan (find ?P (db_buckets db)) = Inr bucket"
    and r: "lockPlannedBucketRows prepared db plans = Inr rest" and p: "plans' = plan\<lparr>pl_locked := bucket\<rparr> # rest"
    using Cons.prems by (auto simp: go_result)
  obtain row where f: "find ?P (db_buckets db) = Some row" "bucket = lockedBucketOf row"
    "bk_organizationID row = in_OrganizationID prepared" "bk_applicationID row = in_ApplicationID prepared"
    using scanLockedBucket_Inr [OF b] by blast
  then have "row \<in> set (db_buckets db)" "sameBucket prepared plan row" by (auto simp: find_Some_iff)
  then have "plan_locked prepared (db_buckets db) (plan\<lparr>pl_locked := bucket\<rparr>)"
    using f(2-) by (auto simp: plan_locked_def sameBucket_def bucketTenant_def requestTenant_def)
  then show ?case using Cons.IH [OF r] by (simp add: p planCore_def)
qed simp

lemma lockPlannedBuckets_Inr:
  assumes "lockPlannedBuckets prepared db plans = Inr plans'" "list_all plan_ok plans"
  shows "list_all plan_ok plans' \<and> list_all (plan_locked prepared (db_buckets db)) plans'"
proof -
  obtain found where f: "findPlannedBucketIDs prepared db plans = Inr found"
    and l: "lockPlannedBucketRows prepared db (sort_key pl_bucketID found) = Inr plans'"
    using assms(1) by (auto simp: lockPlannedBuckets_def go_result Let_def split: if_splits)
  have "map planCore plans' = map planCore (sort_key pl_bucketID found)" "list_all (plan_locked prepared (db_buckets db)) plans'"
    using lockPlannedBucketRows_Inr [OF l] by auto
  moreover have "list_all plan_ok found"
    using list_all_plan_ok_core [of found plans] findPlannedBucketIDs_core [OF f] assms(2) by simp
  then have "list_all plan_ok (sort_key pl_bucketID found)" by (simp add: list_all_iff)
  ultimately show ?thesis using list_all_plan_ok_core [of plans' "sort_key pl_bucketID found"] by simp
qed

lemma decidePlan_Inr:
  "decidePlan at plan = Inr (plan', verdict) \<Longrightarrow> planCore plan' = planCore plan \<and> pl_locked plan' = pl_locked plan"
  by (auto simp: decidePlan_def Let_def go_result planCore_def split: if_splits prod.splits)

lemma decidePlans_Inr:
  "decidePlans at plans = Inr decided \<Longrightarrow>
     map planCore (map fst decided) = map planCore plans \<and> map (pl_locked \<circ> fst) decided = map pl_locked plans"
  by (induction plans arbitrary: decided) (auto simp: go_result dest: decidePlan_Inr)

lemma decidePlans_locked:
  assumes "decidePlans at plans = Inr decided" "list_all plan_ok plans" "list_all (plan_locked prepared rows) plans"
  shows "list_all plan_ok (map fst decided) \<and> list_all (plan_locked prepared rows) (map fst decided)"
  using assms
proof (induction plans arbitrary: decided)
  case (Cons plan plans)
  obtain plan' verdict rest where d: "decidePlan at plan = Inr (plan', verdict)" "decidePlans at plans = Inr rest"
    "decided = (plan', verdict) # rest"
    using Cons.prems(1) by (auto simp: go_result)
  have "planCore plan' = planCore plan" "pl_locked plan' = pl_locked plan" using decidePlan_Inr [OF d(1)] by auto
  then have "plan_ok plan'" "plan_locked prepared rows plan'"
    using Cons.prems(2,3) plan_ok_core [of plan' plan] by (auto simp: plan_locked_def planCore_def)
  then show ?case using Cons.IH [OF d(2)] Cons.prems(2,3) d(3) by simp
qed simp

lemma plan_locked_fits:
  assumes "plan_locked prepared rows plan" "plan_ok plan" "distinct (map bk_id rows)"
  shows "plan_fits rows plan"
proof -
  obtain row where row: "row \<in> set rows" "pl_locked plan = lockedBucketOf row"
    "bk_algorithm row = rule_Algorithm (pl_rule plan)" "bk_metric row = rule_Metric (pl_rule plan)"
    using assms(1) by (auto simp: plan_locked_def)
  have "r = row" if "r \<in> set rows" "bk_id r = lb_id (pl_locked plan)" for r
    using that row(1,2) assms(3) by (auto simp: distinct_map inj_on_def lockedBucketOf_def)
  then show ?thesis using row assms(2) by (auto simp: plan_fits_def plan_ok_def rule_limit_ok_def)
qed

section \<open>Materialised buckets\<close>

lemma newBucketRow_Inr:
  assumes "newBucketRow prepared plan at = Inr row"
  shows "bk_id row = pl_bucketID plan \<and> bk_metric row = rule_Metric (pl_rule plan) \<and> bk_algorithm row = rule_Algorithm (pl_rule plan) \<and> bk_usedUnits row = 0 \<and>
    bk_reservedUnits row = 0 \<and>
    (rule_Algorithm (pl_rule plan) \<noteq> TokenBucketAlgorithm \<longrightarrow> bk_hardMaximum row = Some (rule_Maximum (pl_rule plan)))"
  using assms by (auto simp: newBucketRow_def Let_def split: if_splits option.splits)

definition fresh_row :: "plannedBucket \<times> bucketRow \<Rightarrow> bool" where
  "fresh_row command \<longleftrightarrow>
     bk_id (snd command) = pl_bucketID (fst command) \<and> bk_reservedUnits (snd command) = 0 \<and>
     (isConcurrencyMetric (bk_metric (snd command)) \<longrightarrow> bk_algorithm (snd command) \<noteq> TokenBucketAlgorithm) \<and>
     bucket_ok [] (\<lambda>_. 0) (snd command)"

lemma newBucketRows_fresh:
  "newBucketRows prepared at plans = Inr commands \<Longrightarrow> list_all plan_ok plans \<Longrightarrow> list_all fresh_row commands"
proof (induction plans arbitrary: commands)
  case (Cons plan plans)
  obtain row rest where r: "newBucketRow prepared plan at = Inr row" "newBucketRows prepared at plans = Inr rest"
    "commands = (plan, row) # rest"
    using Cons.prems(1) by (auto simp: go_result)
  have "fresh_row (plan, row)"
    using newBucketRow_Inr [OF r(1)] Cons.prems(2)
    by (auto simp: fresh_row_def bucket_ok_def plan_ok_def rule_limit_ok_def)
  then show ?case using Cons.IH [OF r(2)] Cons.prems(2) r(3) by simp
qed simp

definition refers_to :: "bucketRow list \<Rightarrow> entryRow list \<Rightarrow> leaseRow list \<Rightarrow> bool" where
  "refers_to rows entries leases \<longleftrightarrow>
     (\<forall>entry \<in> set entries. \<exists>row \<in> set rows. bk_id row = qe_bucketID entry \<and> bucketTenant row = entryTenant entry) \<and>
     set (map cl_bucketID leases) \<subseteq> set (map bk_id rows)"

definition lease_count_ok :: "leaseRow list \<Rightarrow> (string \<Rightarrow> int) \<Rightarrow> bucketRow \<Rightarrow> bool" where
  "lease_count_ok leases extra bucket \<longleftrightarrow>
     (isConcurrencyMetric (bk_metric bucket) \<longrightarrow>
        bk_algorithm bucket \<noteq> TokenBucketAlgorithm \<and> bk_reservedUnits bucket = int (openLeases (bk_id bucket) leases) + extra (bk_id bucket))"

text \<open>What no statement ever changes of a bucket.\<close>

definition bucketKey :: "bucketRow \<Rightarrow> string \<times> (string \<times> string \<times> string) \<times> string \<times> string" where
  "bucketKey row = (bk_id row, bucketTenant row, bk_metric row, bk_algorithm row)"

lemma bucketKey_row:
  assumes "map bucketKey rows' = map bucketKey rows" "row \<in> set rows"
  obtains row' where "row' \<in> set rows'" "bucketKey row' = bucketKey row"
proof -
  have "bucketKey row \<in> set (map bucketKey rows')" using assms by simp
  then show thesis using that by auto
qed

lemma bucketKey_ids: "map bucketKey rows' = map bucketKey rows \<Longrightarrow> map bk_id rows' = map bk_id rows"
  by (auto simp: bucketKey_def dest!: arg_cong [of _ _ "map fst"] simp: comp_def)

lemma refers_to_keys:
  assumes "map bucketKey rows' = map bucketKey rows" "refers_to rows entries leases"
  shows "refers_to rows' entries leases"
proof -
  have "\<exists>row' \<in> set rows'. bk_id row' = qe_bucketID entry \<and> bucketTenant row' = entryTenant entry" if "entry \<in> set entries" for entry
  proof -
    obtain row where row: "row \<in> set rows" "bk_id row = qe_bucketID entry" "bucketTenant row = entryTenant entry"
      using assms(2) \<open>entry \<in> set entries\<close> by (auto simp: refers_to_def)
    obtain row' where "row' \<in> set rows'" "bucketKey row' = bucketKey row" by (rule bucketKey_row [OF assms(1) row(1)])
    then show ?thesis using row by (auto simp: bucketKey_def)
  qed
  then show ?thesis using assms(2) bucketKey_ids [OF assms(1)] by (simp add: refers_to_def flip: set_map)
qed

lemma openLeases_absent: "bucketID \<notin> set (map cl_bucketID leases) \<Longrightarrow> openLeases bucketID leases = 0"
  by (auto simp: openLeases_def filter_empty_conv)

lemma materializeBuckets_rows:
  assumes "materializeBuckets prepared commands rows = Inr rows'" "list_all fresh_row commands"
    "distinct (map bk_id rows)" "refers_to rows entries leases" "list_all (bucket_ok entries (\<lambda>_. 0)) rows"
    "list_all (lease_count_ok leases (\<lambda>_. 0)) rows"
  shows "distinct (map bk_id rows') \<and> refers_to rows' entries leases \<and> list_all (bucket_ok entries (\<lambda>_. 0)) rows' \<and>
    list_all (lease_count_ok leases (\<lambda>_. 0)) rows'"
  using assms
proof (induction commands arbitrary: rows)
  case (Cons command commands)
  obtain plan row where c: "command = (plan, row)" by (cases command)
  obtain mid where mid: "materializeBucket prepared plan row rows = Inr mid"
    "materializeBuckets prepared commands mid = Inr rows'"
    using Cons.prems(1) by (auto simp: c go_result)
  have fresh: "bk_id row = pl_bucketID plan" "bucket_ok [] (\<lambda>_. 0) row" "bk_reservedUnits row = 0"
    "isConcurrencyMetric (bk_metric row) \<longrightarrow> bk_algorithm row \<noteq> TokenBucketAlgorithm"
    using Cons.prems(2) by (auto simp: c fresh_row_def)
  have "mid = rows \<or> mid = rows @ [row] \<and> bk_id row \<notin> set (map bk_id rows)"
    using mid(1) fresh(1) by (auto simp: materializeBucket_def insertRow_def list_ex_iff split: if_splits)
  then consider "mid = rows" | "mid = rows @ [row]" "bk_id row \<notin> set (map bk_id rows)" by blast
  then have "distinct (map bk_id mid) \<and> refers_to mid entries leases \<and> list_all (bucket_ok entries (\<lambda>_. 0)) mid \<and>
    list_all (lease_count_ok leases (\<lambda>_. 0)) mid"
  proof cases
    case 1
    then show ?thesis using Cons.prems by simp
  next
    case 2
    have "bk_id row \<notin> set (map qe_bucketID entries)" "bk_id row \<notin> set (map cl_bucketID leases)"
      using 2(2) Cons.prems(4) unfolding refers_to_def by (metis (no_types, lifting) image_eqI image_iff list.set_map subset_iff)+
    then have "bucket_ok entries (\<lambda>_. 0) row" "lease_count_ok leases (\<lambda>_. 0) row"
      using fresh(2-) entryTotal_absent [of "bk_id row" entries] openLeases_absent [of "bk_id row" leases]
      by (auto simp: bucket_ok_def lease_count_ok_def split: if_splits)
    then show ?thesis using 2 Cons.prems by (auto simp: refers_to_def)
  qed
  then show ?case using Cons.IH [OF mid(2)] Cons.prems(2) by (simp add: c)
qed simp

section \<open>A denial\<close>

text \<open>The occupancy a decision was made on is the one in the row.\<close>

definition snapshot_fits :: "bucketRow list \<Rightarrow> plannedBucket \<Rightarrow> bool" where
  "snapshot_fits rows plan \<longleftrightarrow>
     (\<forall>row \<in> set rows. bk_id row = lb_id (pl_locked plan) \<longrightarrow>
        bk_usedUnits row = lb_used (pl_locked plan) \<and> bk_reservedUnits row = lb_reserved (pl_locked plan))"

lemma plan_locked_snapshot:
  assumes "plan_locked prepared rows plan" "distinct (map bk_id rows)"
  shows "snapshot_fits rows plan"
proof -
  obtain row where row: "row \<in> set rows" "pl_locked plan = lockedBucketOf row"
    using assms(1) by (auto simp: plan_locked_def)
  have "r = row" if "r \<in> set rows" "bk_id r = lb_id (pl_locked plan)" for r
    using that row assms(2) by (auto simp: distinct_map inj_on_def lockedBucketOf_def)
  then show ?thesis using row by (auto simp: snapshot_fits_def lockedBucketOf_def)
qed

text \<open>An update that leaves the identity and the units of the rows alone.\<close>

definition same_units :: "bucketRow list \<Rightarrow> bucketRow list \<Rightarrow> bool" where
  "same_units rows rows' \<longleftrightarrow>
     map (\<lambda>row. (bk_id row, bucketTenant row, bk_metric row, bk_algorithm row, bk_usedUnits row, bk_reservedUnits row)) rows' =
     map (\<lambda>row. (bk_id row, bucketTenant row, bk_metric row, bk_algorithm row, bk_usedUnits row, bk_reservedUnits row)) rows"

lemma same_units_ids: "same_units rows rows' \<Longrightarrow> map bk_id rows' = map bk_id rows"
  by (auto simp: same_units_def dest!: arg_cong [of _ _ "map fst"] simp: comp_def)

lemma same_units_keys: "same_units rows rows' \<Longrightarrow> map bucketKey rows' = map bucketKey rows"
  unfolding same_units_def
  by (drule arg_cong [of _ _ "map (\<lambda>(i, t, m, a, u). (i, t, m, a))"]) (simp add: comp_def bucketKey_def [abs_def])

lemma same_units_row:
  assumes "same_units rows rows'" "row' \<in> set rows'"
  obtains row where "row \<in> set rows" "bk_id row' = bk_id row" "bucketTenant row' = bucketTenant row" "bk_metric row' = bk_metric row"
    "bk_algorithm row' = bk_algorithm row" "bk_usedUnits row' = bk_usedUnits row" "bk_reservedUnits row' = bk_reservedUnits row"
proof -
  let ?f = "\<lambda>row. (bk_id row, bucketTenant row, bk_metric row, bk_algorithm row, bk_usedUnits row, bk_reservedUnits row)"
  have "?f row' \<in> set (map ?f rows')" using assms(2) by simp
  then have "?f row' \<in> set (map ?f rows)" using assms(1) unfolding same_units_def by metis
  then show thesis using that by auto
qed

lemma same_units_keeps:
  assumes "same_units rows rows'"
  shows "plan_fits rows plan \<Longrightarrow> plan_fits rows' plan" "snapshot_fits rows plan \<Longrightarrow> snapshot_fits rows' plan"
    "list_all (lease_count_ok leases extra) rows \<Longrightarrow> list_all (lease_count_ok leases extra) rows'"
  using assms by (auto simp: plan_fits_def snapshot_fits_def lease_count_ok_def list_all_iff elim!: same_units_row)

lemma sqlUpdate_same_units:
  assumes "updateOne guard change rows = Inr rows'"
    "\<And>row. (bk_id (change row), bucketTenant (change row), bk_metric (change row), bk_algorithm (change row), bk_usedUnits (change row),
        bk_reservedUnits (change row)) =
       (bk_id row, bucketTenant row, bk_metric row, bk_algorithm row, bk_usedUnits row, bk_reservedUnits row)"
  shows "same_units rows rows'"
  using assms by (auto simp: updateOne_def sqlUpdate_def same_units_def split: if_splits)

lemma persistTokenBucket_same:
  assumes "persistTokenBucket bucket state now rows = Inr rows'"
  shows "same_units rows rows'"
proof -
  obtain stored where "updateOne (tokenGuard bucket stored) (tokenChange state) rows = Inr rows'"
    using assms by (auto simp: persistTokenBucket_def split: sum.splits if_splits)
  then show ?thesis by (rule sqlUpdate_same_units) (simp add: tokenChange_def bucketTenant_def)
qed

lemma refreshDenied_cases:
  assumes "refreshDenied at plan rows = Inr rows'"
  obtains (token) "persistTokenBucket (pl_locked plan) (pl_tokenState plan) at rows = Inr rows'"
  | (same) "rows' = rows"
  | (maximum) "rule_Algorithm (pl_rule plan) \<noteq> TokenBucketAlgorithm"
      "\<not> rule_Maximum (pl_rule plan) < add64 (lb_used (pl_locked plan)) (lb_reserved (pl_locked plan))"
      "updateOne (\<lambda>row. bk_id row = lb_id (pl_locked plan)) (refreshChange (rule_Maximum (pl_rule plan))) rows = Inr rows'"
proof (cases "rule_Algorithm (pl_rule plan) = TokenBucketAlgorithm")
  case True
  then show thesis using assms token by (simp add: refreshDenied_def Let_def)
next
  case alg: False
  let ?keep = "rule_Maximum (pl_rule plan) < add64 (lb_used (pl_locked plan)) (lb_reserved (pl_locked plan)) \<or>
    lb_hardMaximum (pl_locked plan) = Some (rule_Maximum (pl_rule plan))"
  show thesis
  proof (cases ?keep)
    case True
    then have "refreshDenied at plan rows = Inr rows" using alg by (simp add: refreshDenied_def Let_def)
    then show thesis using assms same by simp
  next
    case False
    then have "refreshDenied at plan rows =
      updateOne (\<lambda>row. bk_id row = lb_id (pl_locked plan)) (refreshChange (rule_Maximum (pl_rule plan))) rows"
      using alg by (simp add: refreshDenied_def Let_def)
    then show thesis using assms maximum alg False by simp
  qed
qed

lemma refreshDenied_same: "refreshDenied at plan rows = Inr rows' \<Longrightarrow> same_units rows rows'"
proof (erule refreshDenied_cases)
  assume "updateOne (\<lambda>row. bk_id row = lb_id (pl_locked plan)) (refreshChange (rule_Maximum (pl_rule plan))) rows = Inr rows'"
  then show ?thesis by (rule sqlUpdate_same_units) (simp add: refreshChange_def bucketTenant_def)
qed (auto simp: same_units_def dest: persistTokenBucket_same [unfolded same_units_def])

lemma refreshDenied_rows:
  assumes "refreshDenied at plan rows = Inr rows'" "distinct (map bk_id rows)"
    "list_all (bucket_ok entries extra) rows" "plan_fits rows plan" "snapshot_fits rows plan"
  shows "list_all (bucket_ok entries extra) rows'"
proof -
  let ?maximum = "rule_Maximum (pl_rule plan)" and ?bucket = "pl_locked plan"
  from assms(1) show ?thesis
  proof (cases rule: refreshDenied_cases)
    case token
    then show ?thesis using persistTokenBucket_rows [OF token assms(2,3)] by simp
  next
    case same
    then show ?thesis using assms(3) by simp
  next
    case maximum
    obtain row where row: "row \<in> set rows" "bk_id row = lb_id ?bucket"
      "\<And>row'. row' \<in> set rows' \<Longrightarrow> row' = refreshChange ?maximum row \<or> row' \<in> set rows \<and> bk_id row' \<noteq> bk_id row"
      using refresh_update.updated_rows [OF maximum(3) assms(2)] by blast
    have old: "bucket_ok entries extra row" "bk_algorithm row \<noteq> TokenBucketAlgorithm"
      "bk_usedUnits row = lb_used ?bucket" "bk_reservedUnits row = lb_reserved ?bucket"
      using assms(3,4,5) row(1,2) maximum(1) by (auto simp: list_all_iff plan_fits_def snapshot_fits_def)
    then have "0 \<le> lb_used ?bucket" "0 \<le> lb_reserved ?bucket" "lb_used ?bucket + lb_reserved ?bucket \<le> max_int64"
      by (auto simp: bucket_ok_def in64_def)
    then have "lb_used ?bucket + lb_reserved ?bucket \<le> ?maximum"
      using maximum(2) by (simp add: add64_exact in64_def)
    then have "bucket_ok entries extra (refreshChange ?maximum row)"
      using old assms(4) by (auto simp: bucket_ok_def refreshChange_def plan_fits_def)
    then show ?thesis using row(3) assms(3) by (force simp: list_all_iff)
  qed
qed

lemma refreshDeniedPlans_rows:
  assumes "refreshDeniedPlans at plans rows = Inr rows'" "distinct (map bk_id rows)"
    "list_all (bucket_ok entries extra) rows" "list_all (plan_fits rows) plans" "list_all (snapshot_fits rows) plans"
  shows "same_units rows rows' \<and> list_all (bucket_ok entries extra) rows'"
  using assms
proof (induction plans arbitrary: rows)
  case (Cons plan plans)
  obtain mid where mid: "refreshDenied at plan rows = Inr mid" "refreshDeniedPlans at plans mid = Inr rows'"
    using Cons.prems(1) by (auto simp: go_result)
  have s: "same_units rows mid" by (rule refreshDenied_same [OF mid(1)])
  have ok: "list_all (bucket_ok entries extra) mid"
    using refreshDenied_rows [OF mid(1) Cons.prems(2,3)] Cons.prems(4,5) by simp
  have "distinct (map bk_id mid)" using same_units_ids [OF s] Cons.prems(2) by simp
  moreover have "list_all (plan_fits mid) plans" "list_all (snapshot_fits mid) plans"
    using Cons.prems(4,5) same_units_keeps [OF s] by (auto simp: list_all_iff)
  ultimately show ?case using Cons.IH [OF mid(2) _ ok] s by (simp add: same_units_def)
qed (simp add: same_units_def)

end
