(* ===== verification/Quota_Admission.thy ===== *)
theory Quota_Admission
  imports Quota_Ledger
begin

text \<open>
  The ledger invariant of the quota tables, and the proof that the reservation transaction keeps it:
  every bucket's settled and reserved units are the sums over its entries, every concurrency bucket
  counts its open leases, and only entries of pending reservations hold units.
\<close>

section \<open>The ledger\<close>

definition reservationTenant :: "reservationRow \<Rightarrow> string \<times> string \<times> string" where
  "reservationTenant row = (qr_organizationID row, qr_applicationID row, qr_environmentID row)"

definition entry_live :: "reservationRow list \<Rightarrow> entryRow \<Rightarrow> bool" where
  "entry_live reservations entry \<longleftrightarrow>
     (\<exists>row \<in> set reservations. qr_id row = qe_reservationID entry \<and>
        reservationTenant row = entryTenant entry \<and> (qr_status row \<noteq> ''pending'' \<longrightarrow> outstanding entry = 0))"

definition ledger_ok :: "quotaDB \<Rightarrow> bool" where
  "ledger_ok db \<longleftrightarrow>
     distinct (map bk_id (db_buckets db)) \<and> distinct (map qe_id (db_entries db)) \<and>
     distinct (map qr_id (db_reservations db)) \<and> refers_to (db_buckets db) (db_entries db) (db_leases db) \<and>
     list_all entry_ok (db_entries db) \<and> list_all (entry_live (db_reservations db)) (db_entries db) \<and>
     list_all (bucket_ok (db_entries db) (\<lambda>_. 0)) (db_buckets db) \<and>
     list_all (lease_count_ok (db_leases db) (\<lambda>_. 0)) (db_buckets db)"

lemma ledger_ok_cong:
  assumes "ledger_ok db" "db_buckets db' = db_buckets db" "db_entries db' = db_entries db" "db_leases db' = db_leases db"
    "db_reservations db' = db_reservations db"
  shows "ledger_ok db'"
  using assms by (simp add: ledger_ok_def)

text \<open>The statements on the logical request and its decision stages leave the ledger alone.\<close>

definition same_ledger :: "quotaDB \<Rightarrow> quotaDB \<Rightarrow> bool" where
  "same_ledger db db' \<longleftrightarrow>
     db_buckets db' = db_buckets db \<and> db_entries db' = db_entries db \<and> db_leases db' = db_leases db \<and>
     db_reservations db' = db_reservations db"

lemma same_ledger_refl [simp]: "same_ledger db db"
  by (simp add: same_ledger_def)

lemma same_ledger_trans: "same_ledger db mid \<Longrightarrow> same_ledger mid db' \<Longrightarrow> same_ledger db db'"
  by (simp add: same_ledger_def)

lemma same_ledger_ok: "same_ledger db db' \<Longrightarrow> ledger_ok db \<Longrightarrow> ledger_ok db'"
  using ledger_ok_cong by (simp add: same_ledger_def)

lemma appendDecisionStagesAt_ledger: "appendDecisionStagesAt request next stages db = Inr db' \<Longrightarrow> same_ledger db db'"
  by (auto simp: appendDecisionStagesAt_def go_result same_ledger_def split: if_splits)

lemma appendDecisionStages_ledger: "appendDecisionStages request stages db = Inr db' \<Longrightarrow> same_ledger db db'"
  by (auto simp: appendDecisionStages_def intro: appendDecisionStagesAt_ledger split: if_splits)

lemma closeLogical_ledger: "closeLogical request from status code at db = Inr db' \<Longrightarrow> same_ledger db db'"
  by (auto simp: closeLogical_def go_result same_ledger_def)

lemma projectDecisionStage_ledger: "projectDecisionStage request stage db = Inr db' \<Longrightarrow> same_ledger db db'"
  by (auto simp: projectDecisionStage_def projectLimitPlan_def projectRoute_def go_result same_ledger_def split: if_splits)

lemma projectDecisionStages_ledger: "projectDecisionStages request stages db = Inr db' \<Longrightarrow> same_ledger db db'"
  by (induction stages arbitrary: db)
    (auto simp: go_result intro: same_ledger_trans dest: projectDecisionStage_ledger)

lemma claimAuthenticatedRequest_ledger:
  assumes "claimAuthenticatedRequest input fingerprint db = Inr (db', claimed)"
  shows "same_ledger db db'"
proof (cases "db' = db")
  case False
  then obtain mid mid' rows where m: "projectDecisionStages (requestHandleForPrepared input) (in_DecisionStages input) db = Inr mid"
    "appendDecisionStages (requestHandleForPrepared input) (in_DecisionStages input) mid = Inr mid'"
    "db' = mid'\<lparr>db_logical := rows\<rparr>"
    using assms by (auto simp: claimAuthenticatedRequest_def go_result split: option.splits if_splits)
  then show ?thesis
    using same_ledger_trans [OF projectDecisionStages_ledger [OF m(1)] appendDecisionStages_ledger [OF m(2)]]
    by (simp add: same_ledger_def)
qed simp

lemma enterLogicalRequest_ledger:
  assumes "enterLogicalRequest prepared fingerprint at db = Inr (Some db')"
  shows "same_ledger db db'"
  using assms
  by (auto simp: enterLogicalRequest_def go_result same_ledger_def split: if_splits
      dest!: claimAuthenticatedRequest_ledger)

section \<open>An accepted reservation\<close>

lemma insertEntries_rows:
  "insertEntries news rows = Inr rows' \<Longrightarrow> rows' = rows @ news"
proof (induction news arbitrary: rows)
  case (Cons new news)
  then have "insertEntries news (rows @ [new]) = Inr rows'" by (auto simp: go_result insertRow_def split: if_splits)
  then show ?case using Cons.IH by fastforce
qed simp

lemma insertEntries_distinct:
  "insertEntries news rows = Inr rows' \<Longrightarrow> distinct (map qe_id rows) \<Longrightarrow> distinct (map qe_id rows')"
proof (induction news arbitrary: rows)
  case (Cons new news)
  then have "insertEntries news (rows @ [new]) = Inr rows'" "distinct (map qe_id (rows @ [new]))"
    by (auto simp: go_result insertRow_def list_ex_iff split: if_splits)
  then show ?case by (rule Cons.IH)
qed simp

lemma insertLeases_Inr: "insertLeases news rows = Inr rows' \<Longrightarrow> rows' = rows @ news"
proof (induction news arbitrary: rows)
  case (Cons new news)
  then have "insertLeases news (rows @ [new]) = Inr rows'" by (auto simp: go_result insertRow_def split: if_splits)
  then show ?case using Cons.IH by fastforce
qed simp

lemma insertReservation_Inr:
  "insertReservation new rows = Inr rows' \<Longrightarrow> rows' = rows @ [new] \<and> qr_id new \<notin> set (map qr_id rows)"
  by (auto simp: insertReservation_def insertRow_def list_ex_iff split: if_splits)

lemma entryTotal_planned:
  "entryTotal qe_settledUnits bucketID (map (entryRowOf prepared reservationID) plans) = 0"
  "entryTotal outstanding bucketID (map (entryRowOf prepared reservationID) plans) = plannedUnits plans bucketID"
  by (induction plans) (simp_all add: entryRowOf_def outstanding_def)

lemma reserveBuckets_static: "reserveBuckets at plans rows = Inr rows' \<Longrightarrow> map bucketKey rows' = map bucketKey rows"
proof (induction plans arbitrary: rows)
  case (Cons plan plans)
  obtain mid where mid: "reserveBucket at plan rows = Inr mid" "reserveBuckets at plans mid = Inr rows'"
    using Cons.prems by (auto simp: go_result)
  have "map bucketKey mid = map bucketKey rows"
    using mid(1)
    by (auto simp: reserveBucket_def reserveCalendarBucket_def persistTokenBucket_def updateOne_def sqlUpdate_def
        reserveChange_def tokenChange_def bucketTenant_def bucketKey_def split: if_splits sum.splits prod.splits bool.splits)
  then show ?case using Cons.IH [OF mid(2)] by simp
qed simp

lemma openLeases_planned:
  assumes "list_all (plan_fits rows) plans" "row \<in> set rows" "isConcurrencyMetric (bk_metric row)"
  shows "int (openLeases (bk_id row) (map (leaseRowOf prepared at expires)
      (filter (\<lambda>plan. isConcurrencyMetric (rule_Metric (pl_rule plan))) plans))) = plannedUnits plans (bk_id row)"
  using assms
proof (induction plans)
  case (Cons plan plans)
  have fits: "lb_id (pl_locked plan) = bk_id row \<Longrightarrow> isConcurrencyMetric (rule_Metric (pl_rule plan)) \<and> pl_reservedUnits plan = 1"
    using Cons.prems by (auto simp: plan_fits_def)
  show ?case
    using Cons.IH Cons.prems fits by (auto simp: openLeases_def leaseRowOf_def)
qed (simp add: openLeases_def)

lemma openLeases_append: "openLeases bucketID (leases @ news) = openLeases bucketID leases + openLeases bucketID news"
  by (simp add: openLeases_def)

lemma reserved_lease_count:
  assumes "reserveBuckets at plans rows = Inr rows'" "distinct (map bk_id rows)"
    "list_all (bucket_ok entries (\<lambda>_. 0)) rows" "list_all (plan_fits rows) plans"
    "list_all (lease_count_ok leases (\<lambda>_. 0)) rows" "row' \<in> set rows'"
  shows "lease_count_ok (leases @ map (leaseRowOf prepared at' expires)
    (filter (\<lambda>plan. isConcurrencyMetric (rule_Metric (pl_rule plan))) plans)) (\<lambda>_. 0) row'"
proof -
  obtain row where "row \<in> set rows" "bucketKey row = bucketKey row'"
    by (rule bucketKey_row [OF reserveBuckets_static [OF assms(1), symmetric] assms(6)])
  then have row: "row \<in> set rows" "bk_id row' = bk_id row" "bk_metric row' = bk_metric row"
    "bk_algorithm row' = bk_algorithm row" by (auto simp: bucketKey_def)
  have old: "bucket_ok entries (\<lambda>_. 0) row" "lease_count_ok leases (\<lambda>_. 0) row"
    using assms(3,5) row(1) by (simp_all add: list_all_iff)
  have new: "bucket_ok entries (\<lambda>bucketID. 0 + plannedUnits plans bucketID) row'"
    using reserveBuckets_rows [OF assms(1,2,3,4)] assms(6) by (simp add: list_all_iff)
  show ?thesis
  proof (cases "isConcurrencyMetric (bk_metric row)")
    case True
    then show ?thesis
      using openLeases_planned [OF assms(4) row(1) True, of prepared at' expires] row(2-4) old new
      by (simp add: lease_count_ok_def bucket_ok_def openLeases_append)
  qed (simp add: lease_count_ok_def row)
qed

lemma persistAccepted_ledger:
  assumes "persistAcceptedReservation prepared plans reservationID key at expires next stages db = Inr db'"
    "ledger_ok db" "list_all (plan_fits (db_buckets db)) plans" "list_all (plan_locked prepared (db_buckets db)) plans"
  shows "ledger_ok db'"
proof -
  let ?conc = "filter (\<lambda>plan. isConcurrencyMetric (rule_Metric (pl_rule plan))) plans"
  obtain mid buckets leases reservations entries where
    mid: "appendDecisionStagesAt (requestHandleForPrepared prepared) next stages db = Inr mid"
    and b: "reserveBuckets at plans (db_buckets mid) = Inr buckets"
    and l: "insertLeases (map (leaseRowOf prepared at expires) ?conc) (db_leases mid) = Inr leases"
    and r: "insertReservation (reservationRowOf prepared reservationID key at expires) (db_reservations mid) = Inr reservations"
    and e: "insertEntries (map (entryRowOf prepared reservationID) plans) (db_entries mid) = Inr entries"
    and db': "db' = mid\<lparr>db_buckets := buckets, db_leases := leases, db_reservations := reservations, db_entries := entries\<rparr>"
    using assms(1) by (auto simp: persistAcceptedReservation_def go_result)
  have same: "db_buckets mid = db_buckets db" "db_entries mid = db_entries db" "db_leases mid = db_leases db"
    "db_reservations mid = db_reservations db"
    using appendDecisionStagesAt_ledger [OF mid] by (auto simp: same_ledger_def)
  note ok = assms(2) [unfolded ledger_ok_def]
  have rows: "map bk_id buckets = map bk_id (db_buckets db)"
    "list_all (bucket_ok (db_entries db) (plannedUnits plans)) buckets"
    using reserveBuckets_rows [OF b [unfolded same], of "db_entries db" "\<lambda>_. 0"] ok assms(3) by auto
  have ent: "entries = db_entries db @ map (entryRowOf prepared reservationID) plans" "distinct (map qe_id entries)"
    using insertEntries_rows [OF e] insertEntries_distinct [OF e] ok by (simp_all add: same)
  have les: "leases = db_leases db @ map (leaseRowOf prepared at expires) ?conc" using insertLeases_Inr [OF l] by (simp add: same)
  have res: "reservations = db_reservations db @ [reservationRowOf prepared reservationID key at expires]"
    "distinct (map qr_id reservations)"
    using insertReservation_Inr [OF r] ok by (auto simp: same)
  note keys = reserveBuckets_static [OF b [unfolded same]]
  have locked: "\<exists>row \<in> set (db_buckets db). bk_id row = lb_id (pl_locked plan) \<and> bucketTenant row = requestTenant prepared"
    "0 \<le> pl_reservedUnits plan" "pl_reservedUnits plan \<le> max_int64" if "plan \<in> set plans" for plan
  proof -
    have "plan_locked prepared (db_buckets db) plan" "plan_fits (db_buckets db) plan"
      using assms(3,4) that by (simp_all add: list_all_iff)
    then show "\<exists>row \<in> set (db_buckets db). bk_id row = lb_id (pl_locked plan) \<and> bucketTenant row = requestTenant prepared"
      "0 \<le> pl_reservedUnits plan" "pl_reservedUnits plan \<le> max_int64"
      by (auto simp: plan_locked_def plan_fits_def lockedBucketOf_def)
  qed
  have "bucket_ok entries (\<lambda>_. 0) row" if "row \<in> set buckets" for row
  proof -
    have "bucket_ok (db_entries db) (plannedUnits plans) row" using rows(2) that by (simp add: list_all_iff)
    then show ?thesis by (auto simp: bucket_ok_def ent(1) entryTotal_planned split: if_splits)
  qed
  moreover have "lease_count_ok leases (\<lambda>_. 0) row" if "row \<in> set buckets" for row
    using reserved_lease_count [OF b [unfolded same], of "db_entries db" "db_leases db" row] ok assms(3) that by (simp add: les)
  moreover have "refers_to (db_buckets db) entries leases"
  proof -
    have "\<exists>row \<in> set (db_buckets db). bk_id row = qe_bucketID entry \<and> bucketTenant row = entryTenant entry"
      if mem: "entry \<in> set entries" for entry
    proof (cases "entry \<in> set (db_entries db)")
      case True
      then show ?thesis using ok unfolding refers_to_def by blast
    next
      case False
      then obtain plan where "plan \<in> set plans" "entry = entryRowOf prepared reservationID plan"
        using mem by (auto simp: ent(1))
      then show ?thesis using locked(1) [of plan] by (simp add: entryRowOf_def entryTenant_def requestTenant_def)
    qed
    moreover have "cl_bucketID lease \<in> set (map bk_id (db_buckets db))" if mem: "lease \<in> set leases" for lease
    proof (cases "lease \<in> set (db_leases db)")
      case True
      then show ?thesis using ok by (auto simp: refers_to_def)
    next
      case False
      then obtain plan where "plan \<in> set plans" "lease = leaseRowOf prepared at expires plan"
        using mem by (auto simp: les)
      then show ?thesis using locked(1) [of plan] by (force simp: leaseRowOf_def)
    qed
    ultimately show ?thesis by (auto simp: refers_to_def)
  qed
  then have "refers_to buckets entries leases" by (rule refers_to_keys [OF keys])
  moreover have "list_all entry_ok entries" using ok locked by (auto simp: ent(1) list_all_iff entry_ok_def outstanding_def entryRowOf_def)
  moreover have "list_all (entry_live reservations) entries"
    using ok by (auto simp: ent(1) res(1) list_all_iff entry_live_def entryRowOf_def reservationRowOf_def
        entryTenant_def reservationTenant_def)
  ultimately show ?thesis
    using ok rows(1) ent(2) res(2) by (simp add: ledger_ok_def db' list_all_iff)
qed

section \<open>The reservation transaction\<close>

lemma materialize_ledger:
  assumes "materializePlannedBuckets prepared plans at db = Inr db'" "ledger_ok db" "list_all plan_ok plans"
  shows "ledger_ok db'"
proof -
  obtain commands rows where c: "newBucketRows prepared at plans = Inr commands"
    "materializeBuckets prepared commands (db_buckets db) = Inr rows" "db' = db\<lparr>db_buckets := rows\<rparr>"
    using assms(1) by (auto simp: materializePlannedBuckets_def go_result)
  show ?thesis
    using materializeBuckets_rows [OF c(2) newBucketRows_fresh [OF c(1) assms(3)], of "db_entries db" "db_leases db"] assms(2)
    by (simp add: ledger_ok_def c(3))
qed

lemma denyPlans_cases:
  assumes "denyPlans prepared decided requestedAt decisionAt next db = Inr (db', failure)"
  obtains buckets where "refreshDeniedPlans decisionAt (map fst decided) (db_buckets db) = Inr buckets"
    "same_ledger (db\<lparr>db_buckets := buckets\<rparr>) db'"
proof -
  let ?code = "if plansWith QuotaExceeded decided \<noteq> [] then ''quota_exceeded'' else ''concurrency_exceeded''"
  obtain buckets stages mid closed where b: "refreshDeniedPlans decisionAt (map fst decided) (db_buckets db) = Inr buckets"
    and m: "appendDecisionStagesAt (requestHandleForPrepared prepared) next stages (db\<lparr>db_buckets := buckets\<rparr>) = Inr mid"
    and c: "closeLogical (in_LogicalRequestID prepared) ''reserved'' ''denied'' ?code decisionAt mid = Inr closed"
    and d: "(case plansWith QuotaExceeded decided of
        first # rest \<Rightarrow> Inr (closed, LimitExceeded (exceededErrorOf (in_LogicalRequestID prepared) first rest))
      | [] \<Rightarrow>
          case plansWith ConcurrencyExceeded decided of
            first # rest \<Rightarrow> Inr (closed, ConcurrencyLimit (concurrencyExceededErrorOf (in_LogicalRequestID prepared) first rest))
          | [] \<Rightarrow> Inl GoPanic) = Inr (db', failure)"
    using assms unfolding denyPlans_def Let_def andThen_eq_Inr by blast
  have "closed = db'" using d by (simp split: list.splits)
  then show thesis
    using that [OF b] same_ledger_trans [OF appendDecisionStagesAt_ledger [OF m] closeLogical_ledger [OF c]] by simp
qed

lemma denyPlans_ledger:
  assumes "denyPlans prepared decided requestedAt decisionAt next db = Inr (db', failure)" "ledger_ok db"
    "list_all plan_ok (map fst decided)" "list_all (plan_locked prepared (db_buckets db)) (map fst decided)"
  shows "ledger_ok db'"
proof -
  obtain buckets where b: "refreshDeniedPlans decisionAt (map fst decided) (db_buckets db) = Inr buckets"
    and m: "same_ledger (db\<lparr>db_buckets := buckets\<rparr>) db'"
    by (rule denyPlans_cases [OF assms(1)])
  note ok = assms(2) [unfolded ledger_ok_def]
  have fits: "list_all (plan_fits (db_buckets db)) (map fst decided)" "list_all (snapshot_fits (db_buckets db)) (map fst decided)"
    using assms(3,4) ok plan_locked_fits [of prepared] plan_locked_snapshot [of prepared] by (auto simp: list_all_iff)
  have u: "same_units (db_buckets db) buckets" "list_all (bucket_ok (db_entries db) (\<lambda>_. 0)) buckets"
    using refreshDeniedPlans_rows [OF b _ _ fits, of "db_entries db" "\<lambda>_. 0"] ok by auto
  have "ledger_ok (db\<lparr>db_buckets := buckets\<rparr>)"
    using ok u same_units_ids [OF u(1)] same_units_keeps(3) [OF u(1)] refers_to_keys [OF same_units_keys [OF u(1)]]
    by (simp add: ledger_ok_def)
  then show ?thesis by (rule same_ledger_ok [OF m])
qed

lemma reservePlans_cases:
  assumes "reservePlans source ttl requestedAt decisionAt prepared key plans g db = Inr (db', answer)"
  obtains ids mid locked decided where
    "fst (newReserveIDs source (length plans) (concurrencyPlanCount plans) g) = Inr ids"
    "materializePlannedBuckets prepared (assignIDs plans (ri_buckets ids) (ri_entries ids) (ri_leases ids)) requestedAt db = Inr mid"
    "lockPlannedBuckets prepared mid (assignIDs plans (ri_buckets ids) (ri_entries ids) (ri_leases ids)) = Inr locked"
    "decidePlans decisionAt locked = Inr decided"
    "if list_ex (\<lambda>(_, verdict). verdict \<noteq> Admitted) decided
     then \<exists>failure. answer = Inl failure \<and> denyPlans prepared decided requestedAt decisionAt
         (nextDecisionStage (in_LogicalRequestID prepared) (db_stages mid)) mid = Inr (db', failure)
     else answer = Inr (reservationOf prepared (map fst decided) (ri_reservation ids) (of_nanos (nanos decisionAt + ttl))) \<and>
       persistAcceptedReservation prepared (map fst decided) (ri_reservation ids) key decisionAt
         (of_nanos (nanos decisionAt + ttl)) (nextDecisionStage (in_LogicalRequestID prepared) (db_stages mid))
         (quotaDecisionStages prepared requestedAt decisionAt
           (evaluatedReservationRuleKeySet (prepared_rules prepared) (map fst decided)) [] []) mid = Inr db'"
proof -
  obtain ids where ids: "fst (newReserveIDs source (length plans) (concurrencyPlanCount plans) g) = Inr ids"
    using assms unfolding reservePlans_def andThen_eq_Inr by blast
  obtain mid where mid: "materializePlannedBuckets prepared
      (assignIDs plans (ri_buckets ids) (ri_entries ids) (ri_leases ids)) requestedAt db = Inr mid"
    using assms unfolding reservePlans_def Let_def ids andThen_Inr andThen_eq_Inr by blast
  obtain locked where locked: "lockPlannedBuckets prepared mid
      (assignIDs plans (ri_buckets ids) (ri_entries ids) (ri_leases ids)) = Inr locked"
    using assms unfolding reservePlans_def Let_def ids mid andThen_Inr andThen_eq_Inr by blast
  note rest = assms [unfolded reservePlans_def Let_def ids mid locked andThen_Inr]
  obtain decided where decided: "decidePlans decisionAt locked = Inr decided"
    using rest by (cases "decidePlans decisionAt locked") (simp_all split: if_splits)
  show thesis
  proof (rule that [OF ids mid locked decided])
    show "if list_ex (\<lambda>(_, verdict). verdict \<noteq> Admitted) decided
     then \<exists>failure. answer = Inl failure \<and> denyPlans prepared decided requestedAt decisionAt
         (nextDecisionStage (in_LogicalRequestID prepared) (db_stages mid)) mid = Inr (db', failure)
     else answer = Inr (reservationOf prepared (map fst decided) (ri_reservation ids) (of_nanos (nanos decisionAt + ttl))) \<and>
       persistAcceptedReservation prepared (map fst decided) (ri_reservation ids) key decisionAt
         (of_nanos (nanos decisionAt + ttl)) (nextDecisionStage (in_LogicalRequestID prepared) (db_stages mid))
         (quotaDecisionStages prepared requestedAt decisionAt
           (evaluatedReservationRuleKeySet (prepared_rules prepared) (map fst decided)) [] []) mid = Inr db'"
      using rest by (auto simp: decided andThen_eq_Inr split: if_splits)
  qed
qed

lemma reservePlans_ledger:
  assumes "reservePlans source ttl requestedAt decisionAt prepared key plans g db = Inr (db', answer)" "ledger_ok db"
    "list_all plan_ok plans"
  shows "ledger_ok db'"
proof (rule reservePlans_cases [OF assms(1)], goal_cases)
  case (1 ids mid locked decided)
  have plans: "list_all plan_ok (assignIDs plans (ri_buckets ids) (ri_entries ids) (ri_leases ids))"
    by (rule list_all_plan_ok_core [OF assignIDs_core assms(3)])
  have mid: "ledger_ok mid" by (rule materialize_ledger [OF 1(2) assms(2) plans])
  have lk: "list_all plan_ok (map fst decided)" "list_all (plan_locked prepared (db_buckets mid)) (map fst decided)"
    using decidePlans_locked [OF 1(4)] lockPlannedBuckets_Inr [OF 1(3) plans] by auto
  have fits: "list_all (plan_fits (db_buckets mid)) (map fst decided)"
    using lk mid plan_locked_fits [of prepared] by (auto simp: list_all_iff ledger_ok_def)
  show ?thesis
  proof (cases "list_ex (\<lambda>(_, verdict). verdict \<noteq> Admitted) decided")
    case True
    then show ?thesis using 1(5) denyPlans_ledger mid lk by (metis (no_types, lifting))
  next
    case False
    then show ?thesis using 1(5) persistAccepted_ledger mid fits lk(2) by (metis (no_types, lifting))
  qed
qed

text \<open>The outcomes of a call: nothing is committed, a request-bound denial, or the decision on the plans.\<close>

lemma Reserve_cases:
  obtains (Unchanged) "fst (Reserve LL source replay ttl requestedAt decisionAt input g db) = db"
  | (Bounds) prepared entry db' failure where "prepareRequest LL input = Inr prepared"
      "enterLogicalRequest prepared (requestFingerprint prepared) requestedAt db = Inr (Some entry)"
      "denyRequestBounds prepared requestedAt decisionAt entry = Inr (db', failure)"
      "Reserve LL source replay ttl requestedAt decisionAt input g db = (db', Inl (LimitExceeded failure))"
  | (Plans) prepared entry key plans db' answer where "prepareRequest LL input = Inr prepared"
      "plannedBucketsAt LL prepared requestedAt = Inr plans"
      "enterLogicalRequest prepared (requestFingerprint prepared) requestedAt db = Inr (Some entry)"
      "reservePlans source ttl requestedAt decisionAt prepared key plans g entry = Inr (db', answer)"
      "Reserve LL source replay ttl requestedAt decisionAt input g db = (db', answer)"
proof (cases "prepareRequest LL input")
  case (Inl e)
  then show thesis using Unchanged by (simp add: Reserve_def)
next
  case p: (Inr prepared)
  note unf = Reserve_def Let_def p
  show thesis
  proof (cases "isZero requestedAt")
    case True
    then show thesis using Unchanged by (simp add: unf)
  next
    case z: False
    show thesis
    proof (cases "enterLogicalRequest prepared (requestFingerprint prepared) requestedAt db")
      case (Inl e)
      then show thesis using Unchanged z by (cases "plannedBucketsAt LL prepared requestedAt") (simp_all add: unf)
    next
      case e: (Inr entered)
      show thesis
      proof (cases "requestBoundExceededRules (prepared_rules prepared) = []")
        case True
        show thesis
        proof (cases "plannedBucketsAt LL prepared requestedAt")
          case (Inl error)
          then show thesis using Unchanged z True by (simp add: unf)
        next
          case plans: (Inr plans)
          show thesis
          proof (cases entered)
            case None
            then show thesis using Unchanged z e True plans by (simp add: unf)
          next
            case (Some entry)
            let ?key = "reservationIdempotencyKey (requestFingerprint prepared) (pricingForRequest prepared)
              (hasHardCostReservation (prepared_rules prepared))"
            note e' = e [unfolded Some]
            show thesis
            proof (cases "reservePlans source ttl requestedAt decisionAt prepared ?key plans g entry")
              case (Inl error)
              then show thesis using Unchanged z e' True plans by (simp add: unf)
            next
              case (Inr result)
              then show thesis
                using Plans [OF p plans e', of ?key "fst result" "snd result"] z e' True plans by (simp add: unf)
            qed
          qed
        qed
      next
        case False
        show thesis
        proof (cases entered)
          case None
          then show thesis using Unchanged z e False by (simp add: unf)
        next
          case (Some entry)
          note e' = e [unfolded Some]
          show thesis
          proof (cases "denyRequestBounds prepared requestedAt decisionAt entry")
            case (Inl error)
            then show thesis using Unchanged z e' False by (simp add: unf)
          next
            case (Inr result)
            then show thesis
              using Unchanged Bounds [OF p e', of "fst result" "snd result"] z e' False
              by (cases "isZero decisionAt") (simp_all add: unf split_beta)
          qed
        qed
      qed
    qed
  qed
qed

lemma denyRequestBounds_ledger:
  "denyRequestBounds prepared requestedAt decisionAt db = Inr (db', failure) \<Longrightarrow> same_ledger db db'"
  unfolding denyRequestBounds_def Let_def andThen_eq_Inr
  using same_ledger_trans appendDecisionStages_ledger closeLogical_ledger by blast

lemma Reserve_ledger:
  assumes "ledger_ok db" "limits_typed (in_Rules input)"
  shows "ledger_ok (fst (Reserve LL source replay ttl requestedAt decisionAt input g db))"
proof (cases rule: Reserve_cases [of LL source replay ttl requestedAt decisionAt input g db])
  case Unchanged
  then show ?thesis using assms(1) by simp
next
  case (Bounds prepared entry db' failure)
  then show ?thesis
    using assms(1) same_ledger_ok enterLogicalRequest_ledger denyRequestBounds_ledger by (metis fst_conv)
next
  case (Plans prepared entry key plans db' answer)
  have "list_all plan_ok plans"
    using Plans(2) planRules_ok prepareRequest_limits [OF Plans(1) assms(2)]
    by (auto simp: plannedBucketsAt_def split: if_splits)
  moreover have "ledger_ok entry"
    by (rule same_ledger_ok [OF enterLogicalRequest_ledger [OF Plans(3)] assms(1)])
  ultimately show ?thesis using reservePlans_ledger [OF Plans(4)] Plans(5) by simp
qed

end
