(* ===== verification/Quota_Locks.thy ===== *)
theory Quota_Locks
  imports Quota_Reserve
begin

text \<open>
  The rows a lifecycle transaction locks, and what it requires of them (\<open>src/internal/quota/store.go\<close> and
  \<open>model.go\<close>): the reservation handle, the reservation with its logical request, the entries joined with
  their buckets, and the concurrency leases.  Differences of \<open>int64\<close> values wrap as in Go.
\<close>

section \<open>Reservation handles\<close>

abbreviation maximumAttemptsPerRequest :: int where
  "maximumAttemptsPerRequest \<equiv> 32"

abbreviation maximumReservationEntries :: int where
  "maximumReservationEntries \<equiv> 4096"

text \<open>One entry of a handle, given the bucket of the entry before it.\<close>

definition entryShapeOk :: "string option \<Rightarrow> reservationEntry \<Rightarrow> bool" where
  "entryShapeOk previous entry \<longleftrightarrow>
     (let metric = re_metric entry; algorithm = re_algorithm entry;
          concurrency = (algorithm = ConcurrencyAlgorithm \<and> isConcurrencyMetric metric);
          perRequest = (metric = LogicalRequestsMetric \<or> metric = UpstreamAttemptsMetric \<or> metric = InputTokensMetric \<or>
            metric = OutputTokensMetric \<or> metric = TotalTokensMetric);
          calendar = (algorithm = CalendarAlgorithm \<and> (perRequest \<or> metric = CostNanoUSDMetric));
          tokenBucket = (algorithm = TokenBucketAlgorithm \<and> perRequest) in
      validID (re_bucketID entry) ''qbk'' \<and> validID (re_entryID entry) ''qre'' \<and>
      \<not> (\<not> calendar \<and> \<not> isZero (re_resetAt entry)) \<and> \<not> (calendar \<and> isZero (re_resetAt entry)) \<and>
      (calendar \<or> tokenBucket \<or> concurrency) \<and> validReservationEntryUnits metric algorithm (re_reservedUnits entry) \<and>
      (concurrency \<longrightarrow> validID (re_leaseID entry) ''cls'') \<and> (\<not> concurrency \<longrightarrow> re_leaseID entry = []) \<and>
      (case previous of None \<Rightarrow> True | Some bucketID \<Rightarrow> bucketID < re_bucketID entry) \<and>
      (if metric = CostNanoUSDMetric
       then re_costRetryTreatment entry = ActualAttemptsCostRetryTreatment \<or>
            re_costRetryTreatment entry = InitialAttemptOnlyCostRetryTreatment
       else re_costRetryTreatment entry = []))"

record handleScan =
  hs_previous :: "string option"
  hs_entryIDs :: "string list"
  hs_leaseIDs :: "string list"
  hs_tokens :: "string \<rightharpoonup> int"
  hs_cost :: "int option"
  hs_reset :: gotime

definition scanEntry :: "handleScan \<Rightarrow> reservationEntry \<Rightarrow> handleScan option" where
  "scanEntry s entry =
     (let metric = re_metric entry; units = re_reservedUnits entry;
          concurrency = (re_algorithm entry = ConcurrencyAlgorithm \<and> isConcurrencyMetric metric) in
      if \<not> entryShapeOk (hs_previous s) entry \<or> re_entryID entry \<in> set (hs_entryIDs s) \<or>
         (isTokenMetric metric \<and> hs_tokens s metric \<noteq> None \<and> hs_tokens s metric \<noteq> Some units) \<or>
         (metric = CostNanoUSDMetric \<and> hs_cost s \<noteq> None \<and> hs_cost s \<noteq> Some units) \<or>
         (concurrency \<and> re_leaseID entry \<in> set (hs_leaseIDs s))
      then None
      else Some \<lparr>hs_previous = Some (re_bucketID entry), hs_entryIDs = re_entryID entry # hs_entryIDs s,
        hs_leaseIDs = (if concurrency then re_leaseID entry # hs_leaseIDs s else hs_leaseIDs s),
        hs_tokens = (if isTokenMetric metric then (hs_tokens s)(metric \<mapsto> units) else hs_tokens s),
        hs_cost = (if metric = CostNanoUSDMetric then Some units else hs_cost s),
        hs_reset = (if hs_reset s < re_resetAt entry then re_resetAt entry else hs_reset s)\<rparr>)"

fun scanHandle :: "handleScan \<Rightarrow> reservationEntry list \<Rightarrow> handleScan option" where
  "scanHandle s [] = Some s"
| "scanHandle s (entry # entries) = (case scanEntry s entry of None \<Rightarrow> None | Some s \<Rightarrow> scanHandle s entries)"

definition emptyScan :: handleScan where
  "emptyScan = \<lparr>hs_previous = None, hs_entryIDs = [], hs_leaseIDs = [], hs_tokens = Map.empty, hs_cost = None, hs_reset = GoTime 0 0\<rparr>"

definition tokensProved :: "inputPreflightBinding option \<Rightarrow> (string \<rightharpoonup> int) \<Rightarrow> bool" where
  "tokensProved proof tokens \<longleftrightarrow>
     (case proof of
        None \<Rightarrow> tokens InputTokensMetric = None \<and> tokens TotalTokensMetric = None
      | Some b \<Rightarrow>
          (tokens InputTokensMetric = None \<or> tokens InputTokensMetric = Some (pf_InputTokenBound b)) \<and>
          (tokens OutputTokensMetric = None \<or> tokens OutputTokensMetric = Some (pf_OutputTokenBound b)) \<and>
          (tokens TotalTokensMetric = None \<or> tokens TotalTokensMetric = Some (pf_TotalTokenBound b)))"

definition reservationValidate :: "'a reservation_scheme \<Rightarrow> bool" where
  "reservationValidate r \<longleftrightarrow>
     validID (rv_organizationID r) ''org'' \<and> validID (rv_applicationID r) ''app'' \<and> validID (rv_environmentID r) ''env'' \<and>
     validID (rv_logicalRequestID r) ''req'' \<and> validID (rv_reservationID r) ''qrs'' \<and>
     identifierPattern (rv_routeKey r) \<and> identifierPattern (rv_upstreamKey r) \<and> identifierPattern (rv_modelKey r) \<and>
     validPhysicalModel (rv_physicalModel r) \<and> is_ok (pricingValidate (rv_pricing r)) \<and>
     \<not> isZero (rv_expiresAt r) \<and> int (length (rv_entries r)) \<le> 128 \<and>
     (case rv_inputPreflight r of None \<Rightarrow> True | Some b \<Rightarrow> validInputPreflightBinding b (rv_protocol r) (rv_physicalModel r)) \<and>
     (case rv_requestMeasurements r of None \<Rightarrow> True | Some b \<Rightarrow> validRequestMeasurementBinding b (rv_protocol r)) \<and>
     bodiesAgree (rv_inputPreflight r) (rv_requestMeasurements r) \<and>
     (if rv_entries r = [] then isZero (rv_windowResetAt r)
      else case scanHandle emptyScan (rv_entries r) of
        None \<Rightarrow> False
      | Some s \<Rightarrow> tokensProved (rv_inputPreflight r) (hs_tokens s) \<and> validTokenReservationRelationship (hs_tokens s) \<and>
          rv_windowResetAt r = hs_reset s)"

record attempt =
  am_reservation :: reservation
  am_attemptID :: string
  am_number :: int

definition attemptValidate :: "attempt \<Rightarrow> bool" where
  "attemptValidate a \<longleftrightarrow>
     reservationValidate (am_reservation a) \<and> validID (am_attemptID a) ''atm'' \<and>
     1 \<le> am_number a \<and> am_number a \<le> maximumAttemptsPerRequest"

section \<open>The reservation and its logical request\<close>

record lockedReservation = reservation +
  lv_status :: string
  lv_expiresAt :: gotime
  lv_applicationUserID :: string
  lv_installationID :: string
  lv_featureKey :: string

definition sameTenant :: "'a reservation_scheme \<Rightarrow> string \<Rightarrow> string \<Rightarrow> string \<Rightarrow> bool" where
  "sameTenant expected organizationID applicationID environmentID \<longleftrightarrow>
     organizationID = rv_organizationID expected \<and> applicationID = rv_applicationID expected \<and>
     environmentID = rv_environmentID expected"

definition reservationKeyMatches :: "'a reservation_scheme \<Rightarrow> reservationRow \<Rightarrow> bool" where
  "reservationKeyMatches expected row \<longleftrightarrow>
     sameTenant expected (qr_organizationID row) (qr_applicationID row) (qr_environmentID row) \<and>
     qr_logicalRequestID row = rv_logicalRequestID expected \<and> qr_id row = rv_reservationID expected"

definition logicalKeyMatches :: "'a reservation_scheme \<Rightarrow> logicalRow \<Rightarrow> bool" where
  "logicalKeyMatches expected row \<longleftrightarrow>
     sameTenant expected (lr_organizationID row) (lr_applicationID row) (lr_environmentID row) \<and>
     lr_id row = rv_logicalRequestID expected"

definition lockReservation :: "reservation \<Rightarrow> quotaDB \<Rightarrow> quota_error + lockedReservation" where
  "lockReservation expected db =
     (case (find (reservationKeyMatches expected) (db_reservations db), find (logicalKeyMatches expected) (db_logical db)) of
        (Some row, Some logical) \<Rightarrow>
          if \<not> validID (lr_applicationUserID logical) ''usr'' \<or> \<not> validID (lr_installationID logical) ''ins'' \<or>
             \<not> identifierPattern (lr_featureKey logical)
          then Inl ErrInvalidState
          else Inr (reservation.extend (expected\<lparr>rv_expiresAt := GoTime 0 0\<rparr>)
            (lockedReservation.fields (qr_status row) (qr_expiresAt row) (lr_applicationUserID logical)
              (lr_installationID logical) (lr_featureKey logical)))
      | _ \<Rightarrow> Inl ErrNotFound)"

record lockedLogical =
  ll_status :: string
  ll_failureCode :: "string option"
  ll_protocol :: string
  ll_configRevisionID :: string
  ll_fingerprint :: "string option"
  ll_applicationUserID :: string
  ll_installationID :: string
  ll_sessionGrantID :: string
  ll_featureKey :: string
  ll_requestedAt :: gotime

definition lockedLogicalOf :: "logicalRow \<Rightarrow> lockedLogical" where
  "lockedLogicalOf row =
     \<lparr>ll_status = lr_status row, ll_failureCode = lr_failureCode row, ll_protocol = lr_protocol row,
      ll_configRevisionID = lr_configRevisionID row, ll_fingerprint = lr_fingerprint row,
      ll_applicationUserID = lr_applicationUserID row, ll_installationID = lr_installationID row,
      ll_sessionGrantID = lr_sessionGrantID row, ll_featureKey = lr_featureKey row, ll_requestedAt = lr_requestedAt row\<rparr>"

definition lockLogicalRequest :: "'a reservation_scheme \<Rightarrow> quotaDB \<Rightarrow> quota_error + lockedLogical" where
  "lockLogicalRequest expected db =
     (case find (logicalKeyMatches expected) (db_logical db) of
        None \<Rightarrow> Inl ErrNotFound
      | Some row \<Rightarrow>
          if \<not> validID (lr_configRevisionID row) ''rev'' then Inl ErrInvalidState
          else case rv_retryPlan expected of
            None \<Rightarrow> Inr (lockedLogicalOf row)
          | Some plan \<Rightarrow>
              if lr_applicationUserID row \<noteq> rp_applicationUserID plan \<or> lr_installationID row \<noteq> rp_installationID plan \<or>
                 lr_sessionGrantID row \<noteq> rp_sessionGrantID plan \<or> lr_configRevisionID row \<noteq> rp_configRevisionID plan \<or>
                 lr_featureKey row \<noteq> rp_featureKey plan
              then Inl ErrInvalidState else Inr (lockedLogicalOf row))"

section \<open>Entries\<close>

record lockedEntry =
  le_id :: string
  le_bucketID :: string
  le_limitPlanKey :: string
  le_ruleKey :: string
  le_metric :: string
  le_algorithm :: string
  le_costRetryTreatment :: string
  le_windowKey :: string
  le_scopeType :: string
  le_scopeDimensions :: "string list"
  le_scopeKey :: string
  le_originAttemptNumber :: int
  le_initialReservedUnits :: int
  le_reservedUnits :: int
  le_settledUnits :: int
  le_releasedUnits :: int
  le_bucketUsed :: int
  le_bucketReserved :: int
  le_hardMaximum :: "int option"
  le_available :: "int option"
  le_refillNumerator :: "int option"
  le_refillDenominator :: "int option"
  le_refilledAt :: "gotime option"
  le_version :: int

definition lockedEntryOf :: "entryRow \<times> bucketRow \<Rightarrow> lockedEntry" where
  "lockedEntryOf row =
     (let entry = fst row; bucket = snd row in
      \<lparr>le_id = qe_id entry, le_bucketID = qe_bucketID entry, le_limitPlanKey = bk_limitPlanKey bucket,
       le_ruleKey = bk_ruleKey bucket, le_metric = bk_metric bucket, le_algorithm = bk_algorithm bucket,
       le_costRetryTreatment = qe_costRetryTreatment entry, le_windowKey = bk_windowKey bucket,
       le_scopeType = bk_scopeType bucket, le_scopeDimensions = bk_scopeDimensions bucket, le_scopeKey = bk_scopeKey bucket,
       le_originAttemptNumber = qe_originAttemptNumber entry, le_initialReservedUnits = qe_initialReservedUnits entry,
       le_reservedUnits = qe_reservedUnits entry, le_settledUnits = qe_settledUnits entry,
       le_releasedUnits = qe_releasedUnits entry, le_bucketUsed = bk_usedUnits bucket,
       le_bucketReserved = bk_reservedUnits bucket, le_hardMaximum = bk_hardMaximum bucket,
       le_available = bk_availableUnits bucket, le_refillNumerator = bk_refillNumerator bucket,
       le_refillDenominator = bk_refillDenominator bucket, le_refilledAt = bk_refilledAt bucket, le_version = bk_version bucket\<rparr>)"

definition lockedBucketOfEntry :: "lockedEntry \<Rightarrow> lockedBucket" where
  "lockedBucketOfEntry entry =
     noLockedBucket\<lparr>lb_id := le_bucketID entry, lb_hardMaximum := le_hardMaximum entry, lb_used := le_bucketUsed entry,
       lb_reserved := le_bucketReserved entry, lb_available := le_available entry,
       lb_refillNumerator := le_refillNumerator entry, lb_refillDenominator := le_refillDenominator entry,
       lb_refilledAt := le_refilledAt entry, lb_version := le_version entry\<rparr>"

definition tokenStateFromLockedEntry :: "lockedEntry \<Rightarrow> quota_error + tokenBucketState" where
  "tokenStateFromLockedEntry entry = tokenStateFromLockedBucket (lockedBucketOfEntry entry)"

definition persistTokenBucketEntry ::
    "lockedEntry \<Rightarrow> tokenBucketState \<Rightarrow> gotime \<Rightarrow> bucketRow list \<Rightarrow> quota_error + bucketRow list" where
  "persistTokenBucketEntry entry state now rows = persistTokenBucket (lockedBucketOfEntry entry) state now rows"

definition canonicalStoredCostRetryTreatment :: "string \<Rightarrow> string \<Rightarrow> string \<times> bool" where
  "canonicalStoredCostRetryTreatment metric treatment =
     (if metric \<noteq> CostNanoUSDMetric then ([], treatment = [])
      else if treatment = [] then (ActualAttemptsCostRetryTreatment, True)
      else (treatment, treatment = ActualAttemptsCostRetryTreatment \<or> treatment = InitialAttemptOnlyCostRetryTreatment))"

text \<open>The entries of a reservation with their buckets, in the order of the bucket identifiers.\<close>

definition entryJoin :: "'a reservation_scheme \<Rightarrow> quotaDB \<Rightarrow> (entryRow \<times> bucketRow) list" where
  "entryJoin r db =
     sort_key (\<lambda>row. bk_id (snd row))
       (concat (map (\<lambda>entry. map (Pair entry)
           (filter (\<lambda>bucket. bk_organizationID bucket = qe_organizationID entry \<and>
              bk_applicationID bucket = qe_applicationID entry \<and> bk_environmentID bucket = qe_environmentID entry \<and>
              bk_id bucket = qe_bucketID entry) (db_buckets db)))
         (filter (\<lambda>entry. sameTenant r (qe_organizationID entry) (qe_applicationID entry) (qe_environmentID entry) \<and>
            qe_reservationID entry = rv_reservationID r) (db_entries db))))"

definition lockedEntryOk :: "string option \<Rightarrow> lockedEntry \<Rightarrow> bool" where
  "lockedEntryOk previous entry \<longleftrightarrow>
     (let metric = le_metric entry; algorithm = le_algorithm entry in
      validID (le_id entry) ''qre'' \<and> validID (le_bucketID entry) ''qbk'' \<and>
      canonicalScopeDimensions (le_scopeDimensions entry) = Inr (le_scopeDimensions entry) \<and>
      identifierPattern (le_limitPlanKey entry) \<and> le_ruleKey entry \<noteq> [] \<and> le_scopeKey entry \<noteq> [] \<and>
      1 \<le> le_originAttemptNumber entry \<and> le_originAttemptNumber entry \<le> maximumAttemptsPerRequest \<and>
      0 \<le> le_reservedUnits entry \<and> snd (canonicalStoredCostRetryTreatment metric (le_costRetryTreatment entry)) \<and>
      validReservationEntryUnits metric algorithm (le_initialReservedUnits entry) \<and>
      le_initialReservedUnits entry \<le> le_reservedUnits entry \<and>
      ((metric = LogicalRequestsMetric \<or> isConcurrencyMetric metric) \<longrightarrow> le_reservedUnits entry = le_initialReservedUnits entry) \<and>
      0 \<le> le_version entry \<and>
      (isConcurrencyMetric metric \<longleftrightarrow> algorithm = ConcurrencyAlgorithm \<and> le_windowKey entry = ''active'') \<and>
      \<not> (algorithm = CalendarAlgorithm \<and> le_windowKey entry = []) \<and>
      \<not> (algorithm = TokenBucketAlgorithm \<and> le_windowKey entry \<noteq> ''rolling'') \<and>
      (case previous of None \<Rightarrow> True | Some bucketID \<Rightarrow> bucketID < le_bucketID entry))"

fun scanLockedEntries :: "string option \<Rightarrow> (entryRow \<times> bucketRow) list \<Rightarrow> quota_error + lockedEntry list" where
  "scanLockedEntries previous [] = Inr []"
| "scanLockedEntries previous (row # rows) =
     (let entry = lockedEntryOf row in
      if \<not> lockedEntryOk previous entry then Inl ErrInvalidState
      else
        andThen (if le_algorithm entry = TokenBucketAlgorithm
                 then andThen (tokenStateFromLockedEntry entry) (\<lambda>_. Inr ())
                 else if le_available entry \<noteq> None \<or> le_refillNumerator entry \<noteq> None \<or>
                         le_refillDenominator entry \<noteq> None \<or> le_refilledAt entry \<noteq> None
                 then Inl ErrInvalidState else Inr ()) (\<lambda>_.
        andThen (scanLockedEntries (Some (le_bucketID entry)) rows) (\<lambda>rest.
        Inr (entry\<lparr>le_costRetryTreatment :=
          fst (canonicalStoredCostRetryTreatment (le_metric entry) (le_costRetryTreatment entry))\<rparr> # rest))))"

definition handleEntryMatches :: "lockedEntry list \<Rightarrow> reservationEntry \<Rightarrow> bool" where
  "handleEntryMatches entries expected \<longleftrightarrow>
     (case find (\<lambda>entry. le_id entry = re_entryID expected) (rev entries) of
        None \<Rightarrow> False
      | Some entry \<Rightarrow>
          le_bucketID entry = re_bucketID expected \<and> le_metric entry = re_metric expected \<and>
          le_algorithm entry = re_algorithm expected \<and> le_costRetryTreatment entry = re_costRetryTreatment expected \<and>
          le_originAttemptNumber entry = 1 \<and> le_initialReservedUnits entry = re_reservedUnits expected)"

definition scanLockedReservationEntries ::
    "'a reservation_scheme \<Rightarrow> (entryRow \<times> bucketRow) list \<Rightarrow> quota_error + lockedEntry list" where
  "scanLockedReservationEntries r rows =
     (if maximumReservationEntries < int (length rows) then Inl ErrInvalidState
      else andThen (scanLockedEntries None rows) (\<lambda>entries.
        if entries = [] then (if rv_entries r = [] then Inr [] else Inl ErrInvalidState)
        else if \<not> list_all (handleEntryMatches entries) (rv_entries r) then Inl ErrInvalidState
        else Inr entries))"

definition lockEntries :: "'a reservation_scheme \<Rightarrow> quotaDB \<Rightarrow> quota_error + lockedEntry list" where
  "lockEntries r db = scanLockedReservationEntries r (entryJoin r db)"

section \<open>Concurrency leases\<close>

definition leaseBuckets :: "lockedEntry list \<Rightarrow> string list" where
  "leaseBuckets entries = remdups (map le_bucketID (filter (\<lambda>entry. isConcurrencyMetric (le_metric entry)) entries))"

definition leaseHandles :: "'a reservation_scheme \<Rightarrow> (string \<rightharpoonup> string)" where
  "leaseHandles r =
     map_of (rev (map (\<lambda>entry. (re_bucketID entry, re_leaseID entry))
       (filter (\<lambda>entry. isConcurrencyMetric (re_metric entry) \<and> re_leaseID entry \<noteq> []) (rv_entries r))))"

fun scanLockedLeases ::
    "lockedReservation \<Rightarrow> string list \<Rightarrow> (string \<rightharpoonup> string) \<Rightarrow> string list \<Rightarrow> leaseRow list \<Rightarrow> quota_error + leaseRow list" where
  "scanLockedLeases r expected handles seen [] = Inr []"
| "scanLockedLeases r expected handles seen (lease # leases) =
     (if cl_bucketID lease \<notin> set expected \<or> cl_bucketID lease \<in> set seen \<or> \<not> validID (cl_id lease) ''cls'' \<or>
         \<not> sameTenant r (cl_organizationID lease) (cl_applicationID lease) (cl_environmentID lease) \<or>
         cl_logicalRequestID lease \<noteq> rv_logicalRequestID r \<or> cl_expiresAt lease \<noteq> lv_expiresAt r \<or>
         \<not> cl_acquiredAt lease < cl_expiresAt lease
      then Inl ErrInvalidState
      else if handles (cl_bucketID lease) \<noteq> None \<and> handles (cl_bucketID lease) \<noteq> Some (cl_id lease) then Inl ErrInvalidState
      else if (lv_status r = ''pending'') \<noteq> (cl_releasedAt lease = None) then Inl ErrInvalidState
      else andThen (scanLockedLeases r expected handles (cl_bucketID lease # seen) leases) (\<lambda>rest. Inr (lease # rest)))"

definition scanLockedConcurrencyLeases ::
    "lockedReservation \<Rightarrow> string list \<Rightarrow> (string \<rightharpoonup> string) \<Rightarrow> leaseRow list \<Rightarrow> quota_error + leaseRow list" where
  "scanLockedConcurrencyLeases r expected handles rows =
     andThen (scanLockedLeases r expected handles [] rows) (\<lambda>leases.
     if length leases \<noteq> length expected then Inl ErrInvalidState else Inr leases)"

definition lockConcurrencyLeases :: "lockedReservation \<Rightarrow> lockedEntry list \<Rightarrow> quotaDB \<Rightarrow> quota_error + leaseRow list" where
  "lockConcurrencyLeases r entries db =
     scanLockedConcurrencyLeases r (leaseBuckets entries) (leaseHandles r)
       (sort_key cl_id (filter (\<lambda>lease. cl_environmentID lease = rv_environmentID r \<and>
          cl_logicalRequestID lease = rv_logicalRequestID r) (db_leases db)))"

section \<open>Consistency of the locked rows\<close>

definition existingReservationStateMatches ::
    "string \<Rightarrow> string \<Rightarrow> string \<Rightarrow> string \<Rightarrow> int \<Rightarrow> int \<Rightarrow> int \<Rightarrow> int \<Rightarrow> int \<Rightarrow> bool" where
  "existingReservationStateMatches logicalStatus reservationStatus metric algorithm expected initialReserved reserved settled released =
     (let once = (metric = LogicalRequestsMetric \<or> isConcurrencyMetric metric) in
      if \<not> validReservationEntryUnits metric algorithm expected \<or> initialReserved \<noteq> expected \<or> reserved < initialReserved \<or>
         settled < 0 \<or> released < 0 \<or> settled > reserved \<or> released > sub64 reserved settled \<or> once \<and> reserved \<noteq> initialReserved
      then False
      else if reservationStatus = ''pending'' then
        (if logicalStatus = ''reserved'' then reserved = initialReserved \<and> settled = 0 \<and> released = 0
         else if logicalStatus \<noteq> ''dispatched'' \<and> logicalStatus \<noteq> ''streaming'' then False
         else if once then settled = 0 \<and> released = 0
         else True)
      else if reservationStatus = ''settled'' then
        (if logicalStatus \<noteq> ''succeeded'' \<and> logicalStatus \<noteq> ''failed'' \<and> logicalStatus \<noteq> ''cancelled'' then False
         else if isConcurrencyMetric metric then settled = 0 \<and> released = reserved
         else if metric = LogicalRequestsMetric then settled = reserved \<and> released = 0
         else add64 settled released = reserved)
      else if reservationStatus = ''released'' \<or> reservationStatus = ''expired'' then
        reserved = initialReserved \<and> settled = 0 \<and> released = reserved \<and> logicalStatus = ''failed''
      else False)"

definition entryStateMatches :: "string \<Rightarrow> string \<Rightarrow> lockedEntry \<Rightarrow> bool" where
  "entryStateMatches logicalStatus reservationStatus entry =
     existingReservationStateMatches logicalStatus reservationStatus (le_metric entry) (le_algorithm entry)
       (le_initialReservedUnits entry) (le_initialReservedUnits entry) (le_reservedUnits entry)
       (le_settledUnits entry) (le_releasedUnits entry)"

definition lockedEntryBucketValid :: "lockedEntry \<Rightarrow> bool" where
  "lockedEntryBucketValid entry =
     (if le_algorithm entry = TokenBucketAlgorithm then is_ok (tokenStateFromLockedEntry entry)
      else case le_hardMaximum entry of
        None \<Rightarrow> False
      | Some maximum \<Rightarrow>
          maximum > 0 \<and> 0 \<le> le_bucketUsed entry \<and> 0 \<le> le_bucketReserved entry \<and> le_bucketUsed entry \<le> maximum \<and>
          le_bucketReserved entry \<le> sub64 maximum (le_bucketUsed entry) \<and> le_available entry = None \<and>
          le_refillNumerator entry = None \<and> le_refillDenominator entry = None \<and> le_refilledAt entry = None)"

fun leasesCover :: "lockedReservation \<Rightarrow> string list \<Rightarrow> leaseRow list \<Rightarrow> bool" where
  "leasesCover r expected [] \<longleftrightarrow> expected = []"
| "leasesCover r expected (lease # leases) \<longleftrightarrow>
     cl_bucketID lease \<in> set expected \<and> cl_releasedAt lease = None \<and> cl_expiresAt lease = lv_expiresAt r \<and>
     cl_acquiredAt lease < cl_expiresAt lease \<and> leasesCover r (removeAll (cl_bucketID lease) expected) leases"

definition pendingConcurrencyLeasesMatch :: "lockedReservation \<Rightarrow> lockedEntry list \<Rightarrow> leaseRow list \<Rightarrow> bool" where
  "pendingConcurrencyLeasesMatch r entries leases \<longleftrightarrow>
     length leases = length (leaseBuckets entries) \<and> leasesCover r (leaseBuckets entries) leases"

definition entryOutstanding :: "lockedEntry \<Rightarrow> int" where
  "entryOutstanding entry = sub64 (sub64 (le_reservedUnits entry) (le_settledUnits entry)) (le_releasedUnits entry)"

definition pendingEntriesMatch :: "string \<Rightarrow> lockedReservation \<Rightarrow> lockedEntry list \<Rightarrow> leaseRow list \<Rightarrow> bool" where
  "pendingEntriesMatch logicalStatus r entries leases \<longleftrightarrow>
     list_all (\<lambda>entry. lockedEntryBucketValid entry \<and> 0 \<le> entryOutstanding entry \<and>
       (le_algorithm entry = TokenBucketAlgorithm \<or> entryOutstanding entry \<le> le_bucketReserved entry) \<and>
       entryStateMatches logicalStatus (lv_status r) entry \<and>
       (isConcurrencyMetric (le_metric entry) \<longrightarrow> le_bucketUsed entry = 0)) entries \<and>
     pendingConcurrencyLeasesMatch r entries leases"

definition terminalEntriesMatch :: "string \<Rightarrow> string \<Rightarrow> lockedEntry list \<Rightarrow> leaseRow list \<Rightarrow> bool" where
  "terminalEntriesMatch logicalStatus reservationStatus entries leases \<longleftrightarrow>
     list_all (\<lambda>entry. lockedEntryBucketValid entry \<and> entryStateMatches logicalStatus reservationStatus entry \<and>
       (isConcurrencyMetric (le_metric entry) \<longrightarrow> le_bucketUsed entry = 0)) entries \<and>
     length leases = length (filter (\<lambda>entry. isConcurrencyMetric (le_metric entry)) entries)"

definition existingAttemptPresenceMatches :: "string \<Rightarrow> string \<Rightarrow> bool \<Rightarrow> bool" where
  "existingAttemptPresenceMatches logicalStatus reservationStatus attemptExists =
     (if reservationStatus = ''pending'' then
        (if logicalStatus = ''reserved'' then \<not> attemptExists
         else attemptExists \<and> (logicalStatus = ''dispatched'' \<or> logicalStatus = ''streaming''))
      else if reservationStatus = ''settled'' then
        attemptExists \<and> (logicalStatus = ''succeeded'' \<or> logicalStatus = ''failed'' \<or> logicalStatus = ''cancelled'')
      else if reservationStatus = ''released'' \<or> reservationStatus = ''expired'' then \<not> attemptExists \<and> logicalStatus = ''failed''
      else False)"

end
