(* ===== verification/Quota_Attempt.thy ===== *)
theory Quota_Attempt
  imports Quota_Locks
begin

text \<open>
  Stored upstream attempts and their quota allocations (\<open>src/internal/quota/retry_store.go\<close> and
  \<open>store.go\<close>): the validation of the stored columns, the decision digest that binds an attempt to its
  target, pricing, proofs and allocations, and which entries of a reservation belong to an attempt.
\<close>

section \<open>Pricing of an attempt\<close>

abbreviation noPricing :: selectedPricing where
  "noPricing \<equiv> \<lparr>sp_source = [], sp_currency = [], sp_revision = []\<rparr>"

definition initialCostConfidence :: "selectedPricing \<Rightarrow> string" where
  "initialCostConfidence pricing = (if \<not> pricingPresent pricing then [] else UnknownCostConfidence)"

definition settlementCostValues :: "selectedPricing \<Rightarrow> cost \<Rightarrow> int option \<times> string option" where
  "settlementCostValues pricing cost =
     (if co_Known cost then (Some (co_NanoUSD cost), Some (co_Confidence cost))
      else if \<not> pricingPresent pricing then (None, None)
      else (None, Some UnknownCostConfidence))"

definition attemptPricing :: "'a storedAttempt_scheme \<Rightarrow> quota_error + selectedPricing" where
  "attemptPricing a =
     (case (sa_currency a, sa_priceRevision a, sa_pricingSource a) of
        (None, None, None) \<Rightarrow>
          (case (sa_billedCost a, sa_costConfidence a) of
             (None, None) \<Rightarrow> Inr noPricing
           | (Some billed, Some confidence) \<Rightarrow>
               if billed < 0 \<or> confidence \<noteq> ProviderReportedCostConfidence then Inl ErrInvalidState else Inr noPricing
           | _ \<Rightarrow> Inl ErrInvalidState)
      | (Some currency, Some revision, Some source) \<Rightarrow>
          let pricing = \<lparr>sp_source = source, sp_currency = currency, sp_revision = revision\<rparr> in
          if \<not> is_ok (pricingValidate pricing) then Inl ErrInvalidState
          else (case sa_costConfidence a of
             None \<Rightarrow> Inl ErrInvalidState
           | Some confidence \<Rightarrow>
               if confidence = UnknownCostConfidence then
                 (if sa_billedCost a \<noteq> None then Inl ErrInvalidState else Inr pricing)
               else if confidence = CalculatedCostConfidence \<or> confidence = ProviderReportedCostConfidence then
                 (case sa_billedCost a of
                    None \<Rightarrow> Inl ErrInvalidState
                  | Some billed \<Rightarrow> if billed < 0 then Inl ErrInvalidState else Inr pricing)
               else Inl ErrInvalidState)
      | _ \<Rightarrow> Inl ErrInvalidState)"

definition attemptPricingMatchesReservation :: "'a storedAttempt_scheme \<Rightarrow> 'b reservation_scheme \<Rightarrow> bool" where
  "attemptPricingMatchesReservation a r \<longleftrightarrow> attemptPricing a = Inr (rv_pricing r)"

section \<open>Validation of a stored attempt\<close>

definition noInputAccounting :: "'a storedAttempt_scheme \<Rightarrow> bool" where
  "noInputAccounting a \<longleftrightarrow>
     sa_inputAccountingMethod a = None \<and> sa_inputAccountingProfileID a = None \<and>
     sa_inputAccountingProfileDigest a = None \<and> sa_rewrittenBodySHA256 a = None \<and> sa_inputTokenBound a = None \<and>
     sa_outputTokenBound a = None \<and> sa_totalTokenBound a = None"

definition noRequestMeasurements :: "'a storedAttempt_scheme \<Rightarrow> bool" where
  "noRequestMeasurements a \<longleftrightarrow>
     sa_requestMeasurementSHA256 a = None \<and> sa_measuredRequestBytes a = None \<and> sa_measuredImageUnits a = None \<and>
     sa_measuredToolCalls a = None"

definition digestPresent :: "word8 list option \<Rightarrow> bool" where
  "digestPresent digest \<longleftrightarrow> (case digest of None \<Rightarrow> False | Some bytes \<Rightarrow> length bytes = 32 \<and> bytes \<noteq> zeroDigest)"

definition validateInputAccounting :: "'a storedAttempt_scheme \<Rightarrow> bool" where
  "validateInputAccounting a =
     (if sa_inputAccountingBindingVersion a = 0 then sa_number a = 1 \<and> noInputAccounting a
      else if noInputAccounting a then True
      else if sa_inputAccountingBindingVersion a \<noteq> 1 then False
      else case (sa_inputTokenBound a, sa_outputTokenBound a, sa_totalTokenBound a) of
        (Some inp, Some out, Some both) \<Rightarrow>
          sa_inputAccountingMethod a = Some UTF8ByteBPEDeclaredFramingV1 \<and>
          (case sa_inputAccountingProfileID a of None \<Rightarrow> False | Some profile \<Rightarrow> identifierPattern profile) \<and>
          digestPresent (sa_inputAccountingProfileDigest a) \<and> digestPresent (sa_rewrittenBodySHA256 a) \<and>
          0 < inp \<and> 0 \<le> out \<and> inp \<le> sub64 max_int64 out \<and> both = add64 inp out
      | _ \<Rightarrow> False)"

definition validateStoredMeasurements :: "'a storedAttempt_scheme \<Rightarrow> bool" where
  "validateStoredMeasurements a =
     (if sa_requestMeasurementBindingVersion a = 0 then noRequestMeasurements a
      else if sa_requestMeasurementBindingVersion a \<noteq> 1 then False
      else if noRequestMeasurements a then True
      else digestPresent (sa_requestMeasurementSHA256 a) \<and>
        (case sa_measuredRequestBytes a of None \<Rightarrow> False | Some n \<Rightarrow> 0 \<le> n \<and> n \<le> 104857600) \<and>
        (case sa_measuredImageUnits a of None \<Rightarrow> True | Some n \<Rightarrow> 0 \<le> n \<and> n \<le> 1000000) \<and>
        (case sa_measuredToolCalls a of None \<Rightarrow> True | Some n \<Rightarrow> 0 \<le> n \<and> n \<le> 1000000))"

definition validateAttemptStatus :: "'a storedAttempt_scheme \<Rightarrow> bool" where
  "validateAttemptStatus a =
     (if sa_status a = ''started'' then
        sa_completedAt a = None \<and> sa_httpStatus a = None \<and> sa_failureCode a = None \<and> sa_billedCost a = None \<and>
        (sa_costConfidence a = None \<or> sa_costConfidence a = Some UnknownCostConfidence)
      else if sa_status a \<in> set [''succeeded'', ''failed'', ''cancelled'', ''timed_out''] then sa_completedAt a \<noteq> None
      else False)"

definition validateDecisionBinding :: "'a storedAttempt_scheme \<Rightarrow> bool" where
  "validateDecisionBinding a =
     (if sa_decisionBindingVersion a = 0 then
        sa_number a = 1 \<and> sa_modelKey a = None \<and> sa_decisionSHA256 a = None \<and>
        sa_perRequestOutputTokenBound a = None \<and> sa_requestMeasurementBindingVersion a = 0
      else if sa_decisionBindingVersion a = 1 \<or> sa_decisionBindingVersion a = 2 then
        (case sa_modelKey a of None \<Rightarrow> False | Some model \<Rightarrow> identifierPattern model) \<and>
        (case sa_physicalModel a of None \<Rightarrow> False | Some model \<Rightarrow> validPhysicalModel model) \<and>
        digestPresent (sa_decisionSHA256 a) \<and>
        \<not> (sa_decisionBindingVersion a = 1 \<and> sa_requestMeasurementBindingVersion a \<noteq> 0) \<and>
        \<not> (sa_decisionBindingVersion a = 2 \<and> sa_requestMeasurementBindingVersion a \<noteq> 1) \<and>
        (case sa_perRequestOutputTokenBound a of None \<Rightarrow> True | Some bound \<Rightarrow> 0 < bound)
      else False)"

definition storedAttemptValidate :: "'a storedAttempt_scheme \<Rightarrow> bool" where
  "storedAttemptValidate a \<longleftrightarrow>
     is_ok (attemptPricing a) \<and> 1 \<le> sa_number a \<and> sa_number a \<le> maximumAttemptsPerRequest \<and>
     identifierPattern (sa_routeKey a) \<and> identifierPattern (sa_upstreamKey a) \<and>
     (sa_inputAccountingBindingVersion a = 0 \<or> sa_inputAccountingBindingVersion a = 1) \<and>
     validateAttemptStatus a \<and> validateDecisionBinding a \<and> validateInputAccounting a \<and> validateStoredMeasurements a"

section \<open>Proofs of an attempt\<close>

definition storedInputPreflightMatches :: "'a storedAttempt_scheme \<Rightarrow> inputPreflightBinding option \<Rightarrow> bool" where
  "storedInputPreflightMatches a binding =
     (case binding of
        None \<Rightarrow> noInputAccounting a
      | Some b \<Rightarrow>
          sa_inputAccountingMethod a = Some (pf_Method b) \<and> sa_inputAccountingProfileID a = Some (pf_ProfileID b) \<and>
          sa_inputAccountingProfileDigest a = Some (pf_ProfileDigest b) \<and>
          sa_rewrittenBodySHA256 a = Some (pf_RewrittenBodySHA256 b) \<and> sa_inputTokenBound a = Some (pf_InputTokenBound b) \<and>
          sa_outputTokenBound a = Some (pf_OutputTokenBound b) \<and> sa_totalTokenBound a = Some (pf_TotalTokenBound b))"

definition storedInitialInputPreflightMatches :: "'a storedAttempt_scheme \<Rightarrow> inputPreflightBinding option \<Rightarrow> bool" where
  "storedInitialInputPreflightMatches a binding =
     (if sa_inputAccountingBindingVersion a = 0 then noInputAccounting a else storedInputPreflightMatches a binding)"

definition optionalKnownMeasurementMatches :: "int option \<Rightarrow> int \<Rightarrow> bool \<Rightarrow> bool" where
  "optionalKnownMeasurementMatches stored value known = (if \<not> known then stored = None else stored = Some value)"

definition storedRequestMeasurementsMatch :: "'a storedAttempt_scheme \<Rightarrow> requestMeasurementBinding option \<Rightarrow> bool" where
  "storedRequestMeasurementsMatch a binding =
     (case binding of
        None \<Rightarrow> noRequestMeasurements a
      | Some b \<Rightarrow>
          sa_requestMeasurementSHA256 a = Some (rm_RewrittenBodySHA256 b) \<and>
          sa_measuredRequestBytes a = Some (rm_RequestBytes b) \<and>
          optionalKnownMeasurementMatches (sa_measuredImageUnits a) (rm_ImageUnits b) (rm_ImageUnitsKnown b) \<and>
          optionalKnownMeasurementMatches (sa_measuredToolCalls a) (rm_ToolCalls b) (rm_ToolCallsKnown b))"

definition storedInitialRequestMeasurementsMatch :: "'a storedAttempt_scheme \<Rightarrow> requestMeasurementBinding option \<Rightarrow> bool" where
  "storedInitialRequestMeasurementsMatch a binding =
     (if sa_decisionBindingVersion a < 2 then binding = None \<and> storedRequestMeasurementsMatch a None
      else storedRequestMeasurementsMatch a binding)"

definition storedModelKeyMatches :: "'a storedAttempt_scheme \<Rightarrow> string \<Rightarrow> bool" where
  "storedModelKeyMatches a model =
     (if sa_decisionBindingVersion a = 0 then sa_modelKey a = None else sa_modelKey a = Some model)"

section \<open>Reading attempts\<close>

fun scanStoredAttempts :: "int \<Rightarrow> attemptRow list \<Rightarrow> quota_error + storedAttempt list" where
  "scanStoredAttempts n [] = Inr []"
| "scanStoredAttempts n (row # rows) =
     (if n = maximumAttemptsPerRequest then Inl ErrInvalidState
      else if \<not> validID (sa_id row) ''atm'' \<or> \<not> storedAttemptValidate row \<or> sa_number row \<noteq> n + 1 then Inl ErrInvalidState
      else andThen (scanStoredAttempts (n + 1) rows) (\<lambda>rest. Inr (storedAttempt.truncate row # rest)))"

definition loadAttemptsForUpdate :: "string \<Rightarrow> quotaDB \<Rightarrow> quota_error + storedAttempt list" where
  "loadAttemptsForUpdate logicalRequestID db =
     scanStoredAttempts 0 (sort_key sa_number (filter (\<lambda>row. at_logicalRequestID row = logicalRequestID) (db_attempts db)))"

definition loadAttemptForUpdate :: "string \<Rightarrow> int \<Rightarrow> quotaDB \<Rightarrow> quota_error + storedAttempt option" where
  "loadAttemptForUpdate logicalRequestID number db =
     (case find (\<lambda>row. at_logicalRequestID row = logicalRequestID \<and> sa_number row = number) (db_attempts db) of
        None \<Rightarrow> Inr None
      | Some row \<Rightarrow>
          if \<not> validID (sa_id row) ''atm'' \<or> \<not> storedAttemptValidate row then Inl ErrInvalidState
          else Inr (Some (storedAttempt.truncate row)))"

definition attemptExistsAfter :: "string \<Rightarrow> int \<Rightarrow> quotaDB \<Rightarrow> bool" where
  "attemptExistsAfter logicalRequestID number db \<longleftrightarrow>
     list_ex (\<lambda>row. at_logicalRequestID row = logicalRequestID \<and> number < sa_number row) (db_attempts db)"

section \<open>Allocations of an attempt\<close>

definition reservedTokenMetricOrder :: "string list" where
  "reservedTokenMetricOrder = [InputTokensMetric, OutputTokensMetric, TotalTokensMetric]"

text \<open>The position of a metric among the allocations of an attempt; \<open>math.MaxInt\<close> for a metric that is not
  allocated per attempt.\<close>

definition attemptAllocationOrder :: "string \<Rightarrow> int" where
  "attemptAllocationOrder metric =
     (if metric = InputTokensMetric then 0
      else if metric = OutputTokensMetric then 1
      else if metric = TotalTokensMetric then 2
      else if metric = CostNanoUSDMetric then 3
      else if metric = UpstreamAttemptsMetric then 4
      else if metric = RequestBytesMetric then 5
      else if metric = ImageUnitsMetric then 6
      else if metric = ToolCallsMetric then 7
      else max_int64)"

definition allocatedPerAttempt :: "string \<Rightarrow> bool" where
  "allocatedPerAttempt metric \<longleftrightarrow> attemptAllocationOrder metric \<noteq> max_int64"

definition validAttemptQuotaEntry :: "'a lockedAttemptQuotaEntry_scheme \<Rightarrow> bool" where
  "validAttemptQuotaEntry q =
     (if \<not> allocatedPerAttempt (aq_metric q) \<or> (aq_metric q = CostNanoUSDMetric \<and> aq_allocated q < 0) \<or>
         (aq_metric q \<noteq> CostNanoUSDMetric \<and> aq_allocated q \<le> 0)
      then False
      else case (aq_charged q, aq_released q, aq_settledAt q) of
        (Some charged, Some released, Some settledAt) \<Rightarrow>
          0 \<le> charged \<and> charged \<le> aq_allocated q \<and> released = sub64 (aq_allocated q) charged \<and> \<not> isZero settledAt
      | (None, None, None) \<Rightarrow> True
      | _ \<Rightarrow> False)"

definition attemptQuotaEntriesSettled :: "lockedAttemptQuotaEntry list \<Rightarrow> bool" where
  "attemptQuotaEntriesSettled qs \<longleftrightarrow>
     list_all (\<lambda>q. aq_charged q \<noteq> None \<and> aq_released q \<noteq> None \<and> aq_settledAt q \<noteq> None) qs"

definition attemptQuotaEntriesUnsettled :: "lockedAttemptQuotaEntry list \<Rightarrow> bool" where
  "attemptQuotaEntriesUnsettled qs \<longleftrightarrow>
     list_all (\<lambda>q. aq_charged q = None \<and> aq_released q = None \<and> aq_settledAt q = None) qs"

fun scanLockedAttemptQuotaEntries :: "string option \<Rightarrow> attemptEntryRow list \<Rightarrow> quota_error + lockedAttemptQuotaEntry list" where
  "scanLockedAttemptQuotaEntries previous [] = Inr []"
| "scanLockedAttemptQuotaEntries previous (row # rows) =
     (if \<not> validID (aq_entryID row) ''qre'' \<or> \<not> validID (aq_bucketID row) ''qbk'' \<or> \<not> validAttemptQuotaEntry row \<or>
         (case previous of None \<Rightarrow> False | Some bucketID \<Rightarrow> \<not> bucketID < aq_bucketID row)
      then Inl ErrInvalidState
      else andThen (scanLockedAttemptQuotaEntries (Some (aq_bucketID row)) rows) (\<lambda>rest.
        Inr (lockedAttemptQuotaEntry.truncate row # rest)))"

definition attemptEntryMatches :: "'a reservation_scheme \<Rightarrow> string \<Rightarrow> attemptEntryRow \<Rightarrow> bool" where
  "attemptEntryMatches r attemptID row \<longleftrightarrow>
     sameTenant r (ae_organizationID row) (ae_applicationID row) (ae_environmentID row) \<and>
     ae_logicalRequestID row = rv_logicalRequestID r \<and> ae_attemptID row = attemptID \<and>
     ae_reservationID row = rv_reservationID r"

definition loadAttemptQuotaEntriesForUpdate ::
    "'a reservation_scheme \<Rightarrow> string \<Rightarrow> quotaDB \<Rightarrow> quota_error + lockedAttemptQuotaEntry list" where
  "loadAttemptQuotaEntriesForUpdate r attemptID db =
     scanLockedAttemptQuotaEntries None
       (sort_key aq_bucketID (filter (attemptEntryMatches r attemptID) (db_attemptEntries db)))"

text \<open>Maps from metrics to units are finite and only read at the metrics of entries.\<close>

fun collectAllocations :: "(string \<rightharpoonup> int) \<Rightarrow> lockedEntry list \<Rightarrow> quota_error + (string \<rightharpoonup> int)" where
  "collectAllocations found [] = Inr found"
| "collectAllocations found (entry # entries) =
     (if le_originAttemptNumber entry \<noteq> 1 \<or> \<not> allocatedPerAttempt (le_metric entry) then collectAllocations found entries
      else if found (le_metric entry) \<noteq> None \<and> found (le_metric entry) \<noteq> Some (le_initialReservedUnits entry)
      then Inl ErrInvalidState
      else collectAllocations (found(le_metric entry \<mapsto> le_initialReservedUnits entry)) entries)"

definition initialAttemptAllocations :: "lockedEntry list \<Rightarrow> quota_error + (string \<rightharpoonup> int)" where
  "initialAttemptAllocations entries = collectAllocations Map.empty entries"

section \<open>The decision digest\<close>

definition attemptDecisionBindingDomain :: string where
  "attemptDecisionBindingDomain = nulDomain ''latchway/quota-attempt-decision/v1''"

definition newStoredAttemptDecision ::
    "string \<Rightarrow> int \<Rightarrow> string \<Rightarrow> string \<Rightarrow> string \<Rightarrow> string \<Rightarrow> selectedPricing \<Rightarrow> inputPreflightBinding option \<Rightarrow>
     requestMeasurementBinding option \<Rightarrow> int option \<Rightarrow> storedAttempt" where
  "newStoredAttemptDecision attemptID number route upstream model physicalModel pricing binding measurements outputBound =
     \<lparr>sa_id = attemptID, sa_number = number, sa_routeKey = route, sa_upstreamKey = upstream,
      sa_physicalModel = Some physicalModel, sa_modelKey = Some model, sa_status = [], sa_firstByteAt = None,
      sa_completedAt = None, sa_httpStatus = None, sa_failureCode = None, sa_billedCost = None,
      sa_currency = (if pricingPresent pricing then Some (sp_currency pricing) else None),
      sa_priceRevision = (if pricingPresent pricing then Some (sp_revision pricing) else None),
      sa_pricingSource = (if pricingPresent pricing then Some (sp_source pricing) else None),
      sa_costConfidence = (if pricingPresent pricing then Some (initialCostConfidence pricing) else None),
      sa_decisionBindingVersion = 2, sa_decisionSHA256 = None, sa_perRequestOutputTokenBound = outputBound,
      sa_inputAccountingBindingVersion = 1, sa_inputAccountingMethod = map_option pf_Method binding,
      sa_inputAccountingProfileID = map_option pf_ProfileID binding,
      sa_inputAccountingProfileDigest = map_option pf_ProfileDigest binding,
      sa_rewrittenBodySHA256 = map_option pf_RewrittenBodySHA256 binding,
      sa_inputTokenBound = map_option pf_InputTokenBound binding, sa_outputTokenBound = map_option pf_OutputTokenBound binding,
      sa_totalTokenBound = map_option pf_TotalTokenBound binding, sa_requestMeasurementBindingVersion = 1,
      sa_requestMeasurementSHA256 = map_option rm_RewrittenBodySHA256 measurements,
      sa_measuredRequestBytes = map_option rm_RequestBytes measurements,
      sa_measuredImageUnits = (case measurements of None \<Rightarrow> None | Some m \<Rightarrow> if rm_ImageUnitsKnown m then Some (rm_ImageUnits m) else None),
      sa_measuredToolCalls = (case measurements of None \<Rightarrow> None | Some m \<Rightarrow> if rm_ToolCallsKnown m then Some (rm_ToolCalls m) else None)\<rparr>"

definition attemptQuotaRowsForDecision :: "lockedEntry list \<Rightarrow> (string \<rightharpoonup> int) \<Rightarrow> lockedAttemptQuotaEntry list" where
  "attemptQuotaRowsForDecision entries allocations =
     concat (map (\<lambda>entry. case allocations (le_metric entry) of
         None \<Rightarrow> []
       | Some units \<Rightarrow> [\<lparr>aq_entryID = le_id entry, aq_bucketID = le_bucketID entry, aq_metric = le_metric entry,
           aq_allocated = units, aq_charged = None, aq_released = None, aq_settledAt = None\<rparr>]) entries)"

definition optionalStringValue :: "string option \<Rightarrow> string" where
  "optionalStringValue value = (case value of None \<Rightarrow> [] | Some text \<Rightarrow> text)"

definition optionalInt64Value :: "int option \<Rightarrow> string" where
  "optionalInt64Value value = (case value of None \<Rightarrow> [] | Some number \<Rightarrow> formatInt number)"

definition optionalBytes :: "word8 list option \<Rightarrow> string" where
  "optionalBytes value = base64url (case value of None \<Rightarrow> [] | Some bytes \<Rightarrow> bytes)"

definition quotaRowParts :: "lockedAttemptQuotaEntry \<Rightarrow> string list" where
  "quotaRowParts q = [aq_entryID q, aq_bucketID q, aq_metric q, formatInt (aq_allocated q)]"

definition decisionParts :: "'a reservation_scheme \<Rightarrow> 'b storedAttempt_scheme \<Rightarrow> selectedPricing \<Rightarrow> string \<Rightarrow> string \<Rightarrow> string list" where
  "decisionParts r a pricing model physicalModel =
     [formatInt (sa_decisionBindingVersion a), rv_organizationID r, rv_applicationID r, rv_environmentID r,
      rv_logicalRequestID r, rv_reservationID r, sa_id a, formatInt (sa_number a), sa_routeKey a, sa_upstreamKey a,
      model, physicalModel, sp_source pricing, sp_currency pricing, sp_revision pricing,
      optionalInt64Value (sa_perRequestOutputTokenBound a), formatInt (sa_inputAccountingBindingVersion a),
      optionalStringValue (sa_inputAccountingMethod a), optionalStringValue (sa_inputAccountingProfileID a),
      optionalBytes (sa_inputAccountingProfileDigest a), optionalBytes (sa_rewrittenBodySHA256 a),
      optionalInt64Value (sa_inputTokenBound a), optionalInt64Value (sa_outputTokenBound a), optionalInt64Value (sa_totalTokenBound a)] @
     (if 2 \<le> sa_decisionBindingVersion a then
        [formatInt (sa_requestMeasurementBindingVersion a), optionalBytes (sa_requestMeasurementSHA256 a),
         optionalInt64Value (sa_measuredRequestBytes a), optionalInt64Value (sa_measuredImageUnits a),
         optionalInt64Value (sa_measuredToolCalls a)] else [])"

definition attemptDecisionDigest ::
    "'a reservation_scheme \<Rightarrow> 'b storedAttempt_scheme \<Rightarrow> lockedAttemptQuotaEntry list \<Rightarrow> quota_error + word8 list" where
  "attemptDecisionDigest r a quotaEntries =
     (case (attemptPricing a, sa_physicalModel a, sa_modelKey a) of
        (Inr pricing, Some physicalModel, Some model) \<Rightarrow>
          let rows = sort_key (\<lambda>q. (aq_entryID q, aq_bucketID q, aq_metric q)) quotaEntries in
          Inr (canonicalDigestBytes attemptDecisionBindingDomain
            (decisionParts r a pricing model physicalModel @ [formatInt (int (length rows))] @ concat (map quotaRowParts rows)))
      | _ \<Rightarrow> Inl ErrInvalidState)"

section \<open>Which entries belong to an attempt\<close>

definition attemptScopeValues :: "lockedReservation \<Rightarrow> 'b storedAttempt_scheme \<Rightarrow> string \<Rightarrow> (string \<rightharpoonup> string)" where
  "attemptScopeValues r a model =
     [''organization'' \<mapsto> rv_organizationID r, ''application'' \<mapsto> rv_applicationID r, ''environment'' \<mapsto> rv_environmentID r,
      ''user'' \<mapsto> lv_applicationUserID r, ''installation'' \<mapsto> lv_installationID r, ''feature'' \<mapsto> lv_featureKey r,
      ''route'' \<mapsto> sa_routeKey a, ''upstream'' \<mapsto> sa_upstreamKey a, ''model'' \<mapsto> model]"

fun applicableEntries ::
    "(string \<rightharpoonup> string) \<Rightarrow> int \<Rightarrow> lockedEntry list \<Rightarrow> string list option" where
  "applicableEntries values number [] = Some []"
| "applicableEntries values number (entry # entries) =
     (if number < le_originAttemptNumber entry \<or> \<not> allocatedPerAttempt (le_metric entry) \<or>
         (1 < number \<and> le_metric entry = CostNanoUSDMetric \<and> le_costRetryTreatment entry = InitialAttemptOnlyCostRetryTreatment)
      then applicableEntries values number entries
      else if list_ex (\<lambda>dimension. go_get values dimension = []) (le_scopeDimensions entry) then None
      else map_option
        (\<lambda>rest. if canonicalDigest scopeDigestDomain (scopeParts values (le_scopeDimensions entry)) = le_scopeKey entry
                then le_id entry # rest else rest)
        (applicableEntries values number entries))"

text \<open>The identifiers of the entries whose scope is the target of the attempt; \<open>None\<close> is the result
  \<open>(nil, false)\<close>.\<close>

definition applicableAttemptQuotaEntries :: "lockedReservation \<Rightarrow> 'b storedAttempt_scheme \<Rightarrow> lockedEntry list \<Rightarrow> string list option" where
  "applicableAttemptQuotaEntries r a entries =
     (if sa_decisionBindingVersion a = 0 then
        (if sa_number a \<noteq> 1 then None
         else Some (map le_id (filter (\<lambda>entry. le_originAttemptNumber entry = 1 \<and> allocatedPerAttempt (le_metric entry)) entries)))
      else case sa_modelKey a of
        None \<Rightarrow> None
      | Some model \<Rightarrow>
          if lv_applicationUserID r = [] \<or> lv_installationID r = [] \<or> lv_featureKey r = [] then None
          else applicableEntries (attemptScopeValues r a model) (sa_number a) entries)"

fun accountingMatches :: "'b storedAttempt_scheme \<Rightarrow> selectedPricing \<Rightarrow> lockedAttemptQuotaEntry list \<Rightarrow> bool" where
  "accountingMatches a pricing [] \<longleftrightarrow> True"
| "accountingMatches a pricing (q # qs) \<longleftrightarrow>
     (let proved = sa_inputAccountingMethod a \<noteq> None in
      if aq_metric q = InputTokensMetric then proved \<longrightarrow> sa_inputTokenBound a = Some (aq_allocated q)
      else if aq_metric q = OutputTokensMetric then proved \<longrightarrow> sa_outputTokenBound a = Some (aq_allocated q)
      else if aq_metric q = TotalTokensMetric then proved \<longrightarrow> sa_totalTokenBound a = Some (aq_allocated q)
      else if aq_metric q = CostNanoUSDMetric then pricingPresent pricing
      else if aq_metric q = UpstreamAttemptsMetric then aq_allocated q = 1
      else False) \<and> accountingMatches a pricing qs"

definition attemptInputAccountingMatchesQuota :: "'b storedAttempt_scheme \<Rightarrow> lockedAttemptQuotaEntry list \<Rightarrow> bool" where
  "attemptInputAccountingMatchesQuota a qs =
     (if sa_inputAccountingBindingVersion a = 0 then sa_number a = 1
      else case attemptPricing a of
        Inl _ \<Rightarrow> False
      | Inr pricing \<Rightarrow>
          accountingMatches a pricing qs \<and>
          (list_ex (\<lambda>q. aq_metric q = InputTokensMetric \<or> aq_metric q = TotalTokensMetric) qs \<longrightarrow> sa_inputAccountingMethod a \<noteq> None))"

definition attemptQuotaDecisionMatches :: "'a reservation_scheme \<Rightarrow> 'b storedAttempt_scheme \<Rightarrow> lockedAttemptQuotaEntry list \<Rightarrow> bool" where
  "attemptQuotaDecisionMatches r a qs =
     (if \<not> attemptInputAccountingMatchesQuota a qs then False
      else if sa_decisionBindingVersion a = 0 then sa_number a = 1 \<and> sa_decisionSHA256 a = None
      else case attemptDecisionDigest r a qs of Inl _ \<Rightarrow> False | Inr digest \<Rightarrow> sa_decisionSHA256 a = Some digest)"

fun quotaEntriesBelong :: "int \<Rightarrow> lockedEntry list \<Rightarrow> string list \<Rightarrow> lockedAttemptQuotaEntry list \<Rightarrow> bool" where
  "quotaEntriesBelong number entries expected [] \<longleftrightarrow> expected = []"
| "quotaEntriesBelong number entries expected (q # qs) \<longleftrightarrow>
     (case find (\<lambda>entry. le_id entry = aq_entryID q) (rev entries) of
        None \<Rightarrow> False
      | Some entry \<Rightarrow>
          aq_bucketID q = le_bucketID entry \<and> aq_metric q = le_metric entry \<and> le_originAttemptNumber entry \<le> number \<and>
          (le_originAttemptNumber entry = number \<longrightarrow> aq_allocated q = le_initialReservedUnits entry) \<and>
          aq_entryID q \<in> set expected \<and> quotaEntriesBelong number entries (removeAll (aq_entryID q) expected) qs)"

definition attemptQuotaEntriesMatchReservation ::
    "lockedReservation \<Rightarrow> 'b storedAttempt_scheme \<Rightarrow> lockedAttemptQuotaEntry list \<Rightarrow> lockedEntry list \<Rightarrow> bool" where
  "attemptQuotaEntriesMatchReservation r a qs entries =
     (case applicableAttemptQuotaEntries r a entries of
        None \<Rightarrow> False
      | Some expected \<Rightarrow>
          length qs = length (remdups expected) \<and> quotaEntriesBelong (sa_number a) entries expected qs \<and>
          attemptQuotaDecisionMatches r a qs)"

section \<open>Reserved token units\<close>

text \<open>Token reservations are listed in the fixed metric order, so the check of \<open>validReservedTokenMetrics\<close> that
  they are in this order concerns lists of another origin.\<close>

record reservedTokenMetric =
  rt_metric :: string
  rt_units :: int

fun metricsInOrder :: "string list \<Rightarrow> reservedTokenMetric list \<Rightarrow> bool" where
  "metricsInOrder order [] \<longleftrightarrow> True"
| "metricsInOrder [] (t # ts) \<longleftrightarrow> False"
| "metricsInOrder (metric # order) (t # ts) \<longleftrightarrow>
     (if metric = rt_metric t then 0 < rt_units t \<and> metricsInOrder order ts else metricsInOrder order (t # ts))"

definition validReservedTokenMetrics :: "reservedTokenMetric list \<Rightarrow> bool" where
  "validReservedTokenMetrics ts \<longleftrightarrow>
     length ts \<le> 3 \<and> metricsInOrder reservedTokenMetricOrder ts \<and>
     validTokenReservationRelationship (map_of (rev (map (\<lambda>t. (rt_metric t, rt_units t)) ts)))"

fun agreedUnits :: "int option \<Rightarrow> int list \<Rightarrow> int option option" where
  "agreedUnits found [] = Some found"
| "agreedUnits found (units # rest) =
     (if found \<noteq> None \<and> found \<noteq> Some units then None else agreedUnits (Some units) rest)"

definition lockedMetricUnits :: "lockedEntry list \<Rightarrow> string \<Rightarrow> int option option" where
  "lockedMetricUnits entries metric =
     (let own = filter (\<lambda>entry. le_metric entry = metric) entries in
      if \<not> list_all (\<lambda>entry. validReservationEntryUnits metric (le_algorithm entry) (le_reservedUnits entry)) own then None
      else agreedUnits None (map le_reservedUnits own))"

fun reservedMetrics :: "(string \<Rightarrow> int option option) \<Rightarrow> string list \<Rightarrow> reservedTokenMetric list option" where
  "reservedMetrics units [] = Some []"
| "reservedMetrics units (metric # metrics) =
     (case units metric of
        None \<Rightarrow> None
      | Some None \<Rightarrow> reservedMetrics units metrics
      | Some (Some n) \<Rightarrow> map_option (Cons \<lparr>rt_metric = metric, rt_units = n\<rparr>) (reservedMetrics units metrics))"

definition lockedTokenReservationUnits :: "lockedEntry list \<Rightarrow> quota_error + reservedTokenMetric list" where
  "lockedTokenReservationUnits entries =
     (case reservedMetrics (lockedMetricUnits entries) reservedTokenMetricOrder of
        None \<Rightarrow> Inl ErrInvalidState
      | Some ts \<Rightarrow> if \<not> validReservedTokenMetrics ts then Inl ErrInvalidState else Inr ts)"

definition lockedCostReservationUnits :: "lockedEntry list \<Rightarrow> quota_error + int option" where
  "lockedCostReservationUnits entries =
     (case lockedMetricUnits entries CostNanoUSDMetric of None \<Rightarrow> Inl ErrInvalidState | Some units \<Rightarrow> Inr units)"

fun collectTokenUnits :: "(string \<rightharpoonup> int) \<Rightarrow> lockedAttemptQuotaEntry list \<Rightarrow> (string \<rightharpoonup> int) option" where
  "collectTokenUnits found [] = Some found"
| "collectTokenUnits found (q # qs) =
     (if aq_metric q = CostNanoUSDMetric \<or> aq_metric q = UpstreamAttemptsMetric then collectTokenUnits found qs
      else if found (aq_metric q) \<noteq> None \<and> found (aq_metric q) \<noteq> Some (aq_allocated q) then None
      else collectTokenUnits (found(aq_metric q \<mapsto> aq_allocated q)) qs)"

definition attemptTokenReservationUnits :: "lockedAttemptQuotaEntry list \<Rightarrow> quota_error + reservedTokenMetric list" where
  "attemptTokenReservationUnits qs =
     (case collectTokenUnits Map.empty qs of
        None \<Rightarrow> Inl ErrInvalidState
      | Some units \<Rightarrow>
          (case reservedMetrics (\<lambda>metric. Some (units metric)) reservedTokenMetricOrder of
             None \<Rightarrow> Inl ErrInvalidState
           | Some ts \<Rightarrow> if \<not> validReservedTokenMetrics ts then Inl ErrInvalidState else Inr ts))"

end
