(* ===== verification/Quota_Release.thy ===== *)
theory Quota_Release
  imports Quota_Attempt
begin

text \<open>
  Giving a reservation back before it is dispatched (\<open>src/internal/quota/store.go\<close>:
  \<open>ReleaseBeforeDispatch\<close>, \<open>releaseLocked\<close>, \<open>releaseLockedConcurrencyLeases\<close>), and the statements on
  buckets, entries and leases that a release and a settlement share.  The statement clock is an argument.
\<close>

section \<open>Shared statements\<close>

definition bucketMove :: "int \<Rightarrow> int \<Rightarrow> bucketRow \<Rightarrow> bucketRow" where
  "bucketMove charged taken row =
     row\<lparr>bk_usedUnits := bk_usedUnits row + charged, bk_reservedUnits := bk_reservedUnits row - taken,
         bk_version := bk_version row + 1\<rparr>"

definition entryMove :: "int \<Rightarrow> int \<Rightarrow> entryRow \<Rightarrow> entryRow" where
  "entryMove charged released row =
     row\<lparr>qe_settledUnits := qe_settledUnits row + charged, qe_releasedUnits := qe_releasedUnits row + released\<rparr>"

definition leaseGuard :: "lockedReservation \<Rightarrow> leaseRow \<Rightarrow> leaseRow \<Rightarrow> bool" where
  "leaseGuard r lease row \<longleftrightarrow>
     cl_id row = cl_id lease \<and> cl_environmentID row = rv_environmentID r \<and>
     cl_logicalRequestID row = rv_logicalRequestID r \<and> cl_bucketID row = cl_bucketID lease \<and>
     cl_expiresAt row = lv_expiresAt r \<and> cl_releasedAt row = None"

definition leaseChange :: "gotime \<Rightarrow> leaseRow \<Rightarrow> leaseRow" where
  "leaseChange now row = row\<lparr>cl_releasedAt := Some (max (cl_acquiredAt row) now)\<rparr>"

fun releaseLockedConcurrencyLeases ::
    "lockedReservation \<Rightarrow> gotime \<Rightarrow> leaseRow list \<Rightarrow> leaseRow list \<Rightarrow> quota_error + leaseRow list" where
  "releaseLockedConcurrencyLeases r now [] rows = Inr rows"
| "releaseLockedConcurrencyLeases r now (lease # leases) rows =
     andThen (updateOne (leaseGuard r lease) (leaseChange now) rows) (releaseLockedConcurrencyLeases r now leases)"

section \<open>Releasing a reservation\<close>

definition releaseBucketGuard :: "lockedEntry \<Rightarrow> bucketRow \<Rightarrow> bool" where
  "releaseBucketGuard entry row \<longleftrightarrow>
     (let units = le_reservedUnits entry in
      bk_id row = le_bucketID entry \<and>
      (0 < units \<or> units = 0 \<and> bk_metric row = CostNanoUSDMetric \<and> bk_algorithm row = CalendarAlgorithm) \<and>
      units \<le> bk_reservedUnits row)"

definition releaseEntryGuard :: "lockedEntry \<Rightarrow> entryRow \<Rightarrow> bool" where
  "releaseEntryGuard entry row \<longleftrightarrow>
     qe_id row = le_id entry \<and> qe_reservedUnits row = le_reservedUnits entry \<and> qe_settledUnits row = 0 \<and>
     qe_releasedUnits row = 0"

definition releaseBucket :: "gotime \<Rightarrow> lockedEntry \<Rightarrow> bucketRow list \<Rightarrow> quota_error + bucketRow list" where
  "releaseBucket now entry rows =
     (if le_algorithm entry = TokenBucketAlgorithm then
        andThen (tokenStateFromLockedEntry entry) (\<lambda>state.
        andThen (refundTokenBalance state (le_reservedUnits entry) now) (\<lambda>refunded.
        persistTokenBucketEntry entry refunded now rows))
      else updateOne (releaseBucketGuard entry) (bucketMove 0 (le_reservedUnits entry)) rows)"

fun releaseEntries ::
    "gotime \<Rightarrow> lockedEntry list \<Rightarrow> bucketRow list \<times> entryRow list \<Rightarrow> quota_error + (bucketRow list \<times> entryRow list)" where
  "releaseEntries now [] tables = Inr tables"
| "releaseEntries now (entry # entries) (buckets, rows) =
     andThen (releaseBucket now entry buckets) (\<lambda>buckets.
     andThen (updateOne (releaseEntryGuard entry) (entryMove 0 (le_reservedUnits entry)) rows) (\<lambda>rows.
     releaseEntries now entries (buckets, rows)))"

definition releasable :: "lockedEntry \<Rightarrow> bool" where
  "releasable entry \<longleftrightarrow>
     validReservationEntryUnits (le_metric entry) (le_algorithm entry) (le_reservedUnits entry) \<and>
     le_settledUnits entry = 0 \<and> le_releasedUnits entry = 0 \<and> lockedEntryBucketValid entry \<and>
     (le_algorithm entry = TokenBucketAlgorithm \<or> le_reservedUnits entry \<le> le_bucketReserved entry) \<and>
     (isConcurrencyMetric (le_metric entry) \<longrightarrow> le_bucketUsed entry = 0)"

definition closeReservation ::
    "string \<Rightarrow> (reservationRow \<Rightarrow> reservationRow) \<Rightarrow> reservationRow list \<Rightarrow> quota_error + reservationRow list" where
  "closeReservation reservationID change rows =
     updateOne (\<lambda>row. qr_id row = reservationID \<and> qr_status row = ''pending'') change rows"

definition releaseLocked ::
    "lockedReservation \<Rightarrow> lockedLogical \<Rightarrow> lockedEntry list \<Rightarrow> leaseRow list \<Rightarrow> string \<Rightarrow> string \<Rightarrow> gotime \<Rightarrow> quotaDB \<Rightarrow>
     quota_error + quotaDB" where
  "releaseLocked r logical entries leases status failureCode now db =
     (if lv_status r \<noteq> ''pending'' \<or> ll_status logical \<noteq> ''reserved'' \<or> 128 < int (length entries) then Inl ErrInvalidState
      else
        andThen (lockedCostReservationUnits entries) (\<lambda>_.
        andThen (lockedTokenReservationUnits entries) (\<lambda>_.
        if \<not> list_all releasable entries then Inl ErrInvalidState
        else if \<not> pendingConcurrencyLeasesMatch r entries leases then Inl ErrInvalidState
        else
          andThen (releaseEntries now entries (db_buckets db, db_entries db)) (\<lambda>(buckets, rows).
          andThen (releaseLockedConcurrencyLeases r now leases (db_leases db)) (\<lambda>leases.
          andThen (closeLogical (rv_logicalRequestID r) ''reserved'' ''failed'' failureCode now
            (db\<lparr>db_buckets := buckets, db_entries := rows, db_leases := leases\<rparr>)) (\<lambda>db.
          andThen (closeReservation (rv_reservationID r)
            (\<lambda>row. row\<lparr>qr_status := status, qr_releasedAt := Some (max (qr_createdAt row) now)\<rparr>) (db_reservations db)) (\<lambda>reservations.
          Inr (db\<lparr>db_reservations := reservations\<rparr>))))))))"

text \<open>The tables a release works on, in the order in which it locks them.\<close>

record releaseLocks =
  rl_reservation :: lockedReservation
  rl_logical :: lockedLogical
  rl_attempts :: "storedAttempt list"
  rl_entries :: "lockedEntry list"
  rl_leases :: "leaseRow list"

definition lockForRelease :: "reservation \<Rightarrow> quotaDB \<Rightarrow> quota_error + releaseLocks" where
  "lockForRelease reservation db =
     andThen (lockReservation reservation db) (\<lambda>r.
     andThen (lockLogicalRequest reservation db) (\<lambda>logical.
     andThen (loadAttemptsForUpdate (rv_logicalRequestID reservation) db) (\<lambda>attempts.
     andThen (lockEntries r db) (\<lambda>entries.
     andThen (lockConcurrencyLeases r entries db) (\<lambda>leases.
     Inr \<lparr>rl_reservation = r, rl_logical = logical, rl_attempts = attempts, rl_entries = entries, rl_leases = leases\<rparr>)))))"

definition ReleaseBeforeDispatch :: "gotime \<Rightarrow> reservation \<Rightarrow> string \<Rightarrow> quotaDB \<Rightarrow> quota_error + quotaDB" where
  "ReleaseBeforeDispatch now reservation failureCode db =
     (if \<not> reservationValidate reservation \<or> \<not> failureCodePattern failureCode then Inl ErrInvalidInput
      else andThen (lockForRelease reservation db) (\<lambda>locks.
        let r = rl_reservation locks; logical = rl_logical locks in
        if lv_status r = ''released'' then
          (if rl_attempts locks = [] \<and> ll_status logical = ''failed'' \<and> ll_failureCode logical = Some failureCode \<and>
              terminalEntriesMatch (ll_status logical) (lv_status r) (rl_entries locks) (rl_leases locks)
           then Inr db else Inl ErrFinalized)
        else if lv_status r \<noteq> ''pending'' then Inl ErrFinalized
        else if rl_attempts locks \<noteq> [] then Inl ErrFinalized
        else if ll_status logical \<noteq> ''reserved'' then Inl ErrInvalidState
        else releaseLocked r logical (rl_entries locks) (rl_leases locks) ''released'' failureCode now db))"

end
