(* ===== verification/Quota_Moves.thy ===== *)
theory Quota_Moves
  imports Quota_Admission Quota_Release
begin

text \<open>
  Moving units out of the reserved ones: what a release, a settlement and a finalization do to one bucket and
  one entry, and that such moves keep the ledger.  Concurrency leases are closed after the moves, so between
  the two the ledger holds up to a correction of the lease counts.
\<close>

section \<open>Single-row updates\<close>

lemma updateOne_split:
  assumes "updateOne P f rows = Inr rows'"
  obtains xs row ys where "rows = xs @ row # ys" "rows' = xs @ f row # ys" "P row"
proof -
  have one: "length (filter P rows) = 1" and rows': "rows' = sqlUpdate P f rows"
    using assms by (auto simp: updateOne_def split: if_splits)
  obtain row where row: "filter P rows = [row]"
    using one by (auto simp: length_Suc_conv)
  then obtain xs ys where s: "rows = xs @ row # ys" "\<forall>x \<in> set xs. \<not> P x" "P row" "filter P ys = []"
    by (auto simp: filter_eq_Cons_iff)
  have "sqlUpdate P f xs = xs" using s(2) by (induction xs) (auto simp: sqlUpdate_def)
  moreover have "sqlUpdate P f ys = ys" using s(4) by (induction ys) (auto simp: sqlUpdate_def split: if_splits)
  ultimately have "rows' = xs @ f row # ys" using s(1,3) by (simp add: rows' sqlUpdate_def)
  then show thesis using that s by blast
qed

lemma distinct_key: "distinct (map key rows) \<Longrightarrow> x \<in> set rows \<Longrightarrow> y \<in> set rows \<Longrightarrow> key x = key y \<Longrightarrow> x = y"
  by (simp add: distinct_map inj_on_def)

section \<open>Entries\<close>

definition entryKey :: "entryRow \<Rightarrow> string \<times> (string \<times> string \<times> string) \<times> string \<times> string" where
  "entryKey row = (qe_id row, entryTenant row, qe_reservationID row, qe_bucketID row)"

lemma entryKey_row:
  assumes "map entryKey rows' = map entryKey rows" "row' \<in> set rows'"
  obtains row where "row \<in> set rows" "entryKey row = entryKey row'"
proof -
  have "entryKey row' \<in> set (map entryKey rows)" using assms by (simp flip: assms(1))
  then show thesis using that by auto
qed

lemma refers_to_entryKeys:
  assumes "map entryKey entries' = map entryKey entries" "refers_to rows entries leases"
  shows "refers_to rows entries' leases"
proof -
  have "\<exists>row \<in> set rows. bk_id row = qe_bucketID e' \<and> bucketTenant row = entryTenant e'" if mem: "e' \<in> set entries'" for e'
  proof -
    obtain e where e: "e \<in> set entries" "entryKey e = entryKey e'" by (rule entryKey_row [OF assms(1) mem])
    obtain row where "row \<in> set rows" "bk_id row = qe_bucketID e" "bucketTenant row = entryTenant e"
      using assms(2) e(1) by (auto simp: refers_to_def)
    then show ?thesis using e(2) by (auto simp: entryKey_def)
  qed
  then show ?thesis using assms(2) by (simp add: refers_to_def)
qed

section \<open>The ledger with open lease closures\<close>

definition ledger_with :: "(string \<Rightarrow> int) \<Rightarrow> quotaDB \<Rightarrow> bool" where
  "ledger_with extra db \<longleftrightarrow>
     distinct (map bk_id (db_buckets db)) \<and> distinct (map qe_id (db_entries db)) \<and>
     distinct (map qr_id (db_reservations db)) \<and> refers_to (db_buckets db) (db_entries db) (db_leases db) \<and>
     list_all entry_ok (db_entries db) \<and> list_all (entry_live (db_reservations db)) (db_entries db) \<and>
     list_all (bucket_ok (db_entries db) (\<lambda>_. 0)) (db_buckets db) \<and>
     list_all (lease_count_ok (db_leases db) extra) (db_buckets db)"

lemma ledger_with_zero: "ledger_with (\<lambda>_. 0) db \<longleftrightarrow> ledger_ok db"
  by (simp add: ledger_with_def ledger_ok_def)

lemma ledger_with_cong:
  assumes "\<And>row. row \<in> set (db_buckets db) \<Longrightarrow> isConcurrencyMetric (bk_metric row) \<Longrightarrow> extra (bk_id row) = extra' (bk_id row)"
    "ledger_with extra db"
  shows "ledger_with extra' db"
  using assms by (auto simp: ledger_with_def list_all_iff lease_count_ok_def)

section \<open>Moves\<close>

text \<open>\<open>charged\<close> units become used and \<open>released\<close> units are given back, for one entry and its bucket.  A token
  bucket keeps no used or reserved units; its balance may change.\<close>

definition bucket_moved :: "string \<Rightarrow> int \<Rightarrow> int \<Rightarrow> bucketRow list \<Rightarrow> bucketRow list \<Rightarrow> bool" where
  "bucket_moved bucketID charged taken rows rows' \<longleftrightarrow>
     (\<exists>xs row ys. rows = xs @ row # ys \<and> rows' = xs @ bucketMove charged taken row # ys \<and> bk_id row = bucketID \<and>
        bk_algorithm row \<noteq> TokenBucketAlgorithm \<and> taken \<le> bk_reservedUnits row)"

definition bucket_kept :: "string \<Rightarrow> bucketRow list \<Rightarrow> bucketRow list \<Rightarrow> bool" where
  "bucket_kept bucketID rows rows' \<longleftrightarrow>
     (\<forall>row \<in> set rows. bk_id row = bucketID \<longrightarrow> bk_algorithm row = TokenBucketAlgorithm) \<and>
     (rows' = rows \<or>
      (\<exists>xs row row' ys. rows = xs @ row # ys \<and> rows' = xs @ row' # ys \<and> bk_id row = bucketID \<and>
         bucketKey row' = bucketKey row \<and> bk_usedUnits row' = bk_usedUnits row \<and> bk_reservedUnits row' = bk_reservedUnits row))"

definition entry_moved :: "string \<Rightarrow> int \<Rightarrow> int \<Rightarrow> entryRow list \<Rightarrow> entryRow list \<Rightarrow> bool" where
  "entry_moved entryID charged released rows rows' \<longleftrightarrow>
     (\<exists>xs row ys. rows = xs @ row # ys \<and> rows' = xs @ entryMove charged released row # ys \<and> qe_id row = entryID \<and>
        charged + released \<le> outstanding row)"

lemma entry_movedI:
  assumes "updateOne P (entryMove charged released) rows = Inr rows'"
    "\<And>row. row \<in> set rows \<Longrightarrow> P row \<Longrightarrow> qe_id row = entryID \<and> charged + released \<le> outstanding row"
  shows "entry_moved entryID charged released rows rows'"
proof -
  obtain xs row ys where s: "rows = xs @ row # ys" "rows' = xs @ entryMove charged released row # ys" "P row"
    by (rule updateOne_split [OF assms(1)])
  then show ?thesis using assms(2) [of row] unfolding entry_moved_def by (intro exI [of _ xs] exI [of _ row] exI [of _ ys]) simp
qed

lemma bucket_movedI:
  assumes "updateOne P (bucketMove charged taken) rows = Inr rows'"
    "\<And>row. row \<in> set rows \<Longrightarrow> P row \<Longrightarrow>
       bk_id row = bucketID \<and> bk_algorithm row \<noteq> TokenBucketAlgorithm \<and> taken \<le> bk_reservedUnits row"
  shows "bucket_moved bucketID charged taken rows rows'"
proof -
  obtain xs row ys where s: "rows = xs @ row # ys" "rows' = xs @ bucketMove charged taken row # ys" "P row"
    by (rule updateOne_split [OF assms(1)])
  then show ?thesis using assms(2) [of row] unfolding bucket_moved_def by (intro exI [of _ xs] exI [of _ row] exI [of _ ys]) simp
qed

lemma bucket_keptI:
  assumes "updateOne (tokenGuard bucket stored) (tokenChange state) rows = Inr rows'" "lb_id bucket = bucketID"
    "\<forall>row \<in> set rows. bk_id row = bucketID \<longrightarrow> bk_algorithm row = TokenBucketAlgorithm"
  shows "bucket_kept bucketID rows rows'"
proof -
  obtain xs row ys where s: "rows = xs @ row # ys" "rows' = xs @ tokenChange state row # ys" "tokenGuard bucket stored row"
    by (rule updateOne_split [OF assms(1)])
  have "bk_id row = bucketID \<and> bucketKey (tokenChange state row) = bucketKey row \<and>
    bk_usedUnits (tokenChange state row) = bk_usedUnits row \<and> bk_reservedUnits (tokenChange state row) = bk_reservedUnits row"
    using s(3) assms(2) by (simp add: tokenGuard_def tokenChange_def bucketKey_def bucketTenant_def)
  then show ?thesis using assms(3) s(1,2) unfolding bucket_kept_def by blast
qed

text \<open>A locked entry fits the tables when its identity is the one of the rows.\<close>

definition entry_fits :: "quotaDB \<Rightarrow> lockedEntry \<Rightarrow> bool" where
  "entry_fits db entry \<longleftrightarrow>
     (\<forall>row \<in> set (db_entries db). qe_id row = le_id entry \<longrightarrow> qe_bucketID row = le_bucketID entry) \<and>
     (\<forall>row \<in> set (db_buckets db). bk_id row = le_bucketID entry \<longrightarrow>
        bk_algorithm row = le_algorithm entry \<and> bk_metric row = le_metric entry)"

lemma entry_fits_keys:
  assumes "entry_fits db entry" "map bucketKey (db_buckets db') = map bucketKey (db_buckets db)"
    "map entryKey (db_entries db') = map entryKey (db_entries db)"
  shows "entry_fits db' entry"
  unfolding entry_fits_def
proof (intro conjI ballI impI)
  fix row assume row: "row \<in> set (db_entries db')" "qe_id row = le_id entry"
  obtain row0 where "row0 \<in> set (db_entries db)" "entryKey row0 = entryKey row" by (rule entryKey_row [OF assms(3) row(1)])
  then show "qe_bucketID row = le_bucketID entry" using assms(1) row(2) by (auto simp: entry_fits_def entryKey_def)
next
  fix row assume row: "row \<in> set (db_buckets db')" "bk_id row = le_bucketID entry"
  obtain row0 where "row0 \<in> set (db_buckets db)" "bucketKey row0 = bucketKey row"
    by (rule bucketKey_row [OF assms(2) [symmetric] row(1)])
  then show "bk_algorithm row = le_algorithm entry" "bk_metric row = le_metric entry"
    using assms(1) row(2) by (auto simp: entry_fits_def bucketKey_def)
qed

definition moved :: "lockedEntry \<Rightarrow> int \<Rightarrow> int \<Rightarrow> quotaDB \<Rightarrow> quotaDB \<Rightarrow> bool" where
  "moved entry charged released db db' \<longleftrightarrow>
     0 \<le> charged \<and> 0 \<le> released \<and> entry_fits db entry \<and>
     entry_moved (le_id entry) charged released (db_entries db) (db_entries db') \<and>
     (if le_algorithm entry = TokenBucketAlgorithm
      then bucket_kept (le_bucketID entry) (db_buckets db) (db_buckets db')
      else bucket_moved (le_bucketID entry) charged (charged + released) (db_buckets db) (db_buckets db')) \<and>
     db_leases db' = db_leases db \<and> db_reservations db' = db_reservations db"

lemma moved_keys:
  assumes "moved entry charged released db db'"
  shows "map bucketKey (db_buckets db') = map bucketKey (db_buckets db)"
    "map entryKey (db_entries db') = map entryKey (db_entries db)"
  using assms
  by (auto simp: moved_def entry_moved_def bucket_kept_def bucket_moved_def entryKey_def entryMove_def entryTenant_def
      bucketKey_def bucketMove_def bucketTenant_def split: if_splits)

lemma entryTotal_split:
  "entryTotal units bucketID (xs @ row # ys) =
     entryTotal units bucketID xs + (if qe_bucketID row = bucketID then units row else 0) + entryTotal units bucketID ys"
  by simp

lemma entry_moved_total:
  assumes "entry_moved entryID charged released rows rows'" "\<forall>row \<in> set rows. qe_id row = entryID \<longrightarrow> qe_bucketID row = bucketID"
  shows "entryTotal qe_settledUnits b rows' = entryTotal qe_settledUnits b rows + (if b = bucketID then charged else 0)"
    "entryTotal outstanding b rows' = entryTotal outstanding b rows - (if b = bucketID then charged + released else 0)"
  using assms by (auto simp: entry_moved_def entryMove_def outstanding_def)

lemma moved_buckets:
  assumes "moved entry charged released db db'" "ledger_with extra db" "row' \<in> set (db_buckets db')"
  shows "bucket_ok (db_entries db') (\<lambda>_. 0) row' \<and>
    lease_count_ok (db_leases db') (\<lambda>b. extra b - (if b = le_bucketID entry then charged + released else 0)) row'"
proof -
  let ?b = "le_bucketID entry"
  note m = assms(1) [unfolded moved_def]
  have fits: "\<forall>row \<in> set (db_entries db). qe_id row = le_id entry \<longrightarrow> qe_bucketID row = ?b"
    using m by (simp add: entry_fits_def)
  have em: "entry_moved (le_id entry) charged released (db_entries db) (db_entries db')" using m by simp
  note totals = entry_moved_total [OF em fits]
  have leases: "db_leases db' = db_leases db" using m by simp
  have ok: "bucket_ok (db_entries db) (\<lambda>_. 0) row" "lease_count_ok (db_leases db) extra row" if "row \<in> set (db_buckets db)" for row
    using assms(2) that by (auto simp: ledger_with_def list_all_iff)
  have other: ?thesis if "row' \<in> set (db_buckets db)" "bk_id row' = ?b \<longrightarrow> bk_algorithm row' = TokenBucketAlgorithm"
    using ok [OF that(1)] that(2) by (auto simp: bucket_ok_def lease_count_ok_def totals leases)
  have distinct: "distinct (map bk_id (db_buckets db))" using assms(2) by (simp add: ledger_with_def)
  show ?thesis
  proof (cases "le_algorithm entry = TokenBucketAlgorithm")
    case True
    then have kept: "bucket_kept ?b (db_buckets db) (db_buckets db')" using m by simp
    show ?thesis
    proof (cases "row' \<in> set (db_buckets db)")
      case True
      then show ?thesis using other kept by (auto simp: bucket_kept_def)
    next
      case False
      then obtain row where row: "row \<in> set (db_buckets db)" "bk_id row = ?b" "bucketKey row' = bucketKey row"
        "bk_usedUnits row' = bk_usedUnits row" "bk_reservedUnits row' = bk_reservedUnits row"
        using kept assms(3) unfolding bucket_kept_def by fastforce
      then have "bk_algorithm row = TokenBucketAlgorithm" using kept by (auto simp: bucket_kept_def)
      then show ?thesis using ok [OF row(1)] row(3-) by (auto simp: bucketKey_def bucket_ok_def lease_count_ok_def)
    qed
  next
    case False
    then obtain xs row ys where s: "db_buckets db = xs @ row # ys" "db_buckets db' = xs @ bucketMove charged (charged + released) row # ys"
      "bk_id row = ?b" "bk_algorithm row \<noteq> TokenBucketAlgorithm" "charged + released \<le> bk_reservedUnits row"
      using m by (auto simp: bucket_moved_def)
    show ?thesis
    proof (cases "row' = bucketMove charged (charged + released) row")
      case True
      have "bucket_ok (db_entries db) (\<lambda>_. 0) row" "lease_count_ok (db_leases db) extra row" using ok [of row] s(1) by auto
      then show ?thesis
        using True s(3-5) m by (auto simp: bucket_ok_def lease_count_ok_def bucketMove_def totals leases)
    next
      case False
      then have mem: "row' \<in> set (db_buckets db)" "row' \<in> set xs \<union> set ys" using assms(3) s by auto
      then have "bk_id row' \<in> bk_id ` (set xs \<union> set ys)" by blast
      then have "bk_id row' \<noteq> ?b" using distinct s(1,3) by auto
      then show ?thesis using other mem by simp
    qed
  qed
qed

lemma entry_moved_rows:
  assumes "entry_moved entryID charged released rows rows'" "row' \<in> set rows'"
  obtains "row' \<in> set rows"
  | row where "row \<in> set rows" "qe_id row = entryID" "row' = entryMove charged released row" "charged + released \<le> outstanding row"
proof -
  obtain xs row ys where s: "rows = xs @ row # ys" "rows' = xs @ entryMove charged released row # ys" "qe_id row = entryID"
    "charged + released \<le> outstanding row"
    using assms(1) by (auto simp: entry_moved_def)
  then show thesis using that(1) that(2) [of row] assms(2) by auto
qed

theorem moved_ledger:
  assumes "moved entry charged released db db'" "ledger_with extra db"
  shows "ledger_with (\<lambda>b. extra b - (if b = le_bucketID entry then charged + released else 0)) db'"
proof -
  note m = assms(1) [unfolded moved_def] and ok = assms(2) [unfolded ledger_with_def]
  note keys = moved_keys [OF assms(1)]
  have em: "entry_moved (le_id entry) charged released (db_entries db) (db_entries db')" using m by simp
  have entries: "entry_ok e' \<and> entry_live (db_reservations db') e'" if mem: "e' \<in> set (db_entries db')" for e'
    using em mem
  proof (cases rule: entry_moved_rows)
    case 1
    then show ?thesis using ok m by (auto simp: list_all_iff)
  next
    case (2 row)
    then have "entry_ok row" "entry_live (db_reservations db) row" using ok by (auto simp: list_all_iff)
    then show ?thesis
      using 2(3,4) m by (auto simp: entry_ok_def entry_live_def entryMove_def outstanding_def entryTenant_def)
  qed
  have "map qe_id (db_entries db') = map qe_id (db_entries db)"
    using arg_cong [OF keys(2), of "map fst"] by (simp add: comp_def entryKey_def)
  moreover have "refers_to (db_buckets db') (db_entries db') (db_leases db')"
    using refers_to_keys [OF keys(1) refers_to_entryKeys [OF keys(2)]] ok m by simp
  ultimately show ?thesis
    using ok m bucketKey_ids [OF keys(1)] moved_buckets [OF assms] entries
    by (auto simp: ledger_with_def list_all_iff)
qed

section \<open>Drained entries\<close>

definition drained :: "string \<Rightarrow> quotaDB \<Rightarrow> bool" where
  "drained entryID db \<longleftrightarrow> (\<forall>row \<in> set (db_entries db). qe_id row = entryID \<longrightarrow> outstanding row = 0)"

lemma moved_drained:
  assumes "moved entry charged released db db'" "drained entryID db"
  shows "drained entryID db'"
proof -
  have em: "entry_moved (le_id entry) charged released (db_entries db) (db_entries db')" "0 \<le> charged" "0 \<le> released"
    using assms(1) by (simp_all add: moved_def)
  have "outstanding row' = 0" if mem: "row' \<in> set (db_entries db')" "qe_id row' = entryID" for row'
    using em(1) mem(1)
  proof (cases rule: entry_moved_rows)
    case 1
    then show ?thesis using assms(2) mem(2) by (simp add: drained_def)
  next
    case (2 row)
    then have "outstanding row = 0" using assms(2) mem(2) by (simp add: drained_def entryMove_def)
    then show ?thesis using 2(3,4) em(2,3) by (simp add: entryMove_def outstanding_def)
  qed
  then show ?thesis by (simp add: drained_def)
qed

lemma moved_drains:
  assumes "moved entry charged released db db'" "distinct (map qe_id (db_entries db))"
    "\<And>row. row \<in> set (db_entries db) \<Longrightarrow> qe_id row = le_id entry \<Longrightarrow> outstanding row = charged + released"
  shows "drained (le_id entry) db'"
proof -
  obtain xs row ys where s: "db_entries db = xs @ row # ys" "db_entries db' = xs @ entryMove charged released row # ys"
    "qe_id row = le_id entry"
    using assms(1) by (auto simp: moved_def entry_moved_def)
  have "qe_id row' \<noteq> le_id entry" if "row' \<in> set xs \<union> set ys" for row'
  proof -
    have "qe_id row' \<in> qe_id ` (set xs \<union> set ys)" using that by blast
    then show ?thesis using assms(2) s(1,3) by auto
  qed
  moreover have "outstanding (entryMove charged released row) = 0"
    using assms(3) [of row] s(1,3) by (simp add: entryMove_def outstanding_def)
  ultimately show ?thesis by (auto simp: drained_def s(2))
qed

section \<open>Closing leases\<close>

definition leasesOn :: "leaseRow list \<Rightarrow> string \<Rightarrow> int" where
  "leasesOn leases bucketID = int (length (filter (\<lambda>lease. cl_bucketID lease = bucketID) leases))"

lemma released_lease:
  assumes "updateOne (leaseGuard r lease) (leaseChange now) rows = Inr rows'"
  shows "map cl_bucketID rows' = map cl_bucketID rows \<and>
    int (openLeases b rows) = int (openLeases b rows') + (if cl_bucketID lease = b then 1 else 0)"
  using assms by (elim updateOne_split) (auto simp: leaseGuard_def leaseChange_def openLeases_def)

lemma releasedLeases_ledger:
  "releaseLockedConcurrencyLeases r now leases rows = Inr rows' \<Longrightarrow> ledger_with extra (db\<lparr>db_leases := rows\<rparr>) \<Longrightarrow>
     ledger_with (\<lambda>b. extra b + leasesOn leases b) (db\<lparr>db_leases := rows'\<rparr>)"
proof (induction leases arbitrary: rows extra)
  case Nil
  then show ?case by (simp add: leasesOn_def)
next
  case (Cons lease leases)
  obtain mid where mid: "updateOne (leaseGuard r lease) (leaseChange now) rows = Inr mid"
    "releaseLockedConcurrencyLeases r now leases mid = Inr rows'"
    using Cons.prems(1) by (auto simp: go_result)
  note one = released_lease [OF mid(1)]
  have "refers_to (db_buckets db) (db_entries db) mid"
    using Cons.prems(2) one [THEN conjunct1] by (simp add: ledger_with_def refers_to_def flip: set_map)
  then have "ledger_with (\<lambda>b. extra b + (if cl_bucketID lease = b then 1 else 0)) (db\<lparr>db_leases := mid\<rparr>)"
    using Cons.prems(2) one [THEN conjunct2] by (auto simp: ledger_with_def list_all_iff lease_count_ok_def)
  from Cons.IH [OF mid(2) this] show ?case
    by (rule ledger_with_cong [rotated]) (simp add: leasesOn_def)
qed

section \<open>Locked entries\<close>

definition lockedCore :: "lockedEntry \<Rightarrow> lockedEntry" where
  "lockedCore entry = entry\<lparr>le_costRetryTreatment := []\<rparr>"

lemma lockedCore_update [simp]: "lockedCore (entry\<lparr>le_costRetryTreatment := treatment\<rparr>) = lockedCore entry"
  by (simp add: lockedCore_def)

lemma lockedCore_eqD:
  assumes "lockedCore entry = lockedCore entry'"
  shows "le_id entry = le_id entry'" "le_bucketID entry = le_bucketID entry'" "le_algorithm entry = le_algorithm entry'"
    "le_metric entry = le_metric entry'" "le_reservedUnits entry = le_reservedUnits entry'"
    "le_settledUnits entry = le_settledUnits entry'" "le_releasedUnits entry = le_releasedUnits entry'"
    "le_bucketUsed entry = le_bucketUsed entry'" "le_bucketReserved entry = le_bucketReserved entry'"
    "le_hardMaximum entry = le_hardMaximum entry'"
  using assms by (cases entry; cases entry'; simp add: lockedCore_def)+

definition locked_wf :: "lockedEntry \<Rightarrow> bool" where
  "locked_wf entry \<longleftrightarrow>
     validReservationEntryUnits (le_metric entry) (le_algorithm entry) (le_initialReservedUnits entry) \<and>
     (isConcurrencyMetric (le_metric entry) \<longrightarrow> le_reservedUnits entry = le_initialReservedUnits entry)"

lemma locked_wf_treatment [simp]:
  "locked_wf (entry\<lparr>le_costRetryTreatment := treatment\<rparr>) = locked_wf entry"
  by (simp add: locked_wf_def)

lemma scanLockedEntries_Inr:
  "scanLockedEntries previous rows = Inr entries \<Longrightarrow>
     map lockedCore entries = map (\<lambda>row. lockedCore (lockedEntryOf row)) rows \<and>
     sorted_wrt (<) ((case previous of None \<Rightarrow> [] | Some bucketID \<Rightarrow> [bucketID]) @ map le_bucketID entries) \<and>
     list_all locked_wf entries"
proof (induction previous rows arbitrary: entries rule: scanLockedEntries.induct)
  case (1 previous)
  then show ?case by (cases previous) simp_all
next
  case (2 previous row rows)
  let ?e = "lockedEntryOf row"
  obtain rest where ok: "lockedEntryOk previous ?e" and r: "scanLockedEntries (Some (le_bucketID ?e)) rows = Inr rest"
    and e: "entries = ?e\<lparr>le_costRetryTreatment :=
      fst (canonicalStoredCostRetryTreatment (le_metric ?e) (le_costRetryTreatment ?e))\<rparr> # rest"
    using "2.prems" by (auto simp: Let_def go_result split: if_splits)
  have ih: "map lockedCore rest = map (\<lambda>row. lockedCore (lockedEntryOf row)) rows"
    "sorted_wrt (<) (le_bucketID ?e # map le_bucketID rest)"
    "list_all locked_wf rest"
    using "2.IH" [OF refl _ r] ok by simp_all
  have "locked_wf ?e"
    "case previous of None \<Rightarrow> True | Some bucketID \<Rightarrow> bucketID < le_bucketID ?e"
    using ok by (simp_all add: lockedEntryOk_def locked_wf_def Let_def)
  moreover from this(2) have "sorted_wrt (<) ((case previous of None \<Rightarrow> [] | Some bucketID \<Rightarrow> [bucketID]) @ le_bucketID ?e # map le_bucketID rest)"
    using ih(2) by (auto split: option.splits intro: less_trans)
  ultimately show ?case using ih by (simp add: e)
qed

lemma entryJoin_set:
  "(entry, bucket) \<in> set (entryJoin r db) \<longleftrightarrow>
     entry \<in> set (db_entries db) \<and> bucket \<in> set (db_buckets db) \<and>
     sameTenant r (qe_organizationID entry) (qe_applicationID entry) (qe_environmentID entry) \<and>
     qe_reservationID entry = rv_reservationID r \<and> bucketTenant bucket = entryTenant entry \<and> bk_id bucket = qe_bucketID entry"
  by (auto simp: entryJoin_def bucketTenant_def entryTenant_def)

lemma lockEntries_Inr:
  assumes "lockEntries r db = Inr entries"
  shows "map lockedCore entries = map (\<lambda>row. lockedCore (lockedEntryOf row)) (entryJoin r db)"
    "distinct (map le_bucketID entries)"
    "list_all locked_wf entries"
proof -
  have "scanLockedEntries None (entryJoin r db) = Inr entries"
    using assms by (auto simp: lockEntries_def scanLockedReservationEntries_def go_result split: if_splits)
  from scanLockedEntries_Inr [OF this]
  have s: "map lockedCore entries = map (\<lambda>row. lockedCore (lockedEntryOf row)) (entryJoin r db)"
    "sorted_wrt (<) (map le_bucketID entries)"
    "list_all locked_wf entries"
    by simp_all
  show "map lockedCore entries = map (\<lambda>row. lockedCore (lockedEntryOf row)) (entryJoin r db)" by (rule s(1))
  show "distinct (map le_bucketID entries)" using s(2) by (simp add: strict_sorted_iff)
  show "list_all locked_wf entries" by (rule s(3))
qed

lemma lockEntries_row:
  assumes "lockEntries r db = Inr entries" "entry \<in> set entries"
  obtains row bucket where "(row, bucket) \<in> set (entryJoin r db)" "lockedCore entry = lockedCore (lockedEntryOf (row, bucket))"
proof -
  have "lockedCore entry \<in> set (map lockedCore entries)" using assms(2) by simp
  then have "lockedCore entry \<in> set (map (\<lambda>row. lockedCore (lockedEntryOf row)) (entryJoin r db))"
    by (simp only: lockEntries_Inr(1) [OF assms(1)])
  then show thesis using that by auto
qed

lemma lockEntries_covers:
  assumes "lockEntries r db = Inr entries" "(row, bucket) \<in> set (entryJoin r db)"
  obtains entry where "entry \<in> set entries" "le_id entry = qe_id row" "le_bucketID entry = qe_bucketID row" "le_metric entry = bk_metric bucket"
proof -
  have "lockedCore (lockedEntryOf (row, bucket)) \<in> set (map (\<lambda>row. lockedCore (lockedEntryOf row)) (entryJoin r db))"
    using assms(2) by (auto intro: rev_image_eqI)
  then obtain entry where e: "entry \<in> set entries" "lockedCore entry = lockedCore (lockedEntryOf (row, bucket))"
    by (auto simp flip: lockEntries_Inr(1) [OF assms(1)])
  note s = lockedCore_eqD [OF e(2), unfolded lockedEntryOf_def Let_def, simplified]
  show thesis by (rule that [OF e(1) s(1,2,4)])
qed

text \<open>What a locked entry says of the rows.\<close>

lemma lockEntries_snapshot:
  assumes "lockEntries r db = Inr entries" "entry \<in> set entries"
  obtains row bucket where "row \<in> set (db_entries db)" "bucket \<in> set (db_buckets db)"
    "le_id entry = qe_id row" "le_bucketID entry = qe_bucketID row" "bk_id bucket = qe_bucketID row"
    "le_algorithm entry = bk_algorithm bucket" "le_metric entry = bk_metric bucket"
    "le_reservedUnits entry = qe_reservedUnits row" "le_settledUnits entry = qe_settledUnits row"
    "le_releasedUnits entry = qe_releasedUnits row" "le_bucketUsed entry = bk_usedUnits bucket"
    "le_bucketReserved entry = bk_reservedUnits bucket" "le_hardMaximum entry = bk_hardMaximum bucket"
    "qe_reservationID row = rv_reservationID r"
proof -
  obtain row bucket where m: "(row, bucket) \<in> set (entryJoin r db)"
    "lockedCore entry = lockedCore (lockedEntryOf (row, bucket))"
    by (rule lockEntries_row [OF assms])
  note s = lockedCore_eqD [OF m(2), unfolded lockedEntryOf_def Let_def, simplified]
  show thesis by (rule that [of row bucket]) (use m(1) s in \<open>simp_all add: entryJoin_set\<close>)
qed

lemma lockEntries_fits:
  assumes "lockEntries r db = Inr entries" "ledger_with extra db" "entry \<in> set entries"
  shows "entry_fits db entry"
proof -
  obtain row bucket where m: "row \<in> set (db_entries db)" "bucket \<in> set (db_buckets db)"
    "le_id entry = qe_id row" "le_bucketID entry = qe_bucketID row" "bk_id bucket = qe_bucketID row"
    "le_algorithm entry = bk_algorithm bucket" "le_metric entry = bk_metric bucket"
    by (rule lockEntries_snapshot [OF assms(1,3)])
  have d: "distinct (map qe_id (db_entries db))" "distinct (map bk_id (db_buckets db))"
    using assms(2) by (simp_all add: ledger_with_def)
  have e: "e = row" if "e \<in> set (db_entries db)" "qe_id e = qe_id row" for e
    using that d(1) m(1) by (auto simp: distinct_map inj_on_def)
  have b: "b = bucket" if "b \<in> set (db_buckets db)" "bk_id b = bk_id bucket" for b
    using that d(2) m(2) by (auto simp: distinct_map inj_on_def)
  show ?thesis unfolding entry_fits_def
  proof (intro conjI ballI impI)
    show "qe_bucketID x = le_bucketID entry" if "x \<in> set (db_entries db)" "qe_id x = le_id entry" for x
      using e [of x] that m(3,4) by simp
    show "bk_algorithm x = le_algorithm entry" "bk_metric x = le_metric entry"
      if "x \<in> set (db_buckets db)" "bk_id x = le_bucketID entry" for x
      using b [of x] that m(4-7) by simp_all
  qed
qed

lemma lockEntries_current:
  assumes "lockEntries r db = Inr entries" "ledger_with extra db" "entry \<in> set entries" "row \<in> set (db_entries db)"
    "qe_id row = le_id entry"
  shows "le_bucketID entry = qe_bucketID row" "le_reservedUnits entry = qe_reservedUnits row"
    "le_settledUnits entry = qe_settledUnits row" "le_releasedUnits entry = qe_releasedUnits row"
proof -
  obtain row' where m: "row' \<in> set (db_entries db)" "le_id entry = qe_id row'" "le_bucketID entry = qe_bucketID row'"
    "le_reservedUnits entry = qe_reservedUnits row'" "le_settledUnits entry = qe_settledUnits row'"
    "le_releasedUnits entry = qe_releasedUnits row'"
    by (rule lockEntries_snapshot [OF assms(1,3)]) blast
  have "distinct (map qe_id (db_entries db))" using assms(2) by (simp add: ledger_with_def)
  then have "row' = row" using distinct_key m(1,2) assms(4,5) by metis
  then show "le_bucketID entry = qe_bucketID row" "le_reservedUnits entry = qe_reservedUnits row"
    "le_settledUnits entry = qe_settledUnits row" "le_releasedUnits entry = qe_releasedUnits row" using m by simp_all
qed

lemma lockEntries_distinct:
  assumes "lockEntries r db = Inr entries" "ledger_with extra db"
  shows "distinct (map le_id entries)"
proof -
  have "le_bucketID x = le_bucketID y" if mem: "x \<in> set entries" "y \<in> set entries" "le_id x = le_id y" for x y
  proof -
    obtain row where "row \<in> set (db_entries db)" "le_id x = qe_id row" "le_bucketID x = qe_bucketID row"
      by (rule lockEntries_snapshot [OF assms(1) mem(1)])
    then show ?thesis using lockEntries_current(1) [OF assms mem(2), of row] mem(3) by simp
  qed
  note same = this
  have d: "distinct entries" "inj_on le_bucketID (set entries)"
    using lockEntries_Inr(2) [OF assms(1)] by (simp_all add: distinct_map)
  have "inj_on le_id (set entries)"
    by (rule inj_onI) (rule inj_onD [OF d(2) same])
  then show ?thesis using d(1) by (simp add: distinct_map)
qed

lemma leaseBuckets_subset:
  assumes "lockEntries r db = Inr entries" "lockEntries r db' = Inr entries'"
    "map entryKey (db_entries db') = map entryKey (db_entries db)" "map bucketKey (db_buckets db') = map bucketKey (db_buckets db)"
  shows "set (leaseBuckets entries) \<subseteq> set (leaseBuckets entries')"
proof
  fix b assume "b \<in> set (leaseBuckets entries)"
  then obtain entry where e: "entry \<in> set entries" "isConcurrencyMetric (le_metric entry)" "b = le_bucketID entry"
    by (auto simp: leaseBuckets_def)
  obtain row bucket where rb: "(row, bucket) \<in> set (entryJoin r db)" "lockedCore entry = lockedCore (lockedEntryOf (row, bucket))"
    by (rule lockEntries_row [OF assms(1) e(1)])
  note s = lockedCore_eqD [OF rb(2), unfolded lockedEntryOf_def Let_def, simplified]
  obtain row' where row': "row' \<in> set (db_entries db')" "entryKey row' = entryKey row"
    using entryKey_row [OF assms(3) [symmetric]] rb(1) by (auto simp: entryJoin_set)
  obtain bucket' where bucket': "bucket' \<in> set (db_buckets db')" "bucketKey bucket' = bucketKey bucket"
    using bucketKey_row [OF assms(4)] rb(1) by (auto simp: entryJoin_set)
  have "(row', bucket') \<in> set (entryJoin r db')"
    using rb(1) row' bucket' by (auto simp: entryJoin_set entryKey_def bucketKey_def entryTenant_def)
  then obtain entry' where "entry' \<in> set entries'" "le_bucketID entry' = qe_bucketID row'" "le_metric entry' = bk_metric bucket'"
    by (rule lockEntries_covers [OF assms(2)])
  then show "b \<in> set (leaseBuckets entries')"
    using s e(2,3) row'(2) bucket'(2)
    by (auto simp: leaseBuckets_def entryKey_def bucketKey_def intro!: rev_image_eqI [of entry'])
qed

end
