(* ===== verification/Quota_Return.thy ===== *)
theory Quota_Return
  imports Quota_Moves
begin

text \<open>
  A release before dispatch keeps the ledger: it drains every entry of the reservation, gives the units back to
  the buckets, closes the concurrency leases and closes the reservation.
\<close>

section \<open>Leases of a reservation\<close>

lemma leasesCover_buckets:
  "leasesCover r expected leases \<Longrightarrow> set (map cl_bucketID leases) = set expected \<and> distinct (map cl_bucketID leases)"
proof (induction r expected leases rule: leasesCover.induct)
  case (2 r expected lease leases)
  then have ih: "set (map cl_bucketID leases) = set expected - {cl_bucketID lease}" "distinct (map cl_bucketID leases)"
    and mem: "cl_bucketID lease \<in> set expected" by auto
  then show ?case by auto
qed simp

lemma leasesOn_distinct:
  "distinct (map cl_bucketID leases) \<Longrightarrow> leasesOn leases b = (if b \<in> set (map cl_bucketID leases) then 1 else 0)"
proof (induction leases)
  case (Cons lease leases)
  then show ?case by (auto simp: leasesOn_def split: if_splits)
qed (simp add: leasesOn_def)

lemma pendingLeases_count:
  assumes "pendingConcurrencyLeasesMatch r entries leases"
  shows "leasesOn leases b = (if b \<in> set (leaseBuckets entries) then 1 else 0)"
  using leasesCover_buckets [of r "leaseBuckets entries" leases] leasesOn_distinct [of leases b] assms
  by (simp add: pendingConcurrencyLeasesMatch_def)

text \<open>The units that a list of moves takes out of a bucket.\<close>

definition takenFrom :: "(lockedEntry \<Rightarrow> int) \<Rightarrow> lockedEntry list \<Rightarrow> string \<Rightarrow> int" where
  "takenFrom units entries bucketID = (\<Sum>entry \<leftarrow> filter (\<lambda>entry. le_bucketID entry = bucketID) entries. units entry)"

lemma takenFrom_simps [simp]:
  "takenFrom units [] b = 0"
  "takenFrom units (entry # entries) b = (if b = le_bucketID entry then units entry else 0) + takenFrom units entries b"
  by (simp_all add: takenFrom_def)

lemma takenFrom_absent: "b \<notin> set (map le_bucketID entries) \<Longrightarrow> takenFrom units entries b = 0"
  by (induction entries) auto

lemma takenFrom_distinct:
  "distinct (map le_bucketID entries) \<Longrightarrow> entry \<in> set entries \<Longrightarrow> takenFrom units entries (le_bucketID entry) = units entry"
proof (induction entries)
  case (Cons first entries)
  then have "entry \<in> set entries \<Longrightarrow> le_bucketID entry \<noteq> le_bucketID first"
    by (metis distinct.simps(2) image_eqI list.set_map list.simps(9))
  then show ?case using Cons takenFrom_absent [of "le_bucketID first" entries] by auto
qed simp

text \<open>One lease is closed for every unit that a concurrency bucket gives back.\<close>

lemma leases_balance:
  assumes "ledger_with extra db" "lockEntries r db = Inr entries" "pendingConcurrencyLeasesMatch r entries0 leases"
    "set (leaseBuckets entries0) = set (leaseBuckets entries)"
    "\<And>entry. entry \<in> set entries \<Longrightarrow> isConcurrencyMetric (le_metric entry) \<Longrightarrow> units entry = 1"
    "row \<in> set (db_buckets db)" "isConcurrencyMetric (bk_metric row)"
  shows "leasesOn leases (bk_id row) = takenFrom units entries (bk_id row)"
proof (cases "bk_id row \<in> set (map le_bucketID entries)")
  case True
  then obtain entry where entry: "entry \<in> set entries" "le_bucketID entry = bk_id row" by auto
  then have conc: "isConcurrencyMetric (le_metric entry)"
    using lockEntries_fits [OF assms(2,1) entry(1)] assms(6,7) by (auto simp: entry_fits_def)
  then have "bk_id row \<in> set (leaseBuckets entries)" using entry by (auto simp: leaseBuckets_def intro!: rev_image_eqI [of entry])
  then show ?thesis
    using pendingLeases_count [OF assms(3)] takenFrom_distinct [OF lockEntries_Inr(2) [OF assms(2)] entry(1), of units]
      assms(4) assms(5) [OF entry(1) conc] entry(2) by simp
next
  case False
  then have "bk_id row \<notin> set (leaseBuckets entries)" by (auto simp: leaseBuckets_def)
  then show ?thesis using pendingLeases_count [OF assms(3)] takenFrom_absent [OF False] assms(4) by simp
qed

section \<open>Closing the reservation\<close>

lemma closeReservation_ledger:
  assumes "closeReservation reservationID change (db_reservations db) = Inr rows" "ledger_with extra db"
    "\<And>row. qr_id (change row) = qr_id row \<and> reservationTenant (change row) = reservationTenant row"
    "\<And>entry. entry \<in> set (db_entries db) \<Longrightarrow> qe_reservationID entry = reservationID \<Longrightarrow> outstanding entry = 0"
  shows "ledger_with extra (db\<lparr>db_reservations := rows\<rparr>)"
proof -
  obtain xs row ys where s: "db_reservations db = xs @ row # ys" "rows = xs @ change row # ys" "qr_id row = reservationID"
    using assms(1) unfolding closeReservation_def by (elim updateOne_split) blast
  have "entry_live rows entry" if mem: "entry \<in> set (db_entries db)" for entry
  proof -
    have live: "entry_live (db_reservations db) entry" using assms(2) mem by (simp add: ledger_with_def list_all_iff)
    show ?thesis
    proof (cases "qe_reservationID entry = reservationID")
      case True
      then have "outstanding entry = 0" using assms(4) mem by simp
      then show ?thesis using live assms(3) [of row] s by (auto simp: entry_live_def)
    next
      case False
      then show ?thesis using live s by (auto simp: entry_live_def)
    qed
  qed
  moreover have "map qr_id rows = map qr_id (db_reservations db)" using assms(3) [of row] s by simp
  ultimately show ?thesis using assms(2) by (simp add: ledger_with_def list_all_iff)
qed

text \<open>Every entry of a reservation is among the locked ones.\<close>

lemma lockEntries_all:
  assumes "lockEntries r db = Inr entries" "ledger_with extra db"
    "reservation \<in> set (db_reservations db)" "qr_id reservation = rv_reservationID r"
    "reservationTenant reservation = (rv_organizationID r, rv_applicationID r, rv_environmentID r)"
    "row \<in> set (db_entries db)" "qe_reservationID row = rv_reservationID r"
  shows "qe_id row \<in> set (map le_id entries)"
proof -
  obtain res where res: "res \<in> set (db_reservations db)" "qr_id res = rv_reservationID r" "reservationTenant res = entryTenant row"
    using assms(2,6,7) unfolding ledger_with_def list_all_iff entry_live_def by metis
  have "res = reservation" using res assms(2-4) by (auto simp: ledger_with_def distinct_map inj_on_def)
  then have tenant: "entryTenant row = (rv_organizationID r, rv_applicationID r, rv_environmentID r)"
    using res(3) assms(5) by simp
  obtain bucket where "bucket \<in> set (db_buckets db)" "bk_id bucket = qe_bucketID row" "bucketTenant bucket = entryTenant row"
    using assms(2,6) by (auto simp: ledger_with_def refers_to_def)
  then have "(row, bucket) \<in> set (entryJoin r db)"
    using assms(6,7) tenant by (simp add: entryJoin_set sameTenant_def entryTenant_def)
  then show ?thesis by (rule lockEntries_covers [OF assms(1)]) (auto intro: rev_image_eqI)
qed

section \<open>Releasing the entries\<close>

lemma persistTokenBucketEntry_kept:
  assumes "persistTokenBucketEntry entry state now rows = Inr rows'"
    "\<forall>row \<in> set rows. bk_id row = le_bucketID entry \<longrightarrow> bk_algorithm row = TokenBucketAlgorithm"
  shows "bucket_kept (le_bucketID entry) rows rows'"
proof -
  obtain stored where "updateOne (tokenGuard (lockedBucketOfEntry entry) stored) (tokenChange state) rows = Inr rows'"
    using assms(1) by (auto simp: persistTokenBucketEntry_def persistTokenBucket_def split: sum.splits if_splits)
  then show ?thesis by (rule bucket_keptI [OF _ _ assms(2)]) (simp add: lockedBucketOfEntry_def)
qed

lemma releaseBucket_moved:
  assumes "releaseBucket now entry (db_buckets db) = Inr buckets"
    "updateOne (releaseEntryGuard entry) (entryMove 0 (le_reservedUnits entry)) (db_entries db) = Inr rows"
    "entry_fits db entry" "0 \<le> le_reservedUnits entry"
  shows "moved entry 0 (le_reservedUnits entry) db (db\<lparr>db_buckets := buckets, db_entries := rows\<rparr>)"
proof -
  have em: "entry_moved (le_id entry) 0 (le_reservedUnits entry) (db_entries db) rows"
    by (rule entry_movedI [OF assms(2)]) (simp add: releaseEntryGuard_def outstanding_def)
  show ?thesis
  proof (cases "le_algorithm entry = TokenBucketAlgorithm")
    case True
    then obtain state where "persistTokenBucketEntry entry state now (db_buckets db) = Inr buckets"
      using assms(1) by (auto simp: releaseBucket_def go_result)
    then have "bucket_kept (le_bucketID entry) (db_buckets db) buckets"
      by (rule persistTokenBucketEntry_kept) (use assms(3) True in \<open>auto simp: entry_fits_def\<close>)
    then show ?thesis using True em assms(3,4) by (simp add: moved_def)
  next
    case False
    then have u: "updateOne (releaseBucketGuard entry) (bucketMove 0 (le_reservedUnits entry)) (db_buckets db) = Inr buckets"
      using assms(1) by (simp add: releaseBucket_def)
    have "bucket_moved (le_bucketID entry) 0 (le_reservedUnits entry) (db_buckets db) buckets"
      by (rule bucket_movedI [OF u]) (use assms(3) False in \<open>auto simp: releaseBucketGuard_def Let_def entry_fits_def\<close>)
    then show ?thesis using False em assms(3,4) by (simp add: moved_def)
  qed
qed

lemma releaseEntries_ledger:
  assumes "releaseEntries now entries (db_buckets db, db_entries db) = Inr (buckets, rows)" "ledger_with extra db"
    "list_all (entry_fits db) entries" "list_all (\<lambda>entry. 0 \<le> le_reservedUnits entry) entries"
  shows "ledger_with (\<lambda>b. extra b - takenFrom le_reservedUnits entries b) (db\<lparr>db_buckets := buckets, db_entries := rows\<rparr>) \<and>
    map entryKey rows = map entryKey (db_entries db) \<and> map bucketKey buckets = map bucketKey (db_buckets db) \<and>
    (\<forall>entryID. drained entryID db \<or> entryID \<in> set (map le_id entries) \<longrightarrow>
       drained entryID (db\<lparr>db_buckets := buckets, db_entries := rows\<rparr>))"
  using assms
proof (induction entries arbitrary: db extra)
  case Nil
  then have "buckets = db_buckets db" "rows = db_entries db" by simp_all
  then show ?case using Nil by simp
next
  case (Cons entry entries)
  obtain b e where step: "releaseBucket now entry (db_buckets db) = Inr b"
    "updateOne (releaseEntryGuard entry) (entryMove 0 (le_reservedUnits entry)) (db_entries db) = Inr e"
    and rest: "releaseEntries now entries (b, e) = Inr (buckets, rows)"
    using Cons.prems(1) by (auto simp: go_result)
  let ?mid = "db\<lparr>db_buckets := b, db_entries := e\<rparr>"
  have m: "moved entry 0 (le_reservedUnits entry) db ?mid"
    using releaseBucket_moved [OF step] Cons.prems(3,4) by simp
  note keys = moved_keys [OF m]
  have led: "ledger_with (\<lambda>b. extra b - (if b = le_bucketID entry then 0 + le_reservedUnits entry else 0)) ?mid"
    by (rule moved_ledger [OF m Cons.prems(2)])
  have "list_all (entry_fits ?mid) entries"
    using Cons.prems(3) entry_fits_keys [OF _ keys] by (simp add: list_all_iff)
  from Cons.IH [of ?mid, OF _ led this] rest Cons.prems(4)
  have ih: "ledger_with (\<lambda>b. extra b - (if b = le_bucketID entry then 0 + le_reservedUnits entry else 0) - takenFrom le_reservedUnits entries b)
      (db\<lparr>db_buckets := buckets, db_entries := rows\<rparr>)"
    "map entryKey rows = map entryKey e" "map bucketKey buckets = map bucketKey b"
    "\<forall>entryID. drained entryID ?mid \<or> entryID \<in> set (map le_id entries) \<longrightarrow>
       drained entryID (db\<lparr>db_buckets := buckets, db_entries := rows\<rparr>)"
    by auto
  have "ledger_with (\<lambda>b. extra b - takenFrom le_reservedUnits (entry # entries) b) (db\<lparr>db_buckets := buckets, db_entries := rows\<rparr>)"
    by (rule ledger_with_cong [OF _ ih(1)]) simp
  moreover have "drained (le_id entry) ?mid"
  proof (rule moved_drains [OF m])
    show d: "distinct (map qe_id (db_entries db))" using Cons.prems(2) by (simp add: ledger_with_def)
    obtain xs row ys where s: "db_entries db = xs @ row # ys" "releaseEntryGuard entry row"
      by (rule updateOne_split [OF step(2)])
    show "outstanding x = 0 + le_reservedUnits entry" if "x \<in> set (db_entries db)" "qe_id x = le_id entry" for x
    proof -
      have "row \<in> set (db_entries db)" "qe_id row = le_id entry" using s by (simp_all add: releaseEntryGuard_def)
      then have "x = row" using distinct_key [OF d that(1)] that(2) by simp
      then show ?thesis using s(2) by (simp add: releaseEntryGuard_def outstanding_def)
    qed
  qed
  ultimately show ?case
    using ih(2-4) keys moved_drained [OF m] by auto
qed

section \<open>The release transaction\<close>

lemma lockReservation_Inr:
  assumes "lockReservation expected db = Inr r"
  obtains row where "row \<in> set (db_reservations db)" "qr_id row = rv_reservationID r" "qr_status row = lv_status r"
    "reservationTenant row = (rv_organizationID r, rv_applicationID r, rv_environmentID r)"
    "qr_logicalRequestID row = rv_logicalRequestID r" "rv_reservationID r = rv_reservationID expected"
    "rv_logicalRequestID r = rv_logicalRequestID expected"
proof -
  obtain row logical where f: "find (reservationKeyMatches expected) (db_reservations db) = Some row"
    "find (logicalKeyMatches expected) (db_logical db) = Some logical"
    using assms by (simp add: lockReservation_def split: option.splits)
  have r: "r = reservation.extend (expected\<lparr>rv_expiresAt := GoTime 0 0\<rparr>)
      (lockedReservation.fields (qr_status row) (qr_expiresAt row) (lr_applicationUserID logical)
        (lr_installationID logical) (lr_featureKey logical))"
    using assms by (simp add: lockReservation_def f split: if_splits)
  have row: "row \<in> set (db_reservations db)" "reservationKeyMatches expected row"
    using f(1) by (auto simp: find_Some_iff)
  have sel: "rv_reservationID r = rv_reservationID expected" "rv_logicalRequestID r = rv_logicalRequestID expected"
    "rv_organizationID r = rv_organizationID expected" "rv_applicationID r = rv_applicationID expected"
    "rv_environmentID r = rv_environmentID expected" "lv_status r = qr_status row"
    by (simp_all add: r reservation.defs lockedReservation.defs)
  show thesis
    using row sel by (intro that [of row]) (simp_all add: reservationKeyMatches_def sameTenant_def reservationTenant_def)
qed

lemma releaseLocked_ledger:
  assumes "releaseLocked r logical entries leases status code now db = Inr db'" "lockEntries r db = Inr entries" "ledger_ok db"
    "reservation \<in> set (db_reservations db)" "qr_id reservation = rv_reservationID r"
    "reservationTenant reservation = (rv_organizationID r, rv_applicationID r, rv_environmentID r)"
  shows "ledger_ok db'"
proof -
  obtain buckets rows closed mid reservations where ok: "list_all releasable entries" "pendingConcurrencyLeasesMatch r entries leases"
    and e: "releaseEntries now entries (db_buckets db, db_entries db) = Inr (buckets, rows)"
    and l: "releaseLockedConcurrencyLeases r now leases (db_leases db) = Inr closed"
    and c: "closeLogical (rv_logicalRequestID r) ''reserved'' ''failed'' code now
      (db\<lparr>db_buckets := buckets, db_entries := rows, db_leases := closed\<rparr>) = Inr mid"
    and q: "closeReservation (rv_reservationID r)
      (\<lambda>row. row\<lparr>qr_status := status, qr_releasedAt := Some (max (qr_createdAt row) now)\<rparr>) (db_reservations mid) = Inr reservations"
    and db': "db' = mid\<lparr>db_reservations := reservations\<rparr>"
    using assms(1) by (auto simp: releaseLocked_def andThen_eq_Inr split: if_splits)
  have led: "ledger_with (\<lambda>_. 0) db" using assms(3) by (simp add: ledger_with_zero)
  let ?d = "db\<lparr>db_buckets := buckets, db_entries := rows\<rparr>"
  have fits: "list_all (entry_fits db) entries" using lockEntries_fits [OF assms(2) led] by (simp add: list_all_iff)
  have units: "validReservationEntryUnits (le_metric entry) (le_algorithm entry) (le_reservedUnits entry)"
    if "entry \<in> set entries" for entry
    using ok(1) that by (auto simp: list_all_iff releasable_def)
  then have nonneg: "list_all (\<lambda>entry. 0 \<le> le_reservedUnits entry) entries"
    using validReservationEntryUnits_plan by (fastforce simp: list_all_iff)
  note moved = releaseEntries_ledger [OF e led fits nonneg]
  have "ledger_with (\<lambda>b. 0 - takenFrom le_reservedUnits entries b) (?d\<lparr>db_leases := db_leases db\<rparr>)"
    using moved by simp
  note releasedLeases_ledger [OF l this]
  then have "ledger_with (\<lambda>_. 0) (?d\<lparr>db_leases := closed\<rparr>)"
  proof (rule ledger_with_cong [rotated])
    fix row assume row: "row \<in> set (db_buckets (?d\<lparr>db_leases := closed\<rparr>))" "isConcurrencyMetric (bk_metric row)"
    obtain row0 where row0: "row0 \<in> set (db_buckets db)" "bucketKey row0 = bucketKey row"
      using bucketKey_row [of "db_buckets db" buckets row] moved row(1) by auto
    have "units entry = 1" if "units = le_reservedUnits" "entry \<in> set entries" "isConcurrencyMetric (le_metric entry)" for entry units
      using validReservationEntryUnits_plan [OF units [OF that(2)]] that(1,3) by simp
    then show "0 - takenFrom le_reservedUnits entries (bk_id row) + leasesOn leases (bk_id row) = 0"
      using leases_balance [OF led assms(2) ok(2) refl _ row0(1), of le_reservedUnits] row0(2) row(2) by (simp add: bucketKey_def)
  qed
  moreover have same: "same_ledger (?d\<lparr>db_leases := closed\<rparr>) mid" using closeLogical_ledger [OF c] by simp
  ultimately have mid: "ledger_with (\<lambda>_. 0) mid"
    using same_ledger_ok [OF same] by (simp add: ledger_with_zero)
  have "outstanding entry = 0" if entry: "entry \<in> set (db_entries mid)" "qe_reservationID entry = rv_reservationID r" for entry
  proof -
    have mem: "entry \<in> set rows" using entry(1) same by (simp add: same_ledger_def)
    have "map entryKey rows = map entryKey (db_entries db)" using moved by simp
    then obtain row where row: "row \<in> set (db_entries db)" "entryKey row = entryKey entry"
      by (rule entryKey_row [OF _ mem])
    then have "qe_id entry \<in> set (map le_id entries)"
      using lockEntries_all [OF assms(2) led assms(4-6) row(1)] entry(2) by (simp add: entryKey_def)
    then have "drained (qe_id entry) ?d" using moved by blast
    then show ?thesis using mem by (simp add: drained_def)
  qed
  then have "ledger_with (\<lambda>_. 0) (mid\<lparr>db_reservations := reservations\<rparr>)"
    by (rule closeReservation_ledger [OF q mid, rotated]) (simp_all add: reservationTenant_def)
  then show ?thesis by (simp add: db' ledger_with_zero)
qed

lemma ReleaseBeforeDispatch_cases:
  assumes "ReleaseBeforeDispatch now reservation failureCode db = Inr db'"
  obtains (Again) "db' = db"
  | (Release) r logical entries leases where "lockReservation reservation db = Inr r" "lv_status r = ''pending''"
      "lockEntries r db = Inr entries"
      "releaseLocked r logical entries leases ''released'' failureCode now db = Inr db'"
proof -
  obtain locks where locks: "lockForRelease reservation db = Inr locks"
    using assms by (auto simp: ReleaseBeforeDispatch_def go_result split: if_splits)
  have l: "lockReservation reservation db = Inr (rl_reservation locks)" "lockEntries (rl_reservation locks) db = Inr (rl_entries locks)"
    using locks by (auto simp: lockForRelease_def go_result)
  show thesis
    using assms Again Release [OF l(1) _ l(2)] by (auto simp: ReleaseBeforeDispatch_def locks Let_def split: if_splits)
qed

lemma ReleaseBeforeDispatch_ledger:
  assumes "ReleaseBeforeDispatch now reservation failureCode db = Inr db'" "ledger_ok db"
  shows "ledger_ok db'"
  using assms(1)
proof (cases rule: ReleaseBeforeDispatch_cases)
  case Again
  then show ?thesis using assms(2) by simp
next
  case (Release r logical entries leases)
  obtain row where "row \<in> set (db_reservations db)" "qr_id row = rv_reservationID r"
    "reservationTenant row = (rv_organizationID r, rv_applicationID r, rv_environmentID r)"
    by (rule lockReservation_Inr [OF Release(1)])
  then show ?thesis using releaseLocked_ledger [OF Release(4,3) assms(2)] by simp
qed

end
