(* ===== verification/Quota_Usage.thy ===== *)
theory Quota_Usage
  imports Quota_Attempt
begin

text \<open>
  Usage records of an attempt and of a logical request (\<open>src/internal/quota/store.go\<close> and
  \<open>retry_store.go\<close>): their identifiers, provenance keys and rows, what an outcome charges to an allocation,
  and whether the stored records and charges of a completed attempt are those of its outcome.
\<close>

section \<open>Identifiers\<close>

record settlementUsageIDs =
  ui_logical :: string
  ui_providerInput :: string
  ui_providerOutput :: string
  ui_providerTotal :: string
  ui_unknownInput :: string
  ui_unknownOutput :: string
  ui_unknownTotal :: string
  ui_cost :: string

definition noUsageIDs :: settlementUsageIDs where
  "noUsageIDs = \<lparr>ui_logical = [], ui_providerInput = [], ui_providerOutput = [], ui_providerTotal = [],
     ui_unknownInput = [], ui_unknownOutput = [], ui_unknownTotal = [], ui_cost = []\<rparr>"

definition nextUsageID ::
    "'g identifierSource \<Rightarrow> 'g \<Rightarrow> (string \<Rightarrow> 'g \<Rightarrow> (quota_error + 'a) \<times> 'g) \<Rightarrow> (quota_error + 'a) \<times> 'g" where
  "nextUsageID source g k = (case source ''usg'' g of (Inl e, g) \<Rightarrow> (Inl e, g) | (Inr usageID, g) \<Rightarrow> k usageID g)"

definition setUnknownToken :: "string \<Rightarrow> string \<Rightarrow> settlementUsageIDs \<Rightarrow> settlementUsageIDs option" where
  "setUnknownToken metric usageID ids =
     (if metric = InputTokensMetric then Some (ids\<lparr>ui_unknownInput := usageID\<rparr>)
      else if metric = OutputTokensMetric then Some (ids\<lparr>ui_unknownOutput := usageID\<rparr>)
      else if metric = TotalTokensMetric then Some (ids\<lparr>ui_unknownTotal := usageID\<rparr>)
      else None)"

definition unknownToken :: "settlementUsageIDs \<Rightarrow> string \<Rightarrow> string option" where
  "unknownToken ids metric =
     (if metric = InputTokensMetric then Some (ui_unknownInput ids)
      else if metric = OutputTokensMetric then Some (ui_unknownOutput ids)
      else if metric = TotalTokensMetric then Some (ui_unknownTotal ids)
      else None)"

fun unknownUsageIDs ::
    "'g identifierSource \<Rightarrow> reservedTokenMetric list \<Rightarrow> settlementUsageIDs \<Rightarrow> 'g \<Rightarrow> (quota_error + settlementUsageIDs) \<times> 'g" where
  "unknownUsageIDs source [] ids g = (Inr ids, g)"
| "unknownUsageIDs source (reservation # reservations) ids g =
     (if setUnknownToken (rt_metric reservation) [] ids = None then (Inl ErrInvalidState, g)
      else nextUsageID source g (\<lambda>usageID g.
        case setUnknownToken (rt_metric reservation) usageID ids of
          None \<Rightarrow> (Inl ErrInvalidState, g)
        | Some ids \<Rightarrow> unknownUsageIDs source reservations ids g))"

definition tokenUsageIDs ::
    "'g identifierSource \<Rightarrow> usage \<Rightarrow> reservedTokenMetric list \<Rightarrow> settlementUsageIDs \<Rightarrow> 'g \<Rightarrow>
     (quota_error + settlementUsageIDs) \<times> 'g" where
  "tokenUsageIDs source usage reservations ids g =
     (if us_Known usage then
        nextUsageID source g (\<lambda>inputID g. nextUsageID source g (\<lambda>outputID g. nextUsageID source g (\<lambda>totalID g.
          (Inr (ids\<lparr>ui_providerInput := inputID, ui_providerOutput := outputID, ui_providerTotal := totalID\<rparr>), g))))
      else if \<not> validReservedTokenMetrics reservations then (Inl ErrInvalidState, g)
      else unknownUsageIDs source reservations ids g)"

definition newSettlementUsageIDsForTokenMetrics ::
    "'g identifierSource \<Rightarrow> usage \<Rightarrow> reservedTokenMetric list \<Rightarrow> cost \<Rightarrow> selectedPricing \<Rightarrow> 'g \<Rightarrow>
     (quota_error + settlementUsageIDs) \<times> 'g" where
  "newSettlementUsageIDsForTokenMetrics source usage reservations cost pricing g =
     nextUsageID source g (\<lambda>logicalID g.
       case tokenUsageIDs source usage reservations (noUsageIDs\<lparr>ui_logical := logicalID\<rparr>) g of
         (Inl e, g) \<Rightarrow> (Inl e, g)
       | (Inr ids, g) \<Rightarrow>
           if \<not> co_Known cost then (Inr ids, g)
           else if \<not> is_ok (costValidate cost) \<or>
                   co_Confidence cost = CalculatedCostConfidence \<and>
                     (\<not> us_Known usage \<or> \<not> pricingPresent pricing \<or> \<not> is_ok (pricingValidate pricing))
           then (Inl ErrInvalidState, g)
           else nextUsageID source g (\<lambda>costID g. (Inr (ids\<lparr>ui_cost := costID\<rparr>), g)))"

section \<open>Provenance\<close>

definition logicalUsageProvenanceKey :: "string \<Rightarrow> string" where
  "logicalUsageProvenanceKey logicalRequestID = ''logical-request:'' @ logicalRequestID"

definition providerUsageProvenanceKey :: "string \<Rightarrow> string \<Rightarrow> string" where
  "providerUsageProvenanceKey attemptID metric = ProviderReportedProvenance @ '':'' @ attemptID @ '':'' @ metric"

definition unknownTokenUsageProvenanceKey :: "string \<Rightarrow> string \<Rightarrow> string" where
  "unknownTokenUsageProvenanceKey reservationID metric =
     (if metric = InputTokensMetric then ''quota-reservation:'' @ reservationID @ '':unknown-input''
      else if metric = OutputTokensMetric then ''quota-reservation:'' @ reservationID @ '':unknown-output''
      else if metric = TotalTokensMetric then ''quota-reservation:'' @ reservationID @ '':unknown-total''
      else [])"

definition retryUnknownTokenUsageProvenanceKey :: "string \<Rightarrow> 'a storedAttempt_scheme \<Rightarrow> string \<Rightarrow> string" where
  "retryUnknownTokenUsageProvenanceKey reservationID attempt metric =
     (if sa_number attempt = 1 then unknownTokenUsageProvenanceKey reservationID metric
      else let prefix = ''quota-attempt:'' @ sa_id attempt @ '':unknown-'' in
        if metric = InputTokensMetric then prefix @ ''input''
        else if metric = OutputTokensMetric then prefix @ ''output''
        else if metric = TotalTokensMetric then prefix @ ''total''
        else [])"

definition costUsageProvenanceKey :: "string \<Rightarrow> cost \<Rightarrow> string" where
  "costUsageProvenanceKey attemptID cost =
     (if co_Confidence cost = CalculatedCostConfidence then ''configured_flat_rate:'' @ attemptID
      else if co_Confidence cost = ProviderReportedCostConfidence then providerUsageProvenanceKey attemptID CostNanoUSDMetric
      else [])"

record costUsageAttribution =
  ca_currency :: "string option"
  ca_priceRevision :: "string option"
  ca_pricingSource :: "string option"

definition noAttribution :: costUsageAttribution where
  "noAttribution = \<lparr>ca_currency = None, ca_priceRevision = None, ca_pricingSource = None\<rparr>"

definition settlementCostUsageAttribution :: "selectedPricing \<Rightarrow> cost \<Rightarrow> costUsageAttribution" where
  "settlementCostUsageAttribution pricing cost =
     (if co_Confidence cost = ProviderReportedCostConfidence
      then \<lparr>ca_currency = Some (co_Currency cost), ca_priceRevision = None, ca_pricingSource = Some (co_Source cost)\<rparr>
      else if \<not> pricingPresent pricing then noAttribution
      else \<lparr>ca_currency = Some (sp_currency pricing), ca_priceRevision = Some (sp_revision pricing),
            ca_pricingSource = Some (sp_source pricing)\<rparr>)"

section \<open>Rows\<close>

definition usageRowOf ::
    "'a reservation_scheme \<Rightarrow> string option \<Rightarrow> gotime \<Rightarrow> string \<Rightarrow> string \<Rightarrow> int \<Rightarrow> int option \<Rightarrow> costUsageAttribution \<Rightarrow>
     string \<Rightarrow> string \<Rightarrow> usageRow" where
  "usageRowOf r attemptID now usageID metric units cost attribution confidence provenance =
     \<lparr>ur_id = usageID, ur_organizationID = rv_organizationID r, ur_applicationID = rv_applicationID r,
      ur_environmentID = rv_environmentID r, ur_logicalRequestID = rv_logicalRequestID r, ur_attemptID = attemptID,
      ur_metric = metric, ur_units = units, ur_cost = cost, ur_currency = ca_currency attribution,
      ur_priceRevision = ca_priceRevision attribution, ur_pricingSource = ca_pricingSource attribution,
      ur_confidence = confidence, ur_provenance = provenance, ur_recordedAt = now\<rparr>"

text \<open>A violated \<open>CHECK\<close> of the table is reported as \<open>ErrInvalidInput\<close>, a violated unique key as
  \<open>ErrInvalidState\<close> (\<open>mapWriteError\<close>).\<close>

definition insertUsage :: "usageRow \<Rightarrow> usageRow list \<Rightarrow> quota_error + usageRow list" where
  "insertUsage row rows =
     (if \<not> validID (ur_id row) ''usg'' \<or> ur_units row < 0 then Inl ErrInvalidState
      else if int (length (ur_provenance row)) < 16 \<or> 128 < int (length (ur_provenance row)) \<or>
              (ur_cost row = None) \<noteq> (ur_currency row = None)
      then Inl ErrInvalidInput
      else insertRow (\<lambda>other. ur_id other = ur_id row \<or>
        ur_environmentID other = ur_environmentID row \<and> ur_provenance other = ur_provenance row) row rows)"

definition insertProviderUsage ::
    "'a reservation_scheme \<Rightarrow> string \<Rightarrow> gotime \<Rightarrow> usage \<Rightarrow> settlementUsageIDs \<Rightarrow> usageRow list \<Rightarrow> quota_error + usageRow list" where
  "insertProviderUsage r attemptID now usage ids rows =
     (let insert = (\<lambda>usageID metric units. insertUsage (usageRowOf r (Some attemptID) now usageID metric units None noAttribution
        ''reported'' (providerUsageProvenanceKey attemptID metric))) in
      andThen (insert (ui_providerInput ids) InputTokensMetric (us_InputTokens usage) rows) (\<lambda>rows.
      andThen (insert (ui_providerOutput ids) OutputTokensMetric (us_OutputTokens usage) rows) (\<lambda>rows.
      insert (ui_providerTotal ids) TotalTokensMetric (us_TotalTokens usage) rows)))"

text \<open>Units, confidence and provenance of the record for a reserved token metric without reported usage.\<close>

definition unknownUsage :: "string \<Rightarrow> 'b storedAttempt_scheme \<Rightarrow> attemptOutcome \<Rightarrow> reservedTokenMetric \<Rightarrow> int \<times> string \<times> string" where
  "unknownUsage reservationID attempt outcome reservation =
     (if providerRejectedBeforeGeneration outcome
      then (0, CalculatedCostConfidence, rejectedUsageProvenanceKey (sa_id attempt) (rt_metric reservation))
      else (rt_units reservation, UnknownCostConfidence,
            retryUnknownTokenUsageProvenanceKey reservationID attempt (rt_metric reservation)))"

fun insertUnknownUsage ::
    "'a reservation_scheme \<Rightarrow> 'b storedAttempt_scheme \<Rightarrow> gotime \<Rightarrow> attemptOutcome \<Rightarrow> settlementUsageIDs \<Rightarrow>
     reservedTokenMetric list \<Rightarrow> usageRow list \<Rightarrow> quota_error + usageRow list" where
  "insertUnknownUsage r attempt now outcome ids [] rows = Inr rows"
| "insertUnknownUsage r attempt now outcome ids (reservation # reservations) rows =
     (case unknownToken ids (rt_metric reservation) of
        None \<Rightarrow> Inl ErrInvalidState
      | Some usageID \<Rightarrow>
          if usageID = [] then Inl ErrInvalidState
          else let (units, confidence, provenance) = unknownUsage (rv_reservationID r) attempt outcome reservation in
            andThen (insertUsage (usageRowOf r (Some (sa_id attempt)) now usageID (rt_metric reservation) units None
              noAttribution confidence provenance) rows)
            (insertUnknownUsage r attempt now outcome ids reservations))"

definition insertRetryAttemptUsage ::
    "'a reservation_scheme \<Rightarrow> 'b storedAttempt_scheme \<Rightarrow> lockedAttemptQuotaEntry list \<Rightarrow> attemptOutcome \<Rightarrow> settlementUsageIDs \<Rightarrow>
     selectedPricing \<Rightarrow> gotime \<Rightarrow> usageRow list \<Rightarrow> quota_error + usageRow list" where
  "insertRetryAttemptUsage r attempt quotaEntries outcome ids pricing now rows =
     andThen (if us_Known (oc_Usage outcome) then insertProviderUsage r (sa_id attempt) now (oc_Usage outcome) ids rows
              else andThen (attemptTokenReservationUnits quotaEntries) (\<lambda>reservations.
                insertUnknownUsage r attempt now outcome ids reservations rows)) (\<lambda>rows.
     if \<not> co_Known (oc_Cost outcome) then Inr rows
     else if ui_cost ids = [] \<or> \<not> pricingPresent pricing \<and> co_Confidence (oc_Cost outcome) \<noteq> ProviderReportedCostConfidence
     then Inl ErrInvalidState
     else insertUsage (usageRowOf r (Some (sa_id attempt)) now (ui_cost ids) CostNanoUSDMetric (co_NanoUSD (oc_Cost outcome))
       (Some (co_NanoUSD (oc_Cost outcome))) (settlementCostUsageAttribution pricing (oc_Cost outcome))
       (co_Confidence (oc_Cost outcome)) (costUsageProvenanceKey (sa_id attempt) (oc_Cost outcome))) rows)"

section \<open>Charges\<close>

definition tokenMetricUsageUnits :: "usage \<Rightarrow> string \<Rightarrow> int option" where
  "tokenMetricUsageUnits usage metric =
     (if metric = InputTokensMetric then Some (us_InputTokens usage)
      else if metric = OutputTokensMetric then Some (us_OutputTokens usage)
      else if metric = TotalTokensMetric then Some (us_TotalTokens usage)
      else None)"

definition retryAttemptChargedUnits :: "'a lockedAttemptQuotaEntry_scheme \<Rightarrow> attemptOutcome \<Rightarrow> quota_error + int" where
  "retryAttemptChargedUnits q outcome =
     (let metric = aq_metric q; allocated = aq_allocated q in
      if metric = UpstreamAttemptsMetric then (if allocated \<noteq> 1 then Inl ErrInvalidState else Inr 1)
      else if providerRejectedBeforeGeneration outcome \<and> (isTokenMetric metric \<or> metric = CostNanoUSDMetric) then Inr 0
      else if metric = CostNanoUSDMetric then
        (if \<not> co_Known (oc_Cost outcome) then Inr allocated
         else if allocated < co_NanoUSD (oc_Cost outcome) then Inl ErrInvalidInput
         else Inr (co_NanoUSD (oc_Cost outcome)))
      else case tokenMetricUsageUnits (oc_Usage outcome) metric of
        None \<Rightarrow> Inl ErrInvalidState
      | Some actual \<Rightarrow>
          if usesReportedTokenSettlement outcome \<and> allocated < actual then Inl ErrInvalidInput
          else if usesReportedTokenSettlement outcome then Inr actual
          else Inr allocated)"

section \<open>Stored usage of an attempt\<close>

record expectedUsage =
  xu_metric :: string
  xu_units :: int
  xu_cost :: "int option"
  xu_attribution :: costUsageAttribution
  xu_confidence :: string

definition diagnosticsOf :: "'a reservation_scheme \<Rightarrow> string \<Rightarrow> quotaDB \<Rightarrow> attemptDiagnostics option" where
  "diagnosticsOf r attemptID db =
     map_option dg_diagnostics (find (\<lambda>row. sameTenant r (dg_organizationID row) (dg_applicationID row) (dg_environmentID row) \<and>
       dg_attemptID row = attemptID) (db_diagnostics db))"

definition loadAttemptDiagnostics :: "'a reservation_scheme \<Rightarrow> string \<Rightarrow> quotaDB \<Rightarrow> quota_error + attemptDiagnostics option" where
  "loadAttemptDiagnostics r attemptID db =
     (case diagnosticsOf r attemptID db of
        None \<Rightarrow> Inr None
      | Some d \<Rightarrow> if \<not> diagnosticsValidate (ad_ProviderError d) then Inl ErrInvalidState else Inr (Some d))"

definition insertAttemptDiagnostics ::
    "'a reservation_scheme \<Rightarrow> string \<Rightarrow> attemptOutcome \<Rightarrow> diagnosticsRow list \<Rightarrow> quota_error + diagnosticsRow list" where
  "insertAttemptDiagnostics r attemptID outcome rows =
     (case oc_Diagnostics outcome of
        None \<Rightarrow> Inr rows
      | Some d \<Rightarrow>
          if list_ex (\<lambda>row. dg_attemptID row = attemptID) rows then Inl ErrDependency
          else Inr (rows @ [\<lparr>dg_attemptID = attemptID, dg_organizationID = rv_organizationID r,
            dg_applicationID = rv_applicationID r, dg_environmentID = rv_environmentID r, dg_diagnostics = d\<rparr>]))"

text \<open>The records an outcome must have left, by provenance key; a later record replaces an earlier one.\<close>

definition expectedTokenUsage ::
    "'a reservation_scheme \<Rightarrow> 'b storedAttempt_scheme \<Rightarrow> lockedAttemptQuotaEntry list \<Rightarrow> attemptOutcome \<Rightarrow>
     quota_error + (string \<times> expectedUsage) list" where
  "expectedTokenUsage r attempt quotaEntries outcome =
     (if us_Known (oc_Usage outcome) then
        Inr (map (\<lambda>(metric, units). (providerUsageProvenanceKey (sa_id attempt) metric,
              \<lparr>xu_metric = metric, xu_units = units, xu_cost = None, xu_attribution = noAttribution, xu_confidence = ''reported''\<rparr>))
            [(InputTokensMetric, us_InputTokens (oc_Usage outcome)), (OutputTokensMetric, us_OutputTokens (oc_Usage outcome)),
             (TotalTokensMetric, us_TotalTokens (oc_Usage outcome))])
      else andThen (attemptTokenReservationUnits quotaEntries) (\<lambda>reservations.
        Inr (map (\<lambda>reservation.
              let (units, confidence, provenance) = unknownUsage (rv_reservationID r) attempt outcome reservation in
              (provenance, \<lparr>xu_metric = rt_metric reservation, xu_units = units, xu_cost = None,
                xu_attribution = noAttribution, xu_confidence = confidence\<rparr>)) reservations)))"

definition expectedCostUsage :: "'b storedAttempt_scheme \<Rightarrow> selectedPricing \<Rightarrow> attemptOutcome \<Rightarrow> (string \<times> expectedUsage) list" where
  "expectedCostUsage attempt pricing outcome =
     (if \<not> co_Known (oc_Cost outcome) then []
      else [(costUsageProvenanceKey (sa_id attempt) (oc_Cost outcome),
        \<lparr>xu_metric = CostNanoUSDMetric, xu_units = co_NanoUSD (oc_Cost outcome), xu_cost = Some (co_NanoUSD (oc_Cost outcome)),
         xu_attribution = settlementCostUsageAttribution pricing (oc_Cost outcome),
         xu_confidence = co_Confidence (oc_Cost outcome)\<rparr>)])"

definition usageMatches :: "(string \<rightharpoonup> expectedUsage) \<Rightarrow> usageRow \<Rightarrow> bool" where
  "usageMatches expected row \<longleftrightarrow>
     (case expected (ur_provenance row) of
        None \<Rightarrow> False
      | Some want \<Rightarrow>
          validID (ur_id row) ''usg'' \<and> ur_metric row = xu_metric want \<and> ur_units row = xu_units want \<and>
          ur_confidence row = xu_confidence want \<and> ur_cost row = xu_cost want \<and>
          ur_currency row = ca_currency (xu_attribution want) \<and> ur_priceRevision row = ca_priceRevision (xu_attribution want) \<and>
          ur_pricingSource row = ca_pricingSource (xu_attribution want))"

definition attemptUsageRows :: "'a reservation_scheme \<Rightarrow> string \<Rightarrow> quotaDB \<Rightarrow> usageRow list" where
  "attemptUsageRows r attemptID db =
     filter (\<lambda>row. ur_environmentID row = rv_environmentID r \<and> ur_logicalRequestID row = rv_logicalRequestID r \<and>
       ur_attemptID row = Some attemptID) (db_usage db)"

definition retryAttemptUsageMatches ::
    "'a reservation_scheme \<Rightarrow> 'b storedAttempt_scheme \<Rightarrow> lockedAttemptQuotaEntry list \<Rightarrow> attemptOutcome \<Rightarrow> quotaDB \<Rightarrow>
     quota_error + bool" where
  "retryAttemptUsageMatches r attempt quotaEntries outcome db =
     andThen (loadAttemptDiagnostics r (sa_id attempt) db) (\<lambda>diagnostics.
     if \<not> sameAttemptDiagnostics diagnostics (oc_Diagnostics outcome) then Inr False
     else
       andThen (expectedTokenUsage r attempt quotaEntries outcome) (\<lambda>tokens.
       andThen (attemptPricing attempt) (\<lambda>pricing.
       let expected = tokens @ expectedCostUsage attempt pricing outcome;
           rows = attemptUsageRows r (sa_id attempt) db in
       Inr (list_all (usageMatches (map_of (rev expected))) rows \<and> distinct (map ur_provenance rows) \<and>
            length rows = length (remdups (map fst expected))))))"

definition attemptUsageSetEmpty :: "'a reservation_scheme \<Rightarrow> string \<Rightarrow> quotaDB \<Rightarrow> bool" where
  "attemptUsageSetEmpty r attemptID db \<longleftrightarrow>
     \<not> list_ex (\<lambda>row. sameTenant r (ur_organizationID row) (ur_applicationID row) (ur_environmentID row) \<and>
       ur_logicalRequestID row = rv_logicalRequestID r \<and> ur_attemptID row = Some attemptID) (db_usage db)"

definition logicalUsageRecordMatches :: "'a reservation_scheme \<Rightarrow> quotaDB \<Rightarrow> bool" where
  "logicalUsageRecordMatches r db \<longleftrightarrow>
     (case filter (\<lambda>row. ur_environmentID row = rv_environmentID r \<and> ur_logicalRequestID row = rv_logicalRequestID r \<and>
          ur_attemptID row = None) (db_usage db) of
        [row] \<Rightarrow>
          validID (ur_id row) ''usg'' \<and> ur_metric row = LogicalRequestsMetric \<and> ur_units row = 1 \<and> ur_cost row = None \<and>
          ur_currency row = None \<and> ur_priceRevision row = None \<and> ur_pricingSource row = None \<and>
          ur_confidence row = ''calculated'' \<and> ur_provenance row = logicalUsageProvenanceKey (rv_logicalRequestID r)
      | _ \<Rightarrow> False)"

section \<open>The outcome of a completed attempt\<close>

definition rejectionObservationStateMatches :: "'a reservation_scheme \<Rightarrow> string \<Rightarrow> attemptOutcome \<Rightarrow> quotaDB \<Rightarrow> quota_error + bool" where
  "rejectionObservationStateMatches r attemptID outcome db =
     (if \<not> providerRejectedBeforeGeneration outcome then Inr True
      else case find (\<lambda>row. sameTenant r (at_organizationID row) (at_applicationID row) (at_environmentID row) \<and>
             sa_id row = attemptID) (db_attempts db) of
        None \<Rightarrow> Inl ErrDependency
      | Some row \<Rightarrow> Inr (sa_firstByteAt row = None \<and> at_firstTokenAt row = None))"

definition terminalAttemptMatches :: "'b storedAttempt_scheme \<Rightarrow> attemptOutcome \<Rightarrow> selectedPricing \<Rightarrow> bool" where
  "terminalAttemptMatches stored outcome pricing \<longleftrightarrow>
     attemptPricing stored = Inr pricing \<and>
     (if co_Known (oc_Cost outcome) then
        (pricingPresent pricing \<or> co_Confidence (oc_Cost outcome) = ProviderReportedCostConfidence) \<and>
        sa_billedCost stored = Some (co_NanoUSD (oc_Cost outcome)) \<and>
        sa_costConfidence stored = Some (co_Confidence (oc_Cost outcome))
      else if \<not> pricingPresent pricing then
        sa_billedCost stored = None \<and> sa_costConfidence stored = None \<and> oc_Cost outcome = noCost []
      else sa_billedCost stored = None \<and> sa_costConfidence stored = Some UnknownCostConfidence) \<and>
     sa_status stored = oc_Status outcome \<and>
     sa_httpStatus stored = (if oc_HTTPStatus outcome = 0 then None else Some (oc_HTTPStatus outcome)) \<and>
     sa_failureCode stored = nullableString (oc_FailureCode outcome)"

text \<open>The mode of the stored token records: reported by the provider, unknown, or rejected before generation.\<close>

record tokenUsageScan =
  tu_mode :: string
  tu_reported :: "string \<rightharpoonup> int"
  tu_metrics :: "string list"

definition scanTokenUsage ::
    "'a reservation_scheme \<Rightarrow> 'b storedAttempt_scheme \<Rightarrow> bool \<Rightarrow> (string \<rightharpoonup> int) \<Rightarrow> usageRow \<Rightarrow> tokenUsageScan \<Rightarrow> tokenUsageScan option" where
  "scanTokenUsage r attempt rejected allocations row s =
     (let metric = ur_metric row; next = (\<lambda>mode. s\<lparr>tu_mode := mode, tu_metrics := metric # tu_metrics s\<rparr>) in
      if \<not> validID (ur_id row) ''usg'' \<or> ur_units row < 0 \<or> metric \<in> set (tu_metrics s) then None
      else if ur_confidence row = CalculatedCostConfidence then
        (if \<not> rejected \<or> allocations metric = None \<or> ur_units row \<noteq> 0 \<or> tu_mode s \<noteq> [] \<and> tu_mode s \<noteq> ''rejected'' \<or>
            ur_provenance row \<noteq> rejectedUsageProvenanceKey (sa_id attempt) metric
         then None else Some (next ''rejected''))
      else if ur_confidence row = ''reported'' then
        (if rejected \<or> tu_mode s = ''unknown'' \<or> tu_mode s = ''rejected'' \<or>
            ur_provenance row \<noteq> providerUsageProvenanceKey (sa_id attempt) metric
         then None else Some ((next ''reported'')\<lparr>tu_reported := (tu_reported s)(metric \<mapsto> ur_units row)\<rparr>))
      else if ur_confidence row = UnknownCostConfidence then
        (if rejected \<or> tu_mode s = ''reported'' \<or> tu_mode s = ''rejected'' \<or> allocations metric \<noteq> Some (ur_units row) \<or>
            ur_provenance row \<noteq> retryUnknownTokenUsageProvenanceKey (rv_reservationID r) attempt metric
         then None else Some (next ''unknown''))
      else None)"

fun scanTokenUsages ::
    "'a reservation_scheme \<Rightarrow> 'b storedAttempt_scheme \<Rightarrow> bool \<Rightarrow> (string \<rightharpoonup> int) \<Rightarrow> usageRow list \<Rightarrow> tokenUsageScan \<Rightarrow> tokenUsageScan option" where
  "scanTokenUsages r attempt rejected allocations [] s = Some s"
| "scanTokenUsages r attempt rejected allocations (row # rows) s =
     (case scanTokenUsage r attempt rejected allocations row s of
        None \<Rightarrow> None | Some s \<Rightarrow> scanTokenUsages r attempt rejected allocations rows s)"

definition unknownUsageValue :: usage where
  "unknownUsageValue = \<lparr>us_InputTokens = 0, us_OutputTokens = 0, us_TotalTokens = 0, us_Known = False,
     us_Provenance = UnknownUsageProvenance\<rparr>"

definition storedUsage :: "nat \<Rightarrow> tokenUsageScan \<Rightarrow> usage option" where
  "storedUsage allocated s =
     (if tu_mode s = ''reported'' then
        (case (tu_reported s InputTokensMetric, tu_reported s OutputTokensMetric, tu_reported s TotalTokensMetric) of
           (Some inp, Some out, Some both) \<Rightarrow>
             if length (tu_metrics s) \<noteq> 3 then None
             else Some \<lparr>us_InputTokens = inp, us_OutputTokens = out, us_TotalTokens = both, us_Known = True,
               us_Provenance = ProviderReportedProvenance\<rparr>
         | _ \<Rightarrow> None)
      else if tu_mode s = [] then (if allocated \<noteq> 0 then None else Some unknownUsageValue)
      else if length (tu_metrics s) \<noteq> allocated then None
      else Some unknownUsageValue)"

definition storedCost :: "'b storedAttempt_scheme \<Rightarrow> selectedPricing \<Rightarrow> cost" where
  "storedCost attempt pricing =
     (case (sa_billedCost attempt, sa_costConfidence attempt) of
        (Some billed, Some confidence) \<Rightarrow>
          if confidence = ProviderReportedCostConfidence
          then \<lparr>co_NanoUSD = billed, co_Known = True, co_Confidence = confidence, co_Currency = ''USD'',
                co_Source = ''openrouter_usage_cost''\<rparr>
          else \<lparr>co_NanoUSD = billed, co_Known = True, co_Confidence = confidence, co_Currency = [], co_Source = []\<rparr>
      | _ \<Rightarrow> if pricingPresent pricing then noCost UnknownCostConfidence else noCost [])"

definition storedOutcome :: "'b storedAttempt_scheme \<Rightarrow> attemptDiagnostics option \<Rightarrow> usage \<Rightarrow> selectedPricing \<Rightarrow> attemptOutcome" where
  "storedOutcome attempt diagnostics usage pricing =
     \<lparr>oc_Status = sa_status attempt,
      oc_HTTPStatus = (case sa_httpStatus attempt of None \<Rightarrow> 0 | Some status \<Rightarrow> status),
      oc_FailureCode = optionalStringValue (sa_failureCode attempt), oc_Usage = usage,
      oc_Cost = storedCost attempt pricing, oc_Diagnostics = diagnostics\<rparr>"

definition chargeMatches :: "attemptOutcome \<Rightarrow> lockedAttemptQuotaEntry \<Rightarrow> bool" where
  "chargeMatches outcome q \<longleftrightarrow>
     aq_settledAt q \<noteq> None \<and>
     (case retryAttemptChargedUnits q outcome of
        Inl _ \<Rightarrow> False
      | Inr charged \<Rightarrow> aq_charged q = Some charged \<and> aq_released q = Some (sub64 (aq_allocated q) charged))"

definition tokenAllocations :: "lockedAttemptQuotaEntry list \<Rightarrow> (string \<times> int) list" where
  "tokenAllocations quotaEntries =
     map (\<lambda>q. (aq_metric q, aq_allocated q))
       (filter (\<lambda>q. aq_metric q \<noteq> CostNanoUSDMetric \<and> aq_metric q \<noteq> UpstreamAttemptsMetric) quotaEntries)"

definition storedRetryAttemptAccountingMatches ::
    "'a reservation_scheme \<Rightarrow> 'b storedAttempt_scheme \<Rightarrow> lockedAttemptQuotaEntry list \<Rightarrow> quotaDB \<Rightarrow> quota_error + bool" where
  "storedRetryAttemptAccountingMatches r attempt quotaEntries db =
     andThen (loadAttemptDiagnostics r (sa_id attempt) db) (\<lambda>diagnostics.
     let rejected = (case diagnostics of None \<Rightarrow> False | Some d \<Rightarrow> ad_AccountingPolicy d = ProviderRejectionAccountingV1);
         allocations = tokenAllocations quotaEntries;
         rows = sort_key (\<lambda>row. (ur_metric row, ur_provenance row))
           (filter (\<lambda>row. isTokenMetric (ur_metric row)) (attemptUsageRows r (sa_id attempt) db)) in
     case scanTokenUsages r attempt rejected (map_of (rev allocations)) rows
            \<lparr>tu_mode = [], tu_reported = Map.empty, tu_metrics = []\<rparr> of
       None \<Rightarrow> Inr False
     | Some s \<Rightarrow>
         (case storedUsage (length (remdups (map fst allocations))) s of
            None \<Rightarrow> Inr False
          | Some usage \<Rightarrow>
              andThen (attemptPricing attempt) (\<lambda>pricing.
              let outcome = storedOutcome attempt diagnostics usage pricing in
              andThen (rejectionObservationStateMatches r (sa_id attempt) outcome db) (\<lambda>unobserved.
              if \<not> unobserved \<or> \<not> is_ok (outcomeValidate outcome) \<or> \<not> terminalAttemptMatches attempt outcome pricing \<or>
                 \<not> list_all (chargeMatches outcome) quotaEntries
              then Inr False
              else retryAttemptUsageMatches r attempt quotaEntries outcome db))))"

end
