(* ===== verification/Quota_Settlement.thy ===== *)
theory Quota_Settlement
  imports Quota_Usage Quota_Release "HOL-Library.AList"
begin

text \<open>
  Settling an attempt and finishing a reservation (\<open>src/internal/quota/retry_store.go\<close> and
  \<open>store.go\<close>): \<open>SettleForRetry\<close>, the exhaustive path of \<open>SettleFinalAttempt\<close>, and the recovery of expired
  reservations.  The clocks a transaction reads and the identifier source are arguments; the state of the
  identifier source after a call is not kept.
\<close>

section \<open>Consistency of the attempts of a reservation\<close>

record aggregate =
  ag_allocated :: int
  ag_charged :: int
  ag_released :: int
  ag_first :: int
  ag_origin :: int

text \<open>The sums per entry, one pair per entry that occurs; additions that would overflow end the scan.\<close>

definition addAggregate :: "int \<Rightarrow> 'a lockedAttemptQuotaEntry_scheme \<Rightarrow> (string \<times> aggregate) list \<Rightarrow> (string \<times> aggregate) list option" where
  "addAggregate number q sums =
     (let current = (case map_of sums (aq_entryID q) of
            None \<Rightarrow> \<lparr>ag_allocated = 0, ag_charged = 0, ag_released = 0, ag_first = aq_allocated q, ag_origin = number\<rparr>
          | Some current \<Rightarrow> current);
          charged = (case aq_charged q of None \<Rightarrow> 0 | Some units \<Rightarrow> units);
          released = (case aq_released q of None \<Rightarrow> 0 | Some units \<Rightarrow> units) in
      if sub64 max_int64 (aq_allocated q) < ag_allocated current \<or> sub64 max_int64 charged < ag_charged current \<or>
         sub64 max_int64 released < ag_released current
      then None
      else Some (AList.update (aq_entryID q) (current\<lparr>ag_allocated := add64 (ag_allocated current) (aq_allocated q),
        ag_charged := add64 (ag_charged current) charged, ag_released := add64 (ag_released current) released\<rparr>) sums))"

fun addAggregates :: "int \<Rightarrow> lockedAttemptQuotaEntry list \<Rightarrow> (string \<times> aggregate) list \<Rightarrow> (string \<times> aggregate) list option" where
  "addAggregates number [] sums = Some sums"
| "addAggregates number (q # qs) sums =
     (case addAggregate number q sums of None \<Rightarrow> None | Some sums \<Rightarrow> addAggregates number qs sums)"

definition aggregateMatches :: "(string \<times> aggregate) list \<Rightarrow> lockedEntry list \<Rightarrow> bool" where
  "aggregateMatches sums entries \<longleftrightarrow>
     (let own = filter (\<lambda>entry. allocatedPerAttempt (le_metric entry)) entries in
      list_all (\<lambda>entry. case map_of sums (le_id entry) of
          None \<Rightarrow> False
        | Some got \<Rightarrow>
            ag_origin got = le_originAttemptNumber entry \<and> ag_first got = le_initialReservedUnits entry \<and>
            ag_allocated got = le_reservedUnits entry \<and> ag_charged got = le_settledUnits entry \<and>
            ag_released got = le_releasedUnits entry) own \<and>
      length sums = length own)"

text \<open>The allocations of all attempts of a reservation, with the number of their attempt.\<close>

definition aggregateJoin :: "'a reservation_scheme \<Rightarrow> quotaDB \<Rightarrow> (attemptEntryRow \<times> attemptRow) list" where
  "aggregateJoin r db =
     sort_key (\<lambda>row. (sa_number (snd row), aq_bucketID (fst row)))
       (concat (map (\<lambda>quota. map (Pair quota)
           (filter (\<lambda>attempt. at_organizationID attempt = ae_organizationID quota \<and>
              at_applicationID attempt = ae_applicationID quota \<and> at_environmentID attempt = ae_environmentID quota \<and>
              at_logicalRequestID attempt = ae_logicalRequestID quota \<and> sa_id attempt = ae_attemptID quota) (db_attempts db)))
         (filter (\<lambda>quota. sameTenant r (ae_organizationID quota) (ae_applicationID quota) (ae_environmentID quota) \<and>
            ae_logicalRequestID quota = rv_logicalRequestID r \<and> ae_reservationID quota = rv_reservationID r)
           (db_attemptEntries db))))"

fun sumSettled :: "(attemptEntryRow \<times> attemptRow) list \<Rightarrow> (string \<times> aggregate) list \<Rightarrow> (string \<times> aggregate) list option" where
  "sumSettled [] sums = Some sums"
| "sumSettled ((quota, attempt) # rows) sums =
     (case (aq_charged quota, aq_released quota, aq_settledAt quota) of
        (Some charged, Some released, Some _) \<Rightarrow>
          if charged < 0 \<or> released \<noteq> sub64 (aq_allocated quota) charged then None
          else (case addAggregate (sa_number attempt) quota sums of None \<Rightarrow> None | Some sums \<Rightarrow> sumSettled rows sums)
      | _ \<Rightarrow> None)"

definition retryAggregateMatchesEntries :: "'a reservation_scheme \<Rightarrow> lockedEntry list \<Rightarrow> quotaDB \<Rightarrow> bool" where
  "retryAggregateMatchesEntries r entries db \<longleftrightarrow>
     (case sumSettled (aggregateJoin r db) [] of None \<Rightarrow> False | Some sums \<Rightarrow> aggregateMatches sums entries)"

definition attemptStateMatches ::
    "lockedReservation \<Rightarrow> storedAttempt \<Rightarrow> lockedAttemptQuotaEntry list \<Rightarrow> quotaDB \<Rightarrow> quota_error + bool" where
  "attemptStateMatches r attempt quotaEntries db =
     (if sa_status attempt = ''started'' then
        Inr (attemptQuotaEntriesUnsettled quotaEntries \<and> attemptUsageSetEmpty r (sa_id attempt) db)
      else if \<not> attemptQuotaEntriesSettled quotaEntries then Inr False
      else storedRetryAttemptAccountingMatches r attempt quotaEntries db)"

fun pendingAttempts ::
    "lockedReservation \<Rightarrow> lockedEntry list \<Rightarrow> quotaDB \<Rightarrow> storedAttempt list \<Rightarrow> (string \<times> aggregate) list \<Rightarrow>
     quota_error + (string \<times> aggregate) list option" where
  "pendingAttempts r entries db [] sums = Inr (Some sums)"
| "pendingAttempts r entries db (attempt # attempts) sums =
     (if \<not> (sa_status attempt = ''failed'' \<or> sa_status attempt = ''timed_out'' \<or>
            attempts = [] \<and> sa_status attempt = ''started'') then Inr None
      else
        andThen (loadAttemptQuotaEntriesForUpdate r (sa_id attempt) db) (\<lambda>quotaEntries.
        if \<not> attemptQuotaEntriesMatchReservation r attempt quotaEntries entries then Inr None
        else
          andThen (attemptStateMatches r attempt quotaEntries db) (\<lambda>matches.
          if \<not> matches then Inr None
          else case addAggregates (sa_number attempt) quotaEntries sums of
            None \<Rightarrow> Inr None
          | Some sums \<Rightarrow> pendingAttempts r entries db attempts sums)))"

definition retryPendingLifecycleMatches ::
    "lockedReservation \<Rightarrow> string \<Rightarrow> lockedEntry list \<Rightarrow> storedAttempt list \<Rightarrow> quotaDB \<Rightarrow> quota_error + bool" where
  "retryPendingLifecycleMatches r logicalStatus entries attempts db =
     (if logicalStatus = ''reserved'' then Inr (attempts = [])
      else if logicalStatus \<noteq> ''dispatched'' \<and> logicalStatus \<noteq> ''streaming'' \<or> attempts = [] then Inr False
      else andThen (pendingAttempts r entries db attempts []) (\<lambda>sums.
        Inr (case sums of None \<Rightarrow> False | Some sums \<Rightarrow> aggregateMatches sums entries)))"

definition terminalAttemptSequenceMatches :: "string \<Rightarrow> storedAttempt list \<Rightarrow> bool" where
  "terminalAttemptSequenceMatches logicalStatus attempts \<longleftrightarrow>
     attempts \<noteq> [] \<and>
     list_all (\<lambda>attempt. (sa_status attempt = ''failed'' \<or> sa_status attempt = ''timed_out'') \<and> sa_completedAt attempt \<noteq> None)
       (butlast attempts) \<and>
     sa_completedAt (last attempts) \<noteq> None \<and>
     (if logicalStatus = ''succeeded'' then sa_status (last attempts) = ''succeeded''
      else if logicalStatus = ''cancelled'' then sa_status (last attempts) = ''cancelled''
      else if logicalStatus = ''failed''
      then sa_status (last attempts) = ''failed'' \<or> sa_status (last attempts) = ''timed_out''
      else False)"

fun attemptAccountingSequenceMatches ::
    "lockedReservation \<Rightarrow> lockedEntry list \<Rightarrow> quotaDB \<Rightarrow> storedAttempt list \<Rightarrow> quota_error + bool" where
  "attemptAccountingSequenceMatches r entries db [] = Inr True"
| "attemptAccountingSequenceMatches r entries db (attempt # attempts) =
     andThen (loadAttemptQuotaEntriesForUpdate r (sa_id attempt) db) (\<lambda>quotaEntries.
     if \<not> attemptQuotaEntriesMatchReservation r attempt quotaEntries entries \<or> \<not> attemptQuotaEntriesSettled quotaEntries
     then Inr False
     else andThen (storedRetryAttemptAccountingMatches r attempt quotaEntries db) (\<lambda>matches.
       if \<not> matches then Inr False else attemptAccountingSequenceMatches r entries db attempts))"

definition terminalAttemptAccountingSequenceMatches ::
    "lockedReservation \<Rightarrow> string \<Rightarrow> lockedEntry list \<Rightarrow> quotaDB \<Rightarrow> storedAttempt list \<Rightarrow> quota_error + bool" where
  "terminalAttemptAccountingSequenceMatches r logicalStatus entries db attempts =
     (if \<not> terminalAttemptSequenceMatches logicalStatus attempts then Inr False
      else attemptAccountingSequenceMatches r entries db attempts)"

section \<open>Settling one attempt\<close>

definition settleBucketGuard :: "lockedEntry \<Rightarrow> int \<Rightarrow> int \<Rightarrow> bucketRow \<Rightarrow> bool" where
  "settleBucketGuard entry charged allocated row \<longleftrightarrow>
     bk_id row = le_bucketID entry \<and> bk_usedUnits row = le_bucketUsed entry \<and> bk_reservedUnits row = le_bucketReserved entry \<and>
     bk_hardMaximum row = le_hardMaximum entry \<and>
     (0 < allocated \<or> allocated = 0 \<and> bk_metric row = CostNanoUSDMetric \<and> bk_algorithm row = CalendarAlgorithm) \<and>
     allocated \<le> bk_reservedUnits row \<and>
     (case bk_hardMaximum row of None \<Rightarrow> False | Some maximum \<Rightarrow> charged \<le> maximum - bk_usedUnits row)"

definition settleBucket :: "gotime \<Rightarrow> lockedEntry \<Rightarrow> int \<Rightarrow> int \<Rightarrow> bucketRow list \<Rightarrow> quota_error + bucketRow list" where
  "settleBucket now entry charged allocated rows =
     (let released = sub64 allocated charged in
      if le_algorithm entry = TokenBucketAlgorithm then
        (if 0 < released then
           andThen (tokenStateFromLockedEntry entry) (\<lambda>state.
           andThen (refundTokenBalance state released now) (\<lambda>refunded.
           persistTokenBucketEntry entry refunded now rows))
         else Inr rows)
      else case le_hardMaximum entry of
        None \<Rightarrow> Inl ErrInvalidState
      | Some maximum \<Rightarrow>
          if le_bucketUsed entry < 0 \<or> le_bucketReserved entry < allocated \<or> maximum < le_bucketUsed entry \<or>
             sub64 maximum (le_bucketUsed entry) < charged
          then Inl ErrInvalidState
          else updateOne (settleBucketGuard entry charged allocated) (bucketMove charged allocated) rows)"

definition settleEntryGuard :: "lockedEntry \<Rightarrow> int \<Rightarrow> int \<Rightarrow> int \<Rightarrow> entryRow \<Rightarrow> bool" where
  "settleEntryGuard entry charged released allocated row \<longleftrightarrow>
     qe_id row = le_id entry \<and> qe_initialReservedUnits row = le_initialReservedUnits entry \<and>
     qe_reservedUnits row = le_reservedUnits entry \<and> qe_settledUnits row = le_settledUnits entry \<and>
     qe_releasedUnits row = le_releasedUnits entry \<and>
     charged \<le> qe_reservedUnits row - qe_settledUnits row - qe_releasedUnits row \<and> released = allocated - charged"

definition settleAllocationGuard :: "lockedReservation \<Rightarrow> string \<Rightarrow> lockedAttemptQuotaEntry \<Rightarrow> attemptEntryRow \<Rightarrow> bool" where
  "settleAllocationGuard r attemptID q row \<longleftrightarrow>
     ae_environmentID row = rv_environmentID r \<and> ae_attemptID row = attemptID \<and> aq_entryID row = aq_entryID q \<and>
     aq_allocated row = aq_allocated q \<and> aq_charged row = None \<and> aq_released row = None \<and> aq_settledAt row = None"

definition settleAllocation ::
    "lockedReservation \<Rightarrow> string \<Rightarrow> gotime \<Rightarrow> attemptOutcome \<Rightarrow> lockedEntry list \<Rightarrow> lockedAttemptQuotaEntry \<Rightarrow> quotaDB \<Rightarrow>
     quota_error + quotaDB" where
  "settleAllocation r attemptID now outcome entries q db =
     (case find (\<lambda>entry. le_id entry = aq_entryID q) (rev entries) of
        None \<Rightarrow> Inl ErrInvalidState
      | Some entry \<Rightarrow>
          if aq_charged q \<noteq> None \<or> aq_released q \<noteq> None \<or> aq_settledAt q \<noteq> None then Inl ErrInvalidState
          else andThen (retryAttemptChargedUnits q outcome) (\<lambda>charged.
            let released = sub64 (aq_allocated q) charged in
            if entryOutstanding entry < aq_allocated q \<or> sub64 max_int64 charged < le_settledUnits entry \<or>
               sub64 max_int64 released < le_releasedUnits entry
            then Inl ErrInvalidState
            else
              andThen (settleBucket now entry charged (aq_allocated q) (db_buckets db)) (\<lambda>buckets.
              andThen (updateOne (settleEntryGuard entry charged released (aq_allocated q)) (entryMove charged released)
                (db_entries db)) (\<lambda>rows.
              andThen (updateOne (settleAllocationGuard r attemptID q)
                (\<lambda>row. row\<lparr>aq_charged := Some charged, aq_released := Some released, aq_settledAt := Some now\<rparr>)
                (db_attemptEntries db)) (\<lambda>allocations.
              Inr (db\<lparr>db_buckets := buckets, db_entries := rows, db_attemptEntries := allocations\<rparr>))))))"

fun settleAllocations ::
    "lockedReservation \<Rightarrow> string \<Rightarrow> gotime \<Rightarrow> attemptOutcome \<Rightarrow> lockedEntry list \<Rightarrow> lockedAttemptQuotaEntry list \<Rightarrow> quotaDB \<Rightarrow>
     quota_error + quotaDB" where
  "settleAllocations r attemptID now outcome entries [] db = Inr db"
| "settleAllocations r attemptID now outcome entries (q # qs) db =
     andThen (settleAllocation r attemptID now outcome entries q db) (settleAllocations r attemptID now outcome entries qs)"

definition completeAttemptGuard :: "string \<Rightarrow> selectedPricing \<Rightarrow> attemptRow \<Rightarrow> bool" where
  "completeAttemptGuard attemptID pricing row \<longleftrightarrow>
     sa_id row = attemptID \<and> sa_status row = ''started'' \<and> sa_currency row = nullableString (sp_currency pricing) \<and>
     sa_priceRevision row = nullableString (sp_revision pricing) \<and>
     sa_pricingSource row = nullableString (sp_source pricing) \<and> sa_billedCost row = None \<and>
     sa_costConfidence row = nullableString (initialCostConfidence pricing)"

definition orStarted :: "attemptRow \<Rightarrow> gotime option \<Rightarrow> gotime" where
  "orStarted row at = (case at of None \<Rightarrow> at_startedAt row | Some at \<Rightarrow> at)"

definition optionalHTTPStatus :: "int \<Rightarrow> int option" where
  "optionalHTTPStatus value = (if value = 0 then None else Some value)"

definition completeAttemptChange :: "gotime \<Rightarrow> attemptOutcome \<Rightarrow> selectedPricing \<Rightarrow> attemptRow \<Rightarrow> attemptRow" where
  "completeAttemptChange now outcome pricing row =
     row\<lparr>sa_status := oc_Status outcome,
         sa_completedAt := Some (max (at_startedAt row)
           (max (orStarted row (sa_firstByteAt row)) (max (orStarted row (at_firstTokenAt row)) now))),
         sa_httpStatus := optionalHTTPStatus (oc_HTTPStatus outcome), sa_failureCode := nullableString (oc_FailureCode outcome),
         sa_billedCost := fst (settlementCostValues pricing (oc_Cost outcome)),
         sa_costConfidence := snd (settlementCostValues pricing (oc_Cost outcome))\<rparr>"

definition settleRetryAttemptLocked ::
    "lockedReservation \<Rightarrow> storedAttempt \<Rightarrow> lockedEntry list \<Rightarrow> lockedAttemptQuotaEntry list \<Rightarrow> attemptOutcome \<Rightarrow>
     settlementUsageIDs \<Rightarrow> selectedPricing \<Rightarrow> gotime \<Rightarrow> quotaDB \<Rightarrow> quota_error + quotaDB" where
  "settleRetryAttemptLocked r attempt entries quotaEntries outcome ids pricing now db =
     andThen (settleAllocations r (sa_id attempt) now outcome entries quotaEntries db) (\<lambda>db.
     andThen (insertRetryAttemptUsage r attempt quotaEntries outcome ids pricing now (db_usage db)) (\<lambda>usage.
     andThen (insertAttemptDiagnostics r (sa_id attempt) outcome (db_diagnostics db)) (\<lambda>diagnostics.
     andThen (updateOne (completeAttemptGuard (sa_id attempt) pricing) (completeAttemptChange now outcome pricing)
       (db_attempts db)) (\<lambda>attempts.
     Inr (db\<lparr>db_usage := usage, db_diagnostics := diagnostics, db_attempts := attempts\<rparr>)))))"

section \<open>Finishing the reservation\<close>

definition finalBucketGuard :: "lockedEntry \<Rightarrow> int \<Rightarrow> bucketRow \<Rightarrow> bool" where
  "finalBucketGuard entry charged row \<longleftrightarrow>
     bk_id row = le_bucketID entry \<and> bk_usedUnits row = le_bucketUsed entry \<and> bk_reservedUnits row = le_bucketReserved entry \<and>
     bk_hardMaximum row = le_hardMaximum entry \<and> le_reservedUnits entry \<le> bk_reservedUnits row \<and>
     (case bk_hardMaximum row of None \<Rightarrow> False | Some maximum \<Rightarrow> charged \<le> maximum - bk_usedUnits row)"

definition finalEntryGuard :: "lockedEntry \<Rightarrow> entryRow \<Rightarrow> bool" where
  "finalEntryGuard entry row \<longleftrightarrow>
     qe_id row = le_id entry \<and> qe_initialReservedUnits row = le_reservedUnits entry \<and>
     qe_reservedUnits row = le_reservedUnits entry \<and> qe_settledUnits row = 0 \<and> qe_releasedUnits row = 0"

definition finalBucket :: "lockedEntry \<Rightarrow> int \<Rightarrow> bucketRow list \<Rightarrow> quota_error + bucketRow list" where
  "finalBucket entry charged rows =
     (if le_algorithm entry = TokenBucketAlgorithm then Inr rows
      else case le_hardMaximum entry of
        None \<Rightarrow> Inl ErrInvalidState
      | Some maximum \<Rightarrow>
          if le_bucketReserved entry < le_reservedUnits entry \<or> maximum < le_bucketUsed entry \<or>
             sub64 maximum (le_bucketUsed entry) < charged
          then Inl ErrInvalidState
          else updateOne (finalBucketGuard entry charged) (bucketMove charged (le_reservedUnits entry)) rows)"

definition finalizeEntry :: "lockedEntry \<Rightarrow> quotaDB \<Rightarrow> quota_error + quotaDB" where
  "finalizeEntry entry db =
     (if allocatedPerAttempt (le_metric entry) then
        (if add64 (le_settledUnits entry) (le_releasedUnits entry) \<noteq> le_reservedUnits entry then Inl ErrInvalidState else Inr db)
      else if le_metric entry \<noteq> LogicalRequestsMetric \<and> \<not> isConcurrencyMetric (le_metric entry) then Inr db
      else if le_settledUnits entry \<noteq> 0 \<or> le_releasedUnits entry \<noteq> 0 \<or> le_reservedUnits entry \<noteq> le_initialReservedUnits entry
      then Inl ErrInvalidState
      else
        let charged = (if isConcurrencyMetric (le_metric entry) then 0 else le_reservedUnits entry);
            released = (if isConcurrencyMetric (le_metric entry) then le_reservedUnits entry else 0) in
        andThen (finalBucket entry charged (db_buckets db)) (\<lambda>buckets.
        andThen (updateOne (finalEntryGuard entry) (entryMove charged released) (db_entries db)) (\<lambda>rows.
        Inr (db\<lparr>db_buckets := buckets, db_entries := rows\<rparr>))))"

fun finalizeEntries :: "lockedEntry list \<Rightarrow> quotaDB \<Rightarrow> quota_error + quotaDB" where
  "finalizeEntries [] db = Inr db"
| "finalizeEntries (entry # entries) db = andThen (finalizeEntry entry db) (finalizeEntries entries)"

definition attemptQuotaEntriesSettledOrAbsentForFinal :: "lockedEntry list \<Rightarrow> bool" where
  "attemptQuotaEntriesSettledOrAbsentForFinal entries \<longleftrightarrow>
     list_all (\<lambda>entry. allocatedPerAttempt (le_metric entry) \<longrightarrow>
       add64 (le_settledUnits entry) (le_releasedUnits entry) = le_reservedUnits entry) entries"

definition finalLogicalStatus :: "string \<Rightarrow> string" where
  "finalLogicalStatus status =
     (if status = ''succeeded'' then ''succeeded'' else if status = ''cancelled'' then ''cancelled'' else ''failed'')"

definition completeLogical :: "string \<Rightarrow> attemptOutcome \<Rightarrow> gotime \<Rightarrow> logicalRow list \<Rightarrow> quota_error + logicalRow list" where
  "completeLogical logicalRequestID outcome now rows =
     updateOne (\<lambda>row. lr_id row = logicalRequestID \<and> (lr_status row = ''dispatched'' \<or> lr_status row = ''streaming''))
       (\<lambda>row. row\<lparr>lr_status := finalLogicalStatus (oc_Status outcome),
          lr_completedAt := Some (max (lr_requestedAt row)
            (max (case lr_dispatchedAt row of None \<Rightarrow> lr_requestedAt row | Some at \<Rightarrow> at) now)),
          lr_failureCode := nullableString (oc_FailureCode outcome)\<rparr>) rows"

definition finalizeRetryReservationLocked ::
    "lockedReservation \<Rightarrow> lockedLogical \<Rightarrow> lockedEntry list \<Rightarrow> leaseRow list \<Rightarrow> gotime option \<Rightarrow> attemptOutcome \<Rightarrow> string \<Rightarrow> gotime \<Rightarrow>
     quotaDB \<Rightarrow> quota_error + quotaDB" where
  "finalizeRetryReservationLocked r logical entries leases completedAt outcome logicalUsageID now db =
     (if lv_status r \<noteq> ''pending'' \<or> ll_status logical \<noteq> ''dispatched'' \<and> ll_status logical \<noteq> ''streaming'' \<or>
         \<not> attemptQuotaEntriesSettledOrAbsentForFinal entries \<or> \<not> validID logicalUsageID ''usg''
      then Inl ErrInvalidState
      else
        andThen (finalizeEntries entries db) (\<lambda>db.
        andThen (releaseLockedConcurrencyLeases r now leases (db_leases db)) (\<lambda>closed.
        andThen (insertUsage (usageRowOf r None now logicalUsageID LogicalRequestsMetric 1 None noAttribution ''calculated''
          (logicalUsageProvenanceKey (rv_logicalRequestID r))) (db_usage db)) (\<lambda>usage.
        andThen (completeLogical (rv_logicalRequestID r) outcome now (db_logical db)) (\<lambda>requests.
        andThen (closeReservation (rv_reservationID r)
          (\<lambda>row. row\<lparr>qr_status := ''settled'', qr_settledAt := Some (max (qr_createdAt row) now)\<rparr>) (db_reservations db)) (\<lambda>reservations.
        if completedAt = None then Inl ErrInvalidState
        else Inr (db\<lparr>db_leases := closed, db_usage := usage, db_logical := requests, db_reservations := reservations\<rparr>)))))))"

section \<open>Settlement\<close>

definition allocationRowOf :: "'a reservation_scheme \<Rightarrow> string \<Rightarrow> lockedAttemptQuotaEntry \<Rightarrow> attemptEntryRow" where
  "allocationRowOf r attemptID q =
     lockedAttemptQuotaEntry.extend q (attemptEntryRow.fields (rv_organizationID r) (rv_applicationID r) (rv_environmentID r)
       (rv_logicalRequestID r) attemptID (rv_reservationID r))"

fun insertAllocations :: "attemptEntryRow list \<Rightarrow> attemptEntryRow list \<Rightarrow> quota_error + attemptEntryRow list" where
  "insertAllocations [] rows = Inr rows"
| "insertAllocations (row # news) rows =
     andThen (insertRow (\<lambda>other. ae_environmentID other = ae_environmentID row \<and> ae_attemptID other = ae_attemptID row \<and>
       (aq_entryID other = aq_entryID row \<or> aq_bucketID other = aq_bucketID row)) row rows) (insertAllocations news)"

definition insertAttemptQuotaEntries ::
    "lockedReservation \<Rightarrow> string \<Rightarrow> lockedEntry list \<Rightarrow> (string \<rightharpoonup> int) \<Rightarrow> quotaDB \<Rightarrow> quota_error + quotaDB" where
  "insertAttemptQuotaEntries r attemptID entries allocations db =
     andThen (insertAllocations (map (allocationRowOf r attemptID) (attemptQuotaRowsForDecision entries allocations))
       (db_attemptEntries db)) (\<lambda>rows. Inr (db\<lparr>db_attemptEntries := rows\<rparr>))"

record settleLocks =
  sl_reservation :: lockedReservation
  sl_logical :: lockedLogical
  sl_attempt :: storedAttempt
  sl_pricing :: selectedPricing
  sl_outcome :: attemptOutcome
  sl_entries :: "lockedEntry list"
  sl_leases :: "leaseRow list"
  sl_allocations :: "lockedAttemptQuotaEntry list"

text \<open>The first allocations of a legacy attempt are written when it is settled.\<close>

definition ensureAllocations ::
    "lockedReservation \<Rightarrow> attempt \<Rightarrow> storedAttempt \<Rightarrow> lockedEntry list \<Rightarrow> quotaDB \<Rightarrow>
     quota_error + (lockedAttemptQuotaEntry list \<times> quotaDB)" where
  "ensureAllocations r attempt stored entries db =
     andThen (loadAttemptQuotaEntriesForUpdate r (sa_id stored) db) (\<lambda>quotaEntries.
     if quotaEntries = [] \<and> am_number attempt = 1 \<and> sa_status stored = ''started'' then
       andThen (initialAttemptAllocations entries) (\<lambda>allocations.
       andThen (insertAttemptQuotaEntries r (sa_id stored) entries allocations db) (\<lambda>db.
       andThen (loadAttemptQuotaEntriesForUpdate r (sa_id stored) db) (\<lambda>quotaEntries.
       Inr (quotaEntries, db))))
     else Inr (quotaEntries, db))"

definition lockForSettlement :: "attempt \<Rightarrow> attemptOutcome \<Rightarrow> quotaDB \<Rightarrow> quota_error + (settleLocks \<times> quotaDB)" where
  "lockForSettlement attempt outcome db =
     (let expected = am_reservation attempt in
      andThen (lockReservation expected db) (\<lambda>r.
      andThen (lockLogicalRequest expected db) (\<lambda>logical.
      andThen (loadAttemptForUpdate (rv_logicalRequestID expected) (am_number attempt) db) (\<lambda>found.
      case found of
        None \<Rightarrow> Inl ErrNotFound
      | Some stored \<Rightarrow>
          if sa_id stored \<noteq> am_attemptID attempt then Inl ErrNotFound
          else if am_number attempt = 1 \<and>
                  (\<not> storedInitialInputPreflightMatches stored (rv_inputPreflight expected) \<or>
                   \<not> storedInitialRequestMeasurementsMatch stored (rv_requestMeasurements expected))
          then Inl ErrInvalidState
          else
            andThen (attemptPricing stored) (\<lambda>pricing.
            andThen (normalizeOutcomeForPricing outcome pricing) (\<lambda>outcome.
            andThen (rejectionObservationStateMatches r (sa_id stored) outcome db) (\<lambda>unobserved.
            if \<not> unobserved then Inl ErrInvalidInput
            else
              andThen (lockEntries r db) (\<lambda>entries.
              andThen (lockConcurrencyLeases r entries db) (\<lambda>leases.
              andThen (ensureAllocations r attempt stored entries db) (\<lambda>(quotaEntries, db).
              if \<not> attemptQuotaEntriesMatchReservation r stored quotaEntries entries then Inl ErrInvalidState
              else Inr (\<lparr>sl_reservation = r, sl_logical = logical, sl_attempt = stored, sl_pricing = pricing,
                sl_outcome = outcome, sl_entries = entries, sl_leases = leases, sl_allocations = quotaEntries\<rparr>, db)))))))))))"

definition lifecycleOpen :: "settleLocks \<Rightarrow> bool" where
  "lifecycleOpen s \<longleftrightarrow>
     lv_status (sl_reservation s) = ''pending'' \<and>
     (ll_status (sl_logical s) = ''dispatched'' \<or> ll_status (sl_logical s) = ''streaming'') \<and>
     pendingEntriesMatch (ll_status (sl_logical s)) (sl_reservation s) (sl_entries s) (sl_leases s)"

definition laterOf :: "gotime option \<Rightarrow> gotime \<Rightarrow> gotime" where
  "laterOf firstByteAt now = (case firstByteAt of None \<Rightarrow> now | Some at \<Rightarrow> if now < at then at else now)"

text \<open>Settling a started attempt: the usage identifiers, the tables after the settlement and the time of completion.\<close>

definition settleStarted ::
    "'g identifierSource \<Rightarrow> 'g \<Rightarrow> gotime \<Rightarrow> settleLocks \<Rightarrow> quotaDB \<Rightarrow> quota_error + (settlementUsageIDs \<times> quotaDB)" where
  "settleStarted source g now s db =
     (let r = sl_reservation s in
      andThen (loadAttemptsForUpdate (rv_logicalRequestID r) db) (\<lambda>attempts.
      andThen (retryPendingLifecycleMatches r (ll_status (sl_logical s)) (sl_entries s) attempts db) (\<lambda>matches.
      if \<not> lifecycleOpen s \<or> \<not> matches then Inl ErrInvalidState
      else
        andThen (attemptTokenReservationUnits (sl_allocations s)) (\<lambda>reservations.
        andThen (fst (newSettlementUsageIDsForTokenMetrics source (oc_Usage (sl_outcome s)) reservations
          (oc_Cost (sl_outcome s)) (sl_pricing s) g)) (\<lambda>ids.
        andThen (settleRetryAttemptLocked r (sl_attempt s) (sl_entries s) (sl_allocations s) (sl_outcome s) ids (sl_pricing s)
          (laterOf (sa_firstByteAt (sl_attempt s)) now) db) (\<lambda>db.
        Inr (ids, db)))))))"

text \<open>What happens before the reservation may be finished: the attempt is settled, or it was settled before with
  the same outcome.  The result has the entries locked again after a settlement and the completion of the attempt.\<close>

definition settleAttempt ::
    "'g identifierSource \<Rightarrow> 'g \<Rightarrow> gotime \<Rightarrow> settleLocks \<Rightarrow> quotaDB \<Rightarrow>
     quota_error + (lockedEntry list \<times> string \<times> gotime option \<times> quotaDB)" where
  "settleAttempt source g now s db =
     (let r = sl_reservation s; stored = sl_attempt s in
      if sa_status stored = ''started'' then
        andThen (settleStarted source g now s db) (\<lambda>(ids, db).
        andThen (lockEntries r db) (\<lambda>entries.
        andThen (loadAttemptQuotaEntriesForUpdate r (sa_id stored) db) (\<lambda>_.
        Inr (entries, ui_logical ids, Some (laterOf (sa_firstByteAt stored) now), db))))
      else if \<not> terminalAttemptMatches stored (sl_outcome s) (sl_pricing s) \<or> \<not> attemptQuotaEntriesSettled (sl_allocations s)
      then Inl ErrFinalized
      else andThen (retryAttemptUsageMatches r stored (sl_allocations s) (sl_outcome s) db) (\<lambda>matches.
        if \<not> matches then Inl ErrFinalized else Inr (sl_entries s, [], sa_completedAt stored, db)))"

definition finishReservation ::
    "'g identifierSource \<Rightarrow> 'g \<Rightarrow> gotime \<Rightarrow> attempt \<Rightarrow> settleLocks \<Rightarrow> lockedEntry list \<Rightarrow> string \<Rightarrow> gotime option \<Rightarrow> quotaDB \<Rightarrow>
     quota_error + quotaDB" where
  "finishReservation source g now attempt s entries logicalUsageID completedAt db =
     (let r = sl_reservation s; status = ll_status (sl_logical s) in
      if attemptExistsAfter (rv_logicalRequestID r) (am_number attempt) db then Inl ErrFinalized
      else andThen (loadAttemptsForUpdate (rv_logicalRequestID r) db) (\<lambda>attempts.
        if attempts = [] \<or> sa_id (last attempts) \<noteq> sa_id (sl_attempt s) then Inl ErrInvalidState
        else if lv_status r = ''settled'' then
          andThen (terminalAttemptAccountingSequenceMatches r status entries db attempts) (\<lambda>accounting.
          if \<not> terminalEntriesMatch status (lv_status r) entries (sl_leases s) \<or>
             \<not> retryAggregateMatchesEntries r entries db \<or> \<not> logicalUsageRecordMatches r db \<or> \<not> accounting
          then Inl ErrInvalidState else Inr db)
        else
          andThen (attemptAccountingSequenceMatches r entries db attempts) (\<lambda>accounting.
          if \<not> lifecycleOpen (s\<lparr>sl_entries := entries\<rparr>) \<or> \<not> retryAggregateMatchesEntries r entries db \<or> \<not> accounting
          then Inl ErrInvalidState
          else
            andThen (if logicalUsageID = [] then fst (source ''usg'' g) else Inr logicalUsageID) (\<lambda>logicalUsageID.
            finalizeRetryReservationLocked r (sl_logical s) entries (sl_leases s) completedAt (sl_outcome s) logicalUsageID now db))))"

text \<open>A replay that changes nothing is not committed; it leaves the tables as they were.\<close>

definition settleRetryLifecycle ::
    "'g identifierSource \<Rightarrow> 'g \<Rightarrow> gotime \<Rightarrow> gotime \<Rightarrow> attempt \<Rightarrow> attemptOutcome \<Rightarrow> bool \<Rightarrow> quotaDB \<Rightarrow> quota_error + quotaDB" where
  "settleRetryLifecycle source g settledAt finishedAt attempt outcome final db =
     (if \<not> attemptValidate attempt \<or> \<not> is_ok (outcomeValidate outcome) \<or>
         \<not> final \<and> oc_Status outcome \<noteq> ''failed'' \<and> oc_Status outcome \<noteq> ''timed_out''
      then Inl ErrInvalidInput
      else
        andThen (lockForSettlement attempt outcome db) (\<lambda>(s, db).
        andThen (settleAttempt source g settledAt s db) (\<lambda>(entries, logicalUsageID, completedAt, db).
        if \<not> final then Inr db
        else finishReservation source g finishedAt attempt s entries logicalUsageID completedAt db)))"

definition SettleForRetry ::
    "'g identifierSource \<Rightarrow> 'g \<Rightarrow> gotime \<Rightarrow> attempt \<Rightarrow> attemptOutcome \<Rightarrow> quotaDB \<Rightarrow> quota_error + quotaDB" where
  "SettleForRetry source g settledAt attempt outcome db =
     (if oc_Status outcome \<noteq> ''failed'' \<and> oc_Status outcome \<noteq> ''timed_out'' then Inl ErrInvalidInput
      else settleRetryLifecycle source g settledAt settledAt attempt outcome False db)"

end
