(* ===== verification/Quota_Expiry.thy ===== *)
theory Quota_Expiry
  imports Quota_Settlement
begin

text \<open>
  Recovery of expired reservations (\<open>src/internal/quota/store.go\<close>: \<open>expireOne\<close>, \<open>expirePendingBatch\<close> and the
  four batches built on it).  A reservation without an attempt is released, one with an attempt is settled with
  unknown usage.  Every reservation has its own transaction, with its own clocks: the time of the transaction,
  of the settlement of the last attempt, and of the end of the reservation.
\<close>

datatype pendingExpiryMode = pendingExpiryAny | pendingExpiryUndispatched | pendingExpiryDispatched | pendingExpiryConcurrency

definition expiryFailureCode :: string where
  "expiryFailureCode = ''reservation_expired''"

definition ownsConcurrency :: "quotaDB \<Rightarrow> reservationRow \<Rightarrow> bool" where
  "ownsConcurrency db row \<longleftrightarrow>
     list_ex (\<lambda>entry. qe_organizationID entry = qr_organizationID row \<and> qe_applicationID entry = qr_applicationID row \<and>
       qe_environmentID entry = qr_environmentID row \<and> qe_reservationID entry = qr_id row \<and>
       list_ex (\<lambda>bucket. bk_organizationID bucket = qe_organizationID entry \<and> bk_applicationID bucket = qe_applicationID entry \<and>
         bk_environmentID bucket = qe_environmentID entry \<and> bk_id bucket = qe_bucketID entry \<and>
         bk_algorithm bucket = ConcurrencyAlgorithm) (db_buckets db)) (db_entries db)"

definition wasDispatched :: "quotaDB \<Rightarrow> reservationRow \<Rightarrow> bool" where
  "wasDispatched db row \<longleftrightarrow>
     list_ex (\<lambda>attempt. at_organizationID attempt = qr_organizationID row \<and> at_applicationID attempt = qr_applicationID row \<and>
       at_environmentID attempt = qr_environmentID row \<and> at_logicalRequestID attempt = qr_logicalRequestID row) (db_attempts db)"

definition expiryCandidate :: "pendingExpiryMode \<Rightarrow> gotime \<Rightarrow> quotaDB \<Rightarrow> reservationRow \<Rightarrow> bool" where
  "expiryCandidate mode now db row \<longleftrightarrow>
     qr_status row = ''pending'' \<and> qr_expiresAt row \<le> now \<and>
     (case mode of
        pendingExpiryAny \<Rightarrow> True
      | pendingExpiryConcurrency \<Rightarrow> ownsConcurrency db row
      | pendingExpiryUndispatched \<Rightarrow> \<not> ownsConcurrency db row \<and> \<not> wasDispatched db row
      | pendingExpiryDispatched \<Rightarrow> \<not> ownsConcurrency db row \<and> wasDispatched db row)"

definition expirySelection :: "pendingExpiryMode \<Rightarrow> gotime \<Rightarrow> quotaDB \<Rightarrow> reservationRow option" where
  "expirySelection mode now db =
     (case sort_key (\<lambda>row. (qr_expiresAt row, qr_id row)) (filter (expiryCandidate mode now db) (db_reservations db)) of
        [] \<Rightarrow> None
      | row # _ \<Rightarrow> Some row)"

text \<open>The handle of a selected row has the identifiers and the expiry only.\<close>

definition selectedReservation :: "reservationRow \<Rightarrow> reservation" where
  "selectedReservation row =
     \<lparr>rv_organizationID = qr_organizationID row, rv_applicationID = qr_applicationID row,
      rv_environmentID = qr_environmentID row, rv_logicalRequestID = qr_logicalRequestID row,
      rv_reservationID = qr_id row, rv_entries = [], rv_routeKey = [], rv_upstreamKey = [], rv_modelKey = [],
      rv_physicalModel = [], rv_protocol = [], rv_pricing = noPricing, rv_inputPreflight = None,
      rv_requestMeasurements = None, rv_retryPlan = None, rv_windowResetAt = GoTime 0 0, rv_expiresAt = qr_expiresAt row\<rparr>"

definition expiredReservation :: "reservationRow \<Rightarrow> lockedLogical \<Rightarrow> lockedReservation" where
  "expiredReservation row logical =
     reservation.extend (selectedReservation row)
       (lockedReservation.fields ''pending'' (qr_expiresAt row) (ll_applicationUserID logical) (ll_installationID logical)
         (ll_featureKey logical))"

definition firstPricingOk :: "lockedEntry list \<Rightarrow> selectedPricing \<Rightarrow> lockedLogical \<Rightarrow> string \<Rightarrow> bool" where
  "firstPricingOk entries pricing logical idempotencyKey \<longleftrightarrow>
     list_ex (\<lambda>entry. le_metric entry = CostNanoUSDMetric) entries \<longrightarrow>
       pricingPresent pricing \<and> sp_revision pricing = ll_configRevisionID logical \<and>
       (case ll_fingerprint logical of
          None \<Rightarrow> False
        | Some fingerprint \<Rightarrow> reservationIdempotencyKey fingerprint pricing True = idempotencyKey)"

fun earlierSettled :: "lockedReservation \<Rightarrow> quotaDB \<Rightarrow> storedAttempt list \<Rightarrow> quota_error + unit" where
  "earlierSettled r db [] = Inr ()"
| "earlierSettled r db (attempt # attempts) =
     (if sa_status attempt \<noteq> ''failed'' \<and> sa_status attempt \<noteq> ''timed_out'' then Inl ErrInvalidState
      else andThen (loadAttemptQuotaEntriesForUpdate r (sa_id attempt) db) (\<lambda>quotaEntries.
        if \<not> attemptQuotaEntriesSettled quotaEntries then Inl ErrInvalidState else earlierSettled r db attempts))"

definition timedOutOutcome :: "cost \<Rightarrow> attemptOutcome" where
  "timedOutOutcome cost = \<lparr>oc_Status = ''timed_out'', oc_HTTPStatus = 0, oc_FailureCode = expiryFailureCode,
     oc_Usage = unknownUsageValue, oc_Cost = cost, oc_Diagnostics = None\<rparr>"

text \<open>The last attempt is settled as timed out if it is still started.\<close>

definition recoverLast ::
    "'g identifierSource \<Rightarrow> 'g \<Rightarrow> gotime \<Rightarrow> lockedReservation \<Rightarrow> lockedEntry list \<Rightarrow> storedAttempt \<Rightarrow> quotaDB \<Rightarrow>
     quota_error + (lockedEntry list \<times> string \<times> gotime option \<times> quotaDB)" where
  "recoverLast source g now r entries attempt db =
     andThen (loadAttemptQuotaEntriesForUpdate r (sa_id attempt) db) (\<lambda>quotaEntries.
     if sa_status attempt = ''started'' then
       andThen (attemptPricing attempt) (\<lambda>pricing.
       andThen (normalizeOutcomeForPricing (timedOutOutcome (noCost [])) pricing) (\<lambda>outcome.
       andThen (attemptTokenReservationUnits quotaEntries) (\<lambda>reservations.
       andThen (fst (newSettlementUsageIDsForTokenMetrics source (oc_Usage outcome) reservations (oc_Cost outcome) pricing g)) (\<lambda>ids.
       andThen (settleRetryAttemptLocked r attempt entries quotaEntries outcome ids pricing now db) (\<lambda>db.
       andThen (lockEntries r db) (\<lambda>entries.
       Inr (entries, ui_logical ids, Some now, db)))))))
     else if sa_status attempt \<noteq> ''failed'' \<and> sa_status attempt \<noteq> ''timed_out'' \<or> \<not> attemptQuotaEntriesSettled quotaEntries
     then Inl ErrInvalidState
     else Inr (entries, [], sa_completedAt attempt, db))"

definition settleExpired ::
    "'g identifierSource \<Rightarrow> 'g \<Rightarrow> gotime \<Rightarrow> gotime \<Rightarrow> string \<Rightarrow> lockedReservation \<Rightarrow> lockedLogical \<Rightarrow> storedAttempt list \<Rightarrow>
     lockedEntry list \<Rightarrow> leaseRow list \<Rightarrow> quotaDB \<Rightarrow> quota_error + quotaDB" where
  "settleExpired source g settledAt finishedAt idempotencyKey r logical attempts entries leases db =
     (if ll_status logical \<noteq> ''dispatched'' \<and> ll_status logical \<noteq> ''streaming'' then Inl ErrInvalidState
      else
        andThen (attemptPricing (hd attempts)) (\<lambda>firstPricing.
        if \<not> firstPricingOk entries firstPricing logical idempotencyKey then Inl ErrInvalidState
        else
          andThen (earlierSettled r db (butlast attempts)) (\<lambda>_.
          andThen (recoverLast source g settledAt r entries (last attempts) db) (\<lambda>(entries, logicalUsageID, completedAt, db).
          if \<not> retryAggregateMatchesEntries r entries db then Inl ErrInvalidState
          else
            andThen (if logicalUsageID = [] then fst (source ''usg'' g) else Inr logicalUsageID) (\<lambda>logicalUsageID.
            finalizeRetryReservationLocked r logical entries leases completedAt (timedOutOutcome (noCost [])) logicalUsageID
              finishedAt db)))))"

text \<open>One recovery: \<open>None\<close> when no reservation is due.\<close>

definition expireOne ::
    "'g identifierSource \<Rightarrow> 'g \<Rightarrow> gotime \<Rightarrow> gotime \<Rightarrow> gotime \<Rightarrow> pendingExpiryMode \<Rightarrow> quotaDB \<Rightarrow> quota_error + quotaDB option" where
  "expireOne source g now settledAt finishedAt mode db =
     (case expirySelection mode now db of
        None \<Rightarrow> Inr None
      | Some row \<Rightarrow>
          andThen (lockLogicalRequest (selectedReservation row) db) (\<lambda>logical.
          let r = expiredReservation row logical in
          andThen (loadAttemptsForUpdate (qr_logicalRequestID row) db) (\<lambda>attempts.
          andThen (lockEntries r db) (\<lambda>entries.
          andThen (lockConcurrencyLeases r entries db) (\<lambda>leases.
          andThen (retryPendingLifecycleMatches r (ll_status logical) entries attempts db) (\<lambda>matches.
          if \<not> pendingEntriesMatch (ll_status logical) r entries leases \<or> \<not> matches then Inl ErrInvalidState
          else
            andThen (if attempts \<noteq> [] then
                       settleExpired source g settledAt finishedAt (qr_idempotencyKey row) r logical attempts entries leases db
                     else if ll_status logical \<noteq> ''reserved'' then Inl ErrInvalidState
                     else releaseLocked r logical entries leases ''expired'' expiryFailureCode finishedAt db) (\<lambda>db.
            Inr (Some db))))))))"

text \<open>The environment of one recovery: the state of the identifier source and the three clocks.\<close>

type_synonym 'g recoveryEnv = "'g \<times> gotime \<times> gotime \<times> gotime"

fun expireLoop ::
    "'g identifierSource \<Rightarrow> pendingExpiryMode \<Rightarrow> 'g recoveryEnv list \<Rightarrow> int \<Rightarrow> quotaDB \<Rightarrow> (int \<times> quota_error option) \<times> quotaDB" where
  "expireLoop source mode [] processed db = ((processed, None), db)"
| "expireLoop source mode ((g, now, settledAt, finishedAt) # envs) processed db =
     (case expireOne source g now settledAt finishedAt mode db of
        Inl e \<Rightarrow> ((processed, Some e), db)
      | Inr None \<Rightarrow> ((processed, None), db)
      | Inr (Some db) \<Rightarrow> expireLoop source mode envs (processed + 1) db)"

text \<open>At most \<open>limit\<close> recoveries; the environments of the iterations are the elements of \<open>envs\<close>.\<close>

definition expirePendingBatch ::
    "'g identifierSource \<Rightarrow> pendingExpiryMode \<Rightarrow> (nat \<Rightarrow> 'g recoveryEnv) \<Rightarrow> int \<Rightarrow> quotaDB \<Rightarrow> (int \<times> quota_error option) \<times> quotaDB" where
  "expirePendingBatch source mode envs limit db =
     (if limit < 1 \<or> 500 < limit then ((0, Some ErrInvalidInput), db)
      else expireLoop source mode (map envs [0..<nat limit]) 0 db)"

end
