(* ===== verification/Quota_Closing.thy ===== *)
theory Quota_Closing
  imports Quota_Return Quota_Expiry
begin

text \<open>
  Settlement and recovery keep the ledger: what an outcome charges lies between nothing and the allocation, a
  settled allocation moves exactly its units, and a finished reservation has no outstanding unit and no open
  lease.
\<close>

section \<open>Charges\<close>

definition outcome_nonneg :: "attemptOutcome \<Rightarrow> bool" where
  "outcome_nonneg outcome \<longleftrightarrow>
     0 \<le> us_InputTokens (oc_Usage outcome) \<and> 0 \<le> us_OutputTokens (oc_Usage outcome) \<and>
     0 \<le> us_TotalTokens (oc_Usage outcome) \<and> 0 \<le> co_NanoUSD (oc_Cost outcome)"

lemma outcomeValidate_nonneg:
  assumes "outcomeValidate outcome = Inr ()"
  shows "outcome_nonneg outcome"
proof -
  have "usageValidate (oc_Usage outcome) = Inr ()" "costValidate (oc_Cost outcome) = Inr ()"
    using assms by (auto simp: outcomeValidate_def is_ok_iff split: if_splits)
  then show ?thesis by (auto simp: outcome_nonneg_def usageValidate_def costValidate_def split: if_splits)
qed

lemma normalizeOutcome_nonneg:
  "normalizeOutcomeForPricing outcome pricing = Inr result \<Longrightarrow> outcome_nonneg result"
  using outcomeValidate_nonneg [of outcome]
  by (auto simp: normalizeOutcome_Inr outcome_nonneg_def usageNormalized_def normalCost_def noCost_def)

lemma charged_bounds:
  assumes "retryAttemptChargedUnits q outcome = Inr charged" "outcome_nonneg outcome" "0 \<le> aq_allocated q"
  shows "0 \<le> charged \<and> charged \<le> aq_allocated q"
  using assms
  by (auto simp: retryAttemptChargedUnits_def Let_def outcome_nonneg_def tokenMetricUsageUnits_def split: if_splits)

section \<open>Settling allocations\<close>

lemma find_member: "find P xs = Some x \<Longrightarrow> x \<in> set xs \<and> P x"
  by (induction xs) (auto split: if_splits)

lemma sub64_twice: "sub64 (sub64 a b) c = wrap64 (a - b - c)"
  by (simp add: sub64_def wrap64_def mod_diff_left_eq algebra_simps)

lemma entryOutstanding_exact:
  assumes "entry_ok row" "le_reservedUnits entry = qe_reservedUnits row" "le_settledUnits entry = qe_settledUnits row"
    "le_releasedUnits entry = qe_releasedUnits row"
  shows "entryOutstanding entry = outstanding row"
  using assms by (simp add: entryOutstanding_def sub64_twice outstanding_def entry_ok_def)

lemma settleAllocation_cases:
  assumes "settleAllocation r attemptID now outcome entries q db = Inr db'"
  obtains entry charged buckets rows allocations where
    "find (\<lambda>entry. le_id entry = aq_entryID q) (rev entries) = Some entry"
    "retryAttemptChargedUnits q outcome = Inr charged" "aq_allocated q \<le> entryOutstanding entry"
    "settleBucket now entry charged (aq_allocated q) (db_buckets db) = Inr buckets"
    "updateOne (settleEntryGuard entry charged (sub64 (aq_allocated q) charged) (aq_allocated q))
       (entryMove charged (sub64 (aq_allocated q) charged)) (db_entries db) = Inr rows"
    "updateOne (settleAllocationGuard r attemptID q)
       (\<lambda>row. row\<lparr>aq_charged := Some charged, aq_released := Some (sub64 (aq_allocated q) charged), aq_settledAt := Some now\<rparr>)
       (db_attemptEntries db) = Inr allocations"
    "db' = db\<lparr>db_buckets := buckets, db_entries := rows, db_attemptEntries := allocations\<rparr>"
proof -
  obtain entry where f: "find (\<lambda>entry. le_id entry = aq_entryID q) (rev entries) = Some entry"
    using assms by (auto simp: settleAllocation_def split: option.splits)
  obtain charged where c: "retryAttemptChargedUnits q outcome = Inr charged"
    using assms by (auto simp: settleAllocation_def f go_result split: if_splits)
  show thesis
    using assms that [OF f c] by (auto simp: settleAllocation_def f c Let_def andThen_eq_Inr not_less split: if_splits)
qed

lemma settleBucket_moved:
  assumes "settleBucket now entry charged allocated (db_buckets db) = Inr buckets" "entry_fits db entry"
    "released = allocated - charged" "sub64 allocated charged = released"
  shows "if le_algorithm entry = TokenBucketAlgorithm
    then bucket_kept (le_bucketID entry) (db_buckets db) buckets
    else bucket_moved (le_bucketID entry) charged (charged + released) (db_buckets db) buckets"
proof (cases "le_algorithm entry = TokenBucketAlgorithm")
  case True
  then have token: "\<forall>row \<in> set (db_buckets db). bk_id row = le_bucketID entry \<longrightarrow> bk_algorithm row = TokenBucketAlgorithm"
    using assms(2) by (auto simp: entry_fits_def)
  show ?thesis
  proof (cases "0 < released")
    case pos: True
    obtain state where "persistTokenBucketEntry entry state now (db_buckets db) = Inr buckets"
      using assms(1) True pos by (auto simp: settleBucket_def assms(4) Let_def go_result)
    from persistTokenBucketEntry_kept [OF this token] show ?thesis using True by simp
  next
    case False
    then have "buckets = db_buckets db" using assms(1) True by (simp add: settleBucket_def assms(4) Let_def)
    then show ?thesis using True token by (simp add: bucket_kept_def)
  qed
next
  case False
  then have u: "updateOne (settleBucketGuard entry charged allocated) (bucketMove charged allocated) (db_buckets db) = Inr buckets"
    using assms(1) by (auto simp: settleBucket_def Let_def split: option.splits if_splits)
  have "bucket_moved (le_bucketID entry) charged allocated (db_buckets db) buckets"
    by (rule bucket_movedI [OF u]) (use assms(2) False in \<open>auto simp: settleBucketGuard_def entry_fits_def\<close>)
  then show ?thesis using False assms(3) by simp
qed

lemma settleAllocation_moved:
  assumes "settleAllocation r attemptID now outcome entries q db = Inr db'" "ledger_with extra db"
    "list_all (entry_fits db) entries" "outcome_nonneg outcome" "0 \<le> aq_allocated q"
  obtains entry charged where "find (\<lambda>entry. le_id entry = aq_entryID q) (rev entries) = Some entry"
    "retryAttemptChargedUnits q outcome = Inr charged" "moved entry charged (aq_allocated q - charged) db db'"
proof -
  obtain entry charged buckets rows allocations where 1:
    "find (\<lambda>entry. le_id entry = aq_entryID q) (rev entries) = Some entry"
    "retryAttemptChargedUnits q outcome = Inr charged" "aq_allocated q \<le> entryOutstanding entry"
    "settleBucket now entry charged (aq_allocated q) (db_buckets db) = Inr buckets"
    "updateOne (settleEntryGuard entry charged (sub64 (aq_allocated q) charged) (aq_allocated q))
       (entryMove charged (sub64 (aq_allocated q) charged)) (db_entries db) = Inr rows"
    "db' = db\<lparr>db_buckets := buckets, db_entries := rows, db_attemptEntries := allocations\<rparr>"
    by (rule settleAllocation_cases [OF assms(1)])
  have c: "0 \<le> charged" "charged \<le> aq_allocated q" using charged_bounds [OF 1(2) assms(4,5)] by auto
  have "in64 (entryOutstanding entry)" by (simp add: entryOutstanding_def sub64_def)
  then have small: "aq_allocated q \<le> max_int64" using 1(3) by (simp add: in64_def)
  then have rel: "sub64 (aq_allocated q) charged = aq_allocated q - charged" using c by (simp add: sub64_exact)
  have mem: "entry \<in> set entries" using 1(1) by (auto dest: find_member)
  have fits: "entry_fits db entry" using assms(3) mem by (simp add: list_all_iff)
  have "entry_moved (le_id entry) charged (aq_allocated q - charged) (db_entries db) rows"
  proof (rule entry_movedI [OF 1(5) [unfolded rel]])
    fix row assume row: "row \<in> set (db_entries db)" "settleEntryGuard entry charged (aq_allocated q - charged) (aq_allocated q) row"
    have "entry_ok row" using assms(2) row(1) by (simp add: ledger_with_def list_all_iff)
    then have "entryOutstanding entry = outstanding row"
      using row(2) by (intro entryOutstanding_exact) (simp_all add: settleEntryGuard_def)
    then show "qe_id row = le_id entry \<and> charged + (aq_allocated q - charged) \<le> outstanding row"
      using row(2) 1(3) by (simp add: settleEntryGuard_def)
  qed
  then have "moved entry charged (aq_allocated q - charged) db db'"
    using c fits settleBucket_moved [OF 1(4) fits refl rel] by (auto simp: moved_def 1(6) split: if_splits)
  then show ?thesis using that 1(1,2) by blast
qed

text \<open>Allocations belong to entries that are not leases.\<close>

definition allocation_fits :: "lockedEntry list \<Rightarrow> lockedAttemptQuotaEntry \<Rightarrow> bool" where
  "allocation_fits entries q \<longleftrightarrow>
     0 \<le> aq_allocated q \<and>
     (\<forall>entry. find (\<lambda>entry. le_id entry = aq_entryID q) (rev entries) = Some entry \<longrightarrow> \<not> isConcurrencyMetric (le_metric entry))"

lemma moved_ledger_plain:
  assumes "moved entry charged released db db'" "ledger_with extra db" "\<not> isConcurrencyMetric (le_metric entry)"
  shows "ledger_with extra db'"
proof (rule ledger_with_cong [OF _ moved_ledger [OF assms(1,2)]])
  fix row assume row: "row \<in> set (db_buckets db')" "isConcurrencyMetric (bk_metric row)"
  obtain row0 where "row0 \<in> set (db_buckets db)" "bucketKey row0 = bucketKey row"
    by (rule bucketKey_row [OF moved_keys(1) [OF assms(1), symmetric] row(1)])
  then have "bk_id row \<noteq> le_bucketID entry"
    using assms(1,3) row(2) by (auto simp: moved_def entry_fits_def bucketKey_def)
  then show "extra (bk_id row) - (if bk_id row = le_bucketID entry then charged + released else 0) = extra (bk_id row)" by simp
qed

lemma settleAllocations_ledger:
  assumes "settleAllocations r attemptID now outcome entries qs db = Inr db'" "ledger_with extra db"
    "list_all (entry_fits db) entries" "outcome_nonneg outcome" "list_all (allocation_fits entries) qs"
  shows "ledger_with extra db' \<and> map entryKey (db_entries db') = map entryKey (db_entries db) \<and>
    map bucketKey (db_buckets db') = map bucketKey (db_buckets db) \<and>
    db_leases db' = db_leases db \<and> db_reservations db' = db_reservations db"
  using assms
proof (induction qs arbitrary: db)
  case (Cons q qs)
  obtain mid where step: "settleAllocation r attemptID now outcome entries q db = Inr mid"
    and rest: "settleAllocations r attemptID now outcome entries qs mid = Inr db'"
    using Cons.prems(1) by (auto simp: go_result)
  have q: "allocation_fits entries q" using Cons.prems(5) by simp
  obtain entry charged where m: "find (\<lambda>entry. le_id entry = aq_entryID q) (rev entries) = Some entry"
    "moved entry charged (aq_allocated q - charged) db mid"
    by (rule settleAllocation_moved [OF step Cons.prems(2-4)]) (use q in \<open>simp_all add: allocation_fits_def\<close>)
  have led: "ledger_with extra mid"
    using moved_ledger_plain [OF m(2) Cons.prems(2)] q m(1) by (simp add: allocation_fits_def)
  have fits: "list_all (entry_fits mid) entries"
    using Cons.prems(3) entry_fits_keys [OF _ moved_keys [OF m(2)]] by (simp add: list_all_iff)
  have "db_leases mid = db_leases db" "db_reservations mid = db_reservations db" using m(2) by (simp_all add: moved_def)
  then show ?case
    using Cons.IH [OF rest led fits Cons.prems(4)] Cons.prems(5) moved_keys [OF m(2)] by simp
qed simp

lemma settleRetryAttemptLocked_ledger:
  assumes "settleRetryAttemptLocked r attempt entries qs outcome ids pricing now db = Inr db'" "ledger_with extra db"
    "list_all (entry_fits db) entries" "outcome_nonneg outcome" "list_all (allocation_fits entries) qs"
  shows "ledger_with extra db' \<and> map entryKey (db_entries db') = map entryKey (db_entries db) \<and>
    map bucketKey (db_buckets db') = map bucketKey (db_buckets db) \<and>
    db_leases db' = db_leases db \<and> db_reservations db' = db_reservations db"
proof -
  obtain mid usage diagnostics attempts where m: "settleAllocations r (sa_id attempt) now outcome entries qs db = Inr mid"
    "db' = mid\<lparr>db_usage := usage, db_diagnostics := diagnostics, db_attempts := attempts\<rparr>"
    using assms(1) by (auto simp: settleRetryAttemptLocked_def andThen_eq_Inr)
  note s = settleAllocations_ledger [OF m(1) assms(2-5)]
  then have "ledger_with extra db'" by (auto simp: m(2) ledger_with_def)
  then show ?thesis using s by (simp add: m(2))
qed

section \<open>Finishing a reservation\<close>

definition finalUnits :: "lockedEntry \<Rightarrow> int" where
  "finalUnits entry = (if allocatedPerAttempt (le_metric entry) then 0 else le_reservedUnits entry)"

lemma attempt_metrics:
  "isConcurrencyMetric metric \<Longrightarrow> \<not> allocatedPerAttempt metric"
  by (auto simp: isConcurrencyMetric_def allocatedPerAttempt_def attemptAllocationOrder_def)

lemma allocated_metrics [simp]:
  "allocatedPerAttempt UpstreamAttemptsMetric" "allocatedPerAttempt InputTokensMetric" "allocatedPerAttempt OutputTokensMetric"
  "allocatedPerAttempt TotalTokensMetric" "allocatedPerAttempt CostNanoUSDMetric" "\<not> allocatedPerAttempt LogicalRequestsMetric"
  by (simp_all add: allocatedPerAttempt_def attemptAllocationOrder_def)

lemma entry_metrics:
  assumes "validReservationEntryUnits metric algorithm units"
  shows "allocatedPerAttempt metric \<or> metric = LogicalRequestsMetric \<or> isConcurrencyMetric metric" "0 \<le> units"
    "isConcurrencyMetric metric \<Longrightarrow> units = 1"
proof -
  have "isStatefulRule metric algorithm" using assms by (simp add: validReservationEntryUnits_def split: if_splits)
  then show "allocatedPerAttempt metric \<or> metric = LogicalRequestsMetric \<or> isConcurrencyMetric metric"
    unfolding isStatefulRule_def by (elim disjE conjE) simp_all
qed (use validReservationEntryUnits_plan [OF assms] in simp_all)

lemma finalizeEntry_cases:
  assumes "finalizeEntry entry db = Inr db'"
    "validReservationEntryUnits (le_metric entry) (le_algorithm entry) (le_initialReservedUnits entry)"
  obtains (Settled) "allocatedPerAttempt (le_metric entry)" "db' = db"
    "add64 (le_settledUnits entry) (le_releasedUnits entry) = le_reservedUnits entry"
  | (Moved) charged released buckets rows where "\<not> allocatedPerAttempt (le_metric entry)" "0 \<le> charged" "0 \<le> released"
      "charged + released = le_reservedUnits entry" "finalBucket entry charged (db_buckets db) = Inr buckets"
      "updateOne (finalEntryGuard entry) (entryMove charged released) (db_entries db) = Inr rows"
      "db' = db\<lparr>db_buckets := buckets, db_entries := rows\<rparr>" "le_settledUnits entry = 0" "le_releasedUnits entry = 0"
proof (cases "allocatedPerAttempt (le_metric entry)")
  case True
  then show thesis using assms(1) Settled by (auto simp: finalizeEntry_def split: if_splits)
next
  case False
  define c where "c = (if isConcurrencyMetric (le_metric entry) then 0 else le_reservedUnits entry)"
  define r where "r = (if isConcurrencyMetric (le_metric entry) then le_reservedUnits entry else 0)"
  have known: "le_metric entry = LogicalRequestsMetric \<or> isConcurrencyMetric (le_metric entry)"
    using entry_metrics(1) [OF assms(2)] False by blast
  then have eq: "finalizeEntry entry db =
      (if le_settledUnits entry \<noteq> 0 \<or> le_releasedUnits entry \<noteq> 0 \<or> le_reservedUnits entry \<noteq> le_initialReservedUnits entry
       then Inl ErrInvalidState
       else andThen (finalBucket entry c (db_buckets db)) (\<lambda>buckets.
         andThen (updateOne (finalEntryGuard entry) (entryMove c r) (db_entries db)) (\<lambda>rows.
         Inr (db\<lparr>db_buckets := buckets, db_entries := rows\<rparr>))))"
    using False by (auto simp: finalizeEntry_def Let_def c_def r_def)
  then have same: "le_reservedUnits entry = le_initialReservedUnits entry" "le_settledUnits entry = 0" "le_releasedUnits entry = 0"
    using assms(1) by (simp_all split: if_splits)
  obtain buckets rows where "finalBucket entry c (db_buckets db) = Inr buckets"
    "updateOne (finalEntryGuard entry) (entryMove c r) (db_entries db) = Inr rows"
    "db' = db\<lparr>db_buckets := buckets, db_entries := rows\<rparr>"
    using assms(1) same by (auto simp: eq andThen_eq_Inr)
  then show thesis
    using Moved [of c r] False entry_metrics(2) [OF assms(2)] same by (simp add: c_def r_def)
qed

lemma finalizeEntry_moved:
  assumes "finalBucket entry charged (db_buckets db) = Inr buckets"
    "updateOne (finalEntryGuard entry) (entryMove charged released) (db_entries db) = Inr rows"
    "entry_fits db entry" "0 \<le> charged" "0 \<le> released" "charged + released = le_reservedUnits entry"
  shows "moved entry charged released db (db\<lparr>db_buckets := buckets, db_entries := rows\<rparr>)"
proof -
  have em: "entry_moved (le_id entry) charged released (db_entries db) rows"
    by (rule entry_movedI [OF assms(2)]) (use assms(6) in \<open>simp add: finalEntryGuard_def outstanding_def\<close>)
  show ?thesis
  proof (cases "le_algorithm entry = TokenBucketAlgorithm")
    case True
    then have "bucket_kept (le_bucketID entry) (db_buckets db) buckets"
      using assms(1,3) by (auto simp: finalBucket_def bucket_kept_def entry_fits_def)
    then show ?thesis using True em assms(3-5) by (simp add: moved_def)
  next
    case False
    then have u: "updateOne (finalBucketGuard entry charged) (bucketMove charged (le_reservedUnits entry)) (db_buckets db) = Inr buckets"
      using assms(1) by (auto simp: finalBucket_def split: option.splits if_splits)
    have "bucket_moved (le_bucketID entry) charged (le_reservedUnits entry) (db_buckets db) buckets"
      by (rule bucket_movedI [OF u]) (use assms(3) False in \<open>auto simp: finalBucketGuard_def entry_fits_def\<close>)
    then show ?thesis using False em assms(3-6) by (simp add: moved_def)
  qed
qed

text \<open>The locked values are those of the rows, and stay so until an entry is finalized.\<close>

definition entry_current :: "quotaDB \<Rightarrow> lockedEntry \<Rightarrow> bool" where
  "entry_current db entry \<longleftrightarrow>
     (\<forall>row \<in> set (db_entries db). qe_id row = le_id entry \<longrightarrow>
        le_reservedUnits entry = qe_reservedUnits row \<and> le_settledUnits entry = qe_settledUnits row \<and>
        le_releasedUnits entry = qe_releasedUnits row)"

lemma entry_current_settled:
  assumes "entry_current db entry" "ledger_with extra db"
    "add64 (le_settledUnits entry) (le_releasedUnits entry) = le_reservedUnits entry"
  shows "drained (le_id entry) db"
proof -
  have "outstanding row = 0" if row: "row \<in> set (db_entries db)" "qe_id row = le_id entry" for row
  proof -
    have ok: "entry_ok row" using assms(2) row(1) by (simp add: ledger_with_def list_all_iff)
    have eq: "add64 (qe_settledUnits row) (qe_releasedUnits row) = qe_reservedUnits row"
      using assms(1,3) row by (simp add: entry_current_def)
    have "in64 (qe_reservedUnits row)" by (simp flip: eq add: add64_def)
    then have "add64 (qe_settledUnits row) (qe_releasedUnits row) = qe_settledUnits row + qe_releasedUnits row"
      using ok by (intro add64_exact) (simp_all add: entry_ok_def outstanding_def in64_def)
    then show ?thesis using eq by (simp add: outstanding_def)
  qed
  then show ?thesis by (simp add: drained_def)
qed

lemma moved_current:
  assumes "moved entry charged released db db'" "entry_current db other" "le_id other \<noteq> le_id entry"
  shows "entry_current db' other"
proof -
  have em: "entry_moved (le_id entry) charged released (db_entries db) (db_entries db')" using assms(1) by (simp add: moved_def)
  show ?thesis unfolding entry_current_def
  proof (intro ballI impI)
    fix row' assume row': "row' \<in> set (db_entries db')" "qe_id row' = le_id other"
    from em row'(1) show "le_reservedUnits other = qe_reservedUnits row' \<and> le_settledUnits other = qe_settledUnits row' \<and>
        le_releasedUnits other = qe_releasedUnits row'"
    proof (cases rule: entry_moved_rows)
      case 1
      then show ?thesis using assms(2) row'(2) by (simp add: entry_current_def)
    next
      case (2 row)
      then show ?thesis using assms(3) row'(2) by (simp add: entryMove_def)
    qed
  qed
qed

lemma finalizeEntries_ledger:
  assumes "finalizeEntries entries db = Inr db'" "ledger_with extra db" "list_all (entry_fits db) entries"
    "list_all (entry_current db) entries" "distinct (map le_id entries)"
    "list_all locked_wf entries"
  shows "ledger_with (\<lambda>b. extra b - takenFrom finalUnits entries b) db' \<and>
    map entryKey (db_entries db') = map entryKey (db_entries db) \<and>
    map bucketKey (db_buckets db') = map bucketKey (db_buckets db) \<and>
    db_leases db' = db_leases db \<and> db_reservations db' = db_reservations db \<and>
    (\<forall>entryID. drained entryID db \<or> entryID \<in> set (map le_id entries) \<longrightarrow> drained entryID db')"
  using assms
proof (induction entries arbitrary: db extra)
  case (Cons entry entries)
  obtain mid where step: "finalizeEntry entry db = Inr mid" and rest: "finalizeEntries entries mid = Inr db'"
    using Cons.prems(1) by (auto simp: go_result)
  have valid: "validReservationEntryUnits (le_metric entry) (le_algorithm entry) (le_initialReservedUnits entry)"
    using Cons.prems(6) by (simp add: locked_wf_def)
  have "ledger_with (\<lambda>b. extra b - (if b = le_bucketID entry then finalUnits entry else 0)) mid \<and>
    map entryKey (db_entries mid) = map entryKey (db_entries db) \<and> map bucketKey (db_buckets mid) = map bucketKey (db_buckets db) \<and>
    db_leases mid = db_leases db \<and> db_reservations mid = db_reservations db \<and> drained (le_id entry) mid \<and>
    (\<forall>entryID. drained entryID db \<longrightarrow> drained entryID mid) \<and> list_all (entry_current mid) entries"
    using step valid
  proof (cases rule: finalizeEntry_cases)
    case Settled
    then have "drained (le_id entry) db" using entry_current_settled [OF _ Cons.prems(2)] Cons.prems(4) by simp
    moreover have "finalUnits entry = 0" using Settled(1) by (simp add: finalUnits_def)
    moreover from this have "(\<lambda>b. extra b - (if b = le_bucketID entry then finalUnits entry else 0)) = extra"
      by (simp add: fun_eq_iff)
    ultimately show ?thesis using Settled(2) Cons.prems(2,4) by simp
  next
    case (Moved charged released buckets rows)
    have m: "moved entry charged released db mid"
      using finalizeEntry_moved [OF Moved(5,6) _ Moved(2-4)] Cons.prems(3) Moved(7) by simp
    have "drained (le_id entry) mid"
    proof (rule moved_drains [OF m])
      show "distinct (map qe_id (db_entries db))" using Cons.prems(2) by (simp add: ledger_with_def)
      show "outstanding row = charged + released" if "row \<in> set (db_entries db)" "qe_id row = le_id entry" for row
        using Cons.prems(4) that Moved(4,8,9) by (auto simp: entry_current_def outstanding_def)
    qed
    moreover have "list_all (entry_current mid) entries"
      unfolding list_all_iff
    proof
      fix other assume other: "other \<in> set entries"
      have "le_id other \<in> le_id ` set entries" using other by blast
      then have "le_id other \<noteq> le_id entry" using Cons.prems(5) by auto
      then show "entry_current mid other" using moved_current [OF m] Cons.prems(4) other by (simp add: list_all_iff)
    qed
    moreover have "charged + released = finalUnits entry" using Moved(1,4) by (simp add: finalUnits_def)
    note moved_ledger [OF m Cons.prems(2), unfolded this]
    moreover have "db_leases mid = db_leases db" "db_reservations mid = db_reservations db" using m by (simp_all add: moved_def)
    ultimately show ?thesis using moved_keys [OF m] moved_drained [OF m] by simp
  qed
  note s = this
  have "list_all (entry_fits mid) entries"
    using Cons.prems(3) s entry_fits_keys [of db _ mid] by (simp add: list_all_iff)
  with s Cons.IH [OF rest, of "\<lambda>b. extra b - (if b = le_bucketID entry then finalUnits entry else 0)"] Cons.prems(5,6)
  have ih: "ledger_with (\<lambda>b. extra b - (if b = le_bucketID entry then finalUnits entry else 0) - takenFrom finalUnits entries b) db'"
    "map entryKey (db_entries db') = map entryKey (db_entries mid)" "map bucketKey (db_buckets db') = map bucketKey (db_buckets mid)"
    "db_leases db' = db_leases mid" "db_reservations db' = db_reservations mid"
    "\<forall>entryID. drained entryID mid \<or> entryID \<in> set (map le_id entries) \<longrightarrow> drained entryID db'"
    by simp_all
  have "ledger_with (\<lambda>b. extra b - takenFrom finalUnits (entry # entries) b) db'"
    by (rule ledger_with_cong [OF _ ih(1)]) simp
  then show ?case using s ih(2-6) by auto
qed simp

lemma finalizeRetryReservationLocked_ledger:
  assumes "finalizeRetryReservationLocked r logical entries leases completedAt outcome usageID now db = Inr db'"
    "lockEntries r db = Inr entries" "ledger_ok db"
    "reservation \<in> set (db_reservations db)" "qr_id reservation = rv_reservationID r"
    "reservationTenant reservation = (rv_organizationID r, rv_applicationID r, rv_environmentID r)"
    "pendingConcurrencyLeasesMatch r entries0 leases" "set (leaseBuckets entries0) = set (leaseBuckets entries)"
  shows "ledger_ok db'"
proof -
  obtain mid closed usage requests reservations where e: "finalizeEntries entries db = Inr mid"
    and l: "releaseLockedConcurrencyLeases r now leases (db_leases mid) = Inr closed"
    and q: "closeReservation (rv_reservationID r)
      (\<lambda>row. row\<lparr>qr_status := ''settled'', qr_settledAt := Some (max (qr_createdAt row) now)\<rparr>) (db_reservations mid) = Inr reservations"
    and db': "db' = mid\<lparr>db_leases := closed, db_usage := usage, db_logical := requests, db_reservations := reservations\<rparr>"
    using assms(1) by (auto simp: finalizeRetryReservationLocked_def andThen_eq_Inr split: if_splits)
  have led: "ledger_with (\<lambda>_. 0) db" using assms(3) by (simp add: ledger_with_zero)
  have fits: "list_all (entry_fits db) entries" using lockEntries_fits [OF assms(2) led] by (simp add: list_all_iff)
  have current: "list_all (entry_current db) entries"
    using lockEntries_current [OF assms(2) led] by (auto simp: list_all_iff entry_current_def)
  note wf = lockEntries_Inr(3) [OF assms(2)]
  note moved = finalizeEntries_ledger [OF e led fits current lockEntries_distinct [OF assms(2) led] wf]
  have "ledger_with (\<lambda>b. 0 - takenFrom finalUnits entries b) mid" using moved by simp
  then have "ledger_with (\<lambda>b. 0 - takenFrom finalUnits entries b) (mid\<lparr>db_leases := db_leases mid\<rparr>)" by simp
  note releasedLeases_ledger [OF l this]
  then have "ledger_with (\<lambda>_. 0) (mid\<lparr>db_leases := closed\<rparr>)"
  proof (rule ledger_with_cong [rotated])
    fix row assume row: "row \<in> set (db_buckets (mid\<lparr>db_leases := closed\<rparr>))" "isConcurrencyMetric (bk_metric row)"
    obtain row0 where row0: "row0 \<in> set (db_buckets db)" "bucketKey row0 = bucketKey row"
      using bucketKey_row [of "db_buckets db" "db_buckets mid" row] moved row(1) by auto
    have "finalUnits entry = 1" if "entry \<in> set entries" "isConcurrencyMetric (le_metric entry)" for entry
      using wf that entry_metrics(3) attempt_metrics by (auto simp: list_all_iff locked_wf_def finalUnits_def)
    then show "0 - takenFrom finalUnits entries (bk_id row) + leasesOn leases (bk_id row) = 0"
      using leases_balance [OF led assms(2,7,8) _ row0(1), of finalUnits] row0(2) row(2) by (simp add: bucketKey_def)
  qed
  then have closed: "ledger_with (\<lambda>_. 0) (mid\<lparr>db_leases := closed\<rparr>)" .
  have "outstanding entry = 0" if entry: "entry \<in> set (db_entries mid)" "qe_reservationID entry = rv_reservationID r" for entry
  proof -
    have "map entryKey (db_entries mid) = map entryKey (db_entries db)" using moved by simp
    then obtain row where row: "row \<in> set (db_entries db)" "entryKey row = entryKey entry"
      by (rule entryKey_row [OF _ entry(1)])
    then have "qe_id entry \<in> set (map le_id entries)"
      using lockEntries_all [OF assms(2) led assms(4-6) row(1)] entry(2) by (simp add: entryKey_def)
    then have "drained (qe_id entry) mid" using moved by blast
    then show ?thesis using entry(1) by (simp add: drained_def)
  qed
  then have "ledger_with (\<lambda>_. 0) (mid\<lparr>db_leases := closed, db_reservations := reservations\<rparr>)"
    using closeReservation_ledger [OF _ closed, of "rv_reservationID r" _ reservations] q by (simp add: reservationTenant_def)
  then show ?thesis by (simp add: db' ledger_with_zero ledger_ok_def)
qed

lemma scanAttemptEntries_fit:
  "scanLockedAttemptQuotaEntries previous rows = Inr qs \<Longrightarrow>
     list_all (\<lambda>q. 0 \<le> aq_allocated q \<and> allocatedPerAttempt (aq_metric q)) qs"
proof (induction previous rows arbitrary: qs rule: scanLockedAttemptQuotaEntries.induct)
  case (2 previous row rows)
  then show ?case
    by (auto simp: andThen_eq_Inr validAttemptQuotaEntry_def lockedAttemptQuotaEntry.defs split: if_splits)
qed simp

lemma quotaEntriesBelong_metric:
  "quotaEntriesBelong number entries expected qs \<Longrightarrow> q \<in> set qs \<Longrightarrow>
     find (\<lambda>entry. le_id entry = aq_entryID q) (rev entries) = Some entry \<Longrightarrow> aq_metric q = le_metric entry"
  by (induction number entries expected qs rule: quotaEntriesBelong.induct) (auto split: option.splits)

lemma allocations_fit:
  assumes "loadAttemptQuotaEntriesForUpdate r attemptID db = Inr qs" "attemptQuotaEntriesMatchReservation r' attempt qs entries"
  shows "list_all (allocation_fits entries) qs"
proof -
  have fit: "list_all (\<lambda>q. 0 \<le> aq_allocated q \<and> allocatedPerAttempt (aq_metric q)) qs"
    using assms(1) unfolding loadAttemptQuotaEntriesForUpdate_def by (rule scanAttemptEntries_fit)
  obtain expected where belong: "quotaEntriesBelong (sa_number attempt) entries expected qs"
    using assms(2) by (auto simp: attemptQuotaEntriesMatchReservation_def split: option.splits)
  then have "\<not> isConcurrencyMetric (le_metric entry)"
    if "q \<in> set qs" "find (\<lambda>entry. le_id entry = aq_entryID q) (rev entries) = Some entry" for q entry
    using quotaEntriesBelong_metric [OF belong that] that(1) fit attempt_metrics by (auto simp: list_all_iff)
  then show ?thesis using fit by (auto simp: list_all_iff allocation_fits_def)
qed

section \<open>Settlement keeps the ledger\<close>

text \<open>What the locks of a settlement say about the tables they were taken on.\<close>

definition locks_hold :: "lockedReservation \<Rightarrow> lockedEntry list \<Rightarrow> lockedAttemptQuotaEntry list \<Rightarrow> quotaDB \<Rightarrow> bool" where
  "locks_hold r entries qs db \<longleftrightarrow>
     lockEntries r db = Inr entries \<and> list_all (allocation_fits entries) qs \<and>
     (\<exists>row \<in> set (db_reservations db). qr_id row = rv_reservationID r \<and>
        reservationTenant row = (rv_organizationID r, rv_applicationID r, rv_environmentID r))"

lemma lockEntries_attemptEntries [simp]:
  "lockEntries r (db\<lparr>db_attemptEntries := rows\<rparr>) = lockEntries r db"
  by (simp add: lockEntries_def entryJoin_def)

lemma ensureAllocations_cases:
  assumes "ensureAllocations r attempt stored entries db = Inr (qs, db')"
  obtains rows where "db' = db\<lparr>db_attemptEntries := rows\<rparr>" "loadAttemptQuotaEntriesForUpdate r (sa_id stored) db' = Inr qs"
proof (cases "db' = db")
  case True
  then have "loadAttemptQuotaEntriesForUpdate r (sa_id stored) db' = Inr qs"
    using assms by (auto simp: ensureAllocations_def andThen_eq_Inr split: if_splits)
  then show thesis using that [of "db_attemptEntries db"] True by simp
next
  case False
  then show thesis
    using assms that
    by (auto simp: ensureAllocations_def insertAttemptQuotaEntries_def andThen_eq_Inr split: if_splits)
qed

lemma lockForSettlement_holds:
  assumes "lockForSettlement attempt outcome db = Inr (s, db')" "ledger_ok db"
  shows "locks_hold (sl_reservation s) (sl_entries s) (sl_allocations s) db'" "outcome_nonneg (sl_outcome s)" "ledger_ok db'"
proof -
  obtain r stored entries qs pricing normal where r: "lockReservation (am_reservation attempt) db = Inr r"
    and e: "lockEntries r db = Inr entries" and q: "ensureAllocations r attempt stored entries db = Inr (qs, db')"
    and m: "attemptQuotaEntriesMatchReservation r stored qs entries"
    and n: "normalizeOutcomeForPricing outcome pricing = Inr normal"
    and s: "sl_reservation s = r" "sl_entries s = entries" "sl_allocations s = qs" "sl_outcome s = normal"
    using assms(1) by (auto simp: lockForSettlement_def Let_def andThen_eq_Inr split: if_splits option.splits)
  obtain rows where db': "db' = db\<lparr>db_attemptEntries := rows\<rparr>" "loadAttemptQuotaEntriesForUpdate r (sa_id stored) db' = Inr qs"
    by (rule ensureAllocations_cases [OF q])
  obtain row where "row \<in> set (db_reservations db)" "qr_id row = rv_reservationID r"
    "reservationTenant row = (rv_organizationID r, rv_applicationID r, rv_environmentID r)"
    by (rule lockReservation_Inr [OF r])
  then show "locks_hold (sl_reservation s) (sl_entries s) (sl_allocations s) db'"
    using allocations_fit [OF db'(2) m] e by (auto simp: locks_hold_def s db'(1))
  show "outcome_nonneg (sl_outcome s)" using normalizeOutcome_nonneg [OF n] by (simp add: s)
  show "ledger_ok db'" using assms(2) by (simp add: db'(1) ledger_ok_def)
qed

lemma settled_locks:
  assumes "settleRetryAttemptLocked r attempt entries qs outcome ids pricing now db = Inr db'"
    "locks_hold r entries qs db" "outcome_nonneg outcome" "ledger_ok db" "lockEntries r db' = Inr entries'"
  shows "ledger_ok db'" "locks_hold r entries' [] db'" "set (leaseBuckets entries) = set (leaseBuckets entries')"
proof -
  have led: "ledger_with (\<lambda>_. 0) db" using assms(4) by (simp add: ledger_with_zero)
  have locked: "lockEntries r db = Inr entries" "list_all (allocation_fits entries) qs"
    using assms(2) by (simp_all add: locks_hold_def)
  have fits: "list_all (entry_fits db) entries" using lockEntries_fits [OF locked(1) led] by (simp add: list_all_iff)
  have moved: "ledger_with (\<lambda>_. 0) db'" "map entryKey (db_entries db') = map entryKey (db_entries db)"
    "map bucketKey (db_buckets db') = map bucketKey (db_buckets db)" "db_reservations db' = db_reservations db"
    using settleRetryAttemptLocked_ledger [OF assms(1) led fits assms(3) locked(2)] by simp_all
  show "ledger_ok db'" using moved(1) by (simp add: ledger_with_zero)
  show "locks_hold r entries' [] db'"
    using assms(2,5) moved(4) by (simp add: locks_hold_def)
  show "set (leaseBuckets entries) = set (leaseBuckets entries')"
    using leaseBuckets_subset [OF locked(1) assms(5) moved(2,3)]
      leaseBuckets_subset [OF assms(5) locked(1) moved(2,3) [symmetric]] by blast
qed

lemma finalized_locks:
  assumes "finalizeRetryReservationLocked r logical entries leases completedAt outcome usageID now db = Inr db'"
    "locks_hold r entries qs db" "ledger_ok db"
    "pendingConcurrencyLeasesMatch r entries0 leases" "set (leaseBuckets entries0) = set (leaseBuckets entries)"
  shows "ledger_ok db'"
proof -
  obtain row where row: "row \<in> set (db_reservations db)" "qr_id row = rv_reservationID r"
    "reservationTenant row = (rv_organizationID r, rv_applicationID r, rv_environmentID r)"
    using assms(2) by (auto simp: locks_hold_def)
  have "lockEntries r db = Inr entries" using assms(2) by (simp add: locks_hold_def)
  from finalizeRetryReservationLocked_ledger [OF assms(1) this assms(3) row assms(4,5)] show ?thesis .
qed

lemma settleAttempt_ledger:
  assumes "settleAttempt source g now s db = Inr (entries, logicalUsageID, completedAt, db')"
    "locks_hold (sl_reservation s) (sl_entries s) (sl_allocations s) db" "outcome_nonneg (sl_outcome s)" "ledger_ok db"
  shows "ledger_ok db' \<and> locks_hold (sl_reservation s) entries [] db'"
proof (cases "sa_status (sl_attempt s) = ''started''")
  case True
  then obtain ids at where m: "settleRetryAttemptLocked (sl_reservation s) (sl_attempt s) (sl_entries s) (sl_allocations s)
      (sl_outcome s) ids (sl_pricing s) at db = Inr db'" "lockEntries (sl_reservation s) db' = Inr entries"
    using assms(1) by (auto simp: settleAttempt_def settleStarted_def Let_def andThen_eq_Inr split: if_splits)
  from settled_locks [OF m(1) assms(2-4) m(2)] show ?thesis by blast
next
  case False
  then have "entries = sl_entries s" "db' = db"
    using assms(1) by (auto simp: settleAttempt_def Let_def andThen_eq_Inr split: if_splits)
  then show ?thesis using assms(2,4) by (auto simp: locks_hold_def)
qed

lemma finishReservation_ledger:
  assumes "finishReservation source g now attempt s entries logicalUsageID completedAt db = Inr db'"
    "locks_hold (sl_reservation s) entries [] db" "ledger_ok db"
  shows "ledger_ok db'"
proof (cases "db' = db")
  case False
  then obtain usageID where f: "lifecycleOpen (s\<lparr>sl_entries := entries\<rparr>)"
    "finalizeRetryReservationLocked (sl_reservation s) (sl_logical s) entries (sl_leases s) completedAt (sl_outcome s) usageID now db = Inr db'"
    using assms(1) by (auto simp: finishReservation_def Let_def andThen_eq_Inr split: if_splits)
  have "pendingConcurrencyLeasesMatch (sl_reservation s) entries (sl_leases s)"
    using f(1) by (simp add: lifecycleOpen_def pendingEntriesMatch_def)
  then show ?thesis by (rule finalized_locks [OF f(2) assms(2,3) _ refl])
qed (use assms(3) in simp)

lemma settleRetryLifecycle_ledger:
  assumes "settleRetryLifecycle source g settledAt finishedAt attempt outcome final db = Inr db'" "ledger_ok db"
  shows "ledger_ok db'"
proof -
  obtain s locked entries usageID completedAt settled where
      l: "lockForSettlement attempt outcome db = Inr (s, locked)"
    and a: "settleAttempt source g settledAt s locked = Inr (entries, usageID, completedAt, settled)"
    and f: "if \<not> final then db' = settled
      else finishReservation source g finishedAt attempt s entries usageID completedAt settled = Inr db'"
    using assms(1) by (auto simp: settleRetryLifecycle_def andThen_eq_Inr split: if_splits)
  note m = settleAttempt_ledger [OF a lockForSettlement_holds [OF l assms(2)]]
  show ?thesis using f m finishReservation_ledger by (auto split: if_splits)
qed

lemma SettleForRetry_ledger:
  "SettleForRetry source g settledAt attempt outcome db = Inr db' \<Longrightarrow> ledger_ok db \<Longrightarrow> ledger_ok db'"
  using settleRetryLifecycle_ledger by (auto simp: SettleForRetry_def split: if_splits)

section \<open>Recovery keeps the ledger\<close>

lemma pendingAttempts_match:
  assumes "pendingAttempts r entries db attempts sums = Inr (Some result)" "attempt \<in> set attempts"
    "loadAttemptQuotaEntriesForUpdate r (sa_id attempt) db = Inr qs"
  shows "attemptQuotaEntriesMatchReservation r attempt qs entries"
  using assms
  by (induction r entries db attempts sums rule: pendingAttempts.induct)
    (auto simp: andThen_eq_Inr split: if_splits option.splits)

lemma recoverLast_ledger:
  assumes "recoverLast source g now r entries attempt db = Inr (entries', usageID, completedAt, db')"
    "locks_hold r entries [] db" "ledger_ok db" "attempt \<in> set attempts"
    "pendingAttempts r entries db attempts [] = Inr (Some sums)"
  shows "ledger_ok db' \<and> locks_hold r entries' [] db' \<and> set (leaseBuckets entries) = set (leaseBuckets entries')"
proof (cases "sa_status attempt = ''started''")
  case True
  obtain qs pricing outcome ids where q: "loadAttemptQuotaEntriesForUpdate r (sa_id attempt) db = Inr qs"
    and n: "normalizeOutcomeForPricing (timedOutOutcome (noCost [])) pricing = Inr outcome"
    and s: "settleRetryAttemptLocked r attempt entries qs outcome ids pricing now db = Inr db'" "lockEntries r db' = Inr entries'"
    using assms(1) True by (auto simp: recoverLast_def andThen_eq_Inr split: if_splits)
  have "locks_hold r entries qs db"
    using assms(2) allocations_fit [OF q pendingAttempts_match [OF assms(5,4) q]] by (simp add: locks_hold_def)
  from settled_locks [OF s(1) this normalizeOutcome_nonneg [OF n] assms(3) s(2)] show ?thesis by blast
next
  case False
  then have "entries' = entries" "db' = db" using assms(1) by (auto simp: recoverLast_def andThen_eq_Inr split: if_splits)
  then show ?thesis using assms(2,3) by simp
qed

lemma settleExpired_ledger:
  assumes "settleExpired source g settledAt finishedAt key r logical attempts entries leases db = Inr db'"
    "locks_hold r entries [] db" "ledger_ok db" "attempts \<noteq> []" "pendingConcurrencyLeasesMatch r entries leases"
    "retryPendingLifecycleMatches r (ll_status logical) entries attempts db = Inr True"
  shows "ledger_ok db'"
proof -
  obtain entries' u completedAt mid usageID where l: "recoverLast source g settledAt r entries (last attempts) db = Inr (entries', u, completedAt, mid)"
    and f: "finalizeRetryReservationLocked r logical entries' leases completedAt (timedOutOutcome (noCost [])) usageID finishedAt mid = Inr db'"
    and status: "ll_status logical = ''dispatched'' \<or> ll_status logical = ''streaming''"
    using assms(1) by (auto simp: settleExpired_def andThen_eq_Inr split: if_splits)
  obtain sums where "pendingAttempts r entries db attempts [] = Inr (Some sums)"
    using assms(6) status by (auto simp: retryPendingLifecycleMatches_def andThen_eq_Inr split: if_splits option.splits)
  note m = recoverLast_ledger [OF l assms(2,3) last_in_set [OF assms(4)] this]
  show ?thesis using m finalized_locks [OF f _ _ assms(5)] by blast
qed

lemma expirySelection_Some:
  assumes "expirySelection mode now db = Some row"
  shows "row \<in> set (db_reservations db)" "expiryCandidate mode now db row"
proof -
  obtain rest where "sort_key (\<lambda>row. (qr_expiresAt row, qr_id row)) (filter (expiryCandidate mode now db) (db_reservations db)) = row # rest"
    using assms by (auto simp: expirySelection_def split: list.splits)
  then have "row \<in> set (filter (expiryCandidate mode now db) (db_reservations db))"
    by (metis list.set_intros(1) set_sort)
  then show "row \<in> set (db_reservations db)" "expiryCandidate mode now db row" by auto
qed

lemma expireOne_ledger:
  assumes "expireOne source g now settledAt finishedAt mode db = Inr (Some db')" "ledger_ok db"
  shows "ledger_ok db'"
proof -
  obtain row logical attempts entries leases where row: "expirySelection mode now db = Some row"
    and e: "lockEntries (expiredReservation row logical) db = Inr entries"
    and p: "pendingConcurrencyLeasesMatch (expiredReservation row logical) entries leases"
    and m: "retryPendingLifecycleMatches (expiredReservation row logical) (ll_status logical) entries attempts db = Inr True"
    and d: "if attempts \<noteq> [] then settleExpired source g settledAt finishedAt (qr_idempotencyKey row) (expiredReservation row logical)
        logical attempts entries leases db = Inr db'
      else releaseLocked (expiredReservation row logical) logical entries leases ''expired'' expiryFailureCode finishedAt db = Inr db'"
    using assms(1) by (auto simp: expireOne_def pendingEntriesMatch_def Let_def andThen_eq_Inr split: option.splits if_splits)
  have ids: "qr_id row = rv_reservationID (expiredReservation row logical)"
    "reservationTenant row = (rv_organizationID (expiredReservation row logical), rv_applicationID (expiredReservation row logical),
      rv_environmentID (expiredReservation row logical))"
    by (simp_all add: expiredReservation_def selectedReservation_def reservationTenant_def reservation.defs lockedReservation.defs)
  have mem: "row \<in> set (db_reservations db)" by (rule expirySelection_Some [OF row])
  show ?thesis
  proof (cases "attempts = []")
    case True
    then show ?thesis using d releaseLocked_ledger [OF _ e assms(2) mem ids] by simp
  next
    case False
    have "locks_hold (expiredReservation row logical) entries [] db"
      using e mem ids by (auto simp: locks_hold_def)
    then show ?thesis using d False settleExpired_ledger [OF _ _ assms(2) False p m] by simp
  qed
qed

lemma expireLoop_ledger:
  "ledger_ok db \<Longrightarrow> ledger_ok (snd (expireLoop source mode envs processed db))"
  by (induction source mode envs processed db rule: expireLoop.induct)
    (auto split: sum.splits option.splits dest: expireOne_ledger)

lemma expirePendingBatch_ledger:
  "ledger_ok db \<Longrightarrow> ledger_ok (snd (expirePendingBatch source mode envs limit db))"
  by (simp add: expirePendingBatch_def expireLoop_ledger)

end
