(* ===== verification/Spec2Isabelle.thy ===== *)
theory Spec2Isabelle
  imports Pricing Usd_Decimal Upstream_Request Quota_Closing
begin

text \<open>header\<close>

end
